(* ===== verification/Prelude.thy ===== *)
theory Prelude
  imports Main "HOL-Library.Word"
begin

text \<open>
  Prelude of the development: what every component shares.
  \<^item> the Rust integer types that matter here as words (\<open>u8\<close>, \<open>u16\<close>, \<open>u32\<close>, \<open>u64\<close>, and the
    256-bit \<open>u256\<close> of the code base's \<open>U256\<close>);
  \<^item> \<open>res\<close>, the outcome of a fallible Rust function: \<open>Ok\<close>, \<open>Err\<close>, or \<open>Panic\<close> for the
    points where the code would unwind (an \<open>expect\<close>, an \<open>assert\<close>, a slice or an integer out
    of range);  a function that cannot return an error but can panic returns an \<open>option\<close>
    whose \<open>None\<close> is the panic;
  \<^item> big-endian encodings of numbers, which all wire formats of the code base use, with their
    round trips;
  \<^item> the named collections \<open>res_simps\<close>, \<open>len_simps\<close> and \<open>wire_simps\<close> the components add to.
\<close>

named_theorems res_simps \<open>evaluation of outcomes\<close>
named_theorems len_simps \<open>lengths of encodings\<close>
named_theorems wire_simps \<open>encoding and decoding of fixed-size values\<close>

section \<open>Machine types\<close>

type_synonym u8 = "8 word"
type_synonym u16 = "16 word"
type_synonym u32 = "32 word"
type_synonym u64 = "64 word"
type_synonym u256 = "256 word"
type_synonym bytes = "8 word list"

section \<open>Outcomes\<close>

datatype ('a, 'e) res = Ok 'a | Err 'e | Panic

fun and_then :: "('a, 'e) res \<Rightarrow> ('a \<Rightarrow> ('b, 'e) res) \<Rightarrow> ('b, 'e) res" where
  "and_then (Ok x) f = f x"
| "and_then (Err e) f = Err e"
| "and_then Panic f = Panic"

fun map_ok :: "('a \<Rightarrow> 'b) \<Rightarrow> ('a, 'e) res \<Rightarrow> ('b, 'e) res" where
  "map_ok f (Ok x) = Ok (f x)"
| "map_ok f (Err e) = Err e"
| "map_ok f Panic = Panic"

fun map_err :: "('e \<Rightarrow> 'f) \<Rightarrow> ('a, 'e) res \<Rightarrow> ('a, 'f) res" where
  "map_err f (Ok x) = Ok x"
| "map_err f (Err e) = Err (f e)"
| "map_err f Panic = Panic"

definition ok_or :: "'e \<Rightarrow> 'a option \<Rightarrow> ('a, 'e) res" where
  "ok_or e x = (case x of None \<Rightarrow> Err e | Some v \<Rightarrow> Ok v)"

text \<open>\<open>unwrap\<close>, \<open>expect\<close>: an absent value is a panic.\<close>

definition expect :: "'a option \<Rightarrow> ('a, 'e) res" where
  "expect x = (case x of None \<Rightarrow> Panic | Some v \<Rightarrow> Ok v)"

fun is_ok :: "('a, 'e) res \<Rightarrow> bool" where
  "is_ok (Ok _) = True"
| "is_ok (Err _) = False"
| "is_ok Panic = False"

fun ok :: "('a, 'e) res \<Rightarrow> 'a option" where
  "ok (Ok x) = Some x"
| "ok (Err _) = None"
| "ok Panic = None"

text \<open>\<open>collect\<close> of an iterator of results: the first error stops the collection.\<close>

fun collect_ok :: "('a, 'e) res list \<Rightarrow> ('a list, 'e) res" where
  "collect_ok [] = Ok []"
| "collect_ok (r # rs) = and_then r (\<lambda>x. map_ok ((#) x) (collect_ok rs))"

lemma and_then_eq_Ok [simp]: "and_then r f = Ok y \<longleftrightarrow> (\<exists>x. r = Ok x \<and> f x = Ok y)"
  by (cases r) auto

lemma and_then_eq_Panic: "and_then r f = Panic \<longleftrightarrow> r = Panic \<or> (\<exists>x. r = Ok x \<and> f x = Panic)"
  by (cases r) auto

lemma and_then_eq_Err: "and_then r f = Err e \<longleftrightarrow> r = Err e \<or> (\<exists>x. r = Ok x \<and> f x = Err e)"
  by (cases r) auto

lemma map_ok_eq_Ok [simp]: "map_ok f r = Ok y \<longleftrightarrow> (\<exists>x. r = Ok x \<and> y = f x)"
  by (cases r) auto

lemma map_ok_eq_Err [simp]: "map_ok f r = Err e \<longleftrightarrow> r = Err e"
  by (cases r) auto

lemma map_ok_eq_Panic [simp]: "map_ok f r = Panic \<longleftrightarrow> r = Panic"
  by (cases r) auto

lemma map_err_eq_Ok [simp]: "map_err f r = Ok y \<longleftrightarrow> r = Ok y"
  by (cases r) auto

lemma map_err_eq_Err [simp]: "map_err f r = Err e \<longleftrightarrow> (\<exists>d. r = Err d \<and> e = f d)"
  by (cases r) auto

lemma map_err_eq_Panic [simp]: "map_err f r = Panic \<longleftrightarrow> r = Panic"
  by (cases r) auto

lemma ok_or_simps [simp]: "ok_or e None = Err e" "ok_or e (Some x) = Ok x"
  by (simp_all add: ok_or_def)

lemma ok_or_eq_Ok [simp]: "ok_or e x = Ok y \<longleftrightarrow> x = Some y"
  by (cases x) auto

lemma ok_or_not_Panic [simp]: "ok_or e x \<noteq> Panic"
  by (cases x) auto

lemma expect_simps [simp]: "expect None = Panic" "expect (Some x) = Ok x"
  by (simp_all add: expect_def)

lemma ok_eq_Some [simp]: "ok r = Some x \<longleftrightarrow> r = Ok x"
  by (cases r) auto

lemma is_ok_iff: "is_ok r \<longleftrightarrow> (\<exists>x. r = Ok x)"
  by (cases r) auto

lemma collect_ok_eq_Ok: "collect_ok rs = Ok xs \<longleftrightarrow> rs = map Ok xs"
  by (induction rs arbitrary: xs) (auto simp: Cons_eq_map_conv)

section \<open>Big-endian encodings\<close>

text \<open>The number a byte string denotes, most significant byte first.\<close>

definition from_be :: "bytes \<Rightarrow> nat" where
  "from_be bs = foldl (\<lambda>acc b. 256 * acc + unat b) 0 bs"

text \<open>The last \<open>n\<close> base-256 digits of a number, most significant first.\<close>

fun to_be :: "nat \<Rightarrow> nat \<Rightarrow> bytes" where
  "to_be 0 x = []"
| "to_be (Suc n) x = to_be n (x div 256) @ [of_nat x]"

lemma unat_of_nat_byte: "unat (of_nat x :: 8 word) = x mod 256"
  by (simp add: unat_of_nat)

lemma from_be_Nil [simp]: "from_be [] = 0"
  by (simp add: from_be_def)

lemma from_be_snoc [simp]: "from_be (bs @ [b]) = 256 * from_be bs + unat b"
  by (simp add: from_be_def)

lemma unat_byte_less: "unat (b :: 8 word) < 256"
  using unsigned_less [of b] by simp

lemma unat_less_2p: "unat (w :: 'a::len word) < 2 ^ LENGTH('a)"
  by (rule unsigned_less)

lemma unat_of_nat_less: "n < 2 ^ LENGTH('a) \<Longrightarrow> unat (of_nat n :: 'a::len word) = n"
  by (simp add: unat_of_nat)

lemma word_eq_of_nat_unat: "unat w = n \<Longrightarrow> w = of_nat n"
  by auto

lemma from_be_less: "from_be bs < 256 ^ length bs"
proof (induction bs rule: rev_induct)
  case Nil
  show ?case by simp
next
  case (snoc b bs)
  from snoc.IH have "from_be bs + 1 \<le> 256 ^ length bs" by simp
  then have "256 * (from_be bs + 1) \<le> 256 * 256 ^ length bs" by (rule mult_le_mono2)
  then show ?case using unat_byte_less [of b] by simp
qed

lemma length_to_be [simp, len_simps]: "length (to_be n x) = n"
  by (induction n arbitrary: x) auto

lemma from_be_to_be: "from_be (to_be n x) = x mod 256 ^ n"
proof (induction n arbitrary: x)
  case 0
  show ?case by simp
next
  case (Suc n)
  have "x mod (256 * 256 ^ n) = 256 * (x div 256 mod 256 ^ n) + x mod 256"
    by (rule mod_mult2_eq)
  then show ?case by (simp add: Suc.IH unat_of_nat_byte)
qed

lemma from_be_to_be_id [wire_simps]: "x < 256 ^ n \<Longrightarrow> from_be (to_be n x) = x"
  by (simp add: from_be_to_be)

lemma to_be_from_be [wire_simps]: "to_be (length bs) (from_be bs) = bs"
proof (induction bs rule: rev_induct)
  case Nil
  show ?case by simp
next
  case (snoc b bs)
  have "(256 * from_be bs + unat b) div 256 = from_be bs"
    using unat_byte_less [of b] by simp
  moreover have "(of_nat (256 * from_be bs + unat b) :: 8 word) = b"
    by (rule word_unat_eq_iff [THEN iffD2]) (use unat_byte_less [of b] in \<open>simp only: unat_of_nat_byte mod_mult_self4 mod_less\<close>)
  ultimately show ?case using snoc.IH by simp
qed

lemma to_be_from_be_len [wire_simps]: "length bs = n \<Longrightarrow> to_be n (from_be bs) = bs"
  using to_be_from_be by blast

lemma from_be_inj: "length xs = length ys \<Longrightarrow> from_be xs = from_be ys \<longleftrightarrow> xs = ys"
  by (metis to_be_from_be)

lemma from_be_append: "from_be (xs @ ys) = from_be xs * 256 ^ length ys + from_be ys"
proof (induction ys rule: rev_induct)
  case Nil
  show ?case by simp
next
  case (snoc y ys)
  have "from_be (xs @ ys @ [y]) = 256 * from_be (xs @ ys) + unat y"
    by (metis append_assoc from_be_snoc)
  then show ?case by (simp add: snoc.IH algebra_simps)
qed

lemma from_be_zeros [simp]: "from_be (replicate n 0) = 0"
  by (induction n) (simp_all add: replicate_append_same [symmetric])

lemma from_be_zeros_append [wire_simps]: "from_be (replicate n 0 @ bs) = from_be bs"
  by (simp add: from_be_append)

text \<open>A number that fits into \<open>k\<close> bytes is padded with zeros.\<close>

lemma to_be_pad: "x < 256 ^ k \<Longrightarrow> to_be (n + k) x = replicate n 0 @ to_be k x"
proof -
  assume x: "x < 256 ^ k"
  also have "\<dots> \<le> 256 ^ (n + k)" by (rule power_increasing) simp_all
  finally have "from_be (to_be (n + k) x) = from_be (replicate n 0 @ to_be k x)"
    using x by (simp only: from_be_to_be_id from_be_zeros_append)
  then show ?thesis by (subst (asm) from_be_inj) simp_all
qed

text \<open>The low \<open>k\<close> bytes of an \<open>n\<close>-byte encoding are the \<open>k\<close>-byte encoding.\<close>

lemma drop_to_be [wire_simps]: "k \<le> n \<Longrightarrow> drop (n - k) (to_be n x) = to_be k x"
proof (induction n arbitrary: k x)
  case 0
  then show ?case by simp
next
  case (Suc n)
  show ?case
  proof (cases k)
    case 0
    then show ?thesis by simp
  next
    case (Suc j)
    with Suc.prems have "j \<le> n" by simp
    with Suc.IH [of j "x div 256"] Suc show ?thesis by simp
  qed
qed

section \<open>Lists\<close>

lemma take_append_len [wire_simps]: "length xs = n \<Longrightarrow> take n (xs @ ys) = xs"
  by simp

lemma drop_append_len [wire_simps]: "length xs = n \<Longrightarrow> drop n (xs @ ys) = ys"
  by simp

text \<open>A slice \<open>value[i..i + n]\<close>; the callers check the bounds first.\<close>

definition slice_of :: "nat \<Rightarrow> nat \<Rightarrow> 'a list \<Rightarrow> 'a list" where
  "slice_of i n xs = take n (drop i xs)"

lemma length_slice [simp, len_simps]: "i + n \<le> length xs \<Longrightarrow> length (slice_of i n xs) = n"
  by (simp add: slice_of_def)

lemma slice_append_left [wire_simps]:
  "i + n \<le> length xs \<Longrightarrow> slice_of i n (xs @ ys) = slice_of i n xs"
  by (simp add: slice_of_def)

lemma slice_append_right [wire_simps]:
  "length xs \<le> i \<Longrightarrow> slice_of i n (xs @ ys) = slice_of (i - length xs) n ys"
  by (simp add: slice_of_def)

lemma slice_all [wire_simps]: "length xs = n \<Longrightarrow> slice_of 0 n xs = xs"
  by (simp add: slice_of_def)

lemma slice_split: "i + n \<le> length xs \<Longrightarrow> take i xs @ slice_of i n xs = take (i + n) xs"
  by (simp add: slice_of_def take_add)

section \<open>The high bit of a byte\<close>

unbundle bit_operations_syntax

text \<open>
  Two encodings keep a parity bit in the highest bit of a byte: \<open>byte & 0x80\<close> reads it,
  \<open>byte & 0x7f\<close> clears it and \<open>byte | 0x80\<close> sets it.
\<close>

lemma high_bit_iff: "(b :: 8 word) AND 0x80 = 0 \<longleftrightarrow> \<not> bit b 7"
proof -
  have "(0x80 :: 8 word) = 2 ^ 7" by simp
  then show ?thesis by (simp only: and_exp_eq_0_iff_not_bit)
qed

lemma bit_80: "bit (0x80 :: 8 word) n \<longleftrightarrow> n = 7"
proof -
  have "(0x80 :: 8 word) = 2 ^ 7" by simp
  then show ?thesis by (simp only: bit_exp_iff) auto
qed

lemma bit_7f: "bit (0x7f :: 8 word) n \<longleftrightarrow> n < 7"
proof -
  have "(0x7f :: 8 word) = mask 7" by (simp add: mask_eq_exp_minus_1)
  then show ?thesis by (simp only: bit_mask_iff) auto
qed

lemma not_80: "NOT (0x80 :: 8 word) = 0x7f"
  by simp

lemma high_bit_simps [simp]:
  "bit ((b :: 8 word) AND 0x7f) 7 \<longleftrightarrow> False"
  "bit ((b :: 8 word) OR 0x80) 7 \<longleftrightarrow> True"
  by (simp_all only: bit_and_iff bit_or_iff bit_80 bit_7f) simp_all

lemma high_bit_masks [simp]:
  "((b :: 8 word) AND 0x7f) AND 0x7f = b AND 0x7f"
  "((b :: 8 word) OR 0x80) AND 0x7f = b AND 0x7f"
  by (rule bit_word_eqI, simp only: bit_and_iff bit_or_iff bit_80 bit_7f, auto)+

lemma high_bit_clear: "\<not> bit b 7 \<Longrightarrow> (b :: 8 word) AND 0x7f = b"
  by (rule bit_word_eqI) (auto simp: bit_and_iff bit_7f less_Suc_eq numeral_eq_Suc)

lemma high_bit_restore: "bit b 7 \<Longrightarrow> ((b :: 8 word) AND 0x7f) OR 0x80 = b"
  by (rule bit_word_eqI) (auto simp: bit_and_iff bit_or_iff bit_80 bit_7f less_Suc_eq numeral_eq_Suc)

lemma high_bit_unat: "bit (b :: 8 word) 7 \<longleftrightarrow> 128 \<le> unat b"
proof -
  have "bit b 7 \<longleftrightarrow> bit (unat b) 7" by (simp add: bit_unsigned_iff)
  also have "\<dots> \<longleftrightarrow> odd (unat b div 2 ^ 7)" by (rule bit_iff_odd)
  finally have "bit b 7 \<longleftrightarrow> odd (unat b div 128)" by simp
  moreover have "unat b div 128 = (if 128 \<le> unat b then 1 else 0)"
    using unat_byte_less [of b] by (auto simp: div_nat_eqI)
  ultimately show ?thesis by simp
qed

end
