(* ===== verification/Errors.thy ===== *)
theory Errors
  imports Prelude
begin

text \<open>
  The error enumerations of the crate (\<open>primitive/errors.rs\<close>, \<open>crypto/errors.rs\<close>,
  \<open>internal/errors.rs\<close>, \<open>network/errors.rs\<close>) and the conversions between them that the
  question mark operator applies (\<open>#[from]\<close>).
\<close>

datatype general_error =
    ParseError string
  | InvalidInput
  | NonSpecificError string

text \<open>
  \<open>EllipticCurveError\<close> carries an error of the \<open>elliptic_curve\<close> package and
  \<open>InvalidMultiaddr\<close> one of the \<open>multiaddr\<close> package; both are opaque here and are kept as the
  message they print.
\<close>

datatype crypto_error =
    InvalidParameterSize string nat
  | InvalidInputValue string
  | InvalidSecretScalar
  | InvalidPublicKey
  | TagMismatch
  | EllipticCurveError string
  | CalculationError
  | SignatureVerification
  | SealingError
  | InvalidChallenge
  | InvalidVrfValues
  | CryptoOther general_error

datatype core_types_error =
    InvalidInputData string
  | CoreParseError string
  | ArithmeticError string
  | InvalidTicketRecipient
  | InvalidAcknowledgement
  | InvalidWinningProbability
  | LoopbackTicket
  | TicketNotWinning
  | InvalidMultiaddr string
  | CoreCrypto crypto_error
  | CoreGeneral general_error

datatype path_error =
    PathNotValid
  | InvalidPeer string
  | UnknownPeer string
  | MissingChannel string string
  | ChannelNotOpened string string
  | LoopsNotAllowed string
  | PathNotFound nat string string
  | PathOther general_error

datatype network_type_error =
    IoError string
  | SealedTarget
  | NetworkOther string

text \<open>The comparison results of \<open>std::cmp::Ordering\<close>.\<close>

datatype ordering = Less | Equal | Greater

definition cmp_of :: "'a::linorder \<Rightarrow> 'a \<Rightarrow> ordering" where
  "cmp_of a b = (if a < b then Less else if a = b then Equal else Greater)"

fun ord_reverse :: "ordering \<Rightarrow> ordering" where
  "ord_reverse Less = Greater"
| "ord_reverse Equal = Equal"
| "ord_reverse Greater = Less"

text \<open>\<open>then\<close>: the second comparison decides only a tie of the first.\<close>

fun ord_then :: "ordering \<Rightarrow> ordering \<Rightarrow> ordering" where
  "ord_then Equal o' = o'"
| "ord_then o1 o' = o1"

text \<open>Lexicographic comparison of two byte strings, as slices and arrays compare in Rust.\<close>

fun cmp_bytes :: "bytes \<Rightarrow> bytes \<Rightarrow> ordering" where
  "cmp_bytes [] [] = Equal"
| "cmp_bytes [] (y # ys) = Less"
| "cmp_bytes (x # xs) [] = Greater"
| "cmp_bytes (x # xs) (y # ys) = ord_then (cmp_of x y) (cmp_bytes xs ys)"

lemma cmp_of_simps [simp]:
  "cmp_of a b = Less \<longleftrightarrow> a < b" "cmp_of a b = Equal \<longleftrightarrow> a = b" "cmp_of a b = Greater \<longleftrightarrow> b < a"
  by (auto simp: cmp_of_def)

lemma cmp_of_refl [simp]: "cmp_of a a = Equal"
  by simp

lemma cmp_of_swap: "cmp_of b a = ord_reverse (cmp_of a b)"
  by (auto simp: cmp_of_def)

lemma ord_then_Equal [simp]: "ord_then a b = Equal \<longleftrightarrow> a = Equal \<and> b = Equal"
  by (cases a) auto

lemma ord_then_Less [simp]: "ord_then a b = Less \<longleftrightarrow> a = Less \<or> a = Equal \<and> b = Less"
  by (cases a) auto

lemma ord_then_reverse: "ord_reverse (ord_then a b) = ord_then (ord_reverse a) (ord_reverse b)"
  by (cases a) auto

lemma cmp_bytes_Equal [simp]: "cmp_bytes xs ys = Equal \<longleftrightarrow> xs = ys"
  by (induction xs ys rule: cmp_bytes.induct) auto

lemma cmp_bytes_swap: "cmp_bytes ys xs = ord_reverse (cmp_bytes xs ys)"
  by (induction xs ys rule: cmp_bytes.induct)
    (auto simp: ord_then_reverse simp flip: cmp_of_swap)

lemma cmp_bytes_trans:
  "cmp_bytes xs ys = Less \<Longrightarrow> cmp_bytes ys zs = Less \<Longrightarrow> cmp_bytes xs zs = Less"
proof (induction xs ys arbitrary: zs rule: cmp_bytes.induct)
  case 1
  then show ?case by simp
next
  case (2 y ys)
  then show ?case by (cases zs) auto
next
  case (3 x xs)
  then show ?case by simp
next
  case (4 x xs y ys)
  then show ?case by (cases zs) auto
qed

text \<open>On strings of one length the lexicographic order is the order of the numbers denoted.\<close>

lemma from_be_Cons: "from_be (x # xs) = unat x * 256 ^ length xs + from_be xs"
  using from_be_append [of "[x]" xs] by (simp add: from_be_def)

lemma from_be_Cons_less:
  assumes "a < b" "length xs = length ys"
  shows "from_be (a # xs) < from_be (b # ys)"
proof -
  from assms(1) have "unat a + 1 \<le> unat b" by (simp add: word_less_nat_alt)
  then have "(unat a + 1) * 256 ^ length ys \<le> unat b * 256 ^ length ys" by (rule mult_le_mono1)
  moreover have "from_be xs < 256 ^ length ys" using from_be_less [of xs] assms(2) by simp
  ultimately show ?thesis by (simp add: from_be_Cons assms(2))
qed

lemma cmp_bytes_from_be:
  "length xs = length ys \<Longrightarrow> cmp_bytes xs ys = cmp_of (from_be xs) (from_be ys)"
proof (induction xs ys rule: cmp_bytes.induct)
  case (4 x xs y ys)
  then have len: "length xs = length ys" by simp
  show ?case
  proof (cases x y rule: linorder_cases)
    case less
    then have "from_be (x # xs) < from_be (y # ys)" using len by (rule from_be_Cons_less)
    with less show ?thesis by (simp add: cmp_of_def)
  next
    case equal
    with "4.IH" [OF len] len show ?thesis by (simp add: from_be_Cons cmp_of_def)
  next
    case greater
    then have "from_be (y # ys) < from_be (x # xs)" using len by (simp add: from_be_Cons_less)
    with greater show ?thesis by (auto simp: cmp_of_def)
  qed
qed simp_all

end
