(* ===== verification/Bounded.thy ===== *)
theory Bounded
  imports Errors
begin

text \<open>
  \<open>primitive/bounded.rs\<close>: integers with an upper bound and vectors with a bounded length. The
  const generics are arguments. \<open>usize\<close> and \<open>isize\<close> are 64 bits wide, as on every target the
  crate is built for.
\<close>

section \<open>BoundedSize\<close>

datatype bounded_size = BoundedSize (bounded_value: u64)

definition bounded_MAX :: "u64 \<Rightarrow> bounded_size" where
  "bounded_MAX b = BoundedSize b"

definition bounded_MIN :: bounded_size where
  "bounded_MIN = BoundedSize 0"

definition bounded_try_from_usize :: "u64 \<Rightarrow> u64 \<Rightarrow> (bounded_size, general_error) res" where
  "bounded_try_from_usize b v = (if v \<le> b then Ok (BoundedSize v) else Err InvalidInput)"

definition bounded_try_from_u8 :: "u64 \<Rightarrow> u8 \<Rightarrow> (bounded_size, general_error) res" where
  "bounded_try_from_u8 b v = bounded_try_from_usize b (ucast v)"

definition bounded_try_from_u16 :: "u64 \<Rightarrow> u16 \<Rightarrow> (bounded_size, general_error) res" where
  "bounded_try_from_u16 b v = bounded_try_from_usize b (ucast v)"

text \<open>\<open>usize::try_from\<close> of an unsigned integer of at most 64 bits cannot fail on these targets.\<close>

definition usize_try_from :: "'a::len word \<Rightarrow> (u64, general_error) res" where
  "usize_try_from v = (if unat v < 2 ^ 64 then Ok (ucast v) else Err InvalidInput)"

definition bounded_try_from_u32 :: "u64 \<Rightarrow> u32 \<Rightarrow> (bounded_size, general_error) res" where
  "bounded_try_from_u32 b v =
     and_then (map_err (\<lambda>_. InvalidInput) (usize_try_from v)) (bounded_try_from_usize b)"

definition bounded_try_from_u64 :: "u64 \<Rightarrow> u64 \<Rightarrow> (bounded_size, general_error) res" where
  "bounded_try_from_u64 b v =
     and_then (map_err (\<lambda>_. InvalidInput) (usize_try_from v)) (bounded_try_from_usize b)"

text \<open>A signed word is read in two's complement; \<open>value as usize\<close> keeps its bits.\<close>

definition bounded_try_from_isize :: "u64 \<Rightarrow> 64 word \<Rightarrow> (bounded_size, general_error) res" where
  "bounded_try_from_isize b v =
     (if 0 \<le> sint v then bounded_try_from_usize b v else Err InvalidInput)"

definition isize_try_from :: "'a::len word \<Rightarrow> (64 word, general_error) res" where
  "isize_try_from v =
     (if - (2 ^ 63) \<le> sint v \<and> sint v < 2 ^ 63 then Ok (scast v) else Err InvalidInput)"

definition bounded_try_from_i8 :: "u64 \<Rightarrow> 8 word \<Rightarrow> (bounded_size, general_error) res" where
  "bounded_try_from_i8 b v = bounded_try_from_isize b (scast v)"

definition bounded_try_from_i16 :: "u64 \<Rightarrow> 16 word \<Rightarrow> (bounded_size, general_error) res" where
  "bounded_try_from_i16 b v = bounded_try_from_isize b (scast v)"

definition bounded_try_from_i32 :: "u64 \<Rightarrow> 32 word \<Rightarrow> (bounded_size, general_error) res" where
  "bounded_try_from_i32 b v =
     and_then (map_err (\<lambda>_. InvalidInput) (isize_try_from v)) (bounded_try_from_isize b)"

definition bounded_try_from_i64 :: "u64 \<Rightarrow> 64 word \<Rightarrow> (bounded_size, general_error) res" where
  "bounded_try_from_i64 b v =
     and_then (map_err (\<lambda>_. InvalidInput) (isize_try_from v)) (bounded_try_from_isize b)"

text \<open>The conversions out of the type are \<open>as\<close> casts: they keep the low bits.\<close>

definition bounded_into_u8 :: "bounded_size \<Rightarrow> u8" where
  "bounded_into_u8 v = ucast (bounded_value v)"

definition bounded_into_u16 :: "bounded_size \<Rightarrow> u16" where
  "bounded_into_u16 v = ucast (bounded_value v)"

definition bounded_into_u32 :: "bounded_size \<Rightarrow> u32" where
  "bounded_into_u32 v = ucast (bounded_value v)"

definition bounded_into_u64 :: "bounded_size \<Rightarrow> u64" where
  "bounded_into_u64 v = bounded_value v"

definition bounded_into_usize :: "bounded_size \<Rightarrow> u64" where
  "bounded_into_usize v = bounded_value v"

definition wf_bounded :: "u64 \<Rightarrow> bounded_size \<Rightarrow> bool" where
  "wf_bounded b v \<longleftrightarrow> bounded_value v \<le> b"

lemma bounded_try_from_usize_Ok [simp]:
  "bounded_try_from_usize b v = Ok x \<longleftrightarrow> v \<le> b \<and> x = BoundedSize v"
  by (auto simp: bounded_try_from_usize_def)

lemma usize_try_from_u64 [simp]: "usize_try_from (v :: u64) = Ok v"
  using unsigned_less [of v] by (simp add: usize_try_from_def)

lemma usize_try_from_u32 [simp]: "usize_try_from (v :: u32) = Ok (ucast v)"
proof -
  have "unat v < 2 ^ 32" using unat_less_2p [of v] by simp
  then show ?thesis by (simp add: usize_try_from_def)
qed

lemma sint_range: "- (2 ^ (LENGTH('a) - 1)) \<le> sint (v :: 'a::len word)" "sint v < 2 ^ (LENGTH('a) - 1)"
  using sint_ge [of v] sint_lt [of v] by simp_all

lemma isize_try_from_i64 [simp]: "isize_try_from (v :: 64 word) = Ok v"
  using sint_range [of v] by (simp add: isize_try_from_def)

lemma isize_try_from_i32 [simp]: "isize_try_from (v :: 32 word) = Ok (scast v)"
  using sint_range [of v] by (simp add: isize_try_from_def)

lemma uint_of_nonneg: "0 \<le> sint (v :: 'a::len word) \<Longrightarrow> uint v = sint v"
proof -
  assume nonneg: "0 \<le> sint v"
  have "sint v < 2 ^ LENGTH('a)"
    by (rule less_le_trans [OF sint_range(2)]) simp
  with nonneg show ?thesis by (simp add: uint_sint take_bit_int_eq_self)
qed

lemma bounded_try_from_isize_iff:
  "bounded_try_from_isize b v = Ok x \<longleftrightarrow> 0 \<le> sint v \<and> sint v \<le> uint b \<and> x = BoundedSize v"
  by (auto simp: bounded_try_from_isize_def word_le_def uint_of_nonneg)

section \<open>BoundedVec\<close>

datatype 'a bounded_vec = BoundedVec (bvec_elems: "'a list")

definition bvec_default :: "'a bounded_vec" where
  "bvec_default = BoundedVec []"

definition bvec_try_from :: "nat \<Rightarrow> 'a list \<Rightarrow> ('a bounded_vec, general_error) res" where
  "bvec_try_from n xs = (if length xs \<le> n then Ok (BoundedVec xs) else Err InvalidInput)"

definition bvec_into_iter :: "'a bounded_vec \<Rightarrow> 'a list" where
  "bvec_into_iter v = bvec_elems v"

text \<open>Collecting an iterator keeps its first \<open>n\<close> elements.\<close>

definition bvec_from_iter :: "nat \<Rightarrow> 'a list \<Rightarrow> 'a bounded_vec" where
  "bvec_from_iter n xs = BoundedVec (take n xs)"

definition bvec_from_array :: "'a list \<Rightarrow> 'a bounded_vec" where
  "bvec_from_array xs = BoundedVec xs"

definition bvec_into_vec :: "'a bounded_vec \<Rightarrow> 'a list" where
  "bvec_into_vec v = bvec_elems v"

definition bvec_as_ref :: "'a bounded_vec \<Rightarrow> 'a list" where
  "bvec_as_ref v = bvec_elems v"

text \<open>
  The conversion into an array writes element after element over the defaults; a write past
  the end of the array would panic.
\<close>

fun bvec_fill :: "nat \<Rightarrow> 'a list \<Rightarrow> 'a list \<Rightarrow> 'a list option" where
  "bvec_fill i [] out = Some out"
| "bvec_fill i (e # es) out =
     (if i < length out then bvec_fill (Suc i) es (out[i := e]) else None)"

definition bvec_into_array :: "nat \<Rightarrow> 'a \<Rightarrow> 'a bounded_vec \<Rightarrow> 'a list option" where
  "bvec_into_array n dflt v = bvec_fill 0 (bvec_elems v) (replicate n dflt)"

definition wf_bvec :: "nat \<Rightarrow> 'a bounded_vec \<Rightarrow> bool" where
  "wf_bvec n v \<longleftrightarrow> length (bvec_elems v) \<le> n"

lemma wf_bvec_intros [simp, intro]:
  "wf_bvec n bvec_default" "wf_bvec n (bvec_from_iter n xs)"
  "length xs = n \<Longrightarrow> wf_bvec n (bvec_from_array xs)"
  by (simp_all add: wf_bvec_def bvec_default_def bvec_from_iter_def bvec_from_array_def)

lemma bvec_try_from_Ok [simp]:
  "bvec_try_from n xs = Ok v \<longleftrightarrow> length xs \<le> n \<and> v = BoundedVec xs"
  by (auto simp: bvec_try_from_def)

lemma bvec_from_iter_elems [simp]: "wf_bvec n v \<Longrightarrow> bvec_from_iter n (bvec_elems v) = v"
  by (simp add: wf_bvec_def bvec_from_iter_def)

lemma bvec_fill_eq:
  "i + length es \<le> length out \<Longrightarrow> bvec_fill i es out = Some (take i out @ es @ drop (i + length es) out)"
proof (induction i es out rule: bvec_fill.induct)
  case (1 i out)
  then show ?case by simp
next
  case (2 i e es out)
  then have i: "i < length out" by simp
  then have "take (Suc i) (out[i := e]) = take i out @ [e]"
    by (simp add: take_Suc_conv_app_nth)
  moreover have "drop (Suc (i + length es)) (out[i := e]) = drop (Suc (i + length es)) out"
    by simp
  ultimately show ?case using "2.IH" [OF i] "2.prems" i by simp
qed

lemma bvec_into_array_eq:
  "wf_bvec n v \<Longrightarrow>
    bvec_into_array n d v = Some (bvec_elems v @ replicate (n - length (bvec_elems v)) d)"
  by (simp add: wf_bvec_def bvec_into_array_def bvec_fill_eq)

lemma bounded_try_from_signed:
  assumes "LENGTH('a) \<le> 64"
  shows "bounded_try_from_isize b (scast (v :: 'a::len word)) = Ok x \<longleftrightarrow>
      0 \<le> sint v \<and> sint v \<le> uint b \<and> uint (bounded_into_u64 x) = sint v"
proof -
  have s: "sint (scast v :: 64 word) = sint v"
    using assms by (simp add: sint_up_scast is_up)
  have "x = BoundedSize (scast v) \<longleftrightarrow> uint (bounded_into_u64 x) = sint v" if "0 \<le> sint v"
    using that s uint_of_nonneg [of "scast v :: 64 word"]
    by (cases x) (simp add: bounded_into_u64_def word_uint_eq_iff)
  then show ?thesis by (auto simp: bounded_try_from_isize_iff s)
qed

text \<open>
  A value passes \<open>try_from\<close> of any of the signed integer types exactly when it is a
  non-negative number within the bound, and what comes out is that number.
\<close>

theorem bounded_try_from_ints:
  "(bounded_try_from_i8 b v8 = Ok x \<longleftrightarrow>
     0 \<le> sint v8 \<and> sint v8 \<le> uint b \<and> uint (bounded_into_u64 x) = sint v8) \<and>
   (bounded_try_from_i16 b v16 = Ok x \<longleftrightarrow>
     0 \<le> sint v16 \<and> sint v16 \<le> uint b \<and> uint (bounded_into_u64 x) = sint v16) \<and>
   (bounded_try_from_i32 b v32 = Ok x \<longleftrightarrow>
     0 \<le> sint v32 \<and> sint v32 \<le> uint b \<and> uint (bounded_into_u64 x) = sint v32) \<and>
   (bounded_try_from_i64 b v64 = Ok x \<longleftrightarrow>
     0 \<le> sint v64 \<and> sint v64 \<le> uint b \<and> uint (bounded_into_u64 x) = sint v64)"
  using bounded_try_from_signed [of b v64 x]
  by (simp add: bounded_try_from_i8_def bounded_try_from_i16_def bounded_try_from_i32_def
      bounded_try_from_i64_def bounded_try_from_signed)

end
