(* ===== verification/Bytes.thy ===== *)
theory Bytes
  imports Errors
begin

text \<open>
  The traits of \<open>primitive/traits.rs\<close>: values that are a fixed-size byte array
  (\<open>BytesRepresentable\<close>) or encode to one (\<open>BytesEncodable\<close>), their hexadecimal form
  (\<open>ToHex\<close>), the saturating time difference and the default methods of \<open>KeyIdMapping\<close>.
  The traits are the locales \<open>bytes_representable\<close> and \<open>bytes_encodable\<close>; every type of the
  crate that implements one of them interprets the locale in the theory that defines it.
  The \<open>const_hex\<close> package is the parameter \<open>hexlib\<close>; \<open>hex_ok\<close> states what its documentation
  promises, and \<open>hex_std\<close> is one codec that keeps those promises.
\<close>

section \<open>Slices and arrays\<close>

text \<open>\<open><[u8; N]>::try_from(slice)\<close> of the standard library: only the length matters.\<close>

definition try_into_array :: "nat \<Rightarrow> 'e \<Rightarrow> bytes \<Rightarrow> (bytes, 'e) res" where
  "try_into_array n e bs = (if length bs = n then Ok bs else Err e)"

lemma try_into_array_Ok [simp]: "try_into_array n e bs = Ok x \<longleftrightarrow> length bs = n \<and> x = bs"
  by (auto simp: try_into_array_def)

lemma try_into_array_Err [simp]: "try_into_array n e bs = Err d \<longleftrightarrow> length bs \<noteq> n \<and> d = e"
  by (auto simp: try_into_array_def)

lemma try_into_array_not_Panic [simp]: "try_into_array n e bs \<noteq> Panic"
  by (simp add: try_into_array_def)

section \<open>Hexadecimal form\<close>

record hexlib =
  hex_encode :: "bytes \<Rightarrow> string"
  hex_decode :: "string \<Rightarrow> (bytes, string) res"
  hex_decode_to_slice :: "string \<Rightarrow> nat \<Rightarrow> (bytes, string) res"

definition hex_ok :: "hexlib \<Rightarrow> bool" where
  "hex_ok h \<longleftrightarrow>
     (\<forall>bs. length (hex_encode h bs) = 2 * length bs
         \<and> set (hex_encode h bs) \<subseteq> set ''0123456789abcdef''
         \<and> hex_decode h (hex_encode h bs) = Ok bs
         \<and> hex_decode_to_slice h (hex_encode h bs) (length bs) = Ok bs)
   \<and> (\<forall>s n bs. hex_decode_to_slice h s n = Ok bs \<longrightarrow> length bs = n)
   \<and> (\<forall>s bs. hex_decode h s = Ok bs \<longrightarrow> length s \<in> {2 * length bs, 2 * length bs + 2})"

lemma hex_okD:
  assumes "hex_ok h"
  shows "length (hex_encode h bs) = 2 * length bs"
    and "set (hex_encode h bs) \<subseteq> set ''0123456789abcdef''"
    and "hex_decode h (hex_encode h bs) = Ok bs"
    and "hex_decode_to_slice h (hex_encode h bs) (length bs) = Ok bs"
    and "hex_decode_to_slice h s n = Ok cs \<Longrightarrow> length cs = n"
    and "hex_decode h s = Ok cs \<Longrightarrow> length s = 2 * length cs \<or> length s = 2 * length cs + 2"
  using assms unfolding hex_ok_def by blast+

definition HEX_DECODE_STACK_BUF_SIZE :: nat where
  "HEX_DECODE_STACK_BUF_SIZE = 128"

definition to_hex :: "hexlib \<Rightarrow> ('a \<Rightarrow> bytes) \<Rightarrow> 'a \<Rightarrow> string" where
  "to_hex h as_ref x = ''0x'' @ hex_encode h (as_ref x)"

text \<open>\<open>strip_prefix("0x").or_else(strip_prefix("0X")).unwrap_or(str)\<close>.\<close>

definition strip_hex_prefix :: "string \<Rightarrow> string" where
  "strip_hex_prefix s =
     (if take 2 s = ''0x'' \<or> take 2 s = ''0X'' then drop 2 s else s)"

definition from_hex :: "hexlib \<Rightarrow> (bytes \<Rightarrow> ('a, general_error) res) \<Rightarrow> string \<Rightarrow> ('a, general_error) res" where
  "from_hex h try_from s =
     (if s \<noteq> [] \<and> length s mod 2 = 0 then
        let data = strip_hex_prefix s;
            half_len = length data div 2
        in if half_len \<le> HEX_DECODE_STACK_BUF_SIZE
           then and_then (map_err ParseError (hex_decode_to_slice h data half_len)) try_from
           else and_then (map_err ParseError (hex_decode h data)) try_from
      else Err (ParseError ''invalid hex length''))"

lemma strip_hex_prefix_prefixed [simp]: "strip_hex_prefix (CHR ''0'' # CHR ''x'' # s) = s"
  by (simp add: strip_hex_prefix_def)

lemma length_strip_hex_prefix:
  "length s = length (strip_hex_prefix s) \<or> length s = length (strip_hex_prefix s) + 2"
proof -
  have "2 \<le> length s" if "length (take 2 s) = 2" using that by simp
  then show ?thesis
    by (cases "take 2 s = ''0x'' \<or> take 2 s = ''0X''") (auto simp: strip_hex_prefix_def)
qed

lemma strip_hex_prefix_encode:
  assumes "hex_ok h"
  shows "strip_hex_prefix (hex_encode h bs) = hex_encode h bs"
proof -
  have "CHR ''x'' \<notin> set (hex_encode h bs)" "CHR ''X'' \<notin> set (hex_encode h bs)"
    using hex_okD(2) [OF assms, of bs] by auto
  then have "take 2 (hex_encode h bs) \<noteq> ''0x''" "take 2 (hex_encode h bs) \<noteq> ''0X''"
    by (metis in_set_takeD list.set_intros)+
  then show ?thesis by (simp add: strip_hex_prefix_def)
qed

text \<open>Decoding an encoded byte string, with or without the prefix, hands the bytes to \<open>try_from\<close>.\<close>

lemma from_hex_prefixed_encode:
  assumes "hex_ok h"
  shows "from_hex h f (''0x'' @ hex_encode h bs) = f bs"
  by (simp add: from_hex_def Let_def hex_okD [OF assms])

lemma from_hex_encode:
  assumes "hex_ok h" and "bs \<noteq> []"
  shows "from_hex h f (hex_encode h bs) = f bs"
proof -
  have "hex_encode h bs \<noteq> []" using hex_okD(1) [OF assms(1), of bs] assms(2) by auto
  then show ?thesis
    by (simp add: from_hex_def Let_def strip_hex_prefix_encode [OF assms(1)] hex_okD [OF assms(1)])
qed

lemma from_hex_not_Panic:
  assumes "\<And>s. hex_decode h s \<noteq> Panic" "\<And>s n. hex_decode_to_slice h s n \<noteq> Panic" "\<And>bs. f bs \<noteq> Panic"
  shows "from_hex h f s \<noteq> Panic"
  using assms by (simp add: from_hex_def Let_def and_then_eq_Panic)

text \<open>
  One codec that keeps the promises of \<open>hex_ok\<close>: lower-case digits, an optional \<open>0x\<close> before
  the digits when decoding. The witnesses of the development evaluate with it.
\<close>

definition hex_digit :: "nat \<Rightarrow> char" where
  "hex_digit n = ''0123456789abcdef'' ! n"

fun nibble_in :: "nat \<Rightarrow> string \<Rightarrow> char \<Rightarrow> nat option" where
  "nibble_in n [] c = None"
| "nibble_in n (d # ds) c = (if c = d then Some n else nibble_in (Suc n) ds c)"

definition nibble :: "char \<Rightarrow> nat option" where
  "nibble c = nibble_in 0 ''0123456789abcdef'' c"

fun std_encode :: "bytes \<Rightarrow> string" where
  "std_encode [] = []"
| "std_encode (b # bs) = hex_digit (unat b div 16) # hex_digit (unat b mod 16) # std_encode bs"

fun std_pairs :: "string \<Rightarrow> bytes option" where
  "std_pairs [] = Some []"
| "std_pairs [c] = None"
| "std_pairs (c # d # cs) =
     (case (nibble c, nibble d, std_pairs cs) of
        (Some x, Some y, Some bs) \<Rightarrow> Some (of_nat (16 * x + y) # bs)
      | _ \<Rightarrow> None)"

definition std_decode :: "string \<Rightarrow> (bytes, string) res" where
  "std_decode s =
     (case std_pairs (if take 2 s = ''0x'' then drop 2 s else s) of
        Some bs \<Rightarrow> Ok bs | None \<Rightarrow> Err ''invalid hex'')"

definition std_decode_to_slice :: "string \<Rightarrow> nat \<Rightarrow> (bytes, string) res" where
  "std_decode_to_slice s n =
     and_then (std_decode s) (\<lambda>bs. if length bs = n then Ok bs else Err ''invalid length'')"

definition hex_std :: hexlib where
  "hex_std = \<lparr>hex_encode = std_encode, hex_decode = std_decode, hex_decode_to_slice = std_decode_to_slice\<rparr>"

lemma hex_digit_all:
  "\<forall>n \<in> set [0..<16]. hex_digit n \<in> set ''0123456789abcdef'' \<and> nibble (hex_digit n) = Some n"
  by code_simp

lemma hex_digit_cases:
  assumes "n < 16"
  shows "hex_digit n \<in> set ''0123456789abcdef''" and "nibble (hex_digit n) = Some n"
  using assms hex_digit_all by simp_all

lemma length_std_encode: "length (std_encode bs) = 2 * length bs"
  by (induction bs) auto

lemma set_std_encode: "set (std_encode bs) \<subseteq> set ''0123456789abcdef''"
proof (induction bs)
  case Nil
  show ?case by simp
next
  case (Cons b bs)
  have "unat b div 16 < 16" using unat_byte_less [of b] by simp
  with Cons hex_digit_cases(1) show ?case by (simp only: std_encode.simps) auto
qed

lemma std_pairs_encode: "std_pairs (std_encode bs) = Some bs"
proof (induction bs)
  case Nil
  show ?case by simp
next
  case (Cons b bs)
  have "unat b div 16 < 16" using unat_byte_less [of b] by simp
  then show ?case by (simp add: Cons.IH hex_digit_cases(2))
qed

lemma length_std_pairs: "std_pairs s = Some bs \<Longrightarrow> length s = 2 * length bs"
  by (induction s arbitrary: bs rule: std_pairs.induct) (auto split: option.splits)

lemma std_decode_encode: "std_decode (std_encode bs) = Ok bs"
proof -
  have "CHR ''x'' \<notin> set (std_encode bs)" using set_std_encode [of bs] by auto
  then have "take 2 (std_encode bs) \<noteq> ''0x''" by (metis in_set_takeD list.set_intros)
  then show ?thesis by (simp add: std_decode_def std_pairs_encode)
qed

lemma length_std_decode:
  assumes "std_decode s = Ok bs"
  shows "length s \<in> {2 * length bs, 2 * length bs + 2}"
proof -
  have "2 \<le> length s" if "take 2 s = ''0x''"
    using that by (metis length_Cons length_take list.size(3) min.bounded_iff numeral_2_eq_2 order_refl)
  with assms show ?thesis
    by (auto simp: std_decode_def split: option.splits if_splits dest!: length_std_pairs)
qed

lemma hex_ok_std: "hex_ok hex_std"
  unfolding hex_ok_def hex_std_def
  by (auto simp: length_std_encode std_decode_encode std_decode_to_slice_def
        dest: length_std_decode set_mp [OF set_std_encode] split: if_splits)

section \<open>Fixed-size representations\<close>

text \<open>
  \<open>BytesRepresentable\<close>: a type that holds its own encoding (\<open>as_ref\<close>, \<open>try_from\<close>, \<open>SIZE\<close>).
  \<open>wf\<close> is what the Rust type guarantees of its values (the array has its length, and
  what the constructors check).
\<close>

locale bytes_representable =
  fixes as_ref :: "'a \<Rightarrow> bytes"
    and try_from :: "bytes \<Rightarrow> ('a, general_error) res"
    and size :: nat
    and wf :: "'a \<Rightarrow> bool"
  assumes as_ref_length: "wf x \<Longrightarrow> length (as_ref x) = size"
    and try_from_as_ref: "wf x \<Longrightarrow> try_from (as_ref x) = Ok x"
    and try_from_Ok: "try_from bs = Ok x \<Longrightarrow> wf x \<and> as_ref x = bs"
    and try_from_not_Panic: "try_from bs \<noteq> Panic"
begin

lemma try_from_length: "try_from bs = Ok x \<Longrightarrow> length bs = size"
  using try_from_Ok as_ref_length by blast

lemma try_from_wrong_length: "length bs \<noteq> size \<Longrightarrow> \<exists>e. try_from bs = Err e"
  using try_from_length try_from_not_Panic by (cases "try_from bs") auto

lemma try_from_iff: "try_from bs = Ok x \<longleftrightarrow> wf x \<and> as_ref x = bs"
  using try_from_Ok try_from_as_ref by blast

lemma as_ref_inj: "wf x \<Longrightarrow> wf y \<Longrightarrow> as_ref x = as_ref y \<longleftrightarrow> x = y"
  using try_from_as_ref by (metis res.inject(1))

lemma hex_roundtrip: "hex_ok h \<Longrightarrow> wf x \<Longrightarrow> from_hex h try_from (to_hex h as_ref x) = Ok x"
  unfolding to_hex_def by (simp only: from_hex_prefixed_encode try_from_as_ref)

lemma hex_roundtrip_unprefixed:
  assumes "hex_ok h" "wf x" "0 < size"
  shows "from_hex h try_from (hex_encode h (as_ref x)) = Ok x"
proof -
  have "as_ref x \<noteq> []" using as_ref_length [OF assms(2)] assms(3) by auto
  then show ?thesis by (simp add: from_hex_encode assms(1) try_from_as_ref assms(2))
qed

lemma length_to_hex: "hex_ok h \<Longrightarrow> wf x \<Longrightarrow> length (to_hex h as_ref x) = 2 * size + 2"
  by (simp add: to_hex_def hex_okD as_ref_length)

text \<open>A type below the size of the stack buffer is parsed from strings of two lengths only.\<close>

lemma from_hex_length:
  assumes "hex_ok h" "size < HEX_DECODE_STACK_BUF_SIZE" "from_hex h try_from s = Ok x"
  shows "length s = 2 * size \<or> length s = 2 * size + 2"
proof -
  define data where "data = strip_hex_prefix s"
  have len: "length s = length data \<or> length s = length data + 2"
    unfolding data_def by (rule length_strip_hex_prefix)
  from assms(3) have even: "length s mod 2 = 0"
    by (simp add: from_hex_def split: if_splits)
  show ?thesis
  proof (cases "length data div 2 \<le> HEX_DECODE_STACK_BUF_SIZE")
    case True
    with assms(3) even obtain bs where
      "hex_decode_to_slice h data (length data div 2) = Ok bs" "try_from bs = Ok x"
      by (auto simp: from_hex_def Let_def data_def [symmetric] split: if_splits)
    then have "length data div 2 = size"
      using hex_okD(5) [OF assms(1)] try_from_length by metis
    with len even show ?thesis by presburger
  next
    case False
    with assms(3) even obtain bs where
      "hex_decode h data = Ok bs" "try_from bs = Ok x"
      by (auto simp: from_hex_def Let_def data_def [symmetric] split: if_splits)
    then have "length data = 2 * size \<or> length data = 2 * size + 2"
      using hex_okD(6) [OF assms(1)] try_from_length by metis
    with False assms(2) show ?thesis by linarith
  qed
qed

end

text \<open>
  \<open>BytesEncodable\<close>: the encoding is computed. Decoding what was encoded gives the value back,
  and only the canonical encoding of a value decodes to it.
\<close>

locale bytes_encodable =
  fixes encode :: "'a \<Rightarrow> bytes"
    and decode :: "bytes \<Rightarrow> ('a, general_error) res"
    and enc_size :: nat
    and wf :: "'a \<Rightarrow> bool"
  assumes encode_length: "wf x \<Longrightarrow> length (encode x) = enc_size"
    and decode_encode: "wf x \<Longrightarrow> decode (encode x) = Ok x"
    and decode_Ok: "decode bs = Ok x \<Longrightarrow> wf x \<and> encode x = bs"
begin

lemma decode_length: "decode bs = Ok x \<Longrightarrow> length bs = enc_size"
  using decode_Ok encode_length by blast

lemma encode_inj: "wf x \<Longrightarrow> wf y \<Longrightarrow> encode x = encode y \<longleftrightarrow> x = y"
  using decode_encode by (metis res.inject(1))

lemma decode_iff: "decode bs = Ok x \<longleftrightarrow> wf x \<and> encode x = bs"
  using decode_Ok decode_encode by blast

text \<open>Two adjacent fixed-size fields are split at the boundary.\<close>

lemma decode_prefix: "wf x \<Longrightarrow> decode (take enc_size (encode x @ rest)) = Ok x"
  by (simp add: encode_length decode_encode)

end

text \<open>Every representable type is encodable: \<open>BytesEncodable\<close> asks for less.\<close>

sublocale bytes_representable \<subseteq> bytes_encodable as_ref try_from size wf
  by unfold_locales (simp_all add: as_ref_length try_from_as_ref try_from_Ok)

text \<open>A newtype around a byte array of fixed length, whose \<open>try_from\<close> checks the length only.\<close>

definition array_try_from :: "(bytes \<Rightarrow> 'a) \<Rightarrow> nat \<Rightarrow> string \<Rightarrow> bytes \<Rightarrow> ('a, general_error) res" where
  "array_try_from mk n what bs = map_ok mk (try_into_array n (ParseError what) bs)"

lemma bytes_representable_array:
  assumes "\<And>bs. as_ref (mk bs) = bs" and "\<And>x. mk (as_ref x) = x"
  shows "bytes_representable as_ref (array_try_from mk n what) n (\<lambda>x. length (as_ref x) = n)"
  by unfold_locales (auto simp: array_try_from_def assms)

lemma array_try_from_Ok_iff [simp]:
  "array_try_from mk n what bs = Ok x \<longleftrightarrow> length bs = n \<and> x = mk bs"
  by (auto simp: array_try_from_def)

section \<open>Time\<close>

text \<open>
  A \<open>SystemTime\<close> is the number of nanoseconds since the Unix epoch, negative before it;
  a \<open>Duration\<close> is a number of nanoseconds.
\<close>

type_synonym system_time = int
type_synonym duration = nat

definition UNIX_EPOCH :: system_time where
  "UNIX_EPOCH = 0"

text \<open>\<open>SystemTime::duration_since\<close> of the standard library: an error if \<open>earlier\<close> is later.\<close>

definition duration_since :: "system_time \<Rightarrow> system_time \<Rightarrow> duration option" where
  "duration_since t earlier = (if earlier \<le> t then Some (nat (t - earlier)) else None)"

definition saturating_sub :: "system_time \<Rightarrow> system_time \<Rightarrow> duration" where
  "saturating_sub t earlier = (case duration_since t earlier of Some d \<Rightarrow> d | None \<Rightarrow> 0)"

definition as_unix_timestamp :: "system_time \<Rightarrow> duration" where
  "as_unix_timestamp t = saturating_sub t UNIX_EPOCH"

definition as_secs :: "duration \<Rightarrow> nat" where
  "as_secs d = d div 1000000000"

lemma saturating_sub_eq: "int (saturating_sub t e) = max 0 (t - e)"
  by (simp add: saturating_sub_def duration_since_def)

lemma saturating_sub_zero_iff: "saturating_sub t e = 0 \<longleftrightarrow> t \<le> e"
  using saturating_sub_eq [of t e] by (auto simp: max_def split: if_splits)

section \<open>Key identifiers\<close>

text \<open>
  \<open>KeyIdMapping\<close> has no implementation in this crate; its two default methods are functions
  of the required ones.
\<close>

definition map_keys_to_ids :: "('k \<Rightarrow> 'i option) \<Rightarrow> 'k list \<Rightarrow> 'i option list" where
  "map_keys_to_ids map_key_to_id keys = map map_key_to_id keys"

definition map_ids_to_keys :: "('i \<Rightarrow> 'k option) \<Rightarrow> 'i list \<Rightarrow> 'k option list" where
  "map_ids_to_keys map_id_to_public ids = map map_id_to_public ids"

end
