(* ===== verification/Floats.thy ===== *)
theory Floats
  imports Prelude Complex_Main
begin

text \<open>
  The double-precision values the crate computes with. A finite \<open>f64\<close> is the rational number
  it denotes; the not-a-numbers carry their 52-bit payload. The only floating-point operations
  of the crate are additions whose result lies in \<open>[1, 4)\<close>, the subtraction of \<open>1.0\<close> from a
  value of \<open>[1, 2)\<close>, comparisons, and the bit casts \<open>to_bits\<close> and \<open>from_bits\<close>; they are written
  out here with the rounding of IEEE 754 (to nearest, ties to even).
\<close>

datatype f64 = Num rat | PInf | NInf | NaN nat

section \<open>Rounding\<close>

text \<open>The integer nearest to a rational, the even one of two equally near.\<close>

definition round_half_even :: "rat \<Rightarrow> int" where
  "round_half_even x =
     (let f = \<lfloor>x\<rfloor>; d = x - of_int f
      in if d < 1 / 2 then f else if 1 / 2 < d then f + 1 else if even f then f else f + 1)"

text \<open>
  The double nearest to a real number of \<open>[1, 4)\<close>: the doubles of \<open>[1, 2)\<close> are the multiples
  of \<open>2^-52\<close>, those of \<open>[2, 4)\<close> the multiples of \<open>2^-51\<close>.
\<close>

definition f64_nearest :: "rat \<Rightarrow> rat" where
  "f64_nearest x =
     (if x < 2 then of_int (round_half_even (x * 2 ^ 52)) / 2 ^ 52
      else of_int (round_half_even (x * 2 ^ 51)) / 2 ^ 51)"

definition f64_epsilon :: rat where
  "f64_epsilon = 1 / 2 ^ 52"

fun f64_add :: "f64 \<Rightarrow> rat \<Rightarrow> f64" where
  "f64_add (Num x) y = Num (f64_nearest (x + y))"
| "f64_add PInf y = PInf"
| "f64_add NInf y = NInf"
| "f64_add (NaN m) y = NaN (if m < 2 ^ 51 then m + 2 ^ 51 else m)"

text \<open>
  The low 52 bits of \<open>to_bits\<close>, \<open>x.to_bits() & 0x000fffffffffffff\<close>, for a value of \<open>[1, 4)\<close>
  (the fraction field), an infinity (zero) or a not-a-number (the payload).
\<close>

fun f64_mantissa :: "f64 \<Rightarrow> nat" where
  "f64_mantissa (Num x) =
     (if x < 2 then nat \<lfloor>(x - 1) * 2 ^ 52\<rfloor> else nat \<lfloor>(x - 2) * 2 ^ 51\<rfloor>)"
| "f64_mantissa PInf = 0"
| "f64_mantissa NInf = 0"
| "f64_mantissa (NaN m) = m"

text \<open>\<open>f64::from_bits((1023 << 52) | m)\<close> for a 52-bit \<open>m\<close>: the double \<open>1 + m / 2^52\<close>.\<close>

definition f64_from_mantissa :: "nat \<Rightarrow> rat" where
  "f64_from_mantissa m = 1 + of_nat m / 2 ^ 52"

section \<open>Comparisons\<close>

text \<open>Every comparison with a not-a-number is false.\<close>

fun f64_le :: "f64 \<Rightarrow> f64 \<Rightarrow> bool" where
  "f64_le (Num x) (Num y) = (x \<le> y)"
| "f64_le (NaN _) _ = False"
| "f64_le _ (NaN _) = False"
| "f64_le NInf _ = True"
| "f64_le _ PInf = True"
| "f64_le _ _ = False"

fun f64_less :: "f64 \<Rightarrow> f64 \<Rightarrow> bool" where
  "f64_less (Num x) (Num y) = (x < y)"
| "f64_less NInf (Num _) = True"
| "f64_less NInf PInf = True"
| "f64_less (Num _) PInf = True"
| "f64_less _ _ = False"

fun f64_eq :: "f64 \<Rightarrow> f64 \<Rightarrow> bool" where
  "f64_eq (Num x) (Num y) = (x = y)"
| "f64_eq PInf PInf = True"
| "f64_eq NInf NInf = True"
| "f64_eq _ _ = False"

text \<open>\<open>(0.0..=1.0).contains(&x)\<close>.\<close>

definition in_unit_interval :: "f64 \<Rightarrow> bool" where
  "in_unit_interval x \<longleftrightarrow> f64_le (Num 0) x \<and> f64_le x (Num 1)"

text \<open>The doubles of the unit interval that lie on the grid of \<open>2^-52\<close>.\<close>

definition f64_grid :: "nat \<Rightarrow> rat" where
  "f64_grid k = of_nat k / 2 ^ 52"

section \<open>Facts\<close>

lemma in_unit_interval_iff: "in_unit_interval x \<longleftrightarrow> (\<exists>r. x = Num r \<and> 0 \<le> r \<and> r \<le> 1)"
  by (cases x) (auto simp: in_unit_interval_def)

lemma round_half_even_of_int [simp]: "round_half_even (of_int n) = n"
  by (simp add: round_half_even_def Let_def)

lemma round_half_even_near: "\<bar>of_int (round_half_even x) - x\<bar> \<le> 1 / 2"
proof -
  have "of_int \<lfloor>x\<rfloor> \<le> x" "x < of_int \<lfloor>x\<rfloor> + 1" by linarith+
  then show ?thesis unfolding round_half_even_def Let_def
    by (auto simp: abs_le_iff field_simps)
qed

lemma round_half_even_floor: "round_half_even x \<in> {\<lfloor>x\<rfloor>, \<lfloor>x\<rfloor> + 1}"
  by (simp add: round_half_even_def Let_def)

lemma round_half_even_mono_int:
  "of_int n \<le> x \<Longrightarrow> n \<le> round_half_even x" "x \<le> of_int n \<Longrightarrow> round_half_even x \<le> n"
proof -
  assume "of_int n \<le> x"
  then have "n \<le> \<lfloor>x\<rfloor>" by (simp add: le_floor_iff)
  then show "n \<le> round_half_even x" using round_half_even_floor [of x] by auto
next
  assume a: "x \<le> of_int n"
  show "round_half_even x \<le> n"
  proof (cases "x = of_int n")
    case True
    then show ?thesis by simp
  next
    case False
    with a have "\<lfloor>x\<rfloor> < n" by (simp add: floor_less_iff)
    then show ?thesis using round_half_even_floor [of x] by auto
  qed
qed

text \<open>Adding \<open>1.0\<close> to a double of the unit interval rounds it to the grid.\<close>

definition grid_of :: "rat \<Rightarrow> nat" where
  "grid_of r = nat (round_half_even (r * 2 ^ 52 + 2 ^ 52) - 2 ^ 52)"

lemma grid_of_bounds: "0 \<le> r \<Longrightarrow> r \<le> 1 \<Longrightarrow> grid_of r \<le> 2 ^ 52"
proof -
  assume "0 \<le> r" "r \<le> 1"
  then have "r * 2 ^ 52 + 2 ^ 52 \<le> of_int (2 ^ 53)" by simp
  then have "round_half_even (r * 2 ^ 52 + 2 ^ 52) \<le> 2 ^ 53" by (rule round_half_even_mono_int)
  then show ?thesis by (simp add: grid_of_def)
qed

lemma round_grid: "0 \<le> r \<Longrightarrow> round_half_even (r * 2 ^ 52 + 2 ^ 52) = int (grid_of r) + 2 ^ 52"
proof -
  assume "0 \<le> r"
  then have "of_int (2 ^ 52) \<le> r * 2 ^ 52 + 2 ^ 52" by simp
  then have "2 ^ 52 \<le> round_half_even (r * 2 ^ 52 + 2 ^ 52)" by (rule round_half_even_mono_int)
  then show ?thesis by (simp add: grid_of_def)
qed

lemma f64_add_one:
  assumes "0 \<le> r" "r \<le> 1"
  shows "f64_add (Num r) 1 = Num (1 + of_nat (grid_of r) / 2 ^ 52)"
proof (cases "r = 1")
  case True
  have "round_half_even ((1 + 1) * 2 ^ 51 :: rat) = 2 ^ 52"
    using round_half_even_of_int [of "2 ^ 52"] by simp
  moreover have "grid_of 1 = 2 ^ 52"
    using round_half_even_of_int [of "2 ^ 53"] by (simp add: grid_of_def)
  ultimately show ?thesis using True by (simp add: f64_nearest_def)
next
  case False
  with assms have "r + 1 < 2" by simp
  moreover have "(r + 1) * 2 ^ 52 = r * 2 ^ 52 + 2 ^ 52" by (simp add: algebra_simps)
  ultimately show ?thesis
    using round_grid [OF assms(1)] by (simp add: f64_nearest_def add_divide_distrib)
qed

lemma grid_of_near: "0 \<le> r \<Longrightarrow> \<bar>of_nat (grid_of r) / 2 ^ 52 - r\<bar> \<le> 1 / 2 ^ 53"
proof -
  assume r: "0 \<le> r"
  have "\<bar>of_int (int (grid_of r) + 2 ^ 52) - (r * 2 ^ 52 + 2 ^ 52)\<bar> \<le> 1 / 2"
    using round_half_even_near [of "r * 2 ^ 52 + 2 ^ 52"] by (simp only: round_grid [OF r])
  then show ?thesis by (simp add: abs_le_iff field_simps)
qed

lemma grid_of_grid [simp]: "k \<le> 2 ^ 52 \<Longrightarrow> grid_of (of_nat k / 2 ^ 52) = k"
proof -
  have "(of_nat k / 2 ^ 52 * 2 ^ 52 + 2 ^ 52 :: rat) = of_int (int k + 2 ^ 52)" by simp
  then have "round_half_even (of_nat k / 2 ^ 52 * 2 ^ 52 + 2 ^ 52) = int k + 2 ^ 52"
    by (simp only: round_half_even_of_int)
  then show ?thesis by (simp add: grid_of_def)
qed

lemma f64_mantissa_grid:
  assumes "k \<le> 2 ^ 52"
  shows "f64_mantissa (Num (1 + of_nat k / 2 ^ 52)) = (if k = 2 ^ 52 then 0 else k)"
proof (cases "k = 2 ^ 52")
  case True
  then show ?thesis by simp
next
  case False
  with assms have "of_nat k < (2 ^ 52 :: rat)" by (simp add: order_less_le flip: of_nat_power)
  then show ?thesis using False by (simp add: field_simps)
qed

text \<open>Adding the machine epsilon to a grid point of \<open>[1, 2]\<close> steps to the next one; above
  the largest of \<open>[1, 2)\<close> the result is \<open>2.0\<close>.\<close>

lemma f64_add_epsilon:
  assumes "k \<le> 2 ^ 52"
  shows "f64_add (Num (1 + of_nat k / 2 ^ 52)) f64_epsilon =
    Num (1 + of_nat (min (k + 1) (2 ^ 52)) / 2 ^ 52)"
proof (cases "k = 2 ^ 52")
  case True
  have "\<lfloor>(2 + 1 / 2 ^ 52) * 2 ^ 51 :: rat\<rfloor> = 2 ^ 52" by (rule floor_unique) simp_all
  then have "f64_nearest (2 + 1 / 2 ^ 52) = 2"
    by (simp add: f64_nearest_def round_half_even_def Let_def)
  with True show ?thesis by (simp add: f64_epsilon_def)
next
  case False
  with assms have k: "k + 1 \<le> 2 ^ 52" by simp
  have sum: "1 + of_nat k / 2 ^ 52 + f64_epsilon = 1 + of_nat (k + 1) / (2 ^ 52 :: rat)"
    by (simp add: f64_epsilon_def add_divide_distrib)
  have "f64_nearest (1 + of_nat (k + 1) / 2 ^ 52) = 1 + of_nat (k + 1) / 2 ^ 52"
  proof (cases "k + 1 = 2 ^ 52")
    case True
    then have "1 + of_nat (k + 1) / 2 ^ 52 = (2 :: rat)" by (simp flip: of_nat_add)
    moreover have "f64_nearest 2 = 2"
      using round_half_even_of_int [of "2 ^ 52"] by (simp add: f64_nearest_def)
    ultimately show ?thesis by simp
  next
    case False
    with k have "of_nat (k + 1) < (2 ^ 52 :: rat)"
      by (metis of_nat_less_iff of_nat_numeral of_nat_power order_less_le)
    then have "1 + of_nat (k + 1) / 2 ^ 52 < (2 :: rat)" by (simp add: field_simps)
    moreover have "(1 + of_nat (k + 1) / 2 ^ 52) * 2 ^ 52 = (of_int (2 ^ 52 + int (k + 1)) :: rat)"
      by (simp add: field_simps)
    ultimately show ?thesis
      by (simp only: f64_nearest_def if_True round_half_even_of_int) (simp add: field_simps)
  qed
  with k show ?thesis by (simp only: f64_add.simps sum min.absorb1)
qed

end
