(* ===== verification/Primitives.thy ===== *)
theory Primitives
  imports Bytes Floats Strings
begin

text \<open>
  \<open>primitive/primitives.rs\<close> and \<open>primitive/mod.rs\<close>: the 256-bit integer \<open>U256\<close> with its
  multiplication and division by a float of the unit interval, Ethereum addresses and
  challenges, key identifiers, log records, and the shortened hexadecimal form.
  \<open>U256\<close> is the 256-bit word type: its operators panic on overflow and on division by zero,
  its named operations saturate, as documented for the \<open>primitive-types\<close> package.
\<close>

section \<open>U256\<close>

definition u256_max :: u256 where
  "u256_max = - 1"

definition u256_mul :: "u256 \<Rightarrow> u256 \<Rightarrow> u256 option" where
  "u256_mul a b = (if unat a * unat b < 2 ^ 256 then Some (a * b) else None)"

definition u256_div :: "u256 \<Rightarrow> u256 \<Rightarrow> u256 option" where
  "u256_div a b = (if b = 0 then None else Some (a div b))"

definition u256_saturating_add :: "u256 \<Rightarrow> u256 \<Rightarrow> u256" where
  "u256_saturating_add a b = (if unat a + unat b < 2 ^ 256 then a + b else u256_max)"

definition u256_saturating_sub :: "u256 \<Rightarrow> u256 \<Rightarrow> u256" where
  "u256_saturating_sub a b = (if b \<le> a then a - b else 0)"

definition u256_saturating_mul :: "u256 \<Rightarrow> u256 \<Rightarrow> u256" where
  "u256_saturating_mul a b = (if unat a * unat b < 2 ^ 256 then a * b else u256_max)"

text \<open>The byte conversions panic on more than 32 bytes.\<close>

definition u256_from_be_bytes :: "bytes \<Rightarrow> u256 option" where
  "u256_from_be_bytes bs = (if length bs \<le> 32 then Some (of_nat (from_be bs)) else None)"

definition u256_from_le_bytes :: "bytes \<Rightarrow> u256 option" where
  "u256_from_le_bytes bs = u256_from_be_bytes (rev bs)"

definition u256_to_be_bytes :: "u256 \<Rightarrow> bytes" where
  "u256_to_be_bytes a = to_be 32 (unat a)"

definition u256_to_le_bytes :: "u256 \<Rightarrow> bytes" where
  "u256_to_le_bytes a = rev (u256_to_be_bytes a)"

lemma unat_u256_less: "unat (a :: u256) < 2 ^ 256"
  using unat_less_2p [of a] by simp

lemma unat_u256_max [simp]: "unat u256_max = 2 ^ 256 - 1"
  by (simp add: u256_max_def unsigned_minus_1_eq_mask mask_eq_exp_minus_1)

lemma unat_u256_of_nat: "n < 2 ^ 256 \<Longrightarrow> unat (of_nat n :: u256) = n"
  by (simp add: unat_of_nat)

lemma unat_u256_add: "unat (a :: u256) + unat b < 2 ^ 256 \<Longrightarrow> unat (a + b) = unat a + unat b"
  by (simp add: unat_word_ariths)

lemma unat_u256_mult: "unat (a :: u256) * unat b < 2 ^ 256 \<Longrightarrow> unat (a * b) = unat a * unat b"
  by (simp add: unat_word_ariths)

lemma unat_u256_sub: "(b :: u256) \<le> a \<Longrightarrow> unat (a - b) = unat a - unat b"
  by (simp add: unat_sub)

lemma unat_saturating_add: "unat (u256_saturating_add a b) = min (unat a + unat b) (2 ^ 256 - 1)"
  by (auto simp: u256_saturating_add_def unat_u256_add)

lemma unat_saturating_sub: "unat (u256_saturating_sub a b) = unat a - unat b"
  by (auto simp: u256_saturating_sub_def unat_u256_sub word_le_nat_alt)

lemma unat_saturating_mul: "unat (u256_saturating_mul a b) = min (unat a * unat b) (2 ^ 256 - 1)"
  by (auto simp: u256_saturating_mul_def unat_u256_mult)

lemma length_u256_to_be [simp, len_simps]: "length (u256_to_be_bytes a) = 32"
  by (simp add: u256_to_be_bytes_def)

lemma u256_be_roundtrip [simp]: "u256_from_be_bytes (u256_to_be_bytes a) = Some a"
  using unat_u256_less [of a]
  by (simp add: u256_from_be_bytes_def u256_to_be_bytes_def from_be_to_be)

lemma u256_le_roundtrip [simp]: "u256_from_le_bytes (u256_to_le_bytes a) = Some a"
  by (simp add: u256_from_le_bytes_def u256_to_le_bytes_def)

lemma u256_be_bytes_inj: "length bs = 32 \<Longrightarrow> u256_from_be_bytes bs = Some a \<Longrightarrow> u256_to_be_bytes a = bs"
  using from_be_less [of bs]
  by (auto simp: u256_from_be_bytes_def u256_to_be_bytes_def unat_of_nat to_be_from_be_len
      split: if_splits)

lemma drop_bit_u256: "drop_bit n a = (of_nat (unat a div 2 ^ n) :: u256)"
  using drop_bit_eq_div [of n "unat a"]
  by (intro word_eq_of_nat_unat) (simp add: unat_drop_bit_eq del: drop_bit_eq_div)

lemma unat_push_bit_u256: "unat (push_bit n (a :: u256)) = unat a * 2 ^ n mod 2 ^ 256"
proof -
  have "unat (push_bit n a) = take_bit LENGTH(256) (push_bit n (unat a))"
    by (rule unsigned_push_bit_eq)
  then show ?thesis by (simp only: take_bit_eq_mod push_bit_eq_mult) simp
qed

lemma unat_u256_div: "unat ((a :: u256) div b) = unat a div unat b"
  by (rule unat_div)

subsection \<open>UnitaryFloatOps\<close>

definition u256_mul_f64 :: "u256 \<Rightarrow> f64 \<Rightarrow> (u256, general_error) res" where
  "u256_mul_f64 self rhs =
     (if \<not> in_unit_interval rhs then Err InvalidInput
      else if f64_eq rhs (Num 1) then Ok self
      else if f64_eq rhs (Num 0) then Ok 0
      else
        let m = of_nat (f64_mantissa (f64_add (f64_add rhs 1) f64_epsilon)) :: u256
        in map_ok (\<lambda>p. drop_bit 52 p) (expect (u256_mul self m)))"

definition u256_div_f64 :: "u256 \<Rightarrow> f64 \<Rightarrow> (u256, general_error) res" where
  "u256_div_f64 self rhs =
     (if f64_le rhs (Num 0) \<or> f64_less (Num 1) rhs then Err InvalidInput
      else if f64_eq rhs (Num 1) then Ok self
      else
        let nom = push_bit 52 self;
            denom = of_nat (f64_mantissa (f64_add rhs 1)) :: u256
        in expect (u256_div nom denom))"

text \<open>What the two bit casts extract from a float of the open unit interval.\<close>

lemma mul_mantissa:
  assumes "0 < r" "r < 1"
  shows "f64_mantissa (f64_add (f64_add (Num r) 1) f64_epsilon) =
    (if grid_of r + 1 < 2 ^ 52 then grid_of r + 1 else 0)"
proof -
  have g: "grid_of r \<le> 2 ^ 52" using assms by (intro grid_of_bounds) simp_all
  have "min (grid_of r + 1) (2 ^ 52) \<le> 2 ^ 52" by simp
  from f64_mantissa_grid [OF this] show ?thesis
    using assms g by (simp only: f64_add_one f64_add_epsilon less_imp_le) auto
qed

lemma div_mantissa:
  assumes "0 < r" "r < 1"
  shows "f64_mantissa (f64_add (Num r) 1) = (if grid_of r < 2 ^ 52 then grid_of r else 0)"
proof -
  have g: "grid_of r \<le> 2 ^ 52" using assms by (intro grid_of_bounds) simp_all
  from f64_mantissa_grid [OF this] show ?thesis
    using assms g by (simp only: f64_add_one less_imp_le) auto
qed

lemma u256_mul_f64_eq:
  assumes "0 < r" "r < 1"
  shows "u256_mul_f64 self (Num r) =
    (if 2 ^ 52 \<le> grid_of r + 1 then Ok 0
     else if unat self * (grid_of r + 1) < 2 ^ 256
     then Ok (of_nat (unat self * (grid_of r + 1) div 2 ^ 52)) else Panic)"
proof -
  define m where "m = (if grid_of r + 1 < 2 ^ 52 then grid_of r + 1 else 0)"
  have m: "unat (of_nat m :: u256) = m"
    by (rule unat_u256_of_nat) (simp add: m_def)
  have "u256_mul_f64 self (Num r) = map_ok (drop_bit 52) (expect (u256_mul self (of_nat m)))"
    using assms unfolding u256_mul_f64_def
    by (simp add: in_unit_interval_iff mul_mantissa m_def del: f64_add.simps f64_mantissa.simps)
  also have "\<dots> = (if unat self * m < 2 ^ 256 then Ok (drop_bit 52 (self * of_nat m)) else Panic)"
    by (simp add: u256_mul_def m)
  also have "\<dots> = (if unat self * m < 2 ^ 256 then Ok (of_nat (unat self * m div 2 ^ 52)) else Panic)"
    using m by (simp add: drop_bit_u256 unat_u256_mult)
  finally show ?thesis by (simp add: m_def)
qed

text \<open>
  Multiplying by a float strictly between 0 and 1: with \<open>k\<close> the float rounded to the grid
  of \<open>2^-52\<close>, the result is \<open>self * (k + 1) / 2^52\<close> rounded down as long as \<open>k + 1 < 2^52\<close>; for
  the floats next to 1, where \<open>k + 1\<close> reaches \<open>2^52\<close>, the mantissa bits are all zero and the
  result is 0; a product beyond 256 bits panics.
\<close>

theorem u256_mul_f64_spec:
  assumes "0 < r" "r < 1"
  shows "u256_mul_f64 self (Num r) =
    (if 2 ^ 52 \<le> grid_of r + 1 then Ok 0
     else if unat self * (grid_of r + 1) < 2 ^ 256
     then Ok (of_nat (unat self * (grid_of r + 1) div 2 ^ 52)) else Panic)"
  by (rule u256_mul_f64_eq [OF assms])

theorem u256_mul_f64_spec_witness:
  "u256_mul_f64 1000 (Num (1 / 2)) = Ok 500"
proof -
  have "grid_of (1 / 2) = 2 ^ 51" using grid_of_grid [of "2 ^ 51"] by simp
  then show ?thesis using u256_mul_f64_spec [of "1 / 2" 1000] by simp
qed

lemma u256_div_f64_eq:
  assumes "0 < r" "r < 1"
  shows "u256_div_f64 self (Num r) =
      (if grid_of r = 0 \<or> grid_of r = 2 ^ 52 then Panic
       else Ok (of_nat (unat self * 2 ^ 52 mod 2 ^ 256 div grid_of r)))"
proof -
  have g: "grid_of r \<le> 2 ^ 52" using assms by (intro grid_of_bounds) simp_all
  define k where "k = (if grid_of r < 2 ^ 52 then grid_of r else 0)"
  have k: "unat (of_nat k :: u256) = k"
    by (rule unat_u256_of_nat) (simp add: k_def)
  have "u256_div_f64 self (Num r) = expect (u256_div (push_bit 52 self) (of_nat k))"
    using assms unfolding u256_div_f64_def
    by (simp add: div_mantissa k_def del: f64_add.simps f64_mantissa.simps)
  also have "\<dots> = (if k = 0 then Panic else Ok (of_nat (unat self * 2 ^ 52 mod 2 ^ 256 div k)))"
  proof -
    have "(of_nat k :: u256) = 0 \<longleftrightarrow> k = 0"
      by (simp only: k flip: unat_eq_zero)
    moreover have "push_bit 52 self div of_nat k = (of_nat (unat self * 2 ^ 52 mod 2 ^ 256 div k) :: u256)"
      by (rule word_eq_of_nat_unat) (simp only: unat_u256_div unat_push_bit_u256 k)
    ultimately show ?thesis by (simp add: u256_div_def)
  qed
  finally show "u256_div_f64 self (Num r) =
      (if grid_of r = 0 \<or> grid_of r = 2 ^ 52 then Panic
       else Ok (of_nat (unat self * 2 ^ 52 mod 2 ^ 256 div grid_of r)))"
  proof -
    assume a: "u256_div_f64 self (Num r) =
      (if k = 0 then Panic else Ok (of_nat (unat self * 2 ^ 52 mod 2 ^ 256 div k)))"
    have k: "k = (if grid_of r = 2 ^ 52 then 0 else grid_of r)" using g by (simp add: k_def)
    show ?thesis unfolding a
      by (cases "grid_of r = 2 ^ 52") (simp_all only: k if_True if_False simp_thms)
  qed
qed

text \<open>
  Dividing by a float strictly between 0 and 1: with \<open>k\<close> the float rounded to the grid of
  \<open>2^-52\<close>, the result is \<open>self * 2^52 / k\<close>, where the bits of \<open>self\<close> above the 204th are lost
  by the shift; a float so small or so close to 1 that \<open>k\<close> is 0 or \<open>2^52\<close> makes the code divide
  by zero and panic. A not-a-number passes the range check and divides by its payload.
\<close>

theorem u256_div_f64_spec:
  assumes "0 < r" "r < 1" "m < 2 ^ 52"
  shows "u256_div_f64 self (Num r) =
      (if grid_of r = 0 \<or> grid_of r = 2 ^ 52 then Panic
       else Ok (of_nat (unat self * 2 ^ 52 mod 2 ^ 256 div grid_of r)))
    \<and> (\<exists>v. u256_div_f64 self (NaN m) = Ok v)"
proof
  show "u256_div_f64 self (Num r) =
      (if grid_of r = 0 \<or> grid_of r = 2 ^ 52 then Panic
       else Ok (of_nat (unat self * 2 ^ 52 mod 2 ^ 256 div grid_of r)))"
    by (rule u256_div_f64_eq [OF assms(1,2)])
next
  define q where "q = (if m < 2 ^ 51 then m + 2 ^ 51 else m)"
  have "unat (of_nat q :: u256) = q" using assms(3) by (intro unat_u256_of_nat) (simp add: q_def)
  moreover have "q \<noteq> 0" by (simp add: q_def)
  ultimately have "(of_nat q :: u256) \<noteq> 0" by (metis of_nat_0 unsigned_0)
  then show "\<exists>v. u256_div_f64 self (NaN m) = Ok v"
    by (simp add: u256_div_f64_def u256_div_def q_def)
qed

theorem u256_div_f64_spec_witness:
  "u256_div_f64 5 (Num (1 / 2)) = Ok 10 \<and> (\<exists>v. u256_div_f64 5 (NaN 0) = Ok v)"
proof -
  have "grid_of (1 / 2) = 2 ^ 51" using grid_of_grid [of "2 ^ 51"] by simp
  then show ?thesis using u256_div_f64_spec [of "1 / 2" 0 5] by simp
qed

text \<open>
  The two edges of the unit interval where the code misbehaves: the largest double below 1
  multiplies to zero and panics as a divisor, and dividing by the smallest positive floats
  panics too.
\<close>

lemma f64_edge_cases:
  "u256_mul_f64 1000 (Num (1 - 1 / 2 ^ 53)) = Ok 0"
  "u256_div_f64 1000 (Num (1 - 1 / 2 ^ 53)) = Panic"
  "u256_div_f64 1000 (Num (1 / 2 ^ 60)) = Panic"
proof -
  have "\<lfloor>(1 - 1 / 2 ^ 53) * 2 ^ 52 + 2 ^ 52 :: rat\<rfloor> = 2 ^ 53 - 1" by (rule floor_unique) simp_all
  then have a: "grid_of (1 - 1 / 2 ^ 53) = 2 ^ 52"
    by (simp add: grid_of_def round_half_even_def Let_def)
  have "\<lfloor>1 / 2 ^ 60 * 2 ^ 52 + 2 ^ 52 :: rat\<rfloor> = 2 ^ 52" by (rule floor_unique) simp_all
  then have b: "grid_of (1 / 2 ^ 60) = 0"
    by (simp add: grid_of_def round_half_even_def Let_def)
  show "u256_mul_f64 1000 (Num (1 - 1 / 2 ^ 53)) = Ok 0"
    using u256_mul_f64_eq [of "1 - 1 / 2 ^ 53" 1000] a by simp
  show "u256_div_f64 1000 (Num (1 - 1 / 2 ^ 53)) = Panic"
    using u256_div_f64_eq [of "1 - 1 / 2 ^ 53" 1000] a by simp
  show "u256_div_f64 1000 (Num (1 / 2 ^ 60)) = Panic"
    using u256_div_f64_eq [of "1 / 2 ^ 60" 1000] b by simp
qed

section \<open>Address\<close>

datatype address = Address (address_bytes: bytes)

definition ADDRESS_SIZE :: nat where
  "ADDRESS_SIZE = 20"

definition wf_address :: "address \<Rightarrow> bool" where
  "wf_address a \<longleftrightarrow> length (address_bytes a) = ADDRESS_SIZE"

definition address_default :: address where
  "address_default = Address (replicate ADDRESS_SIZE 0)"

definition address_new :: "bytes \<Rightarrow> address option" where
  "address_new bs = (if length bs = ADDRESS_SIZE then Some (Address bs) else None)"

definition address_to_bytes32 :: "address \<Rightarrow> bytes" where
  "address_to_bytes32 a = replicate 12 0 @ address_bytes a"

definition address_is_zero :: "address \<Rightarrow> bool" where
  "address_is_zero a \<longleftrightarrow> (\<forall>b \<in> set (address_bytes a). 0 = b)"

text \<open>The checksum nibble of position \<open>i\<close>: high half of the hash byte for even positions.\<close>

definition checksum_nibble :: "bytes \<Rightarrow> nat \<Rightarrow> u8" where
  "checksum_nibble hash i = and (drop_bit ((i + 1) mod 2 * 4) (hash ! (i div 2))) 15"

definition address_to_checksum :: "hexlib \<Rightarrow> (bytes \<Rightarrow> bytes) \<Rightarrow> address \<Rightarrow> string" where
  "address_to_checksum h keccak256 a =
     (let address_hex = hex_encode h (address_bytes a);
          hash = keccak256 (ascii_bytes address_hex)
      in ''0x'' @ map (\<lambda>(i, c). if checksum_nibble hash i < 8 then c else ascii_upper c)
                    (enumerate 0 address_hex))"

definition address_try_from :: "bytes \<Rightarrow> (address, general_error) res" where
  "address_try_from = array_try_from Address ADDRESS_SIZE ''Address''"

text \<open>\<open>Address\<close> and the 20-byte \<open>H160\<close> of \<open>primitive-types\<close> are converted byte by byte.\<close>

definition address_from_h160 :: "bytes \<Rightarrow> address" where
  "address_from_h160 bs = Address bs"

definition address_into_h160 :: "address \<Rightarrow> bytes" where
  "address_into_h160 a = address_bytes a"

definition address_from_str :: "hexlib \<Rightarrow> string \<Rightarrow> (address, general_error) res" where
  "address_from_str h s = from_hex h address_try_from s"

definition address_cmp :: "address \<Rightarrow> address \<Rightarrow> ordering" where
  "address_cmp a b = cmp_bytes (address_bytes a) (address_bytes b)"

interpretation address: bytes_representable address_bytes address_try_from ADDRESS_SIZE wf_address
  unfolding wf_address_def address_try_from_def by (rule bytes_representable_array) simp_all

lemma wf_address_default [simp]: "wf_address address_default"
  by (simp add: wf_address_def address_default_def)

lemma address_new_eq: "address_new bs = Some a \<longleftrightarrow> length bs = ADDRESS_SIZE \<and> a = Address bs"
  by (auto simp: address_new_def)

lemma address_is_zero_iff: "wf_address a \<Longrightarrow> address_is_zero a \<longleftrightarrow> a = address_default"
proof -
  assume "wf_address a"
  then have "(\<forall>b \<in> set (address_bytes a). 0 = b) \<longleftrightarrow> address_bytes a = replicate ADDRESS_SIZE 0"
    unfolding wf_address_def by (metis in_set_replicate replicate_eqI)
  then show ?thesis by (cases a) (simp add: address_is_zero_def address_default_def)
qed

lemma address_bytes32_from_be:
  "from_be (address_to_bytes32 a) = from_be (address_bytes a)"
  unfolding address_to_bytes32_def by (rule from_be_zeros_append)

lemma checksum_lower:
  assumes "set s \<subseteq> set ''0123456789abcdef''"
  shows "map ascii_lower (map (\<lambda>(i, c). if P i then c else ascii_upper c) (enumerate n s)) = s"
  using assms
proof (induction s arbitrary: n)
  case Nil
  show ?case by simp
next
  case (Cons c s)
  then have "c \<in> set ''0123456789abcdef''" by simp
  then have "ascii_lower c = c" "ascii_lower (ascii_upper c) = c" using ascii_lower_hex by blast+
  moreover have "map ascii_lower (map (\<lambda>(i, c). if P i then c else ascii_upper c) (enumerate (Suc n) s)) = s"
    using Cons by simp
  ultimately show ?case by simp
qed

text \<open>
  The checksummed form of an address is its hexadecimal form up to letter case: 42
  characters that read, lower-cased, as \<open>to_hex\<close>; the character at position \<open>i\<close> is upper-cased
  exactly if the \<open>i\<close>-th half byte of the Keccak hash of the lower-case form is at least 8.
\<close>

theorem address_checksum_lower:
  assumes "hex_ok h" "wf_address a"
  shows "map ascii_lower (address_to_checksum h keccak256 a) = to_hex h address_bytes a
    \<and> length (address_to_checksum h keccak256 a) = 42
    \<and> (\<forall>i < 40. address_to_checksum h keccak256 a ! (i + 2) =
         (let c = hex_encode h (address_bytes a) ! i in
          if checksum_nibble (keccak256 (ascii_bytes (hex_encode h (address_bytes a)))) i < 8 then c
          else ascii_upper c))"
proof -
  have len: "length (hex_encode h (address_bytes a)) = 40"
    using assms by (simp add: hex_okD wf_address_def ADDRESS_SIZE_def)
  have "ascii_lower (CHR ''0'') = CHR ''0''" "ascii_lower (CHR ''x'') = CHR ''x''" by code_simp+
  then show ?thesis
    using checksum_lower [OF hex_okD(2) [OF assms(1)]] len
    by (simp add: address_to_checksum_def to_hex_def Let_def nth_enumerate_eq)
qed

theorem address_checksum_lower_witness:
  "length (address_to_checksum hex_std (\<lambda>_. replicate 32 255) address_default) = 42"
  using address_checksum_lower [OF hex_ok_std wf_address_default] by blast

section \<open>EthereumChallenge\<close>

datatype ethereum_challenge = EthereumChallenge (challenge_address: address)

definition ethereum_challenge_as_ref :: "ethereum_challenge \<Rightarrow> bytes" where
  "ethereum_challenge_as_ref c = address_bytes (challenge_address c)"

definition ethereum_challenge_try_from :: "bytes \<Rightarrow> (ethereum_challenge, general_error) res" where
  "ethereum_challenge_try_from bs =
     map_ok EthereumChallenge (map_err (\<lambda>_. ParseError ''EthereumChallenge'') (address_try_from bs))"

definition wf_ethereum_challenge :: "ethereum_challenge \<Rightarrow> bool" where
  "wf_ethereum_challenge c \<longleftrightarrow> wf_address (challenge_address c)"

interpretation ethereum_challenge: bytes_representable
  ethereum_challenge_as_ref ethereum_challenge_try_from ADDRESS_SIZE wf_ethereum_challenge
proof unfold_locales
  fix c assume "wf_ethereum_challenge c"
  then show "length (ethereum_challenge_as_ref c) = ADDRESS_SIZE"
    and "ethereum_challenge_try_from (ethereum_challenge_as_ref c) = Ok c"
    by (simp_all add: wf_ethereum_challenge_def ethereum_challenge_as_ref_def
        ethereum_challenge_try_from_def address.as_ref_length address.try_from_as_ref)
next
  fix bs c assume "ethereum_challenge_try_from bs = Ok c"
  then show "wf_ethereum_challenge c \<and> ethereum_challenge_as_ref c = bs"
    using address.try_from_Ok
    by (auto simp: wf_ethereum_challenge_def ethereum_challenge_as_ref_def ethereum_challenge_try_from_def)
next
  fix bs show "ethereum_challenge_try_from bs \<noteq> Panic"
    by (simp add: ethereum_challenge_try_from_def address.try_from_not_Panic)
qed

section \<open>SerializableLog\<close>

text \<open>The time of processing is a number of seconds since the Unix epoch.\<close>

record serializable_log =
  log_address :: address
  log_topics :: "bytes list"
  log_data :: bytes
  log_tx_index :: u64
  log_block_number :: u64
  log_block_hash :: bytes
  log_tx_hash :: bytes
  log_log_index :: u64
  log_removed :: bool
  log_processed :: "bool option"
  log_processed_at :: "int option"
  log_checksum :: "string option"

definition log_cmp :: "serializable_log \<Rightarrow> serializable_log \<Rightarrow> ordering" where
  "log_cmp a b =
     (let block_number_order = cmp_of (log_block_number a) (log_block_number b) in
      if block_number_order = Equal then
        let tx_index_order = cmp_of (log_tx_index a) (log_tx_index b) in
        if tx_index_order = Equal then cmp_of (log_log_index a) (log_log_index b)
        else tx_index_order
      else block_number_order)"

lemma log_cmp_swap: "log_cmp b a = ord_reverse (log_cmp a b)"
  by (auto simp: log_cmp_def Let_def simp flip: cmp_of_swap)

text \<open>The order identifies logs at the same position, whatever else they hold.\<close>

lemma log_cmp_Equal:
  "log_cmp a b = Equal \<longleftrightarrow>
     log_block_number a = log_block_number b \<and> log_tx_index a = log_tx_index b
     \<and> log_log_index a = log_log_index b"
  by (simp add: log_cmp_def Let_def)

lemma log_cmp_Less:
  "log_cmp a b = Less \<longleftrightarrow>
     log_block_number a < log_block_number b \<or>
     log_block_number a = log_block_number b \<and>
       (log_tx_index a < log_tx_index b \<or>
        log_tx_index a = log_tx_index b \<and> log_log_index a < log_log_index b)"
  by (simp add: log_cmp_def Let_def)

section \<open>KeyIdent\<close>

datatype key_ident = KeyIdent (key_ident_bytes: bytes)

definition key_ident_default :: "nat \<Rightarrow> key_ident" where
  "key_ident_default n = KeyIdent (replicate n 0)"

definition key_ident_from_u32 :: "u32 \<Rightarrow> key_ident" where
  "key_ident_from_u32 v = KeyIdent (to_be 4 (unat v))"

definition key_ident_into_u32 :: "key_ident \<Rightarrow> u32" where
  "key_ident_into_u32 k = of_nat (from_be (key_ident_bytes k))"

definition key_ident_from_u64 :: "u64 \<Rightarrow> key_ident" where
  "key_ident_from_u64 v = KeyIdent (to_be 8 (unat v))"

definition key_ident_into_u64 :: "key_ident \<Rightarrow> u64" where
  "key_ident_into_u64 k = of_nat (from_be (key_ident_bytes k))"

definition key_ident_try_from :: "nat \<Rightarrow> bytes \<Rightarrow> (key_ident, general_error) res" where
  "key_ident_try_from n = array_try_from KeyIdent n ''KeyIdent''"

interpretation key_ident: bytes_representable
  key_ident_bytes "key_ident_try_from n" n "\<lambda>k. length (key_ident_bytes k) = n" for n
  unfolding key_ident_try_from_def by (rule bytes_representable_array) simp_all

lemma unat_of_from_be: "(256 :: nat) ^ length bs \<le> 2 ^ LENGTH('a) \<Longrightarrow> unat (of_nat (from_be bs) :: 'a::len word) = from_be bs"
  using from_be_less [of bs] by (intro unat_of_nat_less) (rule less_le_trans)

text \<open>
  Key identifiers of four and eight bytes are the big-endian encodings of \<open>u32\<close> and \<open>u64\<close>
  values: both conversions are inverse to each other, and the derived order of the identifiers
  is the order of the numbers.
\<close>

theorem key_ident_int_roundtrip:
  "key_ident_into_u32 (key_ident_from_u32 v) = v
   \<and> key_ident_into_u64 (key_ident_from_u64 w) = w
   \<and> (length (key_ident_bytes k) = 4 \<longrightarrow> key_ident_from_u32 (key_ident_into_u32 k) = k)
   \<and> (length (key_ident_bytes k) = 8 \<longrightarrow> key_ident_from_u64 (key_ident_into_u64 k) = k)
   \<and> cmp_bytes (key_ident_bytes (key_ident_from_u32 v)) (key_ident_bytes (key_ident_from_u32 v')) = cmp_of v v'"
proof (intro conjI impI)
  have v: "unat x < 256 ^ 4" for x :: u32 using unat_less_2p [of x] by simp
  have w: "unat w < 256 ^ 8" using unat_less_2p [of w] by simp
  show "key_ident_into_u32 (key_ident_from_u32 v) = v" "key_ident_into_u64 (key_ident_from_u64 w) = w"
    by (simp_all add: key_ident_into_u32_def key_ident_from_u32_def key_ident_into_u64_def
        key_ident_from_u64_def from_be_to_be_id [OF v] from_be_to_be_id [OF w])
  show "cmp_bytes (key_ident_bytes (key_ident_from_u32 v)) (key_ident_bytes (key_ident_from_u32 v')) = cmp_of v v'"
    by (simp add: key_ident_from_u32_def cmp_bytes_from_be from_be_to_be_id [OF v] cmp_of_def
        word_less_nat_alt word_unat_eq_iff)
next
  assume a: "length (key_ident_bytes k) = 4"
  then have "unat (of_nat (from_be (key_ident_bytes k)) :: u32) = from_be (key_ident_bytes k)"
    by (intro unat_of_from_be) simp
  with a show "key_ident_from_u32 (key_ident_into_u32 k) = k"
    by (simp add: key_ident_from_u32_def key_ident_into_u32_def to_be_from_be_len)
next
  assume a: "length (key_ident_bytes k) = 8"
  then have "unat (of_nat (from_be (key_ident_bytes k)) :: u64) = from_be (key_ident_bytes k)"
    by (intro unat_of_from_be) simp
  with a show "key_ident_from_u64 (key_ident_into_u64 k) = k"
    by (simp add: key_ident_from_u64_def key_ident_into_u64_def to_be_from_be_len)
qed

theorem key_ident_int_roundtrip_witness:
  "key_ident_from_u32 (key_ident_into_u32 (KeyIdent [0, 0, 1, 2])) = KeyIdent [0, 0, 1, 2]
   \<and> key_ident_from_u64 (key_ident_into_u64 (KeyIdent [0, 0, 1, 2, 3, 4, 5, 6])) = KeyIdent [0, 0, 1, 2, 3, 4, 5, 6]"
  using key_ident_int_roundtrip [where k = "KeyIdent [0, 0, 1, 2]"]
    key_ident_int_roundtrip [where k = "KeyIdent [0, 0, 1, 2, 3, 4, 5, 6]"] by simp

section \<open>Shortened hexadecimal form\<close>

definition to_hex_shortened :: "hexlib \<Rightarrow> nat \<Rightarrow> bytes \<Rightarrow> string" where
  "to_hex_shortened h m data =
     (let num_chars = max m 4; k = (num_chars - 2) div 4 in
      if length data * 2 > m
      then hex_encode h (take k data) @ ''..'' @ hex_encode h (drop (length data - k) data)
      else hex_encode h data)"

text \<open>
  The slices stay within the data, and the text has at most \<open>m\<close> characters, except
  for a limit below 2, which still prints the two dots of the ellipsis.
\<close>

lemma to_hex_shortened_length:
  assumes "hex_ok h"
  shows "length (to_hex_shortened h m data) \<le> max m 2"
    and "length data * 2 > m \<Longrightarrow> (max m 4 - 2) div 4 \<le> length data"
proof -
  show "length (to_hex_shortened h m data) \<le> max m 2"
    by (auto simp: to_hex_shortened_def Let_def hex_okD [OF assms] max_def min_def)
  show "length data * 2 > m \<Longrightarrow> (max m 4 - 2) div 4 \<le> length data"
    by (simp only: max_def split: if_split) linarith
qed

text \<open>A limit of 0 or 1 is exceeded by any non-empty data.\<close>

lemma to_hex_shortened_exceeds:
  "hex_ok h \<Longrightarrow> m < 2 \<Longrightarrow> data \<noteq> [] \<Longrightarrow> length (to_hex_shortened h m data) = 2"
  by (cases data) (auto simp: to_hex_shortened_def Let_def hex_okD max_def)

end
