(* ===== verification/Balance.thy ===== *)
theory Balance
  imports Primitives
begin

text \<open>
  \<open>primitive/balance.rs\<close>: token balances. A \<open>Balance<C>\<close> is an amount in \<open>wei\<close> with a value of
  its currency type; the trait \<open>Currency\<close> is the record \<open>currency\<close> of the constants a currency
  type provides, and the locale \<open>currency_name_laws\<close> is what its users rely on. Printing and
  parsing call the \<open>regex\<close>, \<open>bigdecimal\<close> and \<open>primitive-types\<close> packages, which are the record
  \<open>declib\<close>; \<open>declib_ok\<close> states what their documentation promises on decimal numerals.
\<close>

section \<open>Currencies\<close>

record 'c currency =
  currency_name :: string
  currency_scale :: nat
  currency_default :: 'c

datatype wxhopr = WxHOPR
datatype xhopr = XHOPR
datatype xdai = XDai

definition wxhopr_currency :: "wxhopr currency" where
  "wxhopr_currency = \<lparr>currency_name = ''wxHOPR'', currency_scale = 18, currency_default = WxHOPR\<rparr>"

definition xhopr_currency :: "xhopr currency" where
  "xhopr_currency = \<lparr>currency_name = ''xHOPR'', currency_scale = 18, currency_default = XHOPR\<rparr>"

definition xdai_currency :: "xdai currency" where
  "xdai_currency = \<lparr>currency_name = ''xDai'', currency_scale = 18, currency_default = XDai\<rparr>"

definition currency_is :: "'c currency \<Rightarrow> 'd currency \<Rightarrow> bool" where
  "currency_is c d \<longleftrightarrow> currency_name c = currency_name d"

definition currency_name_matches :: "'c currency \<Rightarrow> string \<Rightarrow> (unit, general_error) res" where
  "currency_name_matches c s =
     (if eq_ignore_ascii_case s (currency_name c) then Ok ()
      else Err (ParseError ''invalid currency name''))"

definition currency_from_str :: "'c currency \<Rightarrow> string \<Rightarrow> ('c, general_error) res" where
  "currency_from_str c s = map_ok (\<lambda>_. currency_default c) (currency_name_matches c s)"

text \<open>\<open>Display\<close> of a currency prints its name.\<close>

definition currency_display :: "'c currency \<Rightarrow> string" where
  "currency_display c = currency_name c"

locale currency_name_laws =
  fixes C :: "'c currency"
  assumes single_value: "(x :: 'c) = currency_default C"
    and name_letters: "currency_name C \<noteq> []"
      "\<forall>c \<in> set (currency_name C). is_letter c"
    and name_not_wei: "take 3 (currency_name C) \<noteq> ''wei''"
    and scale_pos: "0 < currency_scale C"
begin

lemma from_str_display: "currency_from_str C (currency_display C) = Ok x"
  using single_value [of x]
  by (simp add: currency_from_str_def currency_name_matches_def eq_ignore_ascii_case_def
      currency_display_def)

lemma from_str_Ok_iff: "is_ok (currency_from_str C s) \<longleftrightarrow> eq_ignore_ascii_case s (currency_name C)"
  by (simp add: currency_from_str_def currency_name_matches_def)

end

interpretation wxhopr: currency_name_laws wxhopr_currency
proof unfold_locales
  fix x show "x = currency_default wxhopr_currency" by (cases x) (simp add: wxhopr_currency_def)
qed (simp_all add: wxhopr_currency_def is_letter_def)

interpretation xhopr: currency_name_laws xhopr_currency
proof unfold_locales
  fix x show "x = currency_default xhopr_currency" by (cases x) (simp add: xhopr_currency_def)
qed (simp_all add: xhopr_currency_def is_letter_def)

interpretation xdai: currency_name_laws xdai_currency
proof unfold_locales
  fix x show "x = currency_default xdai_currency" by (cases x) (simp add: xdai_currency_def)
qed (simp_all add: xdai_currency_def is_letter_def)

section \<open>Balances\<close>

datatype 'c balance = Balance (balance_wei: u256) (balance_currency: 'c)

type_synonym hopr_balance = "wxhopr balance"
type_synonym xhopr_balance = "xhopr balance"
type_synonym xdai_balance = "xdai balance"

definition balance_from :: "'c currency \<Rightarrow> u256 \<Rightarrow> 'c balance" where
  "balance_from c v = Balance v (currency_default c)"

text \<open>\<open>value * 10^SCALE\<close>; both the power and the product panic on overflow.\<close>

definition u256_exp10 :: "nat \<Rightarrow> u256 option" where
  "u256_exp10 n = (if (10 :: nat) ^ n < 2 ^ 256 then Some (of_nat (10 ^ n)) else None)"

definition balance_new_base :: "'c currency \<Rightarrow> u256 \<Rightarrow> 'c balance option" where
  "balance_new_base c v =
     (case u256_exp10 (currency_scale c) of
        None \<Rightarrow> None
      | Some s \<Rightarrow> map_option (\<lambda>p. Balance p (currency_default c)) (u256_mul v s))"

definition balance_zero :: "'c currency \<Rightarrow> 'c balance" where
  "balance_zero c = Balance 0 (currency_default c)"

definition balance_is_zero :: "'c balance \<Rightarrow> bool" where
  "balance_is_zero b \<longleftrightarrow> balance_wei b = 0"

definition balance_amount :: "'c balance \<Rightarrow> u256" where
  "balance_amount b = balance_wei b"

definition balance_add :: "'c currency \<Rightarrow> 'c balance \<Rightarrow> 'c balance \<Rightarrow> 'c balance" where
  "balance_add c a b = Balance (u256_saturating_add (balance_wei a) (balance_wei b)) (currency_default c)"

definition balance_add_u256 :: "'c currency \<Rightarrow> 'c balance \<Rightarrow> u256 \<Rightarrow> 'c balance" where
  "balance_add_u256 c a v = Balance (u256_saturating_add (balance_wei a) v) (currency_default c)"

definition balance_add_assign :: "'c balance \<Rightarrow> 'c balance \<Rightarrow> 'c balance" where
  "balance_add_assign a b = Balance (u256_saturating_add (balance_wei a) (balance_wei b)) (balance_currency a)"

definition balance_add_assign_u256 :: "'c balance \<Rightarrow> u256 \<Rightarrow> 'c balance" where
  "balance_add_assign_u256 a v = Balance (u256_saturating_add (balance_wei a) v) (balance_currency a)"

definition balance_sub :: "'c currency \<Rightarrow> 'c balance \<Rightarrow> 'c balance \<Rightarrow> 'c balance" where
  "balance_sub c a b = Balance (u256_saturating_sub (balance_wei a) (balance_wei b)) (currency_default c)"

definition balance_sub_u256 :: "'c currency \<Rightarrow> 'c balance \<Rightarrow> u256 \<Rightarrow> 'c balance" where
  "balance_sub_u256 c a v = Balance (u256_saturating_sub (balance_wei a) v) (currency_default c)"

definition balance_sub_assign :: "'c balance \<Rightarrow> 'c balance \<Rightarrow> 'c balance" where
  "balance_sub_assign a b = Balance (u256_saturating_sub (balance_wei a) (balance_wei b)) (balance_currency a)"

definition balance_sub_assign_u256 :: "'c balance \<Rightarrow> u256 \<Rightarrow> 'c balance" where
  "balance_sub_assign_u256 a v = Balance (u256_saturating_sub (balance_wei a) v) (balance_currency a)"

definition balance_mul :: "'c currency \<Rightarrow> 'c balance \<Rightarrow> 'c balance \<Rightarrow> 'c balance" where
  "balance_mul c a b = Balance (u256_saturating_mul (balance_wei a) (balance_wei b)) (currency_default c)"

definition balance_mul_u256 :: "'c currency \<Rightarrow> 'c balance \<Rightarrow> u256 \<Rightarrow> 'c balance" where
  "balance_mul_u256 c a v = Balance (u256_saturating_mul (balance_wei a) v) (currency_default c)"

definition balance_mul_assign :: "'c balance \<Rightarrow> 'c balance \<Rightarrow> 'c balance" where
  "balance_mul_assign a b = Balance (u256_saturating_mul (balance_wei a) (balance_wei b)) (balance_currency a)"

definition balance_mul_assign_u256 :: "'c balance \<Rightarrow> u256 \<Rightarrow> 'c balance" where
  "balance_mul_assign_u256 a v = Balance (u256_saturating_mul (balance_wei a) v) (balance_currency a)"

definition balance_sum :: "'c currency \<Rightarrow> 'c balance list \<Rightarrow> 'c balance" where
  "balance_sum c bs = foldl (balance_add c) (balance_zero c) bs"

definition balance_mul_f64 :: "'c currency \<Rightarrow> 'c balance \<Rightarrow> f64 \<Rightarrow> ('c balance, general_error) res" where
  "balance_mul_f64 c b r = map_ok (\<lambda>x. Balance x (currency_default c)) (u256_mul_f64 (balance_wei b) r)"

definition balance_div_f64 :: "'c currency \<Rightarrow> 'c balance \<Rightarrow> f64 \<Rightarrow> ('c balance, general_error) res" where
  "balance_div_f64 c b r = map_ok (\<lambda>x. Balance x (currency_default c)) (u256_div_f64 (balance_wei b) r)"

definition balance_from_be_bytes :: "'c currency \<Rightarrow> bytes \<Rightarrow> 'c balance option" where
  "balance_from_be_bytes c bs = map_option (\<lambda>v. Balance v (currency_default c)) (u256_from_be_bytes bs)"

definition balance_from_le_bytes :: "'c currency \<Rightarrow> bytes \<Rightarrow> 'c balance option" where
  "balance_from_le_bytes c bs = map_option (\<lambda>v. Balance v (currency_default c)) (u256_from_le_bytes bs)"

definition balance_to_be_bytes :: "'c balance \<Rightarrow> bytes" where
  "balance_to_be_bytes b = u256_to_be_bytes (balance_wei b)"

definition balance_to_le_bytes :: "'c balance \<Rightarrow> bytes" where
  "balance_to_le_bytes b = u256_to_le_bytes (balance_wei b)"

text \<open>The amount of a balance as a number, and balances as the saturating numbers below \<open>2^256\<close>.\<close>

definition wei :: "'c balance \<Rightarrow> nat" where
  "wei b = unat (balance_wei b)"

definition wei_max :: nat where
  "wei_max = 2 ^ 256 - 1"

lemma wei_le_max: "wei b \<le> wei_max"
  using unat_u256_less [of "balance_wei b"] by (simp add: wei_def wei_max_def)

lemma wei_ops [simp]:
  "wei (balance_zero c) = 0"
  "wei (balance_add c a b) = min (wei a + wei b) wei_max"
  "wei (balance_sub c a b) = wei a - wei b"
  "wei (balance_mul c a b) = min (wei a * wei b) wei_max"
  by (simp_all add: wei_def wei_max_def balance_zero_def balance_add_def balance_sub_def
      balance_mul_def unat_saturating_add unat_saturating_sub unat_saturating_mul)

lemma balance_assign_ops:
  "wei (balance_add_assign a b) = min (wei a + wei b) wei_max"
  "wei (balance_sub_assign a b) = wei a - wei b"
  "wei (balance_mul_assign a b) = min (wei a * wei b) wei_max"
  by (simp_all add: wei_def wei_max_def balance_add_assign_def balance_sub_assign_def
      balance_mul_assign_def unat_saturating_add unat_saturating_sub unat_saturating_mul)

lemma wei_fold_add:
  "wei (foldl (balance_add c) a bs) = min (wei a + sum_list (map wei bs)) wei_max"
proof (induction bs arbitrary: a)
  case Nil
  then show ?case using wei_le_max [of a] by simp
next
  case (Cons b bs)
  then show ?case by (simp add: min_def)
qed

lemma balance_eqI: "wei a = wei b \<Longrightarrow> balance_currency a = balance_currency b \<Longrightarrow> a = b"
  by (cases a; cases b) (simp add: wei_def word_unat_eq_iff)

text \<open>
  Balance arithmetic is saturating: the sum of any sequence of balances is the exact sum of
  the amounts cut off at \<open>2^256 - 1\<close>, whatever the order and the grouping; sums and products of
  two balances are cut off there too, and a difference is cut off at zero.
\<close>

theorem balance_saturates:
  "wei (balance_sum c bs) = min (sum_list (map wei bs)) (2 ^ 256 - 1)
   \<and> balance_sum c (xs @ ys) = balance_sum c (ys @ xs)
   \<and> wei (balance_add c a b) = min (wei a + wei b) (2 ^ 256 - 1)
   \<and> wei (balance_sub c a b) = wei a - wei b
   \<and> wei (balance_mul c a b) = min (wei a * wei b) (2 ^ 256 - 1)
   \<and> wei (balance_sub c (balance_add c a b) b) = min (wei a) (2 ^ 256 - 1 - wei b)"
proof (intro conjI)
  show "wei (balance_sum c bs) = min (sum_list (map wei bs)) (2 ^ 256 - 1)"
    by (simp add: balance_sum_def wei_fold_add wei_max_def)
  have cur: "balance_currency (balance_sum c zs) = currency_default c" for zs
    by (cases zs rule: rev_cases) (simp_all add: balance_sum_def balance_zero_def balance_add_def)
  show "balance_sum c (xs @ ys) = balance_sum c (ys @ xs)"
    by (rule balance_eqI) (simp add: balance_sum_def wei_fold_add add.commute, simp add: cur)
  have "min (wei a + wei b) wei_max - wei b = min (wei a) (wei_max - wei b)"
    using wei_le_max [of b] by linarith
  then show "wei (balance_sub c (balance_add c a b) b) = min (wei a) (2 ^ 256 - 1 - wei b)"
    by (simp only: wei_ops wei_max_def)
qed (simp_all add: wei_max_def)

section \<open>Printing and parsing\<close>

text \<open>
  The decimal numerals the external packages print and read: digits, and digits with a
  fraction. A \<open>BigDecimal\<close> is the rational number it denotes.
\<close>

definition int_part :: "string \<Rightarrow> string" where
  "int_part s = takeWhile is_digit s"

definition frac_part :: "string \<Rightarrow> string" where
  "frac_part s = drop 1 (dropWhile is_digit s)"

definition is_decimal :: "string \<Rightarrow> bool" where
  "is_decimal s \<longleftrightarrow> is_digits (int_part s)
     \<and> (dropWhile is_digit s = [] \<or> (hd (dropWhile is_digit s) = CHR ''.'' \<and> is_digits (frac_part s)))"

definition decimal_val :: "string \<Rightarrow> rat" where
  "decimal_val s = of_nat (digits_val (int_part s)) + of_nat (digits_val (frac_part s)) / 10 ^ length (frac_part s)"

text \<open>
  \<open>captures\<close>: the three groups of \<open>BALANCE_REGEX\<close>; \<open>dec_parse\<close>: \<open>BigDecimal::from_str\<close>;
  \<open>dec_plain\<close>: \<open>BigDecimal::from_biguint(n, scale).to_plain_string()\<close>; \<open>dec_frac_count\<close>: its
  \<open>fractional_digit_count\<close>; \<open>u256_print\<close>: \<open>Display\<close> of \<open>U256\<close>.
\<close>

record declib =
  captures :: "string \<Rightarrow> (string \<times> string option \<times> string) option"
  dec_parse :: "string \<Rightarrow> rat option"
  dec_plain :: "nat \<Rightarrow> nat \<Rightarrow> string"
  dec_frac_count :: "nat \<Rightarrow> nat \<Rightarrow> nat"
  u256_print :: "u256 \<Rightarrow> string"

definition is_name :: "string \<Rightarrow> bool" where
  "is_name s \<longleftrightarrow> s \<noteq> [] \<and> take 3 s \<noteq> ''wei'' \<and> (\<forall>c \<in> set s. is_letter c)"

definition declib_ok :: "declib \<Rightarrow> bool" where
  "declib_ok D \<longleftrightarrow>
     (\<forall>d n. is_decimal d \<longrightarrow> is_name n \<longrightarrow> captures D (d @ '' '' @ n) = Some (d, None, n)
        \<and> captures D (d @ '' wei '' @ n) = Some (d, Some ''wei '', n))
   \<and> (\<forall>d. is_decimal d \<longrightarrow> dec_parse D d = Some (decimal_val d))
   \<and> (\<forall>n k. 0 < k \<longrightarrow> is_decimal (dec_plain D n k) \<and> dropWhile is_digit (dec_plain D n k) \<noteq> []
        \<and> decimal_val (dec_plain D n k) = of_nat n / 10 ^ k \<and> dec_frac_count D n k = k)
   \<and> (\<forall>w. is_digits (u256_print D w) \<and> digits_val (u256_print D w) = unat w)"

definition WEI_PREFIX :: string where
  "WEI_PREFIX = ''wei''"

definition balance_amount_in_base_units :: "declib \<Rightarrow> 'c currency \<Rightarrow> 'c balance \<Rightarrow> string" where
  "balance_amount_in_base_units D c b =
     (let n = from_be (u256_to_be_bytes (balance_wei b));
          str = dec_plain D n (currency_scale c)
      in if dec_frac_count D n (currency_scale c) > 0
         then trim_end_matches (CHR ''.'') (trim_end_matches (CHR ''0'') str)
         else str)"

definition balance_display :: "declib \<Rightarrow> 'c currency \<Rightarrow> 'c balance \<Rightarrow> string" where
  "balance_display D c b = balance_amount_in_base_units D c b @ '' '' @ currency_display c"

definition balance_format_in_wei :: "declib \<Rightarrow> 'c currency \<Rightarrow> 'c balance \<Rightarrow> string" where
  "balance_format_in_wei D c b =
     u256_print D (balance_wei b) @ '' '' @ WEI_PREFIX @ '' '' @ currency_display c"

text \<open>\<open>to_bigint\<close> truncates towards zero; \<open>to_biguint\<close> has no value for a negative number.\<close>

definition dec_to_biguint :: "rat \<Rightarrow> nat option" where
  "dec_to_biguint q =
     (let b = (if 0 \<le> q then \<lfloor>q\<rfloor> else \<lceil>q\<rceil>) in if 0 \<le> b then Some (nat b) else None)"

definition balance_from_str :: "declib \<Rightarrow> 'c currency \<Rightarrow> string \<Rightarrow> ('c balance, general_error) res" where
  "balance_from_str D c s =
     and_then (ok_or (ParseError ''cannot parse balance'') (captures D s)) (\<lambda>(g1, g2, g3).
     and_then (currency_from_str c g3) (\<lambda>cur.
     and_then (ok_or (ParseError ''invalid balance value'') (dec_parse D (remove_spaces g1))) (\<lambda>value.
       let value' = (if g2 = None then value * 10 ^ currency_scale c else value) in
       and_then (expect (dec_to_biguint value')) (\<lambda>n.
         if n > from_be (u256_to_be_bytes u256_max)
         then Err (ParseError ''balance value out of bounds'')
         else Ok (Balance (of_nat n) cur)))))"

lemma is_digits_decimal:
  assumes "is_digits s"
  shows "is_decimal s" "decimal_val s = of_nat (digits_val s)"
  using assms
  by (simp_all only: is_decimal_def decimal_val_def int_part_def frac_part_def
      takeWhile_digits [OF assms]) simp_all

lemma decimal_parts:
  assumes "is_digits i" "is_digits f"
  shows "is_decimal (i @ CHR ''.'' # f)"
    "decimal_val (i @ CHR ''.'' # f) = of_nat (digits_val i) + of_nat (digits_val f) / 10 ^ length f"
proof -
  have "\<not> is_digit (CHR ''.'')" using is_digit_not_special by blast
  then have "takeWhile is_digit (i @ CHR ''.'' # f) = i" "dropWhile is_digit (i @ CHR ''.'' # f) = CHR ''.'' # f"
    using assms by (simp_all add: is_digits_def takeWhile_append dropWhile_append)
  with assms show "is_decimal (i @ CHR ''.'' # f)"
    "decimal_val (i @ CHR ''.'' # f) = of_nat (digits_val i) + of_nat (digits_val f) / 10 ^ length f"
    by (simp_all add: is_decimal_def decimal_val_def int_part_def frac_part_def)
qed

lemma decimal_split:
  assumes "is_decimal s" "dropWhile is_digit s \<noteq> []"
  obtains i f where "s = i @ CHR ''.'' # f" "is_digits i" "is_digits f"
proof
  show "s = int_part s @ CHR ''.'' # frac_part s"
    using assms takeWhile_dropWhile_id [of is_digit s]
    by (cases "dropWhile is_digit s") (auto simp: is_decimal_def int_part_def frac_part_def)
  show "is_digits (int_part s)" "is_digits (frac_part s)"
    using assms by (auto simp: is_decimal_def)
qed

lemma decimal_chars: "is_decimal s \<Longrightarrow> c \<in> set s \<Longrightarrow> is_digit c \<or> c = CHR ''.''"
proof (cases "dropWhile is_digit s = []")
  case True
  assume "is_decimal s" "c \<in> set s"
  with True show ?thesis by (simp add: dropWhile_eq_Nil_conv)
next
  case False
  assume "is_decimal s" "c \<in> set s"
  with False show ?thesis by (elim decimal_split) (auto simp: is_digits_def)
qed

lemma remove_spaces_decimal [simp]: "is_decimal s \<Longrightarrow> remove_spaces s = s"
  using decimal_chars is_digit_not_special
  by (fastforce simp: remove_spaces_def filter_id_conv)

lemma decimal_val_nonneg: "0 \<le> decimal_val s"
  by (simp add: decimal_val_def)

text \<open>Trailing zeros of a fraction, and a point left at the end, do not change the value.\<close>

lemma trimmed_decimal:
  assumes "is_decimal s" "dropWhile is_digit s \<noteq> []"
  defines "t \<equiv> trim_end_matches (CHR ''.'') (trim_end_matches (CHR ''0'') s)"
  shows "is_decimal t \<and> decimal_val t = decimal_val s"
proof -
  obtain i f where s: "s = i @ CHR ''.'' # f" and i: "is_digits i" and f: "is_digits f"
    using assms decimal_split by blast
  obtain f' k where k: "f = f' @ replicate k (CHR ''0'')" and l: "f' = [] \<or> last f' \<noteq> CHR ''0''"
    by (rule trailing_split)
  have "trim_end_matches (CHR ''0'') s = trim_end_matches (CHR ''0'') (i @ CHR ''.'' # f')"
    using trim_end_matches_replicate [of "CHR ''0''" "i @ CHR ''.'' # f'" k] by (simp add: s k)
  also have "\<dots> = i @ CHR ''.'' # f'" by (rule trim_end_matches_id) (use l in auto)
  finally have t: "t = trim_end_matches (CHR ''.'') (i @ CHR ''.'' # f')" by (simp add: t_def)
  show ?thesis
  proof (cases "f' = []")
    case True
    have "last i \<noteq> CHR ''.''" using i is_digit_not_special by (auto simp: is_digits_def)
    then have "t = i"
      using t True trim_end_matches_replicate [of "CHR ''.''" i 1] trim_end_matches_id [of i "CHR ''.''"]
      by simp
    moreover have "digits_val f = 0" using digits_val_zeros [of "[]" k] by (simp add: k True)
    ultimately show ?thesis using i f by (simp add: s decimal_parts is_digits_decimal)
  next
    case False
    then have f': "is_digits f'" using f by (simp add: k is_digits_def)
    then have "last f' \<noteq> CHR ''.''" using False is_digit_not_special by (auto simp: is_digits_def)
    then have "t = i @ CHR ''.'' # f'" using t False by (simp add: trim_end_matches_id)
    moreover have "of_nat (digits_val f) / 10 ^ length f = (of_nat (digits_val f') / 10 ^ length f' :: rat)"
      by (simp add: k digits_val_zeros power_add)
    ultimately show ?thesis using i f f' by (simp add: s decimal_parts)
  qed
qed

lemma dec_to_biguint_nonneg: "0 \<le> q \<Longrightarrow> dec_to_biguint q = Some (nat \<lfloor>q\<rfloor>)"
  by (simp add: dec_to_biguint_def Let_def)

lemma from_be_u256_max: "from_be (u256_to_be_bytes u256_max) = 2 ^ 256 - 1"
  by (simp add: u256_to_be_bytes_def from_be_to_be)

lemma balance_from_str_captured:
  assumes "captures D s = Some (d, g2, currency_display C)" "is_decimal d"
    "dec_parse D d = Some (decimal_val d)" "currency_name_laws C"
  shows "balance_from_str D C s =
    (let n = nat \<lfloor>decimal_val d * (if g2 = None then 10 ^ currency_scale C else 1)\<rfloor> in
     if n < 2 ^ 256 then Ok (Balance (of_nat n) (currency_default C))
     else Err (ParseError ''balance value out of bounds''))"
proof -
  have "0 \<le> decimal_val d * 10 ^ currency_scale C" "0 \<le> decimal_val d"
    using decimal_val_nonneg [of d] by simp_all
  moreover have "(n :: nat) > 2 ^ 256 - 1 \<longleftrightarrow> \<not> n < 2 ^ 256" for n by auto
  ultimately show ?thesis
    using assms(1-3) currency_name_laws.from_str_display [OF assms(4), of "currency_default C"]
    by (simp add: balance_from_str_def dec_to_biguint_nonneg from_be_u256_max Let_def
        del: One_nat_def)
qed

text \<open>
  Parsing \<open>d NAME\<close> for a decimal numeral \<open>d\<close> of any length multiplies by \<open>10^SCALE\<close>, drops the
  digits beyond the smallest unit and fails exactly if the result exceeds 256 bits; parsing
  \<open>d wei NAME\<close> does the same without the scaling.
\<close>

theorem balance_from_str_spec:
  assumes "declib_ok D" "is_decimal d"
  shows "balance_from_str D wxhopr_currency (d @ '' wxHOPR'') =
      (let n = nat \<lfloor>decimal_val d * 10 ^ 18\<rfloor> in
       if n < 2 ^ 256 then Ok (Balance (of_nat n) WxHOPR)
       else Err (ParseError ''balance value out of bounds''))
    \<and> balance_from_str D wxhopr_currency (d @ '' wei wxHOPR'') =
      (let n = nat \<lfloor>decimal_val d\<rfloor> in
       if n < 2 ^ 256 then Ok (Balance (of_nat n) WxHOPR)
       else Err (ParseError ''balance value out of bounds''))"
proof
  have n: "is_name ''wxHOPR''" by (simp add: is_name_def is_letter_def)
  have p: "dec_parse D d = Some (decimal_val d)" using assms by (simp add: declib_ok_def)
  have c: "currency_display wxhopr_currency = ''wxHOPR''" "currency_scale wxhopr_currency = 18"
    "currency_default wxhopr_currency = WxHOPR"
    by (simp_all add: currency_display_def wxhopr_currency_def)
  have "captures D (d @ '' '' @ ''wxHOPR'') = Some (d, None, ''wxHOPR'')"
    "captures D (d @ '' wei '' @ ''wxHOPR'') = Some (d, Some ''wei '', ''wxHOPR'')"
    using assms n by (simp_all only: declib_ok_def)
  then have a: "captures D (d @ '' wxHOPR'') = Some (d, None, currency_display wxhopr_currency)"
    "captures D (d @ '' wei wxHOPR'') = Some (d, Some ''wei '', currency_display wxhopr_currency)"
    by (simp_all add: c)
  show "balance_from_str D wxhopr_currency (d @ '' wxHOPR'') =
      (let n = nat \<lfloor>decimal_val d * 10 ^ 18\<rfloor> in
       if n < 2 ^ 256 then Ok (Balance (of_nat n) WxHOPR)
       else Err (ParseError ''balance value out of bounds''))"
    using balance_from_str_captured [OF a(1) assms(2) p wxhopr.currency_name_laws_axioms]
    by (simp only: c if_True simp_thms)
  show "balance_from_str D wxhopr_currency (d @ '' wei wxHOPR'') =
      (let n = nat \<lfloor>decimal_val d\<rfloor> in
       if n < 2 ^ 256 then Ok (Balance (of_nat n) WxHOPR)
       else Err (ParseError ''balance value out of bounds''))"
    using balance_from_str_captured [OF a(2) assms(2) p wxhopr.currency_name_laws_axioms]
    by (simp only: c option.distinct(2) if_False mult_1_right)
qed

text \<open>
  Printing and parsing: the text \<open>Display\<close> prints for a balance (in base units, without
  trailing zeros) and the text \<open>format_in_wei\<close> prints both parse to the same balance.
\<close>

theorem balance_display_roundtrip:
  assumes "declib_ok D"
  shows "balance_from_str D wxhopr_currency (balance_display D wxhopr_currency b) = Ok b
    \<and> balance_from_str D wxhopr_currency (balance_format_in_wei D wxhopr_currency b) = Ok b"
proof -
  have c: "currency_display wxhopr_currency = ''wxHOPR''" "currency_scale wxhopr_currency = 18"
    "currency_default wxhopr_currency = balance_currency b" "is_name ''wxHOPR''"
    by (simp_all add: currency_display_def wxhopr_currency_def is_name_def is_letter_def)
      (cases "balance_currency b"; simp)
  define t where "t = balance_amount_in_base_units D wxhopr_currency b"
  define p where "p = dec_plain D (wei b) 18"
  have w: "wei b < 2 ^ 256" "of_nat (wei b) = balance_wei b"
    using unat_u256_less [of "balance_wei b"] by (simp_all add: wei_def)
  have "from_be (u256_to_be_bytes (balance_wei b)) = wei b"
    using unat_u256_less [of "balance_wei b"] by (simp add: u256_to_be_bytes_def wei_def from_be_to_be)
  moreover have p: "is_decimal p" "dropWhile is_digit p \<noteq> []" "decimal_val p = of_nat (wei b) / 10 ^ 18"
    "dec_frac_count D (wei b) 18 = 18"
    using assms unfolding p_def declib_ok_def by (metis zero_less_numeral)+
  ultimately have t: "t = trim_end_matches (CHR ''.'') (trim_end_matches (CHR ''0'') p)"
    by (simp add: t_def balance_amount_in_base_units_def c p_def Let_def)
  from trimmed_decimal [OF p(1,2)] t p(3)
  have t': "is_decimal t" "decimal_val t = of_nat (wei b) / 10 ^ 18" by simp_all
  have cap: "captures D (t @ '' '' @ ''wxHOPR'') = Some (t, None, ''wxHOPR'')"
    using assms t' c(4) by (simp only: declib_ok_def)
  have tp: "dec_parse D t = Some (decimal_val t)" using assms t' by (simp only: declib_ok_def)
  have disp: "balance_display D wxhopr_currency b = t @ '' '' @ ''wxHOPR''"
    by (simp only: balance_display_def t_def c)
  have "balance_from_str D wxhopr_currency (balance_display D wxhopr_currency b) = Ok b"
    unfolding disp using balance_from_str_captured [OF cap [folded c(1)] t'(1) tp
        wxhopr.currency_name_laws_axioms] w
    by (simp add: c t' Let_def)
  moreover define u where "u = u256_print D (balance_wei b)"
  have u: "is_digits u" "digits_val u = wei b" using assms by (simp_all add: u_def declib_ok_def wei_def)
  note u' = is_digits_decimal [OF u(1)]
  have ucap: "captures D (u @ '' wei '' @ ''wxHOPR'') = Some (u, Some ''wei '', ''wxHOPR'')"
    using assms u' c(4) by (simp only: declib_ok_def)
  have up: "dec_parse D u = Some (decimal_val u)" using assms u' by (simp only: declib_ok_def)
  have fmt: "balance_format_in_wei D wxhopr_currency b = u @ '' wei '' @ ''wxHOPR''"
    by (simp add: balance_format_in_wei_def u_def c WEI_PREFIX_def)
  have "balance_from_str D wxhopr_currency (balance_format_in_wei D wxhopr_currency b) = Ok b"
    unfolding fmt using balance_from_str_captured [OF ucap [folded c(1)] u'(1) up
        wxhopr.currency_name_laws_axioms] w
    by (simp add: c u' u Let_def)
  ultimately show ?thesis by blast
qed

text \<open>A library that keeps the promises, for the witnesses.\<close>

text \<open>The text before a name, reversed: spaces, then optionally \<open>wei\<close>, then the numeral.\<close>

definition std_number :: "string \<Rightarrow> string option" where
  "std_number r =
     (let d = rev (dropWhile ((=) CHR '' '') r)
      in if take 1 r = '' '' \<and> d \<noteq> [] \<and> is_digit (last d)
            \<and> (\<forall>c \<in> set d. is_digit c \<or> c = CHR ''.'' \<or> c = CHR '' '')
         then Some d else None)"

definition std_captures :: "string \<Rightarrow> (string \<times> string option \<times> string) option" where
  "std_captures s =
     (let n = rev (takeWhile is_letter (rev s)); r = dropWhile is_letter (rev s) in
      if n = [] then None
      else if take 3 (drop 1 r) = ''iew'' \<and> take 1 r \<in> {'' '', ''_''}
      then map_option (\<lambda>d. (d, Some (''wei'' @ take 1 r), n)) (std_number (drop 4 r))
      else if take 3 n = ''wei'' \<and> 3 < length n
      then map_option (\<lambda>d. (d, Some ''wei'', drop 3 n)) (std_number r)
      else map_option (\<lambda>d. (d, None, n)) (std_number r))"

definition declib_std :: declib where
  "declib_std = \<lparr>
     captures = std_captures,
     dec_parse = (\<lambda>s. if is_decimal s then Some (decimal_val s) else None),
     dec_plain = (\<lambda>n k. show_nat (n div 10 ^ k) @ (if k = 0 then [] else CHR ''.'' # show_digits k n)),
     dec_frac_count = (\<lambda>n k. k),
     u256_print = (\<lambda>w. show_nat (unat w))\<rparr>"

lemma decimal_last: "is_decimal s \<Longrightarrow> s \<noteq> [] \<and> is_digit (last s)"
proof (cases "dropWhile is_digit s = []")
  case True
  assume "is_decimal s"
  then have "is_digits (takeWhile is_digit s)" by (simp add: is_decimal_def int_part_def)
  with True show ?thesis
    by (auto simp: is_digits_def dropWhile_eq_Nil_conv) (metis last_in_set takeWhile.simps(1))
next
  case False
  assume "is_decimal s"
  with False show ?thesis by (elim decimal_split) (auto simp: is_digits_def)
qed

lemma std_number_decimal:
  assumes "is_decimal d"
  shows "std_number (CHR '' '' # rev d) = Some d"
proof -
  have l: "d \<noteq> []" "is_digit (last d)" using decimal_last [OF assms] by simp_all
  then have "rev d \<noteq> []" "hd (rev d) \<noteq> CHR '' ''" using is_digit_not_special by (auto simp: hd_rev)
  then have "dropWhile ((=) CHR '' '') (rev d) = rev d" by (cases "rev d") auto
  then show ?thesis using l decimal_chars [OF assms] by (auto simp: std_number_def Let_def)
qed

lemma std_captures_decimal:
  assumes "is_decimal d" "is_name n"
  shows "std_captures (d @ '' '' @ n) = Some (d, None, n)"
    and "std_captures (d @ '' wei '' @ n) = Some (d, Some ''wei '', n)"
proof -
  have n: "\<And>c. c \<in> set n \<Longrightarrow> is_letter c" "n \<noteq> []" "take 3 n \<noteq> ''wei''"
    using assms(2) by (simp_all add: is_name_def)
  have sp: "\<not> is_letter (CHR '' '')" by (simp add: is_letter_def)
  have tk: "takeWhile is_letter (rev n @ CHR '' '' # r) = rev n"
    "dropWhile is_letter (rev n @ CHR '' '' # r) = CHR '' '' # r" for r
    using n sp by (simp_all add: takeWhile_append dropWhile_append)
  obtain d' where d': "rev d = last d # d'" "is_digit (last d)"
    using decimal_last [OF assms(1)] by (metis hd_rev list.collapse rev_is_Nil_conv)
  have "take 3 (rev d) = last d # take 2 d'" by (subst d'(1)) simp
  moreover have "\<not> is_digit (CHR ''i'')" by (simp add: is_digit_def)
  ultimately have "\<not> take 3 (rev d) = ''iew''" using d'(2) by auto
  then show "std_captures (d @ '' '' @ n) = Some (d, None, n)"
    using n std_number_decimal [OF assms(1)] by (simp add: std_captures_def Let_def tk)
  show "std_captures (d @ '' wei '' @ n) = Some (d, Some ''wei '', n)"
    using n std_number_decimal [OF assms(1)] by (simp add: std_captures_def Let_def tk)
qed

lemma declib_ok_std: "declib_ok declib_std"
  unfolding declib_ok_def
proof (intro conjI allI impI)
  fix n k :: nat
  assume k: "0 < k"
  let ?i = "show_nat (n div 10 ^ k)" and ?f = "show_digits k n"
  have i: "is_digits ?i" "digits_val ?i = n div 10 ^ k" using show_nat_digits by simp_all
  have f: "is_digits ?f" "digits_val ?f = n mod 10 ^ k" "length ?f = k"
    using show_digits [of k n] k by (auto simp: is_digits_def)
  have p: "dec_plain declib_std n k = ?i @ CHR ''.'' # ?f" using k by (simp add: declib_std_def)
  show "is_decimal (dec_plain declib_std n k)" unfolding p by (rule decimal_parts [OF i(1) f(1)])
  have "CHR ''.'' \<in> set (?i @ CHR ''.'' # ?f)" "\<not> is_digit (CHR ''.'')"
    using is_digit_not_special by auto
  then show "dropWhile is_digit (dec_plain declib_std n k) \<noteq> []"
    unfolding p dropWhile_eq_Nil_conv by blast
  have "of_nat (n div 10 ^ k * 10 ^ k + n mod 10 ^ k)
      = of_nat (n div 10 ^ k) * 10 ^ k + (of_nat (n mod 10 ^ k) :: rat)"
    by (simp only: of_nat_add of_nat_mult of_nat_power of_nat_numeral)
  then have "of_nat n = of_nat (n div 10 ^ k) * 10 ^ k + (of_nat (n mod 10 ^ k) :: rat)"
    by (simp only: div_mult_mod_eq)
  then show "decimal_val (dec_plain declib_std n k) = of_nat n / 10 ^ k"
    unfolding p decimal_parts(2) [OF i(1) f(1)] by (simp add: i f add_divide_distrib)
  show "dec_frac_count declib_std n k = k" by (simp add: declib_std_def)
qed (simp_all add: declib_std_def std_captures_decimal [simplified] show_nat_digits)

theorem balance_from_str_spec_witness:
  "balance_from_str declib_std wxhopr_currency (''15'' @ '' wxHOPR'') = Ok (Balance 15000000000000000000 WxHOPR)"
proof -
  have a: "is_digits ''15''" "digits_val ''15'' = 15"
    by (simp_all add: is_digits_def is_digit_def digits_val_def digit_val_def)
  then show ?thesis
    using balance_from_str_spec [OF declib_ok_std is_digits_decimal(1) [OF a(1)]]
    by (simp add: is_digits_decimal Let_def)
qed

theorem balance_display_roundtrip_witness:
  "balance_from_str declib_std wxhopr_currency (balance_display declib_std wxhopr_currency (Balance 5 WxHOPR))
     = Ok (Balance 5 WxHOPR)"
  using balance_display_roundtrip [OF declib_ok_std] by blast

end
