(* ===== verification/Crypto_Types.thy ===== *)
theory Crypto_Types
  imports Primitives
begin

text \<open>
  \<open>crypto/types.rs\<close>, the secp256k1 side: hashes, public keys, half-keys, half-key challenges,
  Proof-of-Relay challenges and responses, pseudonyms. The curve arithmetic and the encodings
  of the packages \<open>k256\<close> and \<open>secp256k1\<close> and the Keccak digest are the record \<open>secp\<close>, whose
  documented laws are \<open>secp_ok\<close>; a point is a value of a type parameter. The cargo feature
  \<open>rust-ecdsa\<close>, which selects the package, is a Boolean argument.
\<close>

section \<open>Hashes\<close>

datatype hash = Hash (hash_bytes: bytes)

definition HASH_BASE_SIZE :: nat where
  "HASH_BASE_SIZE = 32"

definition hash_default :: hash where
  "hash_default = Hash (replicate HASH_BASE_SIZE 0)"

text \<open>\<open>create\<close> feeds the inputs one after another: the digest of their concatenation.\<close>

definition hash_create :: "(bytes \<Rightarrow> bytes) \<Rightarrow> bytes list \<Rightarrow> hash" where
  "hash_create digest inputs = Hash (digest (concat inputs))"

definition hash_again :: "(bytes \<Rightarrow> bytes) \<Rightarrow> hash \<Rightarrow> hash" where
  "hash_again digest h = hash_create digest [hash_bytes h]"

definition hash_cmp :: "hash \<Rightarrow> hash \<Rightarrow> ordering" where
  "hash_cmp a b = cmp_bytes (hash_bytes a) (hash_bytes b)"

definition hash_try_from :: "bytes \<Rightarrow> (hash, general_error) res" where
  "hash_try_from = array_try_from Hash HASH_BASE_SIZE ''Hash''"

definition wf_hash :: "hash \<Rightarrow> bool" where
  "wf_hash h \<longleftrightarrow> length (hash_bytes h) = HASH_BASE_SIZE"

interpretation hash: bytes_representable hash_bytes hash_try_from HASH_BASE_SIZE wf_hash
  unfolding wf_hash_def hash_try_from_def by (rule bytes_representable_array) simp_all

definition digest32 :: "(bytes \<Rightarrow> bytes) \<Rightarrow> bool" where
  "digest32 d \<longleftrightarrow> (\<forall>bs. length (d bs) = 32)"

lemma wf_hash_create [simp]: "digest32 d \<Longrightarrow> wf_hash (hash_create d inputs)"
  by (simp add: wf_hash_def hash_create_def digest32_def HASH_BASE_SIZE_def)

text \<open>How the inputs are split does not matter to the hash.\<close>

lemma hash_create_append: "hash_create d (xs @ ys) = hash_create d [concat xs @ concat ys]"
  by (simp add: hash_create_def)

section \<open>The curve\<close>

text \<open>
  \<open>secp_parse\<close>: SEC1 decoding by \<open>k256\<close>; \<open>secp_native_parse\<close>: \<open>from_byte_array_compressed\<close> of
  the \<open>secp256k1\<close> package; \<open>secp_scalar\<close>: \<open>Scalar::from_repr\<close>; \<open>secp_native_secret\<close>:
  \<open>SecretKey::from_byte_array\<close>; \<open>secp_scalar_bytes\<close>: the big-endian form of a scalar.
\<close>

record 'p secp =
  secp_order :: nat
  secp_identity :: 'p
  secp_add :: "'p \<Rightarrow> 'p \<Rightarrow> 'p"
  secp_base_mul :: "nat \<Rightarrow> 'p"
  secp_compressed :: "'p \<Rightarrow> bytes"
  secp_uncompressed :: "'p \<Rightarrow> bytes"
  secp_parse :: "bytes \<Rightarrow> 'p option"
  secp_native_parse :: "bytes \<Rightarrow> 'p option"
  secp_scalar :: "bytes \<Rightarrow> nat option"
  secp_native_secret :: "bytes \<Rightarrow> nat option"
  secp_scalar_bytes :: "nat \<Rightarrow> bytes"
  keccak256 :: "bytes \<Rightarrow> bytes"

definition secp_ok :: "'p secp \<Rightarrow> bool" where
  "secp_ok L \<longleftrightarrow>
     1 < secp_order L \<and> secp_order L < 2 ^ 256
   \<and> (\<forall>a b. secp_add L (secp_base_mul L a) (secp_base_mul L b) = secp_base_mul L (a + b))
   \<and> (\<forall>a. secp_base_mul L (a mod secp_order L) = secp_base_mul L a)
   \<and> (\<forall>a. secp_base_mul L a = secp_identity L \<longleftrightarrow> a mod secp_order L = 0)
   \<and> length (secp_compressed L (secp_identity L)) = 1 \<and> length (secp_uncompressed L (secp_identity L)) = 1
   \<and> (\<forall>p. p \<noteq> secp_identity L \<longrightarrow>
        length (secp_compressed L p) = 33 \<and> length (secp_uncompressed L p) = 65
      \<and> secp_uncompressed L p ! 0 = 4
      \<and> secp_parse L (secp_compressed L p) = Some p \<and> secp_parse L (secp_uncompressed L p) = Some p
      \<and> secp_native_parse L (secp_compressed L p) = Some p)
   \<and> (\<forall>bs p. secp_native_parse L bs = Some p \<longrightarrow> p \<noteq> secp_identity L \<and> secp_compressed L p = bs)
   \<and> (\<forall>bs v. secp_scalar L bs = Some v \<longleftrightarrow> length bs = 32 \<and> v = from_be bs \<and> v < secp_order L)
   \<and> (\<forall>bs v. secp_native_secret L bs = Some v \<longleftrightarrow>
        length bs = 32 \<and> v = from_be bs \<and> 0 < v \<and> v < secp_order L)
   \<and> (\<forall>v. secp_scalar_bytes L v = to_be 32 v)
   \<and> digest32 (keccak256 L)"

lemma secp_okD:
  assumes "secp_ok L"
  shows "1 < secp_order L" "secp_order L < 2 ^ 256"
    and "secp_add L (secp_base_mul L a) (secp_base_mul L b) = secp_base_mul L (a + b)"
    and "secp_base_mul L (a mod secp_order L) = secp_base_mul L a"
    and "secp_base_mul L a = secp_identity L \<longleftrightarrow> a mod secp_order L = 0"
    and "secp_native_parse L bs = Some p \<Longrightarrow> p \<noteq> secp_identity L \<and> secp_compressed L p = bs"
    and "secp_scalar L bs = Some v \<longleftrightarrow> length bs = 32 \<and> v = from_be bs \<and> v < secp_order L"
    and "secp_native_secret L bs = Some v \<longleftrightarrow>
        length bs = 32 \<and> v = from_be bs \<and> 0 < v \<and> v < secp_order L"
    and "secp_scalar_bytes L v = to_be 32 v"
    and "digest32 (keccak256 L)" "length (keccak256 L bs) = 32"
    and "length (secp_compressed L (secp_identity L)) = 1" "length (secp_uncompressed L (secp_identity L)) = 1"
  using assms by (simp_all only: secp_ok_def digest32_def) blast+

lemma secp_ok_point:
  assumes "secp_ok L" "p \<noteq> secp_identity L"
  shows "length (secp_compressed L p) = 33" "length (secp_uncompressed L p) = 65"
    and "secp_uncompressed L p ! 0 = 4"
    and "secp_parse L (secp_compressed L p) = Some p" "secp_parse L (secp_uncompressed L p) = Some p"
    and "secp_native_parse L (secp_compressed L p) = Some p"
  using assms by (simp_all only: secp_ok_def simp_thms) 

definition affine_point_from_bytes :: "'p secp \<Rightarrow> bytes \<Rightarrow> ('p, crypto_error) res" where
  "affine_point_from_bytes L bs = ok_or (InvalidInputValue ''affine_point_from_bytes'') (secp_parse L bs)"

definition affine_point_to_address :: "'p secp \<Rightarrow> 'p \<Rightarrow> address option" where
  "affine_point_to_address L p =
     address_new (drop 12 (hash_bytes (hash_create (keccak256 L) [drop 1 (secp_uncompressed L p)])))"

text \<open>\<open>NonIdentity::new\<close>, and a scalar that is not zero.\<close>

definition non_identity :: "'p secp \<Rightarrow> 'p \<Rightarrow> 'p option" where
  "non_identity L p = (if p = secp_identity L then None else Some p)"

definition non_zero_scalar :: "'p secp \<Rightarrow> bytes \<Rightarrow> nat option" where
  "non_zero_scalar L bs =
     (case secp_scalar L bs of None \<Rightarrow> None | Some v \<Rightarrow> if v = 0 then None else Some v)"

lemma non_identity_Some [simp]: "non_identity L p = Some q \<longleftrightarrow> p \<noteq> secp_identity L \<and> q = p"
  by (auto simp: non_identity_def)

lemma non_zero_scalar_Some:
  "secp_ok L \<Longrightarrow> non_zero_scalar L bs = Some v \<longleftrightarrow>
     length bs = 32 \<and> v = from_be bs \<and> 0 < v \<and> v < secp_order L"
  by (auto simp: non_zero_scalar_def secp_okD split: option.splits)
    (metis (no_types, lifting) not_None_eq secp_okD(7))+

section \<open>Public keys\<close>

datatype 'p public_key =
  PublicKey (pk_point: 'p) (pk_compressed: bytes) (pk_address: address)

definition SIZE_COMPRESSED :: nat where
  "SIZE_COMPRESSED = 33"

definition SIZE_UNCOMPRESSED :: nat where
  "SIZE_UNCOMPRESSED = 65"

definition SIZE_UNCOMPRESSED_PLAIN :: nat where
  "SIZE_UNCOMPRESSED_PLAIN = 64"

text \<open>\<open>From<NonIdentity<AffinePoint>>\<close>: copying the compressed form panics on another length.\<close>

definition public_key_from :: "'p secp \<Rightarrow> 'p \<Rightarrow> 'p public_key option" where
  "public_key_from L p =
     (if length (secp_compressed L p) = SIZE_COMPRESSED
      then map_option (PublicKey p (secp_compressed L p)) (affine_point_to_address L p) else None)"

definition public_key_from_privkey :: "'p secp \<Rightarrow> bool \<Rightarrow> bytes \<Rightarrow> ('p public_key, crypto_error) res" where
  "public_key_from_privkey L rust_ecdsa private_key =
     (if rust_ecdsa then
        and_then (ok_or (CryptoOther (ParseError ''PublicKey'')) (non_zero_scalar L private_key))
          (\<lambda>s. expect (public_key_from L (secp_base_mul L s)))
      else
        and_then (map_err CryptoOther (try_into_array 32 (ParseError ''private_key.len'') private_key)) (\<lambda>arr.
        and_then (ok_or (CryptoOther (ParseError ''private_key'')) (secp_native_secret L arr)) (\<lambda>sk.
        and_then (affine_point_from_bytes L (secp_uncompressed L (secp_base_mul L sk))) (\<lambda>p.
        and_then (ok_or InvalidPublicKey (non_identity L p)) (\<lambda>q. expect (public_key_from L q))))))"

definition public_key_to_address :: "'p public_key \<Rightarrow> address" where
  "public_key_to_address pk = pk_address pk"

definition to_uncompressed_bytes :: "'p secp \<Rightarrow> 'p public_key \<Rightarrow> bytes" where
  "to_uncompressed_bytes L pk = secp_uncompressed L (pk_point pk)"

definition to_uncompressed_hex :: "'p secp \<Rightarrow> hexlib \<Rightarrow> 'p public_key \<Rightarrow> string" where
  "to_uncompressed_hex L h pk = ''0x'' @ hex_encode h (to_uncompressed_bytes L pk)"

text \<open>Keys are compared by their compressed form alone.\<close>

definition public_key_eq :: "'p public_key \<Rightarrow> 'p public_key \<Rightarrow> bool" where
  "public_key_eq a b \<longleftrightarrow> pk_compressed a = pk_compressed b"

text \<open>\<open>elliptic_curve::PublicKey::from_sec1_bytes\<close>: SEC1 decoding that rejects the identity.\<close>

definition from_sec1_bytes :: "'p secp \<Rightarrow> bytes \<Rightarrow> ('p, general_error) res" where
  "from_sec1_bytes L bs =
     ok_or (ParseError ''invalid secp256k1 point'')
       (case secp_parse L bs of None \<Rightarrow> None | Some p \<Rightarrow> non_identity L p)"

definition public_key_try_from :: "'p secp \<Rightarrow> bytes \<Rightarrow> ('p public_key, general_error) res" where
  "public_key_try_from L value =
     (if length value = SIZE_UNCOMPRESSED then
        and_then (from_sec1_bytes L value) (\<lambda>p. expect (public_key_from L p))
      else if length value = SIZE_UNCOMPRESSED_PLAIN then
        and_then (from_sec1_bytes L (4 # value)) (\<lambda>p. expect (public_key_from L p))
      else if length value = SIZE_COMPRESSED then
        and_then (from_sec1_bytes L value) (\<lambda>p. expect (public_key_from L p))
      else Err (ParseError ''invalid secp256k1 point''))"

definition public_key_try_from_affine :: "'p secp \<Rightarrow> 'p \<Rightarrow> ('p public_key, crypto_error) res" where
  "public_key_try_from_affine L p =
     and_then (ok_or InvalidPublicKey (non_identity L p)) (\<lambda>q. expect (public_key_from L q))"

text \<open>What every constructor establishes: the cached forms belong to the point.\<close>

definition wf_public_key :: "'p secp \<Rightarrow> 'p public_key \<Rightarrow> bool" where
  "wf_public_key L pk \<longleftrightarrow>
     pk_point pk \<noteq> secp_identity L \<and> public_key_from L (pk_point pk) = Some pk"

lemma address_of_point:
  assumes "secp_ok L"
  obtains a where "affine_point_to_address L p = Some a" "wf_address a"
proof -
  let ?bs = "drop 12 (keccak256 L (concat [drop 1 (secp_uncompressed L p)]))"
  have "length ?bs = 20" using secp_okD(11) [OF assms] by simp
  then show ?thesis
    using that [of "Address ?bs"]
    by (simp add: affine_point_to_address_def hash_create_def address_new_def wf_address_def
        ADDRESS_SIZE_def)
qed

lemma public_key_from_ok:
  assumes "secp_ok L" "p \<noteq> secp_identity L"
  obtains pk where "public_key_from L p = Some pk" "wf_public_key L pk" "pk_point pk = p"
    "pk_compressed pk = secp_compressed L p" "wf_address (pk_address pk)"
proof -
  obtain a where a: "affine_point_to_address L p = Some a" "wf_address a"
    using address_of_point [OF assms(1)] .
  show ?thesis
    using that [of "PublicKey p (secp_compressed L p) a"] a assms secp_ok_point [OF assms]
    by (simp add: public_key_from_def wf_public_key_def SIZE_COMPRESSED_def)
qed

lemma wf_public_keyD:
  assumes "wf_public_key L pk"
  shows "pk_point pk \<noteq> secp_identity L" "pk_compressed pk = secp_compressed L (pk_point pk)"
    and "affine_point_to_address L (pk_point pk) = Some (pk_address pk)"
  using assms by (cases pk; auto simp: wf_public_key_def public_key_from_def split: if_splits)+

lemma wf_public_key_eqI:
  "wf_public_key L pk \<Longrightarrow> wf_public_key L pk' \<Longrightarrow> pk_point pk = pk_point pk' \<Longrightarrow> pk = pk'"
  by (simp add: wf_public_key_def)

lemma public_key_eq_iff:
  assumes "secp_ok L" "wf_public_key L a" "wf_public_key L b"
  shows "public_key_eq a b \<longleftrightarrow> a = b"
proof
  assume "public_key_eq a b"
  then have "secp_compressed L (pk_point a) = secp_compressed L (pk_point b)"
    using assms wf_public_keyD(2) by (metis public_key_eq_def)
  then have "pk_point a = pk_point b"
    using secp_ok_point(4) [OF assms(1)] wf_public_keyD(1) assms by (metis option.inject)
  then show "a = b" using wf_public_key_eqI assms by blast
qed (simp add: public_key_eq_def)

lemma from_sec1_bytes_Ok:
  "from_sec1_bytes L bs = Ok p \<longleftrightarrow> secp_parse L bs = Some p \<and> p \<noteq> secp_identity L"
  by (auto simp: from_sec1_bytes_def non_identity_def split: option.splits)

lemma from_sec1_bytes_not_Panic: "from_sec1_bytes L bs \<noteq> Panic"
  by (simp add: from_sec1_bytes_def)

lemma public_key_built:
  assumes "secp_ok L"
  shows "and_then (from_sec1_bytes L bs) (\<lambda>p. expect (public_key_from L p)) = Ok pk \<longleftrightarrow>
    wf_public_key L pk \<and> secp_parse L bs = Some (pk_point pk)"
    and "and_then (from_sec1_bytes L bs) (\<lambda>p. expect (public_key_from L p)) \<noteq> Panic"
proof -
  show "and_then (from_sec1_bytes L bs) (\<lambda>p. expect (public_key_from L p)) = Ok pk \<longleftrightarrow>
    wf_public_key L pk \<and> secp_parse L bs = Some (pk_point pk)"
  proof
    assume "and_then (from_sec1_bytes L bs) (\<lambda>p. expect (public_key_from L p)) = Ok pk"
    then obtain p where p: "secp_parse L bs = Some p" "p \<noteq> secp_identity L"
      "expect (public_key_from L p) = (Ok pk :: (_, general_error) res)"
      by (auto simp: from_sec1_bytes_Ok)
    from public_key_from_ok [OF assms p(2)] p show "wf_public_key L pk \<and> secp_parse L bs = Some (pk_point pk)"
      by (metis expect_simps(2) res.inject(1))
  next
    assume "wf_public_key L pk \<and> secp_parse L bs = Some (pk_point pk)"
    then show "and_then (from_sec1_bytes L bs) (\<lambda>p. expect (public_key_from L p)) = Ok pk"
      by (auto simp: from_sec1_bytes_Ok wf_public_key_def intro!: exI [of _ "pk_point pk"])
  qed
  show "and_then (from_sec1_bytes L bs) (\<lambda>p. expect (public_key_from L p)) \<noteq> Panic"
  proof
    assume "and_then (from_sec1_bytes L bs) (\<lambda>p. expect (public_key_from L p)) = Panic"
    then obtain p where "p \<noteq> secp_identity L"
      "expect (public_key_from L p) = (Panic :: (_, general_error) res)"
      by (auto simp: and_then_eq_Panic from_sec1_bytes_Ok from_sec1_bytes_not_Panic)
    with public_key_from_ok [OF assms] show False by (metis expect_simps(2) res.distinct(3))
  qed
qed

lemma public_key_try_from_not_Panic: "secp_ok L \<Longrightarrow> public_key_try_from L bs \<noteq> Panic"
  by (simp add: public_key_try_from_def public_key_built del: and_then_eq_Ok)

lemma public_key_try_from_wf:
  "secp_ok L \<Longrightarrow> public_key_try_from L bs = Ok pk \<Longrightarrow> wf_public_key L pk \<and> length bs \<in> {33, 64, 65}"
  by (auto simp: public_key_try_from_def public_key_built SIZE_UNCOMPRESSED_def SIZE_UNCOMPRESSED_PLAIN_def
      SIZE_COMPRESSED_def simp del: and_then_eq_Ok split: if_splits)

lemma public_key_try_from_uncompressed:
  assumes "secp_ok L" "wf_public_key L pk"
  shows "public_key_try_from L (to_uncompressed_bytes L pk) = Ok pk"
  using secp_ok_point [OF assms(1) wf_public_keyD(1) [OF assms(2)]] assms
  by (simp add: public_key_try_from_def to_uncompressed_bytes_def
      SIZE_UNCOMPRESSED_def public_key_built del: and_then_eq_Ok)

lemma public_key_try_from_affine_Ok:
  assumes "secp_ok L"
  shows "public_key_try_from_affine L p = Ok pk \<longleftrightarrow> wf_public_key L pk \<and> pk_point pk = p"
    and "public_key_try_from_affine L p \<noteq> Panic"
proof -
  show "public_key_try_from_affine L p = Ok pk \<longleftrightarrow> wf_public_key L pk \<and> pk_point pk = p"
  proof (cases "p = secp_identity L")
    case True
    then show ?thesis using wf_public_keyD(1) [of L pk]
      by (auto simp: public_key_try_from_affine_def)
  next
    case False
    obtain k where "public_key_from L p = Some k" "wf_public_key L k" "pk_point k = p"
      by (rule public_key_from_ok [OF assms False])
    then show ?thesis using False wf_public_key_eqI [of L pk k]
      by (auto simp: public_key_try_from_affine_def)
  qed
  show "public_key_try_from_affine L p \<noteq> Panic"
  proof (cases "p = secp_identity L")
    case True
    then show ?thesis by (simp add: public_key_try_from_affine_def non_identity_def)
  next
    case False
    obtain k where "public_key_from L p = Some k" by (rule public_key_from_ok [OF assms False])
    then show ?thesis using False by (simp add: public_key_try_from_affine_def non_identity_def)
  qed
qed

text \<open>
  A byte string that parses as a public key has 33, 64 or 65 bytes, and the parsed key is
  well formed: its cached compressed form and address belong to its point. The compressed form,
  the uncompressed form and the uncompressed form without its leading byte of a key all parse
  to the key itself; parsing never panics.
\<close>

theorem public_key_parse:
  assumes "secp_ok L" "wf_public_key L pk"
  shows "public_key_try_from L (pk_compressed pk) = Ok pk
    \<and> public_key_try_from L (to_uncompressed_bytes L pk) = Ok pk
    \<and> public_key_try_from L (drop 1 (to_uncompressed_bytes L pk)) = Ok pk
    \<and> public_key_try_from L bs \<noteq> Panic
    \<and> (public_key_try_from L bs = Ok pk' \<longrightarrow> wf_public_key L pk' \<and> length bs \<in> {33, 64, 65})"
proof (intro conjI impI)
  note p = secp_ok_point [OF assms(1) wf_public_keyD(1) [OF assms(2)]]
  note b = public_key_built [OF assms(1)]
  have "4 # drop 1 (secp_uncompressed L (pk_point pk)) = secp_uncompressed L (pk_point pk)"
    using p(2,3) by (cases "secp_uncompressed L (pk_point pk)") auto
  then show "public_key_try_from L (drop 1 (to_uncompressed_bytes L pk)) = Ok pk"
    using p assms(2) by (simp add: public_key_try_from_def to_uncompressed_bytes_def
      SIZE_UNCOMPRESSED_def SIZE_UNCOMPRESSED_PLAIN_def b del: and_then_eq_Ok)
  show "public_key_try_from L (pk_compressed pk) = Ok pk"
    using p assms(2) wf_public_keyD(2) [OF assms(2)]
    by (simp add: public_key_try_from_def SIZE_UNCOMPRESSED_def SIZE_UNCOMPRESSED_PLAIN_def
      SIZE_COMPRESSED_def b del: and_then_eq_Ok)
  show "public_key_try_from L (to_uncompressed_bytes L pk) = Ok pk"
    by (rule public_key_try_from_uncompressed [OF assms])
  show "public_key_try_from L bs \<noteq> Panic" by (rule public_key_try_from_not_Panic [OF assms(1)])
  assume "public_key_try_from L bs = Ok pk'"
  then show "wf_public_key L pk'" "length bs \<in> {33, 64, 65}"
    using public_key_try_from_wf [OF assms(1)] by blast+
qed

section \<open>Half-keys and challenges\<close>

datatype half_key = HalfKey (half_key_bytes: bytes)

definition HALF_KEY_SIZE :: nat where
  "HALF_KEY_SIZE = 32"

definition wf_half_key :: "half_key \<Rightarrow> bool" where
  "wf_half_key k \<longleftrightarrow> length (half_key_bytes k) = HALF_KEY_SIZE"

text \<open>The default half-key is the scalar one.\<close>

definition half_key_default :: "'p secp \<Rightarrow> half_key" where
  "half_key_default L = HalfKey (secp_scalar_bytes L 1)"

definition half_key_try_from :: "bytes \<Rightarrow> (half_key, general_error) res" where
  "half_key_try_from = array_try_from HalfKey HALF_KEY_SIZE ''HalfKey''"

interpretation half_key: bytes_representable half_key_bytes half_key_try_from HALF_KEY_SIZE wf_half_key
  unfolding wf_half_key_def half_key_try_from_def by (rule bytes_representable_array) simp_all

datatype half_key_challenge = HalfKeyChallenge (half_key_challenge_bytes: bytes)

definition wf_half_key_challenge :: "half_key_challenge \<Rightarrow> bool" where
  "wf_half_key_challenge c \<longleftrightarrow> length (half_key_challenge_bytes c) = SIZE_COMPRESSED"

definition half_key_challenge_default :: half_key_challenge where
  "half_key_challenge_default = HalfKeyChallenge ((replicate SIZE_COMPRESSED 0)[SIZE_COMPRESSED - 1 := 1])"

definition half_key_challenge_new :: "bytes \<Rightarrow> half_key_challenge option" where
  "half_key_challenge_new bs =
     (if length bs = SIZE_COMPRESSED then Some (HalfKeyChallenge bs) else None)"

definition half_key_challenge_try_from :: "bytes \<Rightarrow> (half_key_challenge, general_error) res" where
  "half_key_challenge_try_from = array_try_from HalfKeyChallenge SIZE_COMPRESSED ''HalfKeyChallenge''"

definition half_key_challenge_from_str :: "hexlib \<Rightarrow> string \<Rightarrow> (half_key_challenge, general_error) res" where
  "half_key_challenge_from_str h s = from_hex h half_key_challenge_try_from s"

interpretation half_key_challenge: bytes_representable
  half_key_challenge_bytes half_key_challenge_try_from SIZE_COMPRESSED wf_half_key_challenge
  unfolding wf_half_key_challenge_def half_key_challenge_try_from_def
  by (rule bytes_representable_array) simp_all

definition half_key_to_challenge ::
  "'p secp \<Rightarrow> bool \<Rightarrow> half_key \<Rightarrow> (half_key_challenge, crypto_error) res" where
  "half_key_to_challenge L rust_ecdsa k =
     and_then (public_key_from_privkey L rust_ecdsa (half_key_bytes k))
       (\<lambda>pk. map_err CryptoOther (half_key_challenge_try_from (pk_compressed pk)))"

text \<open>The Proof-of-Relay challenge is a point other than the identity.\<close>

datatype 'p challenge = Challenge (challenge_point: 'p)

definition to_ethereum_challenge :: "'p secp \<Rightarrow> 'p challenge \<Rightarrow> ethereum_challenge option" where
  "to_ethereum_challenge L c =
     map_option EthereumChallenge (affine_point_to_address L (challenge_point c))"

text \<open>\<open>secp256k1::PublicKey::combine\<close> fails if the sum is the identity.\<close>

definition challenge_from_hint_and_share ::
  "'p secp \<Rightarrow> bool \<Rightarrow> half_key_challenge \<Rightarrow> half_key_challenge \<Rightarrow> ('p challenge, crypto_error) res" where
  "challenge_from_hint_and_share L rust_ecdsa own_share hint =
     (if \<not> rust_ecdsa then
        and_then (ok_or (CryptoOther (ParseError ''invalid half-key challenge for own share''))
                   (secp_native_parse L (half_key_challenge_bytes own_share))) (\<lambda>s.
        and_then (ok_or (CryptoOther (ParseError ''invalid half-key challenge for hint''))
                   (secp_native_parse L (half_key_challenge_bytes hint))) (\<lambda>h.
        and_then (ok_or CalculationError (non_identity L (secp_add L s h))) (\<lambda>r.
        and_then (affine_point_from_bytes L (secp_uncompressed L r)) (\<lambda>p.
        map_ok Challenge (ok_or InvalidPublicKey (non_identity L p))))))
      else
        and_then (affine_point_from_bytes L (half_key_challenge_bytes own_share)) (\<lambda>s.
        and_then (affine_point_from_bytes L (half_key_challenge_bytes hint)) (\<lambda>h.
        map_ok Challenge (ok_or CalculationError (non_identity L (secp_add L s h))))))"

definition challenge_from_own_share_and_half_key ::
  "'p secp \<Rightarrow> bool \<Rightarrow> half_key_challenge \<Rightarrow> half_key \<Rightarrow> ('p challenge, crypto_error) res" where
  "challenge_from_own_share_and_half_key L rust_ecdsa own_share k =
     and_then (half_key_to_challenge L rust_ecdsa k)
       (\<lambda>c. challenge_from_hint_and_share L rust_ecdsa own_share c)"

section \<open>Responses\<close>

datatype response = Response (response_bytes: bytes)

definition RESPONSE_SIZE :: nat where
  "RESPONSE_SIZE = 32"

definition wf_response :: "response \<Rightarrow> bool" where
  "wf_response r \<longleftrightarrow> length (response_bytes r) = RESPONSE_SIZE"

definition response_default :: "'p secp \<Rightarrow> response" where
  "response_default L = Response (half_key_bytes (half_key_default L))"

definition response_try_from :: "bytes \<Rightarrow> (response, general_error) res" where
  "response_try_from = array_try_from Response RESPONSE_SIZE ''Response''"

interpretation response: bytes_representable response_bytes response_try_from RESPONSE_SIZE wf_response
  unfolding wf_response_def response_try_from_def by (rule bytes_representable_array) simp_all

definition response_to_challenge :: "'p secp \<Rightarrow> bool \<Rightarrow> response \<Rightarrow> ('p challenge, crypto_error) res" where
  "response_to_challenge L rust_ecdsa r =
     map_ok (\<lambda>pk. Challenge (pk_point pk)) (public_key_from_privkey L rust_ecdsa (response_bytes r))"

definition response_from_half_keys ::
  "'p secp \<Rightarrow> half_key \<Rightarrow> half_key \<Rightarrow> (response, crypto_error) res" where
  "response_from_half_keys L first second =
     and_then (ok_or (InvalidInputValue ''first'') (non_zero_scalar L (half_key_bytes first))) (\<lambda>a.
     and_then (ok_or (InvalidInputValue ''second'') (non_zero_scalar L (half_key_bytes second))) (\<lambda>b.
       let r = (a + b) mod secp_order L in
       if r = 0 then Err (InvalidInputValue ''invalid half-key'')
       else Ok (Response (secp_scalar_bytes L r))))"

text \<open>Both builds derive the same key from a private key, and never panic.\<close>

lemma public_key_from_privkey_Ok:
  assumes "secp_ok L"
  shows "public_key_from_privkey L f bs = Ok pk \<longleftrightarrow>
    length bs = 32 \<and> 0 < from_be bs \<and> from_be bs < secp_order L
    \<and> wf_public_key L pk \<and> pk_point pk = secp_base_mul L (from_be bs)"
proof -
  have nz: "secp_base_mul L v \<noteq> secp_identity L" if "0 < v" "v < secp_order L" for v
    using that secp_okD(5) [OF assms] by simp
  have pk: "expect (public_key_from L q) = (Ok pk :: (_, crypto_error) res) \<longleftrightarrow> wf_public_key L pk \<and> pk_point pk = q"
    if q: "q \<noteq> secp_identity L" for q
  proof -
    obtain k where "public_key_from L q = Some k" "wf_public_key L k" "pk_point k = q"
      by (rule public_key_from_ok [OF assms q])
    then show ?thesis using wf_public_key_eqI [of L pk k] by auto
  qed
  have parse: "affine_point_from_bytes L (secp_uncompressed L (secp_base_mul L v)) = Ok (secp_base_mul L v)"
    if "0 < v" "v < secp_order L" for v
    using secp_ok_point(5) [OF assms nz [OF that]] by (simp add: affine_point_from_bytes_def)
  show ?thesis
  proof (cases f)
    case True
    then show ?thesis
      using nz pk by (auto simp: public_key_from_privkey_def non_zero_scalar_Some [OF assms])
  next
    case False
    then show ?thesis
      using nz pk parse
      by (auto simp: public_key_from_privkey_def secp_okD(8) [OF assms] non_identity_def)
  qed
qed

lemma privkey_exists:
  assumes "secp_ok L" "length bs = 32" "0 < from_be bs" "from_be bs < secp_order L"
  obtains pk where "public_key_from_privkey L f bs = Ok pk" "wf_public_key L pk"
    "pk_point pk = secp_base_mul L (from_be bs)"
proof -
  have "secp_base_mul L (from_be bs) \<noteq> secp_identity L"
    using assms secp_okD(5) [OF assms(1)] by simp
  from public_key_from_ok [OF assms(1) this] obtain pk where
    "wf_public_key L pk" "pk_point pk = secp_base_mul L (from_be bs)" .
  with that assms show ?thesis by (simp add: public_key_from_privkey_Ok)
qed

lemma half_key_to_challenge_Ok:
  assumes "secp_ok L"
  shows "half_key_to_challenge L f k = Ok c \<longleftrightarrow>
    length (half_key_bytes k) = 32 \<and> 0 < from_be (half_key_bytes k) \<and> from_be (half_key_bytes k) < secp_order L
    \<and> c = HalfKeyChallenge (secp_compressed L (secp_base_mul L (from_be (half_key_bytes k))))"
    (is "?l \<longleftrightarrow> ?r")
proof
  assume ?l
  then obtain pk where pk: "public_key_from_privkey L f (half_key_bytes k) = Ok pk"
    "half_key_challenge_try_from (pk_compressed pk) = Ok c"
    by (auto simp: half_key_to_challenge_def)
  then show ?r
    using wf_public_keyD(2) [of L pk]
    by (auto simp: public_key_from_privkey_Ok [OF assms] half_key_challenge_try_from_def)
next
  assume r: ?r
  then obtain pk where pk: "public_key_from_privkey L f (half_key_bytes k) = Ok pk"
    "wf_public_key L pk" "pk_point pk = secp_base_mul L (from_be (half_key_bytes k))"
    using privkey_exists [OF assms] by blast
  then have "pk_compressed pk = secp_compressed L (secp_base_mul L (from_be (half_key_bytes k)))"
    "length (pk_compressed pk) = SIZE_COMPRESSED"
    using wf_public_keyD [OF pk(2)] secp_ok_point(1) [OF assms] by (simp_all add: SIZE_COMPRESSED_def)
  with pk r show ?l
    by (auto simp: half_key_to_challenge_def half_key_challenge_try_from_def)
qed

lemma challenge_from_hint_and_share_compressed:
  assumes "secp_ok L" "p \<noteq> secp_identity L" "q \<noteq> secp_identity L"
  shows "challenge_from_hint_and_share L f (HalfKeyChallenge (secp_compressed L p)) (HalfKeyChallenge (secp_compressed L q)) =
    (if secp_add L p q = secp_identity L then Err CalculationError else Ok (Challenge (secp_add L p q)))"
  using assms secp_ok_point [OF assms(1)]
  by (simp add: challenge_from_hint_and_share_def affine_point_from_bytes_def non_identity_def)

lemma half_keys_combined:
  assumes "secp_ok L"
  shows "and_then (half_key_to_challenge L f k1) (\<lambda>h1. challenge_from_own_share_and_half_key L f h1 k2) = Ok c \<longleftrightarrow>
    (\<exists>r. response_from_half_keys L k1 k2 = Ok r \<and> response_to_challenge L f' r = Ok c)"
    (is "?l \<longleftrightarrow> ?r")
proof -
  let ?a = "from_be (half_key_bytes k1)" and ?b = "from_be (half_key_bytes k2)"
  let ?n = "secp_order L"
  let ?valid = "length (half_key_bytes k1) = 32 \<and> 0 < ?a \<and> ?a < ?n
    \<and> length (half_key_bytes k2) = 32 \<and> 0 < ?b \<and> ?b < ?n"
  have nz: "secp_base_mul L v \<noteq> secp_identity L" if "0 < v" "v < ?n" for v
    using that secp_okD(5) [OF assms] by simp
  have sum: "secp_add L (secp_base_mul L ?a) (secp_base_mul L ?b) = secp_base_mul L ((?a + ?b) mod ?n)"
    by (simp only: secp_okD(3,4) [OF assms])
  have l: "?l \<longleftrightarrow> ?valid \<and> (?a + ?b) mod ?n \<noteq> 0 \<and> c = Challenge (secp_base_mul L ((?a + ?b) mod ?n))"
    using challenge_from_hint_and_share_compressed [OF assms nz nz, of ?a ?b f] sum
      secp_okD(5) [OF assms, of "(?a + ?b) mod ?n"]
    by (auto simp: challenge_from_own_share_and_half_key_def half_key_to_challenge_Ok [OF assms])
  have resp: "response_from_half_keys L k1 k2 = Ok r \<longleftrightarrow>
      ?valid \<and> (?a + ?b) mod ?n \<noteq> 0 \<and> r = Response (to_be 32 ((?a + ?b) mod ?n))" for r
    by (auto simp: response_from_half_keys_def non_zero_scalar_Some [OF assms] Let_def
        secp_okD(9) [OF assms])
  have small: "(?a + ?b) mod ?n < 256 ^ 32" "(?a + ?b) mod ?n < ?n"
  proof -
    show "(?a + ?b) mod ?n < ?n" using secp_okD(1) [OF assms] by simp
    then show "(?a + ?b) mod ?n < 256 ^ 32" using secp_okD(2) [OF assms] by simp
  qed
  have chal: "response_to_challenge L f' (Response (to_be 32 ((?a + ?b) mod ?n))) = Ok c \<longleftrightarrow>
      c = Challenge (secp_base_mul L ((?a + ?b) mod ?n))" if pos: "(?a + ?b) mod ?n \<noteq> 0"
  proof -
    let ?bs = "to_be 32 ((?a + ?b) mod ?n)"
    have v: "from_be ?bs = (?a + ?b) mod ?n" using small(1) by (rule from_be_to_be_id)
    obtain pk where "public_key_from_privkey L f' ?bs = Ok pk"
      "pk_point pk = secp_base_mul L ((?a + ?b) mod ?n)"
      by (rule privkey_exists [OF assms, of ?bs f']) (use v pos small in simp_all)
    then show ?thesis by (auto simp: response_to_challenge_def)
  qed
  show ?thesis unfolding l resp using chal by auto
qed

text \<open>
  Proof of relay: adding the challenges of two half-keys on the curve gives the challenge of
  the response obtained by adding the half-keys as scalars. The one computation succeeds
  exactly when the other does, in both cryptographic builds, and they agree.
\<close>

theorem por_challenge_of_response:
  assumes "secp_ok L"
  shows "and_then (half_key_to_challenge L f k1) (\<lambda>h1. challenge_from_own_share_and_half_key L f h1 k2) = Ok c \<longleftrightarrow>
    (\<exists>r. response_from_half_keys L k1 k2 = Ok r \<and> response_to_challenge L f' r = Ok c)"
  by (rule half_keys_combined [OF assms])

text \<open>A concrete group with the interface, the integers modulo 2^32, for the witnesses.\<close>

definition std_compressed :: "u32 \<Rightarrow> bytes" where
  "std_compressed p = (if p = 0 then [0] else 2 # to_be 32 (unat p))"

definition std_uncompressed :: "u32 \<Rightarrow> bytes" where
  "std_uncompressed p = (if p = 0 then [0] else 4 # to_be 64 (unat p))"

definition std_point :: "bytes \<Rightarrow> u32" where
  "std_point bs = of_nat (from_be (drop 1 bs))"

definition secp_toy :: "u32 secp" where
  "secp_toy = \<lparr>
     secp_order = 2 ^ 32,
     secp_identity = 0,
     secp_add = (+),
     secp_base_mul = of_nat,
     secp_compressed = std_compressed,
     secp_uncompressed = std_uncompressed,
     secp_parse = (\<lambda>bs. if bs = std_compressed (std_point bs) \<or> bs = std_uncompressed (std_point bs)
                       then Some (std_point bs) else None),
     secp_native_parse = (\<lambda>bs. if bs = std_compressed (std_point bs) \<and> std_point bs \<noteq> 0
                       then Some (std_point bs) else None),
     secp_scalar = (\<lambda>bs. if length bs = 32 \<and> from_be bs < 2 ^ 32 then Some (from_be bs) else None),
     secp_native_secret = (\<lambda>bs. if length bs = 32 \<and> 0 < from_be bs \<and> from_be bs < 2 ^ 32 then Some (from_be bs) else None),
     secp_scalar_bytes = to_be 32,
     keccak256 = (\<lambda>bs. to_be 32 (from_be bs))\<rparr>"

lemma std_point_simps [simp]:
  "std_point (std_compressed p) = p" "std_point (std_uncompressed p) = p"
proof -
  have "unat p < 2 ^ 32" using unat_less_2p [of p] by simp
  then have "unat p < 256 ^ 32" "unat p < 256 ^ 64"
    by (rule less_le_trans; simp)+
  then show "std_point (std_compressed p) = p" "std_point (std_uncompressed p) = p"
    by (simp_all add: std_point_def std_compressed_def std_uncompressed_def from_be_to_be_id)
qed

lemma secp_ok_toy: "secp_ok secp_toy"
proof -
  have red: "(of_nat (a mod 2 ^ 32) :: u32) = of_nat a" for a :: nat
    by (rule word_unat_eq_iff [THEN iffD2]) (simp add: unat_of_nat)
  have zero: "(of_nat a :: u32) = 0 \<longleftrightarrow> a mod 2 ^ 32 = 0" for a :: nat
    by (simp add: unat_of_nat flip: unat_eq_zero)
  have std: "p \<noteq> 0 \<Longrightarrow> std_uncompressed p ! 0 = 4" "p \<noteq> 0 \<Longrightarrow> length (std_uncompressed p) = 65"
    "p \<noteq> 0 \<Longrightarrow> length (std_compressed p) = 33"
    "length (std_compressed 0) = 1" "length (std_uncompressed 0) = 1" for p
    by (simp_all add: std_uncompressed_def std_compressed_def)
  show ?thesis
    unfolding secp_ok_def
  proof (intro conjI allI impI)
    fix a
    show "secp_base_mul secp_toy (a mod secp_order secp_toy) = secp_base_mul secp_toy a"
      using red [of a] by (simp only: secp_toy_def secp.simps)
    show "secp_base_mul secp_toy a = secp_identity secp_toy \<longleftrightarrow> a mod secp_order secp_toy = 0"
      using zero [of a] by (simp only: secp_toy_def secp.simps)
  next
    fix bs p
    assume "secp_native_parse secp_toy bs = Some p"
    then show "p \<noteq> secp_identity secp_toy" "secp_compressed secp_toy p = bs"
      by (auto simp: secp_toy_def split: if_splits)
  qed (auto simp: secp_toy_def std digest32_def split: if_splits)
qed

lemma por_example:
  "\<exists>r. response_from_half_keys secp_toy (HalfKey (to_be 32 2)) (HalfKey (to_be 32 3)) = Ok r
     \<and> response_to_challenge secp_toy True r = Ok (Challenge 5)"
proof (intro exI conjI)
  have v: "from_be (to_be 32 n) = n" if "n < 256" for n
    by (rule from_be_to_be_id) (rule less_le_trans [OF that], simp)
  show "response_from_half_keys secp_toy (HalfKey (to_be 32 2)) (HalfKey (to_be 32 3)) = Ok (Response (to_be 32 5))"
    by (simp add: response_from_half_keys_def non_zero_scalar_def secp_toy_def v)
  obtain pk where "public_key_from_privkey secp_toy True (to_be 32 5) = Ok pk"
    "pk_point pk = secp_base_mul secp_toy 5"
    by (rule privkey_exists [OF secp_ok_toy, of "to_be 32 5" True]) (simp_all add: v, simp add: secp_toy_def)
  then show "response_to_challenge secp_toy True (Response (to_be 32 5)) = Ok (Challenge 5)"
    by (simp add: response_to_challenge_def) (simp add: secp_toy_def)
qed

theorem por_challenge_of_response_witness:
  "and_then (half_key_to_challenge secp_toy False (HalfKey (to_be 32 2)))
     (\<lambda>h1. challenge_from_own_share_and_half_key secp_toy False h1 (HalfKey (to_be 32 3))) = Ok (Challenge 5)"
  using por_challenge_of_response [OF secp_ok_toy] por_example by blast

theorem public_key_parse_witness:
  "\<exists>pk. public_key_try_from secp_toy (pk_compressed pk) = Ok pk"
proof -
  have "(1 :: u32) \<noteq> secp_identity secp_toy" by (simp add: secp_toy_def)
  then obtain pk where "wf_public_key secp_toy pk" using public_key_from_ok [OF secp_ok_toy] by blast
  then show ?thesis using public_key_parse [OF secp_ok_toy] by blast
qed

section \<open>Pseudonyms\<close>

text \<open>A pseudonym of ten bytes with its cached hexadecimal form; only the bytes are compared.\<close>

datatype simple_pseudonym = SimplePseudonym (pseudonym_bytes: bytes) (pseudonym_str: string)

definition PSEUDONYM_SIZE :: nat where
  "PSEUDONYM_SIZE = 10"

definition pseudonym_from :: "hexlib \<Rightarrow> bytes \<Rightarrow> simple_pseudonym" where
  "pseudonym_from h bs = SimplePseudonym bs (hex_encode h bs)"

definition pseudonym_try_from :: "hexlib \<Rightarrow> bytes \<Rightarrow> (simple_pseudonym, general_error) res" where
  "pseudonym_try_from h bs =
     map_ok (pseudonym_from h) (try_into_array PSEUDONYM_SIZE (ParseError ''SimplePseudonym'') bs)"

definition pseudonym_display :: "simple_pseudonym \<Rightarrow> string" where
  "pseudonym_display p = pseudonym_str p"

definition pseudonym_eq :: "simple_pseudonym \<Rightarrow> simple_pseudonym \<Rightarrow> bool" where
  "pseudonym_eq a b \<longleftrightarrow> pseudonym_bytes a = pseudonym_bytes b"

definition pseudonym_cmp :: "simple_pseudonym \<Rightarrow> simple_pseudonym \<Rightarrow> ordering" where
  "pseudonym_cmp a b = cmp_bytes (pseudonym_bytes a) (pseudonym_bytes b)"

text \<open>
  The \<open>serde\<close> visitor: a byte string must have exactly ten bytes; a sequence is copied into a
  buffer of ten bytes element by element and must neither overrun nor underrun it.
\<close>

definition pseudonym_visit_bytes :: "hexlib \<Rightarrow> bytes \<Rightarrow> (simple_pseudonym, string) res" where
  "pseudonym_visit_bytes h v =
     map_ok (pseudonym_from h) (try_into_array PSEUDONYM_SIZE ''invalid SimplePseudonym length'' v)"

fun visit_seq_loop :: "nat \<Rightarrow> bytes \<Rightarrow> bytes \<Rightarrow> (nat \<times> bytes, string) res" where
  "visit_seq_loop index buffer [] = Ok (index, buffer)"
| "visit_seq_loop index buffer (b # bs) =
     (if index \<ge> PSEUDONYM_SIZE then Err ''SimplePseudonym sequence too long''
      else visit_seq_loop (index + 1) (buffer[index := b]) bs)"

definition pseudonym_visit_seq :: "hexlib \<Rightarrow> bytes \<Rightarrow> (simple_pseudonym, string) res" where
  "pseudonym_visit_seq h sq =
     and_then (visit_seq_loop 0 (replicate PSEUDONYM_SIZE 0) sq) (\<lambda>(index, buffer).
       if index < PSEUDONYM_SIZE then Err ''SimplePseudonym sequence too short''
       else Ok (pseudonym_from h buffer))"

definition wf_pseudonym :: "hexlib \<Rightarrow> simple_pseudonym \<Rightarrow> bool" where
  "wf_pseudonym h p \<longleftrightarrow>
     length (pseudonym_bytes p) = PSEUDONYM_SIZE \<and> pseudonym_str p = hex_encode h (pseudonym_bytes p)"

interpretation pseudonym: bytes_representable
  pseudonym_bytes "pseudonym_try_from h" PSEUDONYM_SIZE "wf_pseudonym h" for h
proof unfold_locales
  fix x assume "wf_pseudonym h x"
  then show "pseudonym_try_from h (pseudonym_bytes x) = Ok x"
    by (cases x) (simp add: wf_pseudonym_def pseudonym_try_from_def pseudonym_from_def)
qed (auto simp: wf_pseudonym_def pseudonym_try_from_def pseudonym_from_def)

lemma pseudonym_eq_iff: "wf_pseudonym h a \<Longrightarrow> wf_pseudonym h b \<Longrightarrow> pseudonym_eq a b \<longleftrightarrow> a = b"
  unfolding pseudonym_eq_def by (rule pseudonym.as_ref_inj)

lemma visit_seq_loop_eq:
  "index + length sq \<le> PSEUDONYM_SIZE \<Longrightarrow> length buffer = PSEUDONYM_SIZE \<Longrightarrow>
    visit_seq_loop index buffer sq =
      Ok (index + length sq, take index buffer @ sq @ drop (index + length sq) buffer)"
proof (induction index buffer sq rule: visit_seq_loop.induct)
  case (1 index buffer)
  then show ?case by simp
next
  case (2 index buffer b bs)
  then have i: "index < PSEUDONYM_SIZE" by simp
  have "take (index + 1) (buffer[index := b]) = take index buffer @ [b]"
    using i "2.prems" by (simp add: take_Suc_conv_app_nth)
  then show ?case using 2 i by simp
qed

lemma visit_seq_loop_long:
  "PSEUDONYM_SIZE < index + length sq \<Longrightarrow> index \<le> PSEUDONYM_SIZE \<Longrightarrow>
    visit_seq_loop index buffer sq = Err ''SimplePseudonym sequence too long''"
  by (induction index buffer sq rule: visit_seq_loop.induct) auto

text \<open>
  Deserialising a pseudonym from a sequence of bytes and from a byte string accept the same
  inputs, those of exactly ten bytes, and give the same pseudonym; longer inputs are refused
  before the buffer is overrun.
\<close>

theorem pseudonym_visitors_agree:
  "(pseudonym_visit_seq h sq = Ok p \<longleftrightarrow> pseudonym_visit_bytes h sq = Ok p)
   \<and> (pseudonym_visit_seq h sq = Ok p \<longleftrightarrow> wf_pseudonym h p \<and> pseudonym_bytes p = sq)
   \<and> pseudonym_visit_seq h sq \<noteq> Panic"
proof -
  have seq: "pseudonym_visit_seq h sq =
    (if length sq = PSEUDONYM_SIZE then Ok (pseudonym_from h sq)
     else if length sq < PSEUDONYM_SIZE then Err ''SimplePseudonym sequence too short''
     else Err ''SimplePseudonym sequence too long'')"
  proof (cases "length sq \<le> PSEUDONYM_SIZE")
    case True
    then have "visit_seq_loop 0 (replicate PSEUDONYM_SIZE 0) sq
        = Ok (length sq, sq @ drop (length sq) (replicate PSEUDONYM_SIZE 0))"
      using visit_seq_loop_eq [of 0 sq "replicate PSEUDONYM_SIZE 0"] by simp
    then show ?thesis using True by (simp add: pseudonym_visit_seq_def)
  next
    case False
    then show ?thesis using visit_seq_loop_long [of 0 sq] by (simp add: pseudonym_visit_seq_def)
  qed
  show ?thesis
    unfolding seq by (cases p) (auto simp: pseudonym_visit_bytes_def wf_pseudonym_def pseudonym_from_def)
qed

end
