(* ===== verification/Offchain_Keys.thy ===== *)
theory Offchain_Keys
  imports Crypto_Types
begin

text \<open>
  The secret scalars of \<open>crypto/utils.rs\<close>, the Ed25519 keys of \<open>crypto/types.rs\<close> with their
  libp2p peer ids, and the offchain and chain key pairs of \<open>crypto/keypairs.rs\<close>. The packages
  \<open>curve25519-dalek\<close>, \<open>ed25519-dalek\<close> and \<open>libp2p-identity\<close> are the record \<open>edlib\<close>.
\<close>

section \<open>Secret values\<close>

datatype secret_value = SecretValue (secret_bytes: bytes)

definition secret_value_try_from :: "nat \<Rightarrow> bytes \<Rightarrow> (secret_value, crypto_error) res" where
  "secret_value_try_from n value =
     (if length value = n then Ok (SecretValue value) else Err (InvalidInputValue ''value''))"

definition secret_value_default :: "nat \<Rightarrow> secret_value" where
  "secret_value_default n = SecretValue (replicate n 0)"

text \<open>Constant-time equality is equality of the bytes.\<close>

definition secret_value_ct_eq :: "secret_value \<Rightarrow> secret_value \<Rightarrow> bool" where
  "secret_value_ct_eq a b \<longleftrightarrow> secret_bytes a = secret_bytes b"

definition reverse_secret_scalar :: "bytes \<Rightarrow> (secret_value, crypto_error) res" where
  "reverse_secret_scalar bs =
     map_ok (\<lambda>v. SecretValue (rev (secret_bytes v))) (secret_value_try_from 32 bs)"

lemma secret_value_try_from_Ok [simp]:
  "secret_value_try_from n bs = Ok v \<longleftrightarrow> length bs = n \<and> v = SecretValue bs"
  by (auto simp: secret_value_try_from_def)

lemma reverse_secret_scalar_Ok [simp]:
  "reverse_secret_scalar bs = Ok v \<longleftrightarrow> length bs = 32 \<and> v = SecretValue (rev bs)"
  by (auto simp: reverse_secret_scalar_def)

lemma reverse_secret_scalar_len:
  "length bs = 32 \<Longrightarrow> reverse_secret_scalar bs = Ok (SecretValue (rev bs))"
  by simp

subsection \<open>Scalars\<close>

text \<open>
  The clamping of X25519: the three low bits of the first byte and the top bit of the last byte
  are cleared, the bit below is set.
\<close>

definition x25519_clamp :: "bytes \<Rightarrow> bytes" where
  "x25519_clamp bs =
     (let c = bs[0 := (bs ! 0) AND 0xF8];
          c = c[31 := (c ! 31) AND 0x7F]
      in c[31 := (c ! 31) OR 0x40])"

text \<open>\<open>from_bytes_mod_order\<close> of \<open>curve25519-dalek\<close> is a parameter.\<close>

definition x25519_scalar_from_bytes :: "(bytes \<Rightarrow> 's) \<Rightarrow> bytes \<Rightarrow> ('s, crypto_error) res" where
  "x25519_scalar_from_bytes from_bytes_mod_order bs =
     (if length bs = 32 then Ok (from_bytes_mod_order (x25519_clamp bs))
      else Err (InvalidInputValue ''bytes''))"

definition k256_scalar_from_bytes :: "'p secp \<Rightarrow> bytes \<Rightarrow> (nat, crypto_error) res" where
  "k256_scalar_from_bytes L bs =
     (if length bs = 32 then ok_or (InvalidInputValue ''bytes'') (secp_scalar L bs)
      else Err (InvalidInputValue ''bytes''))"

text \<open>\<open>hash_to_scalar\<close> of the package \<open>hash2curve\<close> is a parameter.\<close>

definition SECRET_KEY_LENGTH :: nat where
  "SECRET_KEY_LENGTH = 32"

definition sample_secp256k1_field_element ::
  "(bytes list \<Rightarrow> bytes list \<Rightarrow> bytes option) \<Rightarrow> bytes \<Rightarrow> string \<Rightarrow> (half_key, crypto_error) res" where
  "sample_secp256k1_field_element hash_to_scalar secret tag =
     (if SECRET_KEY_LENGTH \<le> length secret then
        and_then (ok_or CalculationError
            (hash_to_scalar [secret] [ascii_bytes ''secp256k1_XMD:SHA3-256_SSWU_RO_'', ascii_bytes tag]))
          (\<lambda>scalar. map_err CryptoOther (half_key_try_from scalar))
      else Err (InvalidParameterSize ''secret'' SECRET_KEY_LENGTH))"

text \<open>
  Rejection sampling over the byte strings the random generator delivers: the first one that is
  a scalar is taken; the outer option is the case that the given samples do not suffice.
\<close>

fun random_group_element ::
  "'p secp \<Rightarrow> bool \<Rightarrow> bytes list \<Rightarrow> (bytes \<times> 'p public_key, crypto_error) res option" where
  "random_group_element L rust_ecdsa [] = None"
| "random_group_element L rust_ecdsa (sample # samples) =
     (case secp_scalar L sample of
        Some scalar \<Rightarrow>
          Some (and_then (expect (ok (public_key_from_privkey L rust_ecdsa (secp_scalar_bytes L scalar))))
            (\<lambda>pk. Ok (secp_scalar_bytes L scalar, pk)))
      | None \<Rightarrow> random_group_element L rust_ecdsa samples)"

lemma random_group_element_returns:
  assumes "\<exists>s \<in> set samples. secp_scalar L s \<noteq> None"
  shows "\<exists>r. random_group_element L f samples = Some r"
  using assms by (induction samples) (auto split: option.splits)

lemma random_group_element_key:
  assumes "secp_ok L" "random_group_element L f samples = Some (Ok (bs, pk))"
  shows "wf_public_key L pk \<and> public_key_from_privkey L f bs = Ok pk"
  using assms(2)
proof (induction samples)
  case (Cons sample samples)
  show ?case
  proof (cases "secp_scalar L sample")
    case None
    with Cons show ?thesis by simp
  next
    case (Some v)
    with Cons.prems have "ok (public_key_from_privkey L f bs) = Some pk"
      by (auto simp: expect_def split: option.splits)
    then show ?thesis using public_key_from_privkey_Ok [OF assms(1)] by simp
  qed
qed simp

text \<open>The only sample that makes the sampler panic is the zero scalar.\<close>

lemma random_group_element_panic:
  assumes "secp_ok L" "random_group_element L f samples = Some Panic"
  shows "\<exists>s \<in> set samples. secp_scalar L s = Some 0"
  using assms(2)
proof (induction samples)
  case (Cons sample samples)
  show ?case
  proof (cases "secp_scalar L sample")
    case None
    with Cons show ?thesis by simp
  next
    case (Some v)
    have v: "v < secp_order L" "v < 256 ^ 32"
      using Some secp_okD(2,7) [OF assms(1)] by (auto intro: less_trans)
    have "v = 0"
    proof (rule ccontr)
      assume "v \<noteq> 0"
      then obtain pk where "public_key_from_privkey L f (to_be 32 v) = Ok pk"
        using privkey_exists [OF assms(1), of "to_be 32 v" f] v by (auto simp: from_be_to_be_id)
      then show False using Cons.prems Some by (simp add: secp_okD(9) [OF assms(1)])
    qed
    with Some show ?thesis by auto
  qed
qed simp

lemma x25519_clamp_bits:
  assumes "length bs = 32"
  shows "length (x25519_clamp bs) = 32"
    and "x25519_clamp bs ! 0 AND 7 = 0"
    and "\<not> bit (x25519_clamp bs ! 31) 7" "bit (x25519_clamp bs ! 31) 6"
    and "0 < i \<Longrightarrow> i < 31 \<Longrightarrow> x25519_clamp bs ! i = bs ! i"
proof -
  have c: "x25519_clamp bs = bs[0 := (bs ! 0) AND 0xF8, 31 := ((bs ! 31) AND 0x7F) OR 0x40]"
    using assms by (simp add: x25519_clamp_def)
  show "length (x25519_clamp bs) = 32" using assms by (simp add: c)
  have "(x AND 0xF8) AND 7 = 0" for x :: "8 word" by (simp add: and.assoc)
  then show "x25519_clamp bs ! 0 AND 7 = 0" using assms by (simp add: c)
  have 6: "bit (0x40 :: 8 word) n \<longleftrightarrow> n = 6" for n
  proof -
    have "(0x40 :: 8 word) = 2 ^ 6" by simp
    then show ?thesis by (simp only: bit_exp_iff) auto
  qed
  have b: "x25519_clamp bs ! 31 = ((bs ! 31) AND 0x7F) OR 0x40" using assms by (simp add: c)
  show "\<not> bit (x25519_clamp bs ! 31) 7" "bit (x25519_clamp bs ! 31) 6"
    unfolding b by (simp_all only: bit_or_iff bit_and_iff bit_7f 6) simp_all
  show "0 < i \<Longrightarrow> i < 31 \<Longrightarrow> x25519_clamp bs ! i = bs ! i" by (simp add: c)
qed

section \<open>Ed25519 keys\<close>

text \<open>
  A peer id is the multihash it consists of, a code and a digest. \<open>ed_decompress\<close> decompresses
  a point, \<open>ed_public\<close> computes the public key of a secret one, \<open>peer_from_bytes\<close> reads a
  multihash and \<open>peer_base58\<close> prints it.
\<close>

type_synonym peer_id = "nat \<times> bytes"

record 'e edlib =
  ed_decompress :: "bytes \<Rightarrow> 'e option"
  ed_public :: "bytes \<Rightarrow> bytes option"
  peer_from_bytes :: "bytes \<Rightarrow> peer_id option"
  peer_base58 :: "peer_id \<Rightarrow> string"

text \<open>
  The identity multihash of at most 42 bytes is stored inline: code 0, the length, the digest.
  A secret key of 32 bytes has a public key of 32 bytes, which is a point.
\<close>

definition edlib_ok :: "'e edlib \<Rightarrow> bool" where
  "edlib_ok E \<longleftrightarrow>
     (\<forall>d. length d \<le> 42 \<longrightarrow> peer_from_bytes E (0 # of_nat (length d) # d) = Some (0, d))
   \<and> (\<forall>s. length s = 32 \<longrightarrow> (\<exists>p. ed_public E s = Some p \<and> length p = 32 \<and> ed_decompress E p \<noteq> None))"

datatype offchain_public_key = OffchainPublicKey (opk_bytes: bytes)

definition OPK_SIZE :: nat where
  "OPK_SIZE = 32"

definition wf_opk :: "offchain_public_key \<Rightarrow> bool" where
  "wf_opk k \<longleftrightarrow> length (opk_bytes k) = OPK_SIZE"

datatype 'e expanded_offchain_public_key =
  ExpandedOffchainPublicKey (expanded_compact: offchain_public_key) (expanded_edwards: 'e)

definition opk_try_from :: "bytes \<Rightarrow> (offchain_public_key, general_error) res" where
  "opk_try_from = array_try_from OffchainPublicKey OPK_SIZE ''OffchainPublicKey''"

interpretation opk: bytes_representable opk_bytes opk_try_from OPK_SIZE wf_opk
  unfolding wf_opk_def opk_try_from_def by (rule bytes_representable_array) simp_all

definition opk_from_str :: "hexlib \<Rightarrow> string \<Rightarrow> (offchain_public_key, general_error) res" where
  "opk_from_str h s = from_hex h opk_try_from s"

definition expanded_try_from ::
  "'e edlib \<Rightarrow> offchain_public_key \<Rightarrow> ('e expanded_offchain_public_key, general_error) res" where
  "expanded_try_from E k =
     map_ok (ExpandedOffchainPublicKey k)
       (ok_or (ParseError ''OffchainPublicKey.decompress'') (ed_decompress E (opk_bytes k)))"

definition opk_validate :: "'e edlib \<Rightarrow> offchain_public_key \<Rightarrow> (unit, general_error) res" where
  "opk_validate E k = map_ok (\<lambda>_. ()) (expanded_try_from E k)"

definition opk_from_expanded :: "'e expanded_offchain_public_key \<Rightarrow> offchain_public_key" where
  "opk_from_expanded x = expanded_compact x"

definition opk_from_privkey :: "'e edlib \<Rightarrow> bytes \<Rightarrow> (offchain_public_key, crypto_error) res" where
  "opk_from_privkey E private_key =
     and_then (try_into_array 32 (InvalidInputValue ''private_key'') private_key) (\<lambda>pk.
     and_then (ok_or (InvalidInputValue ''private_key'') (ed_public E pk)) (\<lambda>public.
       map_err CryptoOther (opk_try_from public)))"

subsection \<open>Peer ids\<close>

definition PEER_ID_MULTIHASH_PREFIX :: bytes where
  "PEER_ID_MULTIHASH_PREFIX = [0x00, 0x24, 0x08, 0x01, 0x12, 0x20]"

definition peer_id_from :: "'e edlib \<Rightarrow> offchain_public_key \<Rightarrow> peer_id option" where
  "peer_id_from E k = peer_from_bytes E (PEER_ID_MULTIHASH_PREFIX @ opk_bytes k)"

definition to_peerid_str :: "'e edlib \<Rightarrow> offchain_public_key \<Rightarrow> string option" where
  "to_peerid_str E k = map_option (peer_base58 E) (peer_id_from E k)"

definition opk_from_peerid :: "peer_id \<Rightarrow> (offchain_public_key, general_error) res" where
  "opk_from_peerid peer =
     (let (code, digest) = peer; n = length PEER_ID_MULTIHASH_PREFIX - 2 in
      if code \<noteq> unat (PEER_ID_MULTIHASH_PREFIX ! 0) \<or> length digest \<noteq> n + OPK_SIZE
         \<or> take n digest \<noteq> drop 2 PEER_ID_MULTIHASH_PREFIX
      then Err (ParseError ''invalid ed25519 peer id'')
      else opk_try_from (drop n digest))"

lemma peer_id_from_eq:
  assumes "edlib_ok E" "wf_opk k"
  shows "peer_id_from E k = Some (0, [0x08, 0x01, 0x12, 0x20] @ opk_bytes k)"
proof -
  let ?d = "[0x08, 0x01, 0x12, 0x20] @ opk_bytes k"
  have len: "length ?d = 36" using assms(2) by (simp add: wf_opk_def OPK_SIZE_def)
  then have "length ?d \<le> 42" by simp
  with assms(1) have "peer_from_bytes E (0 # of_nat (length ?d) # ?d) = Some (0, ?d)"
    unfolding edlib_ok_def by blast
  moreover have "0 # of_nat (length ?d) # ?d = PEER_ID_MULTIHASH_PREFIX @ opk_bytes k"
    unfolding len by (simp add: PEER_ID_MULTIHASH_PREFIX_def)
  ultimately show ?thesis by (simp only: peer_id_from_def)
qed

lemma opk_from_peerid_eq:
  "opk_from_peerid (code, digest) =
     (if code \<noteq> 0 \<or> length digest \<noteq> 36 \<or> take 4 digest \<noteq> [0x08, 0x01, 0x12, 0x20]
      then Err (ParseError ''invalid ed25519 peer id'') else opk_try_from (drop 4 digest))"
proof -
  have n: "length PEER_ID_MULTIHASH_PREFIX - 2 = 4" "drop 2 PEER_ID_MULTIHASH_PREFIX = [0x08, 0x01, 0x12, 0x20]"
    "unat (PEER_ID_MULTIHASH_PREFIX ! 0) = 0" "4 + OPK_SIZE = 36"
    by (simp_all add: PEER_ID_MULTIHASH_PREFIX_def OPK_SIZE_def)
  show ?thesis by (simp only: opk_from_peerid_def n Let_def prod.case)
qed

text \<open>
  Peer ids: every offchain public key has a peer id, the conversion never panics, and reading
  the key back gives the same key. Exactly the peer ids that come from a key are accepted, so a
  peer id that hashes its key, or inlines another key type, is refused.
\<close>

theorem peer_id_roundtrip:
  assumes "edlib_ok E" "wf_opk k"
  shows "(\<exists>p. peer_id_from E k = Some p \<and> opk_from_peerid p = Ok k)
    \<and> (opk_from_peerid q = Ok k \<longleftrightarrow> peer_id_from E k = Some q)"
proof -
  have len: "length (opk_bytes k) = 32" using assms(2) by (simp add: wf_opk_def OPK_SIZE_def)
  have "opk_from_peerid q = Ok k \<longleftrightarrow> q = (0, [0x08, 0x01, 0x12, 0x20] @ opk_bytes k)"
  proof
    obtain code d where q: "q = (code, d)" by (cases q)
    assume "opk_from_peerid q = Ok k"
    then have "code = 0" "take 4 d = [0x08, 0x01, 0x12, 0x20]" "opk_bytes k = drop 4 d"
      by (auto simp: q opk_from_peerid_eq opk_try_from_def split: if_splits)
    then show "q = (0, [0x08, 0x01, 0x12, 0x20] @ opk_bytes k)"
      by (metis append_take_drop_id q)
  next
    assume "q = (0, [0x08, 0x01, 0x12, 0x20] @ opk_bytes k)"
    then show "opk_from_peerid q = Ok k"
      using len by (cases k) (simp add: opk_from_peerid_eq opk_try_from_def OPK_SIZE_def)
  qed
  then show ?thesis
    using peer_id_from_eq [OF assms] len
    by (cases k) (auto simp: opk_from_peerid_eq opk_try_from_def OPK_SIZE_def)
qed

text \<open>A toy library with the promised behaviour, for the witnesses.\<close>

definition ed_std :: "bytes edlib" where
  "ed_std = \<lparr>
     ed_decompress = (\<lambda>bs. if length bs = 32 then Some bs else None),
     ed_public = (\<lambda>s. if length s = 32 then Some s else None),
     peer_from_bytes = (\<lambda>bs. case bs of
         c # n # d \<Rightarrow> if c = 0 \<and> n = of_nat (length d) \<and> length d \<le> 42 then Some (0, d) else None
       | _ \<Rightarrow> None),
     peer_base58 = (\<lambda>_. [])\<rparr>"

lemma edlib_ok_std: "edlib_ok ed_std"
  by (simp add: edlib_ok_def ed_std_def)

theorem peer_id_roundtrip_witness:
  "opk_from_peerid (0, [8, 1, 18, 32] @ replicate 32 7) = Ok (OffchainPublicKey (replicate 32 7))"
proof -
  have wf: "wf_opk (OffchainPublicKey (replicate 32 7))" by (simp add: wf_opk_def OPK_SIZE_def)
  from peer_id_roundtrip [OF edlib_ok_std wf] peer_id_from_eq [OF edlib_ok_std wf]
  show ?thesis by simp
qed

section \<open>Key pairs\<close>

datatype 'e offchain_keypair =
  OffchainKeypair (okp_secret: secret_value) (okp_expanded: "'e expanded_offchain_public_key")

definition offchain_keypair_from_secret :: "'e edlib \<Rightarrow> bytes \<Rightarrow> ('e offchain_keypair, crypto_error) res" where
  "offchain_keypair_from_secret E bs =
     and_then (map_err (\<lambda>_. InvalidInputValue ''bytes'') (secret_value_try_from 32 bs)) (\<lambda>s.
     and_then (opk_from_privkey E bs) (\<lambda>k.
     map_ok (OffchainKeypair s) (map_err CryptoOther (expanded_try_from E k))))"

definition offchain_keypair_public :: "'e offchain_keypair \<Rightarrow> offchain_public_key" where
  "offchain_keypair_public kp = expanded_compact (okp_expanded kp)"

definition offchain_keypair_public_expanded :: "'e offchain_keypair \<Rightarrow> 'e expanded_offchain_public_key" where
  "offchain_keypair_public_expanded kp = okp_expanded kp"

definition offchain_keypair_ct_eq :: "'e offchain_keypair \<Rightarrow> 'e offchain_keypair \<Rightarrow> bool" where
  "offchain_keypair_ct_eq a b \<longleftrightarrow> secret_value_ct_eq (okp_secret a) (okp_secret b)"

text \<open>The curve scalar of a key pair: the clamped first half of the SHA-512 hash of the secret.\<close>

definition offchain_keypair_scalar ::
  "(bytes \<Rightarrow> bytes) \<Rightarrow> (bytes \<Rightarrow> 's) \<Rightarrow> 'e offchain_keypair \<Rightarrow> ('s, crypto_error) res" where
  "offchain_keypair_scalar sha512 from_bytes_mod_order kp =
     expect (ok (x25519_scalar_from_bytes from_bytes_mod_order (take 32 (sha512 (secret_bytes (okp_secret kp))))))"

definition wf_offchain_keypair :: "'e edlib \<Rightarrow> 'e offchain_keypair \<Rightarrow> bool" where
  "wf_offchain_keypair E kp \<longleftrightarrow> offchain_keypair_from_secret E (secret_bytes (okp_secret kp)) = Ok kp"

datatype 'p chain_keypair = ChainKeypair (ckp_secret: secret_value) (ckp_public: "'p public_key")

definition chain_keypair_from_secret ::
  "'p secp \<Rightarrow> bool \<Rightarrow> bytes \<Rightarrow> ('p chain_keypair, crypto_error) res" where
  "chain_keypair_from_secret L rust_ecdsa bs =
     and_then (public_key_from_privkey L rust_ecdsa bs) (\<lambda>pk.
     map_ok (\<lambda>s. ChainKeypair s pk) (map_err (\<lambda>_. InvalidInputValue ''bytes'') (secret_value_try_from 32 bs)))"

definition chain_keypair_address :: "'p chain_keypair \<Rightarrow> address" where
  "chain_keypair_address kp = public_key_to_address (ckp_public kp)"

definition chain_keypair_scalar :: "'p secp \<Rightarrow> 'p chain_keypair \<Rightarrow> (nat, crypto_error) res" where
  "chain_keypair_scalar L kp = expect (ok (k256_scalar_from_bytes L (secret_bytes (ckp_secret kp))))"

definition chain_keypair_random ::
  "'p secp \<Rightarrow> bool \<Rightarrow> bytes list \<Rightarrow> ('p chain_keypair, crypto_error) res option" where
  "chain_keypair_random L rust_ecdsa samples =
     map_option (map_ok (\<lambda>(bs, pk). ChainKeypair (SecretValue bs) pk))
       (random_group_element L rust_ecdsa samples)"

definition wf_chain_keypair :: "'p secp \<Rightarrow> 'p chain_keypair \<Rightarrow> bool" where
  "wf_chain_keypair L kp \<longleftrightarrow>
     chain_keypair_from_secret L True (secret_bytes (ckp_secret kp)) = Ok kp"

lemma chain_keypair_from_secret_Ok:
  assumes "secp_ok L"
  shows "chain_keypair_from_secret L f bs = Ok kp \<longleftrightarrow>
    wf_chain_keypair L kp \<and> secret_bytes (ckp_secret kp) = bs"
  by (cases kp)
    (auto simp: chain_keypair_from_secret_def wf_chain_keypair_def public_key_from_privkey_Ok [OF assms])

lemma wf_chain_keypairD:
  assumes "secp_ok L" "wf_chain_keypair L kp"
  shows "wf_public_key L (ckp_public kp)"
    and "pk_point (ckp_public kp) = secp_base_mul L (from_be (secret_bytes (ckp_secret kp)))"
    and "length (secret_bytes (ckp_secret kp)) = 32"
    and "0 < from_be (secret_bytes (ckp_secret kp))" "from_be (secret_bytes (ckp_secret kp)) < secp_order L"
  using assms(2) unfolding wf_chain_keypair_def
  by (cases kp; auto simp: chain_keypair_from_secret_def public_key_from_privkey_Ok [OF assms(1)])+

lemma chain_keypair_scalar_ok:
  assumes "secp_ok L" "wf_chain_keypair L kp"
  shows "chain_keypair_scalar L kp = Ok (from_be (secret_bytes (ckp_secret kp)))"
proof -
  have "secp_scalar L (secret_bytes (ckp_secret kp)) = Some (from_be (secret_bytes (ckp_secret kp)))"
    using secp_okD(7) [OF assms(1)] wf_chain_keypairD [OF assms] by blast
  then show ?thesis
    using wf_chain_keypairD(3) [OF assms] by (simp add: chain_keypair_scalar_def k256_scalar_from_bytes_def)
qed

lemma offchain_keypair_from_secret_total:
  assumes "edlib_ok E" "length bs = 32"
  shows "\<exists>kp. offchain_keypair_from_secret E bs = Ok kp \<and> wf_offchain_keypair E kp
    \<and> wf_opk (offchain_keypair_public kp)"
proof -
  obtain p e where "ed_public E bs = Some p" "length p = 32" "ed_decompress E p = Some e"
    using assms unfolding edlib_ok_def by blast
  then show ?thesis using assms(2)
    by (auto simp: offchain_keypair_from_secret_def opk_from_privkey_def opk_try_from_def OPK_SIZE_def
        expanded_try_from_def wf_offchain_keypair_def offchain_keypair_public_def wf_opk_def)
qed

end
