(* ===== verification/Pix_Keys.thy ===== *)
theory Pix_Keys
  imports Offchain_Keys
begin

text \<open>
  The keys of the PIX deposits: Baby Jubjub and BN254 public keys of \<open>crypto/types.rs\<close> with their
  key pairs of \<open>crypto/keypairs.rs\<close>, and the deposit addresses and allocation identifiers of
  \<open>crypto/primitives.rs\<close>. The package \<open>babyjubjub-ec\<close> is the record \<open>bjjlib\<close>. Of \<open>ark-bn254\<close> the
  prime field is arithmetic modulo \<open>fq_modulus\<close>, and the record \<open>bnlib\<close> holds the moduli, the
  square root and the multiplication of the generator, with the laws \<open>bnlib_ok\<close>.
\<close>

section \<open>Baby Jubjub keys\<close>

record 'b bjjlib =
  bjj_scalar :: "bytes \<Rightarrow> nat option"
  bjj_base_mul :: "nat \<Rightarrow> 'b"
  bjj_from_bytes :: "bytes \<Rightarrow> 'b option"
  bjj_to_bytes :: "'b \<Rightarrow> bytes"
  bjj_is_identity :: "'b \<Rightarrow> bool"
  bjj_in_subgroup :: "'b \<Rightarrow> bool"

definition bjjlib_ok :: "'b bjjlib \<Rightarrow> bool" where
  "bjjlib_ok B \<longleftrightarrow>
     (\<forall>p. length (bjj_to_bytes B p) = 32 \<and> bjj_from_bytes B (bjj_to_bytes B p) = Some p)"

datatype bjj_public_key = BjjPublicKey (bjj_bytes: bytes)

definition BJJ_SIZE :: nat where
  "BJJ_SIZE = 32"

definition bjj_try_from_point :: "'b bjjlib \<Rightarrow> 'b \<Rightarrow> (bjj_public_key, crypto_error) res" where
  "bjj_try_from_point B p =
     (if bjj_is_identity B p \<or> \<not> bjj_in_subgroup B p then Err InvalidPublicKey
      else Ok (BjjPublicKey (bjj_to_bytes B p)))"

definition bjj_from_privkey :: "'b bjjlib \<Rightarrow> bytes \<Rightarrow> (bjj_public_key, crypto_error) res" where
  "bjj_from_privkey B secret =
     and_then (try_into_array 32 InvalidSecretScalar secret) (\<lambda>arr.
     and_then (ok_or InvalidSecretScalar (bjj_scalar B arr)) (\<lambda>s.
       bjj_try_from_point B (bjj_base_mul B s)))"

definition bjj_try_from :: "'b bjjlib \<Rightarrow> bytes \<Rightarrow> (bjj_public_key, general_error) res" where
  "bjj_try_from B value =
     (if length value \<noteq> BJJ_SIZE then Err (ParseError ''BjjPublicKey'')
      else and_then (try_into_array 32 (ParseError ''BjjPublicKey'') value) (\<lambda>repr.
        if (case bjj_from_bytes B repr of None \<Rightarrow> True
            | Some p \<Rightarrow> bjj_is_identity B p \<or> \<not> bjj_in_subgroup B p)
        then Err (ParseError ''BjjPublicKey'') else Ok (BjjPublicKey repr)))"

text \<open>The conversion into a point panics on bytes that are no point.\<close>

definition bjj_to_point :: "'b bjjlib \<Rightarrow> bjj_public_key \<Rightarrow> 'b option" where
  "bjj_to_point B k = bjj_from_bytes B (bjj_bytes k)"

definition wf_bjj :: "'b bjjlib \<Rightarrow> bjj_public_key \<Rightarrow> bool" where
  "wf_bjj B k \<longleftrightarrow> length (bjj_bytes k) = BJJ_SIZE \<and>
     (\<exists>p. bjj_to_point B k = Some p \<and> \<not> bjj_is_identity B p \<and> bjj_in_subgroup B p)"

interpretation bjj: bytes_representable bjj_bytes "bjj_try_from B" BJJ_SIZE "wf_bjj B" for B
proof unfold_locales
  fix x assume "wf_bjj B x"
  then show "bjj_try_from B (bjj_bytes x) = Ok x"
    by (cases x) (auto simp: wf_bjj_def bjj_try_from_def bjj_to_point_def BJJ_SIZE_def)
next
  fix bs x assume "bjj_try_from B bs = Ok x"
  then show "wf_bjj B x \<and> bjj_bytes x = bs"
    by (auto simp: wf_bjj_def bjj_try_from_def bjj_to_point_def BJJ_SIZE_def
        split: if_splits option.splits)
next
  fix bs show "bjj_try_from B bs \<noteq> Panic"
    by (simp add: bjj_try_from_def and_then_eq_Panic)
qed (simp add: wf_bjj_def)

lemma bjj_try_from_point_wf:
  assumes "bjjlib_ok B" "bjj_try_from_point B p = Ok k"
  shows "wf_bjj B k" "bjj_to_point B k = Some p"
  using assms by (auto simp: bjjlib_ok_def bjj_try_from_point_def wf_bjj_def bjj_to_point_def
      BJJ_SIZE_def split: if_splits)

section \<open>BN254 keys\<close>

text \<open>
  \<open>bn_sqrt\<close> is the square root of the base field, \<open>bn_base_mul\<close> the multiple of the generator
  as affine coordinates, with no value for the point at infinity.
\<close>

record bnlib =
  fq_modulus :: nat
  fr_modulus :: nat
  bn_sqrt :: "nat \<Rightarrow> nat option"
  bn_base_mul :: "nat \<Rightarrow> (nat \<times> nat) option"

definition BN254_G1_B :: nat where
  "BN254_G1_B = 3"

definition BN254_Y_SIGN_BIT :: u8 where
  "BN254_Y_SIGN_BIT = 0x80"

definition BN254_SIZE :: nat where
  "BN254_SIZE = 32"

text \<open>The right-hand side \<open>x^3 + 3\<close> of the curve equation, and the curve.\<close>

definition bn_rhs :: "bnlib \<Rightarrow> nat \<Rightarrow> nat" where
  "bn_rhs N x = (x * x mod fq_modulus N * x + BN254_G1_B) mod fq_modulus N"

definition bn_on_curve :: "bnlib \<Rightarrow> nat \<Rightarrow> nat \<Rightarrow> bool" where
  "bn_on_curve N x y \<longleftrightarrow> y * y mod fq_modulus N = bn_rhs N x"

text \<open>
  The modulus of BN254 is an odd prime of 254 bits; \<open>sqrt\<close> finds a root of every square; the
  curve has no point of order two (its order is prime), so no point has \<open>y = 0\<close>; multiples of
  the generator are points of the curve.
\<close>

definition bnlib_ok :: "bnlib \<Rightarrow> bool" where
  "bnlib_ok N \<longleftrightarrow>
     odd (fq_modulus N) \<and> 3 < fq_modulus N \<and> fq_modulus N < 2 ^ 254
   \<and> 1 < fr_modulus N \<and> fr_modulus N < 2 ^ 254
   \<and> (\<forall>a b. a * b mod fq_modulus N = 0 \<longrightarrow> a mod fq_modulus N = 0 \<or> b mod fq_modulus N = 0)
   \<and> (\<forall>v r. bn_sqrt N v = Some r \<longrightarrow> r < fq_modulus N \<and> r * r mod fq_modulus N = v)
   \<and> (\<forall>y. bn_sqrt N (y * y mod fq_modulus N) \<noteq> None)
   \<and> (\<forall>x. bn_rhs N x \<noteq> 0)
   \<and> (\<forall>s x y. bn_base_mul N s = Some (x, y) \<longrightarrow> x < fq_modulus N \<and> y < fq_modulus N \<and> bn_on_curve N x y)
   \<and> (\<forall>s. bn_base_mul N s = None \<longleftrightarrow> s mod fr_modulus N = 0)"

lemma bnlib_okD:
  assumes "bnlib_ok N"
  shows "odd (fq_modulus N)" "3 < fq_modulus N" "fq_modulus N < 2 ^ 254"
    and "1 < fr_modulus N" "fr_modulus N < 2 ^ 254"
    and "a * b mod fq_modulus N = 0 \<Longrightarrow> a mod fq_modulus N = 0 \<or> b mod fq_modulus N = 0"
    and "bn_sqrt N v = Some r \<Longrightarrow> r < fq_modulus N \<and> r * r mod fq_modulus N = v"
    and "bn_sqrt N (y * y mod fq_modulus N) \<noteq> None"
    and "bn_rhs N x \<noteq> 0"
    and "bn_base_mul N s = Some (x, y) \<Longrightarrow> x < fq_modulus N \<and> y < fq_modulus N \<and> bn_on_curve N x y"
    and "bn_base_mul N s = None \<longleftrightarrow> s mod fr_modulus N = 0"
  using assms by (simp_all only: bnlib_ok_def) metis+

definition bn254_canonical_fq :: "bnlib \<Rightarrow> bytes \<Rightarrow> nat option" where
  "bn254_canonical_fq N bs =
     (let element = from_be bs mod fq_modulus N
      in if to_be 32 element = bs then Some element else None)"

definition fq_neg :: "bnlib \<Rightarrow> nat \<Rightarrow> nat" where
  "fq_neg N y = (fq_modulus N - y mod fq_modulus N) mod fq_modulus N"

definition bn254_decompress :: "bnlib \<Rightarrow> bytes \<Rightarrow> (nat \<times> nat) option" where
  "bn254_decompress N bs =
     (let y_is_odd = ((bs ! 0) AND BN254_Y_SIGN_BIT \<noteq> 0);
          x_bytes = bs[0 := (bs ! 0) AND NOT BN254_Y_SIGN_BIT]
      in case bn254_canonical_fq N x_bytes of
           None \<Rightarrow> None
         | Some x \<Rightarrow>
             (case bn_sqrt N (bn_rhs N x) of
                None \<Rightarrow> None
              | Some rt \<Rightarrow> Some (x, if odd rt = y_is_odd then rt else fq_neg N rt)))"

datatype bn254_public_key = Bn254PublicKey (bn254_bytes: bytes)

text \<open>A point is its affine coordinates, or infinity.\<close>

definition bn254_try_from_affine :: "(nat \<times> nat) option \<Rightarrow> (bn254_public_key, crypto_error) res" where
  "bn254_try_from_affine p =
     and_then (ok_or InvalidPublicKey p) (\<lambda>(x, y).
       let ret = to_be 32 x;
           ret = (if odd y then ret[0 := (ret ! 0) OR BN254_Y_SIGN_BIT] else ret)
       in Ok (Bn254PublicKey ret))"

definition bn254_try_from :: "bnlib \<Rightarrow> bytes \<Rightarrow> (bn254_public_key, general_error) res" where
  "bn254_try_from N value =
     and_then (try_into_array BN254_SIZE (ParseError ''Bn254PublicKey'') value) (\<lambda>repr.
       if bn254_decompress N repr = None then Err (ParseError ''Bn254PublicKey'')
       else Ok (Bn254PublicKey repr))"

definition bn254_to_projective :: "bnlib \<Rightarrow> bn254_public_key \<Rightarrow> (nat \<times> nat, crypto_error) res" where
  "bn254_to_projective N k = ok_or InvalidPublicKey (bn254_decompress N (bn254_bytes k))"

definition bn254_from_affine_coordinates :: "bnlib \<Rightarrow> bytes \<Rightarrow> bytes \<Rightarrow> (bn254_public_key, crypto_error) res" where
  "bn254_from_affine_coordinates N xb yb =
     and_then (ok_or InvalidPublicKey (bn254_canonical_fq N xb)) (\<lambda>x.
     and_then (ok_or InvalidPublicKey (bn254_canonical_fq N yb)) (\<lambda>y.
       if \<not> bn_on_curve N x y then Err InvalidPublicKey
       else bn254_try_from_affine (Some (x, y))))"

definition bn254_to_affine_coordinates :: "bnlib \<Rightarrow> bn254_public_key \<Rightarrow> (bytes \<times> bytes) option" where
  "bn254_to_affine_coordinates N k =
     map_option (\<lambda>(x, y). (to_be 32 x, to_be 32 y)) (bn254_decompress N (bn254_bytes k))"

text \<open>The secret is read as four little-endian limbs of 64 bits.\<close>

definition le_limb :: "bytes \<Rightarrow> u64" where
  "le_limb chunk = of_nat (from_be (rev chunk))"

definition le_limbs :: "bytes \<Rightarrow> u64 list" where
  "le_limbs bs = map (\<lambda>i. le_limb (slice_of (8 * i) 8 bs)) [0, 1, 2, 3]"

definition big_int :: "u64 list \<Rightarrow> nat" where
  "big_int limbs = foldr (\<lambda>l acc. unat l + 2 ^ 64 * acc) limbs 0"

definition bn254_from_privkey :: "bnlib \<Rightarrow> bytes \<Rightarrow> (bn254_public_key, crypto_error) res" where
  "bn254_from_privkey N secret =
     and_then (try_into_array 32 InvalidSecretScalar secret) (\<lambda>bs.
       if fr_modulus N \<le> big_int (le_limbs bs) then Err InvalidSecretScalar
       else map_err (\<lambda>_. InvalidSecretScalar)
              (bn254_try_from_affine (bn_base_mul N (from_be (rev bs) mod fr_modulus N))))"

definition bn254_from_privkey_be :: "bnlib \<Rightarrow> bytes \<Rightarrow> (bn254_public_key, crypto_error) res" where
  "bn254_from_privkey_be N secret =
     and_then (map_err (\<lambda>_. InvalidSecretScalar) (reverse_secret_scalar secret))
       (\<lambda>le. bn254_from_privkey N (secret_bytes le))"

definition wf_bn254 :: "bnlib \<Rightarrow> bn254_public_key \<Rightarrow> bool" where
  "wf_bn254 N k \<longleftrightarrow> length (bn254_bytes k) = BN254_SIZE \<and> bn254_decompress N (bn254_bytes k) \<noteq> None"

interpretation bn254: bytes_representable bn254_bytes "bn254_try_from N" BN254_SIZE "wf_bn254 N" for N
proof unfold_locales
  fix x assume "wf_bn254 N x"
  then show "bn254_try_from N (bn254_bytes x) = Ok x"
    by (cases x) (auto simp: wf_bn254_def bn254_try_from_def)
next
  fix bs x assume "bn254_try_from N bs = Ok x"
  then show "wf_bn254 N x \<and> bn254_bytes x = bs"
    by (auto simp: wf_bn254_def bn254_try_from_def split: if_splits)
next
  fix bs show "bn254_try_from N bs \<noteq> Panic"
    by (simp add: bn254_try_from_def and_then_eq_Panic)
qed (simp add: wf_bn254_def)

subsection \<open>The field\<close>

lemma fq_neg_lt: "bnlib_ok N \<Longrightarrow> y < fq_modulus N \<Longrightarrow> fq_neg N y = (if y = 0 then 0 else fq_modulus N - y)"
  by (simp add: fq_neg_def)

lemma fq_roots:
  assumes "bnlib_ok N" "r < fq_modulus N" "y < fq_modulus N"
    "r * r mod fq_modulus N = y * y mod fq_modulus N"
  shows "r = y \<or> r = fq_neg N y"
proof -
  let ?q = "fq_modulus N"
  have "(int r * int r) mod int ?q = (int y * int y) mod int ?q"
    using assms(4) by (metis of_nat_mod of_nat_mult)
  then have "int ?q dvd int r * int r - int y * int y" by (simp add: mod_eq_dvd_iff)
  also have "int r * int r - int y * int y = (int r - int y) * (int r + int y)" by (simp add: algebra_simps)
  finally have dvd: "int ?q dvd (int r - int y) * (int r + int y)" .
  have "int (nat \<bar>int r - int y\<bar> * (r + y)) = \<bar>(int r - int y) * (int r + int y)\<bar>"
    by (simp add: abs_mult)
  then have "int ?q dvd int (nat \<bar>int r - int y\<bar> * (r + y))" using dvd by (simp only: dvd_abs_iff)
  then have "?q dvd nat \<bar>int r - int y\<bar> * (r + y)" by (simp only: int_dvd_int_iff)
  then have "nat \<bar>int r - int y\<bar> mod ?q = 0 \<or> (r + y) mod ?q = 0"
    using bnlib_okD(6) [OF assms(1)] by auto
  then show ?thesis
  proof
    assume "nat \<bar>int r - int y\<bar> mod ?q = 0"
    moreover have "nat \<bar>int r - int y\<bar> < ?q" using assms(2,3) by linarith
    ultimately show ?thesis by simp
  next
    assume "(r + y) mod ?q = 0"
    then obtain k where k: "r + y = ?q * k" by auto
    moreover have "r + y < ?q * 2" using assms(2,3) by simp
    ultimately have "k < 2" by (metis nat_mult_less_cancel_disj)
    then have "r + y = 0 \<or> r + y = ?q" using k by (auto simp: less_2_cases_iff)
    then show ?thesis using fq_neg_lt [OF assms(1,3)] assms(2) by auto
  qed
qed

lemma fq_neg_parity:
  assumes "bnlib_ok N" "0 < y" "y < fq_modulus N"
  shows "odd (fq_neg N y) \<longleftrightarrow> even y" "fq_neg N y < fq_modulus N" "0 < fq_neg N y"
    "fq_neg N y * fq_neg N y mod fq_modulus N = y * y mod fq_modulus N"
proof -
  have n: "fq_neg N y = fq_modulus N - y" using fq_neg_lt [OF assms(1,3)] assms(2) by simp
  show "odd (fq_neg N y) \<longleftrightarrow> even y" using bnlib_okD(1) [OF assms(1)] assms(3) by (simp add: n)
  show "fq_neg N y < fq_modulus N" "0 < fq_neg N y" using assms by (simp_all add: n)
  have "(fq_modulus N - y) * (fq_modulus N - y) + fq_modulus N * (2 * y) = y * y + fq_modulus N * fq_modulus N"
  proof -
    obtain d where d: "fq_modulus N = y + d" using assms(3) by (metis less_imp_add_positive)
    show ?thesis unfolding d by (simp add: algebra_simps)
  qed
  then show "fq_neg N y * fq_neg N y mod fq_modulus N = y * y mod fq_modulus N"
    unfolding n by (metis mod_mult_self2)
qed

subsection \<open>Point compression\<close>

lemma canonical_Some:
  assumes "bnlib_ok N"
  shows "bn254_canonical_fq N bs = Some x \<longleftrightarrow> length bs = 32 \<and> x = from_be bs \<and> x < fq_modulus N"
proof -
  have small: "v mod fq_modulus N < 256 ^ 32" for v
  proof -
    have "v mod fq_modulus N < fq_modulus N" using bnlib_okD(2) [OF assms] by simp
    also have "\<dots> < 2 ^ 254" by (rule bnlib_okD(3) [OF assms])
    finally show ?thesis by simp
  qed
  have "to_be 32 (from_be bs mod fq_modulus N) = bs \<longleftrightarrow> length bs = 32 \<and> from_be bs < fq_modulus N"
  proof
    assume a: "to_be 32 (from_be bs mod fq_modulus N) = bs"
    then have "from_be bs = from_be bs mod fq_modulus N"
      using from_be_to_be_id [OF small] by metis
    moreover have "from_be bs mod fq_modulus N < fq_modulus N" using bnlib_okD(2) [OF assms] by simp
    moreover have "length bs = 32" using a length_to_be by metis
    ultimately show "length bs = 32 \<and> from_be bs < fq_modulus N" by simp
  next
    assume "length bs = 32 \<and> from_be bs < fq_modulus N"
    then show "to_be 32 (from_be bs mod fq_modulus N) = bs" by (simp add: to_be_from_be_len)
  qed
  then show ?thesis by (auto simp: bn254_canonical_fq_def Let_def)
qed

lemma top_bit_clear: "n < 2 ^ 255 \<Longrightarrow> \<not> bit (to_be 32 n ! 0) 7"
proof
  assume n: "n < 2 ^ 255" and b: "bit (to_be 32 n ! 0) 7"
  obtain c cs where c1: "to_be 32 n = c # cs"
    using length_to_be [of 32 n] by (cases "to_be 32 n") simp_all
  have c2: "length cs = 31" using length_to_be [of 32 n] unfolding c1 by simp
  note c = c1 c2
  have "128 \<le> unat c" using b c high_bit_unat by simp
  then have "128 * 256 ^ 31 \<le> unat c * 256 ^ length cs" unfolding c(2) by (rule mult_le_mono1)
  also have "\<dots> \<le> from_be (to_be 32 n)" unfolding c(1) from_be_Cons by simp
  also have "\<dots> \<le> n" by (simp add: from_be_to_be)
  finally show False using n by simp
qed

definition bn254_encode :: "nat \<Rightarrow> nat \<Rightarrow> bytes" where
  "bn254_encode x y = (if odd y then (to_be 32 x)[0 := (to_be 32 x ! 0) OR BN254_Y_SIGN_BIT] else to_be 32 x)"

lemma bn254_try_from_affine_Some: "bn254_try_from_affine (Some (x, y)) = Ok (Bn254PublicKey (bn254_encode x y))"
  by (simp add: bn254_try_from_affine_def bn254_encode_def Let_def)

lemma bn254_encode_parts:
  assumes "x < 2 ^ 254"
  shows "length (bn254_encode x y) = 32"
    and "((bn254_encode x y ! 0) AND BN254_Y_SIGN_BIT \<noteq> 0) \<longleftrightarrow> odd y"
    and "(bn254_encode x y)[0 := (bn254_encode x y ! 0) AND NOT BN254_Y_SIGN_BIT] = to_be 32 x"
proof -
  have x: "\<not> bit (to_be 32 x ! 0) 7" using assms by (intro top_bit_clear) simp
  show "length (bn254_encode x y) = 32" by (simp add: bn254_encode_def)
  show "((bn254_encode x y ! 0) AND BN254_Y_SIGN_BIT \<noteq> 0) \<longleftrightarrow> odd y"
    using x by (simp add: bn254_encode_def BN254_Y_SIGN_BIT_def high_bit_iff)
  show "(bn254_encode x y)[0 := (bn254_encode x y ! 0) AND NOT BN254_Y_SIGN_BIT] = to_be 32 x"
    using x by (simp only: bn254_encode_def BN254_Y_SIGN_BIT_def not_80)
      (simp add: high_bit_clear)
qed

lemma bn254_decompress_encode:
  assumes "bnlib_ok N" "x < fq_modulus N" "y < fq_modulus N" "bn_on_curve N x y"
  shows "bn254_decompress N (bn254_encode x y) = Some (x, y)"
proof -
  have x: "x < 2 ^ 254" using assms(2) bnlib_okD(3) [OF assms(1)] by (rule less_trans)
  then have "from_be (to_be 32 x) = x" by (intro from_be_to_be_id) simp
  then have can: "bn254_canonical_fq N (to_be 32 x) = Some x"
    using canonical_Some [OF assms(1)] assms(2) by simp
  have rhs: "y * y mod fq_modulus N = bn_rhs N x" using assms(4) by (simp add: bn_on_curve_def)
  then obtain r where r: "bn_sqrt N (bn_rhs N x) = Some r"
    using bnlib_okD(8) [OF assms(1), of y] by auto
  note root = bnlib_okD(7) [OF assms(1) r]
  have y: "0 < y" using bnlib_okD(9) [OF assms(1), of x] rhs by (cases "y = 0") auto
  have sel: "(if odd r = odd y then r else fq_neg N r) = y"
  proof -
    note neg = fq_neg_parity [OF assms(1) y assms(3)]
    have nn: "fq_neg N (fq_neg N y) = y"
      using fq_neg_lt [OF assms(1,3)] fq_neg_lt [OF assms(1) neg(2)] neg(3) y assms(3) by simp
    have "r = y \<or> r = fq_neg N y"
      using fq_roots [OF assms(1) _ assms(3), of r] root rhs by simp
    then show ?thesis
    proof
      assume r: "r = fq_neg N y"
      show ?thesis unfolding r nn using neg(1) by simp
    qed simp
  qed
  show ?thesis
    unfolding bn254_decompress_def bn254_encode_parts [OF x]
    by (simp only: can r sel Let_def option.case)
qed

lemma bn254_decompress_Some:
  assumes "bnlib_ok N" "length bs = 32" "bn254_decompress N bs = Some (x, y)"
  shows "bn254_encode x y = bs" "x < fq_modulus N" "y < fq_modulus N" "bn_on_curve N x y"
proof -
  let ?xb = "bs[0 := (bs ! 0) AND NOT BN254_Y_SIGN_BIT]"
  obtain r where can: "bn254_canonical_fq N ?xb = Some x" and r: "bn_sqrt N (bn_rhs N x) = Some r"
    and y: "y = (if odd r = ((bs ! 0) AND BN254_Y_SIGN_BIT \<noteq> 0) then r else fq_neg N r)"
    using assms(3) by (auto simp: bn254_decompress_def Let_def split: option.splits)
  from can have xb: "to_be 32 x = ?xb"
    using canonical_Some [OF assms(1)] by (auto simp: to_be_from_be_len)
  show "x < fq_modulus N" using can canonical_Some [OF assms(1)] by blast
  note root = bnlib_okD(7) [OF assms(1) r]
  have r0: "0 < r" using root bnlib_okD(9) [OF assms(1), of x] by (cases "r = 0") auto
  note neg = fq_neg_parity [OF assms(1) r0, OF root [THEN conjunct1]]
  show "y < fq_modulus N" "bn_on_curve N x y" using y root neg by (auto simp: bn_on_curve_def)
  have odd: "odd y \<longleftrightarrow> bit (bs ! 0) 7" using y neg by (auto simp: BN254_Y_SIGN_BIT_def high_bit_iff)
  have b0: "to_be 32 x ! 0 = (bs ! 0) AND 0x7f" "(to_be 32 x)[0 := bs ! 0] = bs"
    using assms(2) unfolding xb by (simp_all only: BN254_Y_SIGN_BIT_def not_80) simp_all
  show "bn254_encode x y = bs"
  proof (cases "odd y")
    case True
    then show ?thesis using odd b0 high_bit_restore [of "bs ! 0"]
      by (simp add: bn254_encode_def BN254_Y_SIGN_BIT_def)
  next
    case False
    then have "to_be 32 x ! 0 = bs ! 0" using odd b0 high_bit_clear by simp
    then show ?thesis using False b0 by (metis bn254_encode_def list_update_id)
  qed
qed

text \<open>
  Point compression of BN254 keys: compressing an affine point of the curve and decompressing
  gives the point back, and the 32-byte strings that decompress to a point are exactly the
  compressions of the points, so every key has one encoding and the sign bit is never ambiguous.
\<close>

theorem bn254_compression_roundtrip:
  assumes "bnlib_ok N" "x < fq_modulus N" "y < fq_modulus N" "length bs = 32"
  shows "(bn_on_curve N x y \<longrightarrow>
      (\<exists>k. bn254_try_from_affine (Some (x, y)) = Ok k \<and> bn254_to_projective N k = Ok (x, y)
         \<and> bn254_try_from N (bn254_bytes k) = Ok k))
    \<and> (bn254_decompress N bs = Some (x, y) \<longleftrightarrow>
         bn_on_curve N x y \<and> bn254_try_from_affine (Some (x, y)) = Ok (Bn254PublicKey bs))"
proof
  show "bn_on_curve N x y \<longrightarrow>
      (\<exists>k. bn254_try_from_affine (Some (x, y)) = Ok k \<and> bn254_to_projective N k = Ok (x, y)
         \<and> bn254_try_from N (bn254_bytes k) = Ok k)"
  proof
    assume c: "bn_on_curve N x y"
    have "x < 2 ^ 254" using assms(2) bnlib_okD(3) [OF assms(1)] by (rule less_trans)
    then show "\<exists>k. bn254_try_from_affine (Some (x, y)) = Ok k \<and> bn254_to_projective N k = Ok (x, y)
         \<and> bn254_try_from N (bn254_bytes k) = Ok k"
      using bn254_decompress_encode [OF assms(1-3) c] bn254_encode_parts(1)
      by (simp add: bn254_try_from_affine_Some bn254_to_projective_def bn254_try_from_def BN254_SIZE_def)
  qed
  show "bn254_decompress N bs = Some (x, y) \<longleftrightarrow>
         bn_on_curve N x y \<and> bn254_try_from_affine (Some (x, y)) = Ok (Bn254PublicKey bs)"
    using bn254_decompress_Some [OF assms(1,4)] bn254_decompress_encode [OF assms(1-3)]
    by (auto simp: bn254_try_from_affine_Some)
qed

lemma bn254_coordinates_roundtrip:
  assumes "bnlib_ok N" "bn254_from_affine_coordinates N xb yb = Ok k"
  shows "bn254_to_affine_coordinates N k = Some (xb, yb)"
proof -
  obtain x y where "bn254_canonical_fq N xb = Some x" "bn254_canonical_fq N yb = Some y"
    and c: "bn_on_curve N x y" "k = Bn254PublicKey (bn254_encode x y)"
    using assms(2) by (auto simp: bn254_from_affine_coordinates_def bn254_try_from_affine_Some split: if_splits)
  then have "x < fq_modulus N" "y < fq_modulus N" "to_be 32 x = xb" "to_be 32 y = yb"
    using canonical_Some [OF assms(1)] by (auto simp: to_be_from_be_len)
  then show ?thesis
    using bn254_decompress_encode [OF assms(1)] c by (simp add: bn254_to_affine_coordinates_def)
qed

text \<open>A small curve with the promised laws: \<open>y^2 = x^3 + 3\<close> modulo 7, which has 13 points.\<close>

definition sqrt7 :: "nat \<Rightarrow> nat option" where
  "sqrt7 v = (if v = 0 then Some 0 else if v = 1 then Some 1 else if v = 2 then Some 3
     else if v = 4 then Some 2 else None)"

definition bn7 :: bnlib where
  "bn7 = \<lparr>fq_modulus = 7, fr_modulus = 13, bn_sqrt = sqrt7,
     bn_base_mul = (\<lambda>s. if s mod 13 = 0 then None else Some (1, 2))\<rparr>"

lemma residues7:
  "\<forall>i \<in> set [0..<7]. (\<forall>j \<in> set [0..<7]. i * j mod 7 = (0 :: nat) \<longrightarrow> i = 0 \<or> j = 0)
     \<and> sqrt7 (i * i mod 7) \<noteq> None \<and> (i * i mod 7 * i + 3) mod 7 \<noteq> 0"
  by code_simp

lemma bnlib_ok_7: "bnlib_ok bn7"
proof -
  have r: "n mod 7 \<in> set [0..<7]" for n :: nat by simp
  have mult: "a mod 7 * (b mod 7) mod 7 = a * b mod 7" for a b :: nat by (rule mod_mult_eq)
  have zero: "a mod 7 = 0 \<or> b mod 7 = 0" if "a * b mod 7 = 0" for a b :: nat
    using residues7 [THEN bspec, OF r [of a], THEN conjunct1, THEN bspec, OF r [of b], unfolded mult]
    by (rule mp) (rule that)
  have sq: "sqrt7 (y * y mod 7) \<noteq> None" for y
    using residues7 [THEN bspec, OF r [of y]] unfolding mult by blast
  have rhs: "(x * x mod 7 * x + 3) mod 7 \<noteq> 0" for x :: nat
  proof -
    have "(x * x mod 7 * x + 3) mod 7 = ((x mod 7) * (x mod 7) mod 7 * (x mod 7) + 3) mod 7"
      by (metis mod_add_left_eq mod_mult_eq mod_mod_trivial)
    then show ?thesis using residues7 r [of x] by metis
  qed
  have root: "sqrt7 v = Some r \<Longrightarrow> r < 7 \<and> r * r mod 7 = v" for v r
    by (auto simp: sqrt7_def split: if_splits)
  show ?thesis
    unfolding bnlib_ok_def
    by (intro conjI allI impI; (simp add: bn7_def bn_rhs_def bn_on_curve_def BN254_G1_B_def root sq rhs; fail)?)
      (use zero root in \<open>auto simp: bn7_def bn_rhs_def bn_on_curve_def BN254_G1_B_def split: if_splits\<close>)
qed

theorem bn254_compression_roundtrip_witness:
  "bn254_decompress bn7 (to_be 32 1) = Some (1, 2)"
proof -
  have "bn254_try_from_affine (Some (1, 2)) = Ok (Bn254PublicKey (to_be 32 1))"
    by (simp add: bn254_try_from_affine_def)
  moreover have "bn_on_curve bn7 1 2"
    by (simp add: bn_on_curve_def bn_rhs_def bn7_def BN254_G1_B_def)
  moreover have "(1 :: nat) < fq_modulus bn7" "2 < fq_modulus bn7" by (simp_all add: bn7_def)
  ultimately show ?thesis
    using bn254_compression_roundtrip [OF bnlib_ok_7, of 1 2 "to_be 32 1"] by simp
qed

subsection \<open>Secrets\<close>

text \<open>The four little-endian limbs denote the number the reversed bytes denote.\<close>

lemma big_int_le_limbs:
  assumes "length bs = 32"
  shows "big_int (le_limbs bs) = from_be (rev bs)"
proof -
  define s where "s = (\<lambda>i. slice_of (8 * i) 8 bs)"
  have "s 0 = take 8 bs" "take 8 bs @ s 1 = take 16 bs" "take 16 bs @ s 2 = take 24 bs"
    "take 24 bs @ s 3 = take 32 bs"
    using assms slice_split [of 8 8 bs] slice_split [of 16 8 bs] slice_split [of 24 8 bs]
    by (simp_all add: s_def slice_of_def)
  then have "((s 0 @ s 1) @ s 2) @ s 3 = take 32 bs" by (simp only:)
  then have bs: "bs = s 0 @ s 1 @ s 2 @ s 3" using assms by simp
  have len: "length (s i) = 8" if "i \<le> 3" for i using assms that by (simp add: s_def)
  have limb: "unat (le_limb (s i)) = from_be (rev (s i))" if "i \<le> 3" for i
    unfolding le_limb_def by (rule unat_of_from_be) (simp add: len [OF that])
  have "from_be (rev bs) = ((from_be (rev (s 3)) * 256 ^ 8 + from_be (rev (s 2))) * 256 ^ 8
      + from_be (rev (s 1))) * 256 ^ 8 + from_be (rev (s 0))"
    by (subst bs) (simp add: from_be_append len algebra_simps)
  moreover have "le_limbs bs = [le_limb (s 0), le_limb (s 1), le_limb (s 2), le_limb (s 3)]"
    by (simp add: le_limbs_def s_def)
  then have "big_int (le_limbs bs) = from_be (rev (s 0)) + 2 ^ 64 * (from_be (rev (s 1))
      + 2 ^ 64 * (from_be (rev (s 2)) + 2 ^ 64 * from_be (rev (s 3))))"
    by (simp add: big_int_def limb)
  ultimately show ?thesis by (simp add: algebra_simps)
qed

lemma bn254_from_privkey_Ok:
  assumes "bnlib_ok N"
  shows "bn254_from_privkey N secret = Ok k \<longleftrightarrow>
    length secret = 32 \<and> 0 < from_be (rev secret) \<and> from_be (rev secret) < fr_modulus N
    \<and> bn254_try_from_affine (bn_base_mul N (from_be (rev secret))) = Ok k"
proof (cases "length secret = 32 \<and> from_be (rev secret) < fr_modulus N")
  case True
  have "bn254_try_from_affine (bn_base_mul N (from_be (rev secret))) = Ok k \<longrightarrow> 0 < from_be (rev secret)"
    using bnlib_okD(11) [OF assms, of 0] by (auto simp: bn254_try_from_affine_def intro!: gr0I)
  with True show ?thesis
    by (auto simp: bn254_from_privkey_def big_int_le_limbs)
next
  case False
  then show ?thesis by (auto simp: bn254_from_privkey_def big_int_le_limbs not_less)
qed

lemma bn254_from_privkey_not_Panic: "bn254_from_privkey N secret \<noteq> Panic"
proof -
  have "bn254_try_from_affine p \<noteq> Panic" for p
    by (cases p) (auto simp: bn254_try_from_affine_def Let_def split: prod.splits)
  then show ?thesis by (simp add: bn254_from_privkey_def and_then_eq_Panic)
qed

section \<open>Key pairs\<close>

datatype bjj_keypair = BjjKeypair (bjj_secret: secret_value) (bjj_public: bjj_public_key)

definition bjj_keypair_from_secret :: "'b bjjlib \<Rightarrow> bytes \<Rightarrow> (bjj_keypair, crypto_error) res" where
  "bjj_keypair_from_secret B bs =
     and_then (bjj_from_privkey B bs) (\<lambda>pk. map_ok (\<lambda>s. BjjKeypair s pk) (secret_value_try_from 32 bs))"

datatype bn254_keypair = Bn254Keypair (bn254_secret: secret_value) (bn254_public: bn254_public_key)

definition bn254_keypair_from_secret :: "bnlib \<Rightarrow> bytes \<Rightarrow> (bn254_keypair, crypto_error) res" where
  "bn254_keypair_from_secret N bs =
     and_then (bn254_from_privkey N bs) (\<lambda>pk. map_ok (\<lambda>s. Bn254Keypair s pk) (secret_value_try_from 32 bs))"

definition bn254_keypair_from_secret_be :: "bnlib \<Rightarrow> bytes \<Rightarrow> (bn254_keypair, crypto_error) res" where
  "bn254_keypair_from_secret_be N bs =
     and_then (reverse_secret_scalar bs) (\<lambda>le. bn254_keypair_from_secret N (secret_bytes le))"

definition bn254_keypair_secret_be :: "bn254_keypair \<Rightarrow> (secret_value, crypto_error) res" where
  "bn254_keypair_secret_be kp = expect (ok (reverse_secret_scalar (secret_bytes (bn254_secret kp))))"

text \<open>
  Rejection sampling of both key pairs: samples are drawn until \<open>from_secret\<close> accepts one; \<open>None\<close>
  if the samples given do not suffice.
\<close>

fun keypair_random :: "(bytes \<Rightarrow> ('k, crypto_error) res) \<Rightarrow> bytes list \<Rightarrow> 'k option" where
  "keypair_random from_secret [] = None"
| "keypair_random from_secret (s # ss) =
     (case from_secret s of Ok kp \<Rightarrow> Some kp | _ \<Rightarrow> keypair_random from_secret ss)"

lemma keypair_random_Some:
  "keypair_random f ss = Some kp \<Longrightarrow> \<exists>s \<in> set ss. f s = Ok kp"
  by (induction ss) (auto split: res.splits)

lemma keypair_random_returns:
  "\<exists>s \<in> set ss. is_ok (f s) \<Longrightarrow> keypair_random f ss \<noteq> None"
  by (induction ss) (auto split: res.splits)

text \<open>
  BN254 key pairs and endianness: a big-endian secret is accepted exactly if it has 32 bytes
  and denotes a number strictly between 0 and the group order, the key pair then returns the
  same secret from \<open>secret_be\<close>, its public key is the one \<open>from_privkey_be\<close> computes, and it
  equals the key pair of the reversed little-endian secret; nothing panics.
\<close>

theorem bn254_keypair_endianness:
  assumes "bnlib_ok N"
  shows "(is_ok (bn254_keypair_from_secret_be N bs) \<longleftrightarrow>
       length bs = 32 \<and> 0 < from_be bs \<and> from_be bs < fr_modulus N)
    \<and> (bn254_keypair_from_secret_be N bs = Ok kp \<longrightarrow>
         bn254_keypair_secret_be kp = Ok (SecretValue bs)
         \<and> bn254_from_privkey_be N bs = Ok (bn254_public kp)
         \<and> bn254_keypair_from_secret N (rev bs) = Ok kp)
    \<and> bn254_keypair_from_secret_be N bs \<noteq> Panic"
proof (intro conjI impI)
  have aff: "\<exists>k. bn254_try_from_affine (bn_base_mul N (from_be bs)) = Ok k"
    if "0 < from_be bs" "from_be bs < fr_modulus N"
    using that bnlib_okD(11) [OF assms, of "from_be bs"]
    by (cases "bn_base_mul N (from_be bs)") (auto simp: bn254_try_from_affine_def Let_def split: prod.splits)
  show "is_ok (bn254_keypair_from_secret_be N bs) \<longleftrightarrow>
       length bs = 32 \<and> 0 < from_be bs \<and> from_be bs < fr_modulus N"
    using aff by (auto simp: is_ok_iff bn254_keypair_from_secret_be_def bn254_keypair_from_secret_def
        bn254_from_privkey_Ok [OF assms])
  show "bn254_keypair_from_secret_be N bs \<noteq> Panic"
    by (simp add: bn254_keypair_from_secret_be_def bn254_keypair_from_secret_def reverse_secret_scalar_def
        secret_value_try_from_def and_then_eq_Panic bn254_from_privkey_not_Panic)
  assume kp: "bn254_keypair_from_secret_be N bs = Ok kp"
  then show "bn254_keypair_secret_be kp = Ok (SecretValue bs)"
    "bn254_from_privkey_be N bs = Ok (bn254_public kp)"
    "bn254_keypair_from_secret N (rev bs) = Ok kp"
    by (auto simp: bn254_keypair_from_secret_be_def bn254_keypair_from_secret_def bn254_from_privkey_be_def
        bn254_keypair_secret_be_def reverse_secret_scalar_len simp del: reverse_secret_scalar_Ok
        dest!: reverse_secret_scalar_Ok [THEN iffD1])
qed

theorem bn254_keypair_endianness_witness:
  "is_ok (bn254_keypair_from_secret_be bn7 (to_be 32 5))"
proof -
  have "from_be (to_be 32 5) = 5" by (rule from_be_to_be_id) simp
  then show ?thesis
    using bn254_keypair_endianness [OF bnlib_ok_7, of "to_be 32 5"] by (simp add: bn7_def)
qed

section \<open>Deposit addresses\<close>

datatype pix_deposit_address = Eth address | Bjj bjj_public_key

datatype pix_deposit_discriminant = EthAddress | BjjAddress

fun address_type :: "pix_deposit_address \<Rightarrow> pix_deposit_discriminant" where
  "address_type (Eth _) = EthAddress"
| "address_type (Bjj _) = BjjAddress"

fun pix_deposit_as_ref :: "pix_deposit_address \<Rightarrow> bytes" where
  "pix_deposit_as_ref (Eth a) = address_bytes a"
| "pix_deposit_as_ref (Bjj k) = bjj_bytes k"

definition pix_deposit_from_public_key :: "'p public_key \<Rightarrow> pix_deposit_address" where
  "pix_deposit_from_public_key pk = Eth (public_key_to_address pk)"

fun pix_deposit_try_into_address :: "pix_deposit_address \<Rightarrow> (address, general_error) res" where
  "pix_deposit_try_into_address (Eth a) = Ok a"
| "pix_deposit_try_into_address (Bjj _) = Err InvalidInput"

fun pix_deposit_try_into_bjj :: "pix_deposit_address \<Rightarrow> (bjj_public_key, general_error) res" where
  "pix_deposit_try_into_bjj (Bjj k) = Ok k"
| "pix_deposit_try_into_bjj (Eth _) = Err InvalidInput"

text \<open>The length of the representation tells the two kinds apart.\<close>

lemma pix_deposit_as_ref_inj:
  assumes "case a of Eth x \<Rightarrow> wf_address x | Bjj k \<Rightarrow> wf_bjj B k"
    "case b of Eth x \<Rightarrow> wf_address x | Bjj k \<Rightarrow> wf_bjj B k"
  shows "pix_deposit_as_ref a = pix_deposit_as_ref b \<longleftrightarrow> a = b"
proof -
  have "wf_address x \<Longrightarrow> wf_bjj B k \<Longrightarrow> address_bytes x \<noteq> bjj_bytes k" for x k
    using address.as_ref_length [of x] bjj.as_ref_length [of B k]
    by (auto simp: ADDRESS_SIZE_def BJJ_SIZE_def)
  then show ?thesis
    using assms address.as_ref_inj bjj.as_ref_inj by (cases a; cases b) (auto dest: sym)
qed

section \<open>Allocation identifiers\<close>

datatype pix_address_id = PixAddressId (pix_id_bytes: bytes)

definition PIX_ID_SIZE :: nat where
  "PIX_ID_SIZE = PSEUDONYM_SIZE + 4"

text \<open>\<open>NonZeroU32\<close> is a 32-bit word other than zero.\<close>

definition non_zero_u32 :: "u32 \<Rightarrow> u32 option" where
  "non_zero_u32 v = (if v = 0 then None else Some v)"

definition pix_id_new :: "simple_pseudonym \<Rightarrow> u32 \<Rightarrow> pix_address_id" where
  "pix_id_new session_id ssa_index =
     PixAddressId (pseudonym_bytes session_id @ to_be 4 (unat ssa_index))"

definition pix_id_session_id :: "hexlib \<Rightarrow> pix_address_id \<Rightarrow> simple_pseudonym option" where
  "pix_id_session_id h i = ok (pseudonym_try_from h (take PSEUDONYM_SIZE (pix_id_bytes i)))"

definition pix_id_ssa_index :: "pix_address_id \<Rightarrow> u32 option" where
  "pix_id_ssa_index i = non_zero_u32 (of_nat (from_be (drop PSEUDONYM_SIZE (pix_id_bytes i))))"

definition pix_id_try_from :: "hexlib \<Rightarrow> bytes \<Rightarrow> (pix_address_id, general_error) res" where
  "pix_id_try_from h value =
     and_then (try_into_array PIX_ID_SIZE (ParseError ''PixAddressId'') value) (\<lambda>bs.
     and_then (pseudonym_try_from h (take PSEUDONYM_SIZE bs)) (\<lambda>session_id.
     and_then (try_into_array 4 (ParseError ''PixAddressId'') (drop PSEUDONYM_SIZE bs)) (\<lambda>ix.
     and_then (ok_or (ParseError ''PixAddressId SSA index'') (non_zero_u32 (of_nat (from_be ix)))) (\<lambda>ssa_index.
       Ok (pix_id_new session_id ssa_index)))))"

definition wf_pix_id :: "pix_address_id \<Rightarrow> bool" where
  "wf_pix_id i \<longleftrightarrow> length (pix_id_bytes i) = PIX_ID_SIZE \<and> pix_id_ssa_index i \<noteq> None"

lemma pix_id_rebuild:
  assumes "length bs = PIX_ID_SIZE"
  shows "take PSEUDONYM_SIZE bs @ to_be 4 (unat (of_nat (from_be (drop PSEUDONYM_SIZE bs)) :: u32)) = bs"
proof -
  have len: "length (drop PSEUDONYM_SIZE bs) = 4" using assms by (simp add: PIX_ID_SIZE_def)
  then have "unat (of_nat (from_be (drop PSEUDONYM_SIZE bs)) :: u32) = from_be (drop PSEUDONYM_SIZE bs)"
    by (intro unat_of_from_be) simp
  then show ?thesis by (simp only: to_be_from_be_len [OF len] append_take_drop_id)
qed

interpretation pix_id: bytes_representable pix_id_bytes "pix_id_try_from h" PIX_ID_SIZE wf_pix_id for h
proof unfold_locales
  fix x assume wf: "wf_pix_id x"
  then show "length (pix_id_bytes x) = PIX_ID_SIZE" by (simp add: wf_pix_id_def)
  from wf have "length (pix_id_bytes x) = PIX_ID_SIZE"
    "(of_nat (from_be (drop PSEUDONYM_SIZE (pix_id_bytes x))) :: u32) \<noteq> 0"
    by (auto simp: wf_pix_id_def pix_id_ssa_index_def non_zero_u32_def split: if_splits)
  then show "pix_id_try_from h (pix_id_bytes x) = Ok x"
    using pix_id_rebuild [of "pix_id_bytes x"]
    by (cases x) (simp add: pix_id_try_from_def pix_id_new_def non_zero_u32_def pseudonym_try_from_def
        pseudonym_from_def PIX_ID_SIZE_def)
next
  fix bs x assume ok: "pix_id_try_from h bs = Ok x"
  then have "length bs = PIX_ID_SIZE" "(of_nat (from_be (drop PSEUDONYM_SIZE bs)) :: u32) \<noteq> 0"
    and x: "x = PixAddressId (take PSEUDONYM_SIZE bs @ to_be 4 (unat (of_nat (from_be (drop PSEUDONYM_SIZE bs)) :: u32)))"
    by (auto simp: pix_id_try_from_def pix_id_new_def non_zero_u32_def pseudonym_try_from_def
        pseudonym_from_def split: if_splits)
  then show "wf_pix_id x \<and> pix_id_bytes x = bs"
    using pix_id_rebuild [of bs] by (simp add: wf_pix_id_def pix_id_ssa_index_def non_zero_u32_def)
next
  fix bs show "pix_id_try_from h bs \<noteq> Panic"
    by (simp add: pix_id_try_from_def and_then_eq_Panic pseudonym.try_from_not_Panic)
qed

text \<open>
  A PIX allocation identifier built from a session and a non-zero index is well formed,
  returns both parts from its accessors, and its bytes parse back to it; an accepted byte
  string never makes an accessor panic, and no accepted identifier has the index zero.
\<close>

theorem pix_id_roundtrip:
  assumes "wf_pseudonym h session_id" "ssa_index \<noteq> 0"
  shows "pix_id_session_id h (pix_id_new session_id ssa_index) = Some session_id
    \<and> pix_id_ssa_index (pix_id_new session_id ssa_index) = Some ssa_index
    \<and> pix_id_try_from h (pix_id_bytes (pix_id_new session_id ssa_index)) = Ok (pix_id_new session_id ssa_index)
    \<and> (pix_id_try_from h bs = Ok i \<longrightarrow>
        (\<exists>s x. pix_id_session_id h i = Some s \<and> pix_id_ssa_index i = Some x \<and> x \<noteq> 0 \<and> i = pix_id_new s x))"
proof (intro conjI impI)
  have len: "length (pseudonym_bytes session_id) = PSEUDONYM_SIZE" using assms by (simp add: wf_pseudonym_def)
  have v: "from_be (to_be 4 (unat ssa_index)) = unat ssa_index"
    by (rule from_be_to_be_id) (use unat_less_2p [of ssa_index] in simp)
  show s: "pix_id_session_id h (pix_id_new session_id ssa_index) = Some session_id"
    using len pseudonym.try_from_as_ref [OF assms(1)] by (simp add: pix_id_session_id_def pix_id_new_def)
  show x: "pix_id_ssa_index (pix_id_new session_id ssa_index) = Some ssa_index"
    using len assms(2) by (simp add: pix_id_ssa_index_def pix_id_new_def v non_zero_u32_def)
  have "wf_pix_id (pix_id_new session_id ssa_index)"
    unfolding wf_pix_id_def x using len by (simp add: pix_id_new_def PIX_ID_SIZE_def)
  then show "pix_id_try_from h (pix_id_bytes (pix_id_new session_id ssa_index)) = Ok (pix_id_new session_id ssa_index)"
    by (rule pix_id.try_from_as_ref)
next
  assume "pix_id_try_from h bs = Ok i"
  then have wf: "wf_pix_id i" by (rule pix_id.try_from_Ok [THEN conjunct1])
  then obtain x where x: "pix_id_ssa_index i = Some x" "length (pix_id_bytes i) = PIX_ID_SIZE"
    by (auto simp: wf_pix_id_def)
  have "pix_id_session_id h i = Some (pseudonym_from h (take PSEUDONYM_SIZE (pix_id_bytes i)))"
    using x(2) by (simp add: pix_id_session_id_def pseudonym_try_from_def PIX_ID_SIZE_def)
  moreover have "x \<noteq> 0" "i = pix_id_new (pseudonym_from h (take PSEUDONYM_SIZE (pix_id_bytes i))) x"
    using x pix_id_rebuild [OF x(2)]
    by (cases i; auto simp: pix_id_ssa_index_def non_zero_u32_def pix_id_new_def pseudonym_from_def split: if_splits)+
  ultimately show "\<exists>s x. pix_id_session_id h i = Some s \<and> pix_id_ssa_index i = Some x \<and> x \<noteq> 0 \<and> i = pix_id_new s x"
    using x(1) by blast
qed

theorem pix_id_roundtrip_witness:
  "pix_id_ssa_index (pix_id_new (pseudonym_from hex_std [1, 2, 3, 4, 5, 6, 7, 8, 9, 10]) 258) = Some 258"
proof -
  have "wf_pseudonym hex_std (pseudonym_from hex_std [1, 2, 3, 4, 5, 6, 7, 8, 9, 10])"
    by (simp add: wf_pseudonym_def pseudonym_from_def PSEUDONYM_SIZE_def)
  then show ?thesis using pix_id_roundtrip [of hex_std _ 258] by simp
qed

end
