(* ===== verification/Signing.thy ===== *)
theory Signing
  imports Offchain_Keys
begin

text \<open>
  \<open>crypto/signing.rs\<close>: recoverable ECDSA signatures over secp256k1 with the parity of the
  recovery id packed into the \<open>S\<close> value, and Ed25519 signatures with batch verification. The
  trait \<open>EcdsaEngine\<close> is the record \<open>ecdsa_engine\<close>; the two engines \<open>k256_engine\<close> and
  \<open>native_engine\<close> are defined over the record \<open>ecdsalib\<close> of what the packages \<open>k256\<close> and
  \<open>secp256k1\<close> provide. The locale \<open>ecdsa_engine_laws\<close> is the contract the signature type relies
  on; both engines interpret it.
\<close>

type_synonym raw_signature = "bytes \<times> u8"

definition ECDSA_SIGNATURE_SIZE :: nat where
  "ECDSA_SIGNATURE_SIZE = 64"

record 'p ecdsa_engine =
  engine_sign :: "hash \<Rightarrow> 'p chain_keypair \<Rightarrow> (raw_signature, crypto_error) res"
  engine_verify :: "raw_signature \<Rightarrow> hash \<Rightarrow> 'p public_key \<Rightarrow> (bool, crypto_error) res"
  engine_recover :: "raw_signature \<Rightarrow> hash \<Rightarrow> ('p public_key, crypto_error) res"

section \<open>The engines\<close>

text \<open>
  What the two packages provide, on bytes. Signing takes the secret and the hash and is
  undefined for an invalid secret; parsing checks a compact signature; recovery takes the hash,
  the signature and the recovery id.
\<close>

record 'p ecdsalib =
  k256_sign :: "bytes \<Rightarrow> bytes \<Rightarrow> (bytes \<times> u8) option"
  k256_key_ok :: "bytes \<Rightarrow> bool"
  k256_sig_ok :: "bytes \<Rightarrow> bool"
  k256_verify :: "bytes \<Rightarrow> bytes \<Rightarrow> bytes \<Rightarrow> bool"
  k256_recid_ok :: "u8 \<Rightarrow> bool"
  k256_recover :: "bytes \<Rightarrow> bytes \<Rightarrow> u8 \<Rightarrow> 'p option"
  native_sign :: "bytes \<Rightarrow> bytes \<Rightarrow> (32 word \<times> bytes) option"
  native_key_ok :: "bytes \<Rightarrow> bool"
  native_sig_ok :: "bytes \<Rightarrow> bool"
  native_verify :: "bytes \<Rightarrow> bytes \<Rightarrow> bytes \<Rightarrow> bool"
  native_recoverable_ok :: "bytes \<Rightarrow> u8 \<Rightarrow> bool"
  native_recover :: "bytes \<Rightarrow> bytes \<Rightarrow> u8 \<Rightarrow> bytes option"

definition k256_engine :: "'p secp \<Rightarrow> 'p ecdsalib \<Rightarrow> 'p ecdsa_engine" where
  "k256_engine L X = \<lparr>
     engine_sign = (\<lambda>h kp.
       ok_or (InvalidInputValue ''chain_keypair'') (k256_sign X (secret_bytes (ckp_secret kp)) (hash_bytes h))),
     engine_verify = (\<lambda>sig h pk.
       let key = to_uncompressed_bytes L pk in
       if \<not> k256_key_ok X key then Err (InvalidInputValue ''public key'')
       else if k256_sig_ok X (fst sig) then Ok (k256_verify X key (hash_bytes h) (fst sig))
       else Err (InvalidInputValue ''signature'')),
     engine_recover = (\<lambda>sig h.
       if \<not> k256_sig_ok X (fst sig) then Err (InvalidInputValue ''signature.sig'')
       else if \<not> k256_recid_ok X (snd sig) then Err (InvalidInputValue ''signature.recid'')
       else and_then (ok_or SignatureVerification (k256_recover X (hash_bytes h) (fst sig) (snd sig)))
              (public_key_try_from_affine L))\<rparr>"

text \<open>\<open>from_u8_masked\<close> keeps the two low bits of the recovery id.\<close>

definition native_engine :: "'p secp \<Rightarrow> 'p ecdsalib \<Rightarrow> 'p ecdsa_engine" where
  "native_engine L X = \<lparr>
     engine_sign = (\<lambda>h kp.
       map_ok (\<lambda>(recid, sig). (sig, ucast recid))
         (ok_or (InvalidInputValue ''chain_keypair'') (native_sign X (secret_bytes (ckp_secret kp)) (hash_bytes h)))),
     engine_verify = (\<lambda>sig h pk.
       let key = to_uncompressed_bytes L pk in
       if \<not> native_key_ok X key then Err (InvalidInputValue ''public key'')
       else if \<not> native_sig_ok X (fst sig) then Err (InvalidInputValue ''signature'')
       else Ok (native_verify X key (hash_bytes h) (fst sig))),
     engine_recover = (\<lambda>sig h.
       if \<not> native_recoverable_ok X (fst sig) (snd sig AND 3) then Err (InvalidInputValue ''signature'')
       else and_then (ok_or SignatureVerification (native_recover X (hash_bytes h) (fst sig) (snd sig AND 3)))
              (\<lambda>pk. map_err (\<lambda>_. CalculationError) (public_key_try_from L pk)))\<rparr>"

text \<open>
  Documented behaviour: a valid secret signs any hash; the 64-byte signature has a low \<open>S\<close>, so its
  33rd byte is below 128; the recovery id is below 4; the signature verifies under the public
  key and recovers it.
\<close>

definition ecdsalib_ok :: "'p secp \<Rightarrow> 'p ecdsalib \<Rightarrow> bool" where
  "ecdsalib_ok L X \<longleftrightarrow> secp_ok L
   \<and> (\<forall>kp h. wf_chain_keypair L kp \<longrightarrow> length h = 32 \<longrightarrow>
        (let sk = secret_bytes (ckp_secret kp); pk = to_uncompressed_bytes L (ckp_public kp) in
         (\<exists>sig rec. k256_sign X sk h = Some (sig, rec) \<and> length sig = 64 \<and> \<not> bit (sig ! 32) 7 \<and> rec < 4
            \<and> k256_key_ok X pk \<and> k256_sig_ok X sig \<and> k256_recid_ok X rec
            \<and> k256_verify X pk h sig \<and> k256_recover X h sig rec = Some (pk_point (ckp_public kp)))
       \<and> (\<exists>sig rec. native_sign X sk h = Some (rec, sig) \<and> length sig = 64 \<and> \<not> bit (sig ! 32) 7 \<and> rec < 4
            \<and> native_key_ok X pk \<and> native_sig_ok X sig \<and> native_recoverable_ok X sig (ucast rec)
            \<and> native_verify X pk h sig \<and> native_recover X h sig (ucast rec) = Some pk)))"

section \<open>Signatures with a packed parity bit\<close>

datatype chain_signature = ChainSignature (signature_bytes: bytes)

definition chain_signature_new :: "raw_signature \<Rightarrow> chain_signature" where
  "chain_signature_new raw =
     (let parity = snd raw AND 1;
          ret = (fst raw)[32 := (fst raw ! 32) AND 0x7f];
          ret = ret[32 := (ret ! 32) OR push_bit 7 parity]
      in ChainSignature ret)"

definition signature_raw :: "chain_signature \<Rightarrow> raw_signature" where
  "signature_raw s =
     (let raw_sig = signature_bytes s;
          parity = (if (raw_sig ! 32) AND 0x80 \<noteq> 0 then 1 else 0)
      in (raw_sig[32 := (raw_sig ! 32) AND 0x7f], parity))"

definition signature_sign_hash ::
  "'p ecdsa_engine \<Rightarrow> hash \<Rightarrow> 'p chain_keypair \<Rightarrow> chain_signature option" where
  "signature_sign_hash E h kp = map_option chain_signature_new (ok (engine_sign E h kp))"

definition signature_sign_message ::
  "'p secp \<Rightarrow> 'p ecdsa_engine \<Rightarrow> bytes \<Rightarrow> 'p chain_keypair \<Rightarrow> chain_signature option" where
  "signature_sign_message L E msg kp = signature_sign_hash E (hash_create (keccak256 L) [msg]) kp"

definition signature_verify_hash ::
  "'p ecdsa_engine \<Rightarrow> chain_signature \<Rightarrow> hash \<Rightarrow> 'p public_key \<Rightarrow> (bool, crypto_error) res" where
  "signature_verify_hash E s h pk = engine_verify E (signature_raw s) h pk"

definition signature_verify_message ::
  "'p secp \<Rightarrow> 'p ecdsa_engine \<Rightarrow> chain_signature \<Rightarrow> bytes \<Rightarrow> 'p public_key \<Rightarrow> (bool, crypto_error) res" where
  "signature_verify_message L E s msg pk = signature_verify_hash E s (hash_create (keccak256 L) [msg]) pk"

fun recover_alternatives ::
  "'p ecdsa_engine \<Rightarrow> raw_signature \<Rightarrow> hash \<Rightarrow> u8 list \<Rightarrow> ('p public_key, crypto_error) res" where
  "recover_alternatives E raw h [] = Err CalculationError"
| "recover_alternatives E raw h (alt # alts) =
     (case engine_recover E (fst raw, snd raw OR alt) h of
        Ok pk \<Rightarrow> Ok pk
      | Err _ \<Rightarrow> recover_alternatives E raw h alts
      | Panic \<Rightarrow> Panic)"

definition signature_recover_from_hash ::
  "'p ecdsa_engine \<Rightarrow> chain_signature \<Rightarrow> hash \<Rightarrow> ('p public_key, crypto_error) res" where
  "signature_recover_from_hash E s h = recover_alternatives E (signature_raw s) h [0, 2]"

definition signature_recover_from_msg ::
  "'p secp \<Rightarrow> 'p ecdsa_engine \<Rightarrow> chain_signature \<Rightarrow> bytes \<Rightarrow> ('p public_key, crypto_error) res" where
  "signature_recover_from_msg L E s msg = signature_recover_from_hash E s (hash_create (keccak256 L) [msg])"

definition signature_try_from :: "bytes \<Rightarrow> (chain_signature, general_error) res" where
  "signature_try_from = array_try_from ChainSignature ECDSA_SIGNATURE_SIZE ''Signature''"

definition wf_signature :: "chain_signature \<Rightarrow> bool" where
  "wf_signature s \<longleftrightarrow> length (signature_bytes s) = ECDSA_SIGNATURE_SIZE"

interpretation signature: bytes_representable signature_bytes signature_try_from ECDSA_SIGNATURE_SIZE wf_signature
  unfolding wf_signature_def signature_try_from_def by (rule bytes_representable_array) simp_all

lemma parity_bit:
  "((b :: 8 word) AND 0x7f) OR push_bit 7 (r AND 1) = (if odd r then (b AND 0x7f) OR 0x80 else b AND 0x7f)"
proof -
  have "push_bit 7 (1 :: 8 word) = 0x80" by simp
  then show ?thesis by (simp add: and_one_eq mod2_eq_if)
qed

lemma signature_new_bytes:
  "length sig = 64 \<Longrightarrow> signature_bytes (chain_signature_new (sig, rec)) =
    sig[32 := if odd rec then ((sig ! 32) AND 0x7f) OR 0x80 else (sig ! 32) AND 0x7f]"
proof -
  assume "length sig = 64"
  then have "32 < length sig" by simp
  then show ?thesis
    by (simp only: chain_signature_new_def Let_def fst_conv snd_conv chain_signature.sel
        nth_list_update_eq list_update_overwrite parity_bit)
qed

text \<open>Unpacking returns the signature with the bit cleared and the parity.\<close>

lemma signature_raw_new:
  assumes "length sig = 64" "\<not> bit (sig ! 32) 7"
  shows "signature_raw (chain_signature_new (sig, rec)) = (sig, rec AND 1)"
proof -
  have "(sig ! 32) AND 0x7f = sig ! 32" by (rule high_bit_clear [OF assms(2)])
  then show ?thesis
    using assms
    by (simp add: signature_raw_def Let_def signature_new_bytes high_bit_iff and_one_eq mod2_eq_if)
qed

text \<open>And packing what was unpacked gives the same 64 bytes.\<close>

lemma signature_new_raw:
  assumes "wf_signature s"
  shows "chain_signature_new (signature_raw s) = s"
proof -
  have len: "length (signature_bytes s) = 64" using assms by (simp add: wf_signature_def ECDSA_SIGNATURE_SIZE_def)
  have "signature_bytes (chain_signature_new (signature_raw s)) = signature_bytes s"
  proof (cases "bit (signature_bytes s ! 32) 7")
    case True
    have "((signature_bytes s ! 32) AND 0x7f) OR 0x80 = signature_bytes s ! 32"
      by (rule high_bit_restore [OF True])
    with True len show ?thesis by (simp add: signature_raw_def Let_def signature_new_bytes high_bit_iff)
  next
    case False
    have "(signature_bytes s ! 32) AND 0x7f = signature_bytes s ! 32" by (rule high_bit_clear [OF False])
    with False len show ?thesis by (simp add: signature_raw_def Let_def signature_new_bytes high_bit_iff)
  qed
  then show ?thesis by (cases s; cases "chain_signature_new (signature_raw s)") simp
qed

lemma wf_signature_new [simp]: "length sig = 64 \<Longrightarrow> wf_signature (chain_signature_new (sig, rec))"
  by (simp add: wf_signature_def ECDSA_SIGNATURE_SIZE_def signature_new_bytes)

section \<open>The contract of an engine\<close>

text \<open>
  An engine signs with any valid key pair; the signature verifies under the public key of the
  pair and gives it back on recovery. \<open>valid\<close> is the condition on the packages under it.
\<close>

locale ecdsa_engine_laws =
  fixes L :: "'p secp"
    and E :: "'p ecdsa_engine"
    and valid :: bool
  assumes valid_curve: "valid \<Longrightarrow> secp_ok L"
    and sign_ok: "valid \<Longrightarrow> wf_chain_keypair L kp \<Longrightarrow> wf_hash h \<Longrightarrow>
      \<exists>sig rec. engine_sign E h kp = Ok (sig, rec) \<and> length sig = 64 \<and> \<not> bit (sig ! 32) 7 \<and> rec < 4
        \<and> (\<forall>rec'. engine_verify E (sig, rec') h (ckp_public kp) = Ok True)
        \<and> engine_recover E (sig, rec) h = Ok (ckp_public kp)"
    and recover_not_Panic: "valid \<Longrightarrow> engine_recover E raw h \<noteq> Panic"
    and recover_wf: "valid \<Longrightarrow> engine_recover E raw h = Ok pk \<Longrightarrow> wf_public_key L pk"
begin

lemma sign_hash_ok:
  assumes "valid" "wf_chain_keypair L kp" "wf_hash h"
  obtains sig rec where "signature_sign_hash E h kp = Some (chain_signature_new (sig, rec))"
    "signature_raw (chain_signature_new (sig, rec)) = (sig, rec AND 1)"
    "wf_signature (chain_signature_new (sig, rec))" "rec < 4"
    "engine_verify E (sig, rec AND 1) h (ckp_public kp) = Ok True"
    "engine_sign E h kp = Ok (sig, rec)" "engine_recover E (sig, rec) h = Ok (ckp_public kp)"
proof -
  obtain sig rec where s: "engine_sign E h kp = Ok (sig, rec)" "length sig = 64" "\<not> bit (sig ! 32) 7"
    "rec < 4" "\<forall>rec'. engine_verify E (sig, rec') h (ckp_public kp) = Ok True"
    "engine_recover E (sig, rec) h = Ok (ckp_public kp)"
    using sign_ok [OF assms] by blast
  show ?thesis
  proof (rule that)
    have "ok (engine_sign E h kp) = Some (sig, rec)" using s(1) by simp
    then show "signature_sign_hash E h kp = Some (chain_signature_new (sig, rec))"
      by (simp only: signature_sign_hash_def option.map)
    show "signature_raw (chain_signature_new (sig, rec)) = (sig, rec AND 1)"
      using s by (intro signature_raw_new)
  qed (use s in simp_all)
qed

lemma verify_signed:
  assumes "valid" "wf_chain_keypair L kp" "wf_hash h" "signature_sign_hash E h kp = Some s"
  shows "signature_verify_hash E s h (ckp_public kp) = Ok True" "wf_signature s"
  by (rule sign_hash_ok [OF assms(1-3)], use assms(4) in \<open>simp add: signature_verify_hash_def\<close>)+

text \<open>
  Only the parity of the recovery id is kept. Recovery tries both ids of that parity, the smaller
  first; it returns the signer unless the smaller id is not the signer's and yields a key too.
\<close>

lemma recover_signed:
  assumes "valid" "wf_chain_keypair L kp" "wf_hash h" "engine_sign E h kp = Ok (sig, rec)"
    "rec < 2 \<or> \<not> is_ok (engine_recover E (sig, rec AND 1) h)"
  shows "\<exists>s. signature_sign_hash E h kp = Some s \<and> signature_recover_from_hash E s h = Ok (ckp_public kp)"
proof -
  obtain s where s: "signature_sign_hash E h kp = Some s" "signature_raw s = (sig, rec AND 1)"
    and rec: "rec < 4" "engine_recover E (sig, rec) h = Ok (ckp_public kp)"
    by (rule sign_hash_ok [OF assms(1-3)]) (use assms(4) in auto)
  have "rec \<in> {0, 1, 2, 3}"
  proof -
    have "unat rec < 4" using rec(1) by (simp add: word_less_nat_alt)
    then have "unat rec = 0 \<or> unat rec = 1 \<or> unat rec = 2 \<or> unat rec = 3" by arith
    moreover have "(of_nat 0 :: 8 word) = 0" by simp
    ultimately show ?thesis
      using word_eq_of_nat_unat [of rec 0] word_eq_of_nat_unat [of rec 1]
        word_eq_of_nat_unat [of rec 2] word_eq_of_nat_unat [of rec 3]
      by (simp only: of_nat_1 of_nat_numeral insert_iff empty_iff) metis
  qed
  then have r: "rec < 2 \<and> rec AND 1 = rec \<or> \<not> rec < 2 \<and> (rec AND 1) OR 2 = rec" by auto
  have np: "engine_recover E raw h \<noteq> Panic" for raw by (rule recover_not_Panic [OF assms(1)])
  have "signature_recover_from_hash E s h = Ok (ckp_public kp)"
  proof (cases "rec < 2")
    case True
    then show ?thesis using r rec s(2) by (simp add: signature_recover_from_hash_def)
  next
    case False
    with assms(5) np obtain e where "engine_recover E (sig, rec AND 1) h = Err e"
      by (cases "engine_recover E (sig, rec AND 1) h") auto
    then show ?thesis using False r rec s(2) by (simp add: signature_recover_from_hash_def)
  qed
  with s show ?thesis by blast
qed

lemma recovered_wf:
  assumes "valid" "signature_recover_from_hash E s h = Ok pk"
  shows "wf_public_key L pk"
  using assms recover_wf by (auto simp: signature_recover_from_hash_def split: res.splits)

lemma recover_total:
  assumes "valid"
  shows "signature_recover_from_hash E s h \<noteq> Panic"
  using recover_not_Panic [OF assms] by (auto simp: signature_recover_from_hash_def split: res.splits)

end

interpretation k256: ecdsa_engine_laws L "k256_engine L X" "ecdsalib_ok L X" for L X
proof unfold_locales
  assume ok: "ecdsalib_ok L X"
  then show L: "secp_ok L" by (simp add: ecdsalib_ok_def)
  show "engine_recover (k256_engine L X) raw h \<noteq> Panic" for raw h
    by (simp add: k256_engine_def and_then_eq_Panic public_key_try_from_affine_Ok(2) [OF L])
  show "engine_recover (k256_engine L X) raw h = Ok pk \<Longrightarrow> wf_public_key L pk" for raw h pk
    by (auto simp: k256_engine_def public_key_try_from_affine_Ok(1) [OF L] split: if_splits)
  fix kp h
  assume "wf_chain_keypair L kp" "wf_hash h"
  moreover from this have "wf_public_key L (ckp_public kp)" using wf_chain_keypairD(1) [OF L] by blast
  ultimately show "\<exists>sig rec. engine_sign (k256_engine L X) h kp = Ok (sig, rec) \<and> length sig = 64
      \<and> \<not> bit (sig ! 32) 7 \<and> rec < 4
      \<and> (\<forall>rec'. engine_verify (k256_engine L X) (sig, rec') h (ckp_public kp) = Ok True)
      \<and> engine_recover (k256_engine L X) (sig, rec) h = Ok (ckp_public kp)"
    using ok by (fastforce simp: ecdsalib_ok_def Let_def k256_engine_def wf_hash_def HASH_BASE_SIZE_def
        public_key_try_from_affine_Ok(1) [OF L])
qed

text \<open>Masking does not change a recovery id below four.\<close>

lemma recid_masked:
  assumes "(rec :: 32 word) < 4"
  shows "(ucast rec :: 8 word) AND 3 = ucast rec" "(ucast rec :: 8 word) < 4"
proof -
  have u: "unat rec < 4" using assms by (simp add: word_less_nat_alt)
  then have c: "unat (ucast rec :: 8 word) = unat rec"
    by (simp add: unsigned_ucast_eq take_bit_nat_eq_self)
  then show "(ucast rec :: 8 word) < 4" using u by (simp add: word_less_nat_alt)
  have "(3 :: 8 word) = mask 2" by (simp add: mask_eq_exp_minus_1)
  then have "(ucast rec :: 8 word) AND 3 = take_bit 2 (ucast rec)" by (simp only: take_bit_eq_mask)
  then have "unat ((ucast rec :: 8 word) AND 3) = take_bit 2 (unat (ucast rec :: 8 word))"
    by (simp add: unsigned_take_bit_eq)
  also have "\<dots> = unat (ucast rec :: 8 word)" using u c by (simp add: take_bit_nat_eq_self)
  finally show "(ucast rec :: 8 word) AND 3 = ucast rec" by (rule word_unat_eq_iff [THEN iffD2])
qed

interpretation native: ecdsa_engine_laws L "native_engine L X" "ecdsalib_ok L X" for L X
proof unfold_locales
  assume ok: "ecdsalib_ok L X"
  then show L: "secp_ok L" by (simp add: ecdsalib_ok_def)
  show "engine_recover (native_engine L X) raw h \<noteq> Panic" for raw h
    by (simp add: native_engine_def and_then_eq_Panic public_key_try_from_not_Panic [OF L])
  show "engine_recover (native_engine L X) raw h = Ok pk \<Longrightarrow> wf_public_key L pk" for raw h pk
    using public_key_try_from_wf [OF L] by (auto simp: native_engine_def split: if_splits)
  fix kp h
  assume kp: "wf_chain_keypair L kp" "wf_hash h"
  then have pk: "wf_public_key L (ckp_public kp)" using wf_chain_keypairD(1) [OF L] by blast
  obtain sig rec where s: "native_sign X (secret_bytes (ckp_secret kp)) (hash_bytes h) = Some (rec, sig)"
    "length sig = 64" "\<not> bit (sig ! 32) 7" "rec < 4"
    "native_key_ok X (to_uncompressed_bytes L (ckp_public kp))" "native_sig_ok X sig"
    "native_recoverable_ok X sig (ucast rec)"
    "native_verify X (to_uncompressed_bytes L (ckp_public kp)) (hash_bytes h) sig"
    "native_recover X (hash_bytes h) sig (ucast rec) = Some (to_uncompressed_bytes L (ckp_public kp))"
    using ok kp unfolding ecdsalib_ok_def Let_def wf_hash_def HASH_BASE_SIZE_def by blast
  then show "\<exists>sig rec. engine_sign (native_engine L X) h kp = Ok (sig, rec) \<and> length sig = 64
      \<and> \<not> bit (sig ! 32) 7 \<and> rec < 4
      \<and> (\<forall>rec'. engine_verify (native_engine L X) (sig, rec') h (ckp_public kp) = Ok True)
      \<and> engine_recover (native_engine L X) (sig, rec) h = Ok (ckp_public kp)"
    using recid_masked [OF s(4)] public_key_try_from_uncompressed [OF L pk]
    by (intro exI [of _ sig] exI [of _ "ucast rec"]) (simp add: native_engine_def)
qed

text \<open>The type \<open>Signature\<close>: the feature \<open>rust-ecdsa\<close> selects its engine.\<close>

definition signature_engine :: "'p secp \<Rightarrow> 'p ecdsalib \<Rightarrow> bool \<Rightarrow> 'p ecdsa_engine" where
  "signature_engine L X rust_ecdsa = (if rust_ecdsa then k256_engine L X else native_engine L X)"

lemma signature_engine_laws: "ecdsa_engine_laws L (signature_engine L X rust_ecdsa) (ecdsalib_ok L X)"
  using k256.ecdsa_engine_laws_axioms native.ecdsa_engine_laws_axioms
  by (cases rust_ecdsa) (simp_all add: signature_engine_def)

text \<open>
  C13. With either engine, the signature of a hash under a valid key pair is 64 bytes that parse
  back to it, verifies under the public key of the pair, and gives that public key back on
  recovery although only the parity of the recovery id is stored. (Recovery tries the two ids of
  that parity, the smaller first; for the ids 2 and 3, which occur with negligible probability,
  it relies on the smaller one yielding no key.)
\<close>

theorem signature_sign_verify_recover:
  assumes "ecdsalib_ok L X" "wf_chain_keypair L kp" "wf_hash h"
    and E: "E = signature_engine L X rust_ecdsa"
    and "engine_sign E h kp = Ok (sig, rec)"
  shows "\<exists>s. signature_sign_hash E h kp = Some s
      \<and> signature_try_from (signature_bytes s) = Ok s
      \<and> signature_verify_hash E s h (ckp_public kp) = Ok True
      \<and> (rec < 2 \<or> \<not> is_ok (engine_recover E (sig, rec AND 1) h) \<longrightarrow>
           signature_recover_from_hash E s h = Ok (ckp_public kp))"
proof -
  note laws = signature_engine_laws [of L X rust_ecdsa, folded E]
  obtain s where s: "signature_sign_hash E h kp = Some s"
    using ecdsa_engine_laws.sign_hash_ok [OF laws assms(1-3)] by blast
  note v = ecdsa_engine_laws.verify_signed [OF laws assms(1-3) s]
  show ?thesis
    using s v signature.try_from_as_ref [OF v(2)]
      ecdsa_engine_laws.recover_signed [OF laws assms(1-3,5)] by auto
qed

text \<open>Toy signatures that name the signer, for the witness: they keep every promise but secrecy.\<close>

definition ecdsa_toy :: "u32 ecdsalib" where
  "ecdsa_toy = \<lparr>
     k256_sign = (\<lambda>sk h. Some (to_be 64 (from_be sk), 0)),
     k256_key_ok = (\<lambda>_. True), k256_sig_ok = (\<lambda>_. True), k256_verify = (\<lambda>_ _ _. True),
     k256_recid_ok = (\<lambda>r. r < 4),
     k256_recover = (\<lambda>h sig r. Some (of_nat (from_be sig))),
     native_sign = (\<lambda>sk h. Some (0, to_be 64 (from_be sk))),
     native_key_ok = (\<lambda>_. True), native_sig_ok = (\<lambda>_. True), native_verify = (\<lambda>_ _ _. True),
     native_recoverable_ok = (\<lambda>_ _. True),
     native_recover = (\<lambda>h sig r. Some (std_uncompressed (of_nat (from_be sig))))\<rparr>"

lemma ecdsalib_ok_toy: "ecdsalib_ok secp_toy ecdsa_toy"
  unfolding ecdsalib_ok_def Let_def
proof (intro conjI allI impI)
  show "secp_ok secp_toy" by (rule secp_ok_toy)
  fix kp and h :: bytes
  assume kp: "wf_chain_keypair secp_toy kp"
  let ?v = "from_be (secret_bytes (ckp_secret kp))"
  have v: "?v < 2 ^ 32" "pk_point (ckp_public kp) = of_nat ?v"
    using wf_chain_keypairD [OF secp_ok_toy kp] by (simp_all add: secp_toy_def)
  have e: "from_be (to_be 64 ?v) = ?v"
    by (rule from_be_to_be_id) (rule less_le_trans [OF v(1)], simp)
  have "to_be 64 ?v = replicate 60 0 @ to_be 4 ?v"
    using to_be_pad [of ?v 4 60] v(1) by simp
  then have b: "\<not> bit (to_be 64 ?v ! 32) 7" by (simp add: nth_append)
  have u: "to_uncompressed_bytes secp_toy (ckp_public kp) = std_uncompressed (of_nat ?v)"
    using v by (simp add: to_uncompressed_bytes_def secp_toy_def)
  let ?pk = "to_uncompressed_bytes secp_toy (ckp_public kp)" and ?sk = "secret_bytes (ckp_secret kp)"
  show "\<exists>sig rec. k256_sign ecdsa_toy ?sk h = Some (sig, rec) \<and> length sig = 64 \<and> \<not> bit (sig ! 32) 7 \<and> rec < 4
      \<and> k256_key_ok ecdsa_toy ?pk \<and> k256_sig_ok ecdsa_toy sig \<and> k256_recid_ok ecdsa_toy rec
      \<and> k256_verify ecdsa_toy ?pk h sig \<and> k256_recover ecdsa_toy h sig rec = Some (pk_point (ckp_public kp))"
    using b e v by (simp add: ecdsa_toy_def)
  show "\<exists>sig rec. native_sign ecdsa_toy ?sk h = Some (rec, sig) \<and> length sig = 64 \<and> \<not> bit (sig ! 32) 7 \<and> rec < 4
      \<and> native_key_ok ecdsa_toy ?pk \<and> native_sig_ok ecdsa_toy sig \<and> native_recoverable_ok ecdsa_toy sig (ucast rec)
      \<and> native_verify ecdsa_toy ?pk h sig \<and> native_recover ecdsa_toy h sig (ucast rec) = Some ?pk"
    using b e by (simp add: ecdsa_toy_def u)
qed

text \<open>The key pair of the secret 3 in the toy group.\<close>

definition keypair_toy :: "u32 chain_keypair" where
  "keypair_toy = (case chain_keypair_from_secret secp_toy True (to_be 32 3) of Ok kp \<Rightarrow> kp | _ \<Rightarrow> undefined)"

lemma keypair_toy:
  "wf_chain_keypair secp_toy keypair_toy" "secret_bytes (ckp_secret keypair_toy) = to_be 32 3"
  "pk_point (ckp_public keypair_toy) = 3"
proof -
  have v: "from_be (to_be 32 3) = 3" by (rule from_be_to_be_id) simp
  obtain pk where "public_key_from_privkey secp_toy True (to_be 32 3) = Ok pk" "pk_point pk = secp_base_mul secp_toy 3"
    by (rule privkey_exists [OF secp_ok_toy, of "to_be 32 3" True]) (simp_all add: v, simp add: secp_toy_def)
  then have "chain_keypair_from_secret secp_toy True (to_be 32 3) = Ok (ChainKeypair (SecretValue (to_be 32 3)) pk)"
    "pk_point pk = 3"
    by (simp add: chain_keypair_from_secret_def) (simp add: \<open>pk_point pk = _\<close> secp_toy_def)
  then show "wf_chain_keypair secp_toy keypair_toy" "secret_bytes (ckp_secret keypair_toy) = to_be 32 3"
    "pk_point (ckp_public keypair_toy) = 3"
    by (simp_all add: keypair_toy_def wf_chain_keypair_def)
qed

theorem signature_sign_verify_recover_witness:
  "\<exists>s. signature_sign_hash (k256_engine secp_toy ecdsa_toy) hash_default keypair_toy = Some s
     \<and> signature_recover_from_hash (k256_engine secp_toy ecdsa_toy) s hash_default = Ok (ckp_public keypair_toy)"
proof -
  have h: "wf_hash hash_default" by (simp add: wf_hash_def hash_default_def)
  have s: "engine_sign (k256_engine secp_toy ecdsa_toy) hash_default keypair_toy = Ok (to_be 64 (from_be (to_be 32 3)), 0)"
    by (simp add: k256_engine_def ecdsa_toy_def keypair_toy(2))
  have z: "(0 :: u8) < 2" by simp
  show ?thesis
    using signature_sign_verify_recover [OF ecdsalib_ok_toy keypair_toy(1) h, of _ True,
        unfolded signature_engine_def if_True, OF refl s] z
    by blast
qed

section \<open>Ed25519 signatures\<close>

text \<open>
  A signature of \<open>ed25519-dalek\<close> is an array of 64 bytes. The record holds its signing (of a
  message with an expanded secret and the public point), its key parsing (which decompresses
  the point), its strict verification and its batch verification.
\<close>

record ('e, 'v) eddsa =
  dalek_sign :: "bytes \<Rightarrow> bytes \<Rightarrow> 'e \<Rightarrow> bytes"
  dalek_key :: "bytes \<Rightarrow> 'v option"
  dalek_verify_strict :: "'v \<Rightarrow> bytes \<Rightarrow> bytes \<Rightarrow> bool"
  dalek_verify_batch :: "bytes list \<Rightarrow> bytes list \<Rightarrow> 'v list \<Rightarrow> bool"

datatype offchain_signature = OffchainSignature (offchain_signature_bytes: bytes)

definition OFFCHAIN_SIGNATURE_SIZE :: nat where
  "OFFCHAIN_SIGNATURE_SIZE = 64"

definition offchain_signature_try_from :: "bytes \<Rightarrow> (offchain_signature, general_error) res" where
  "offchain_signature_try_from = array_try_from OffchainSignature OFFCHAIN_SIGNATURE_SIZE ''OffchainSignature''"

definition wf_offchain_signature :: "offchain_signature \<Rightarrow> bool" where
  "wf_offchain_signature s \<longleftrightarrow> length (offchain_signature_bytes s) = OFFCHAIN_SIGNATURE_SIZE"

interpretation offchain_signature: bytes_representable
  offchain_signature_bytes offchain_signature_try_from OFFCHAIN_SIGNATURE_SIZE wf_offchain_signature
  unfolding wf_offchain_signature_def offchain_signature_try_from_def
  by (rule bytes_representable_array) simp_all

text \<open>The two halves \<open>R\<close> and \<open>s\<close> of a signature.\<close>

definition offchain_signature_from_components :: "bytes \<Rightarrow> bytes \<Rightarrow> offchain_signature" where
  "offchain_signature_from_components r s = OffchainSignature (r @ s)"

definition offchain_sign_message ::
  "('e, 'v) eddsa \<Rightarrow> bytes \<Rightarrow> 'e offchain_keypair \<Rightarrow> offchain_signature" where
  "offchain_sign_message D msg kp =
     OffchainSignature (dalek_sign D (secret_bytes (okp_secret kp)) msg
       (expanded_edwards (offchain_keypair_public_expanded kp)))"

definition offchain_verify_message ::
  "('e, 'v) eddsa \<Rightarrow> offchain_signature \<Rightarrow> bytes \<Rightarrow> offchain_public_key \<Rightarrow> bool option" where
  "offchain_verify_message D s msg pk =
     (if length (offchain_signature_bytes s) = OFFCHAIN_SIGNATURE_SIZE then
        Some (case dalek_key D (opk_bytes pk) of
                None \<Rightarrow> False
              | Some v \<Rightarrow> dalek_verify_strict D v msg (offchain_signature_bytes s))
      else None)"

text \<open>
  Batch verification parses every key once: parsed keys are remembered in \<open>seen\<close>, which holds
  at most eight of them; a key that is not found and does not parse ends the loop.
\<close>

definition MEMO_CAPACITY :: nat where
  "MEMO_CAPACITY = 8"

type_synonym batch_entry = "(bytes \<times> offchain_signature) \<times> offchain_public_key"

definition try_push :: "nat \<Rightarrow> 'a list \<Rightarrow> 'a \<Rightarrow> 'a list" where
  "try_push cap xs x = (if length xs < cap then xs @ [x] else xs)"

fun batch_loop :: "('e, 'v) eddsa \<Rightarrow> (offchain_public_key \<times> 'v) list \<Rightarrow>
    bytes list \<Rightarrow> bytes list \<Rightarrow> 'v list \<Rightarrow> batch_entry list \<Rightarrow> (bytes list \<times> bytes list \<times> 'v list) option" where
  "batch_loop D seen msgs sigs keys [] = Some (msgs, sigs, keys)"
| "batch_loop D seen msgs sigs keys (((msg, sig), pk) # entries) =
     (case map_of seen pk of
        Some v \<Rightarrow> batch_loop D seen (msgs @ [msg]) (sigs @ [offchain_signature_bytes sig]) (keys @ [v]) entries
      | None \<Rightarrow>
          (case dalek_key D (opk_bytes pk) of
             Some v \<Rightarrow> batch_loop D (try_push MEMO_CAPACITY seen (pk, v))
                         (msgs @ [msg]) (sigs @ [offchain_signature_bytes sig]) (keys @ [v]) entries
           | None \<Rightarrow> None))"

definition offchain_verify_batch :: "('e, 'v) eddsa \<Rightarrow> batch_entry list \<Rightarrow> bool" where
  "offchain_verify_batch D entries =
     (case batch_loop D [] [] [] [] entries of
        None \<Rightarrow> False
      | Some (msgs, sigs, keys) \<Rightarrow> dalek_verify_batch D msgs sigs keys)"

text \<open>Every remembered key is the parsed form of its public key.\<close>

definition memo_ok :: "('e, 'v) eddsa \<Rightarrow> (offchain_public_key \<times> 'v) list \<Rightarrow> bool" where
  "memo_ok D seen \<longleftrightarrow> (\<forall>(k, v) \<in> set seen. dalek_key D (opk_bytes k) = Some v) \<and> length seen \<le> MEMO_CAPACITY"

lemma memo_ok_push: "memo_ok D seen \<Longrightarrow> dalek_key D (opk_bytes k) = Some v \<Longrightarrow>
    memo_ok D (try_push MEMO_CAPACITY seen (k, v))"
  by (auto simp: memo_ok_def try_push_def)

lemma memo_ok_lookup: "memo_ok D seen \<Longrightarrow> map_of seen k = Some v \<Longrightarrow> dalek_key D (opk_bytes k) = Some v"
  by (auto simp: memo_ok_def dest!: map_of_SomeD)

text \<open>The reference: parse the keys one by one, without remembering any.\<close>

definition batch_keys :: "('e, 'v) eddsa \<Rightarrow> batch_entry list \<Rightarrow> 'v option list" where
  "batch_keys D entries = map (\<lambda>e. dalek_key D (opk_bytes (snd e))) entries"

lemma batch_loop_eq:
  "memo_ok D seen \<Longrightarrow> batch_loop D seen msgs sigs keys entries =
    (if None \<in> set (batch_keys D entries) then None
     else Some (msgs @ map (fst \<circ> fst) entries, sigs @ map (offchain_signature_bytes \<circ> snd \<circ> fst) entries,
                keys @ map the (batch_keys D entries)))"
proof (induction D seen msgs sigs keys entries rule: batch_loop.induct)
  case (1 D seen msgs sigs keys)
  then show ?case by (simp add: batch_keys_def)
next
  case (2 D seen msgs sigs keys msg sig pk entries)
  show ?case
  proof (cases "map_of seen pk")
    case None
    show ?thesis
    proof (cases "dalek_key D (opk_bytes pk)")
      case None
      with \<open>map_of seen pk = None\<close> show ?thesis by (simp add: batch_keys_def)
    next
      case (Some v)
      with None show ?thesis
        using "2.IH"(1) [OF None Some memo_ok_push [OF "2.prems" Some]] by (simp add: batch_keys_def)
    qed
  next
    case (Some v)
    then show ?thesis
      using "2.IH"(2) [OF Some "2.prems"] memo_ok_lookup [OF "2.prems" Some] by (simp add: batch_keys_def)
  qed
qed

text \<open>
  Remembering at most eight parsed keys does not change batch verification: the batch is
  refused if any public key is not on the curve, and otherwise the messages, signatures and
  parsed keys are handed to the batch verifier in the order of the entries.
\<close>

theorem verify_batch_reference:
  "offchain_verify_batch D entries =
    (None \<notin> set (batch_keys D entries)
     \<and> dalek_verify_batch D (map (fst \<circ> fst) entries) (map (offchain_signature_bytes \<circ> snd \<circ> fst) entries)
          (map the (batch_keys D entries)))"
proof -
  have "memo_ok D []" by (simp add: memo_ok_def)
  then show ?thesis by (simp add: offchain_verify_batch_def batch_loop_eq)
qed

end
