(* ===== verification/Vrf.thy ===== *)
theory Vrf
  imports Signing
begin

text \<open>
  \<open>crypto/vrf.rs\<close>: the verifiable random function a ticket's redeemer evaluates, a proof of equal
  discrete logarithms over secp256k1. Both builds of \<open>derive_vrf_parameters\<close> are modelled. The
  record \<open>vrflib\<close> holds point multiplication and subtraction of \<open>k256\<close>, the two hash functions of
  \<open>hash2curve\<close>, and the operations of the \<open>secp256k1\<close> package the native build calls; \<open>vrflib_ok\<close>
  states the laws of a group of prime order, and of reading back a point in the uncompressed encoding. The 64 random bytes are an argument.
\<close>

record 'p vrflib =
  vrf_mul :: "'p \<Rightarrow> nat \<Rightarrow> 'p"
  vrf_sub :: "'p \<Rightarrow> 'p \<Rightarrow> 'p"
  vrf_hash_to_curve :: "bytes list \<Rightarrow> bytes list \<Rightarrow> 'p option"
  vrf_hash_to_scalar :: "bytes list \<Rightarrow> bytes list \<Rightarrow> nat option"
  vrf_native_scalar :: "bytes \<Rightarrow> nat option"
  vrf_native_parse :: "bytes \<Rightarrow> 'p option"
  vrf_native_mul :: "'p \<Rightarrow> nat \<Rightarrow> 'p option"

definition vrflib_ok :: "'p secp \<Rightarrow> 'p vrflib \<Rightarrow> bool" where
  "vrflib_ok L W \<longleftrightarrow> secp_ok L
   \<and> (\<forall>p a b. secp_add L (vrf_mul W p a) (vrf_mul W p b) = vrf_mul W p (a + b))
   \<and> (\<forall>p a b. vrf_mul W (vrf_mul W p a) b = vrf_mul W p (a * b))
   \<and> (\<forall>p a. vrf_mul W p (a mod secp_order L) = vrf_mul W p a)
   \<and> (\<forall>a b. vrf_mul W (secp_base_mul L a) b = secp_base_mul L (a * b))
   \<and> (\<forall>p q. vrf_sub W (secp_add L p q) q = p)
   \<and> (\<forall>i d v. vrf_hash_to_scalar W i d = Some v \<longrightarrow> v < secp_order L)
   \<and> (\<forall>bs v. vrf_native_scalar W bs = Some v \<longleftrightarrow> length bs = 32 \<and> v = from_be bs \<and> v < secp_order L)
   \<and> (\<forall>q p. vrf_native_parse W (secp_uncompressed L q) = Some p \<longrightarrow> p \<noteq> secp_identity L \<and> p = q)
   \<and> (\<forall>p a q. vrf_native_mul W p a = Some q \<longrightarrow> q = vrf_mul W p a \<and> q \<noteq> secp_identity L)"

lemma vrflib_okD:
  assumes "vrflib_ok L W"
  shows "secp_ok L"
    and "secp_add L (vrf_mul W p a) (vrf_mul W p b) = vrf_mul W p (a + b)"
    and "vrf_mul W (vrf_mul W p a) b = vrf_mul W p (a * b)"
    and "vrf_mul W p (a mod secp_order L) = vrf_mul W p a"
    and "vrf_mul W (secp_base_mul L a) b = secp_base_mul L (a * b)"
    and "vrf_sub W (secp_add L p q) q = p"
    and "vrf_hash_to_scalar W i d = Some v \<Longrightarrow> v < secp_order L"
    and "vrf_native_scalar W bs = Some v \<longleftrightarrow> length bs = 32 \<and> v = from_be bs \<and> v < secp_order L"
    and "vrf_native_parse W (secp_uncompressed L q) = Some p \<Longrightarrow> p \<noteq> secp_identity L \<and> p = q"
    and "vrf_native_mul W p a = Some q \<Longrightarrow> q = vrf_mul W p a \<and> q \<noteq> secp_identity L"
  using assms by (simp_all only: vrflib_ok_def) metis+

section \<open>Parameters and their encoding\<close>

record 'p vrf_parameters =
  vrf_V :: 'p
  vrf_h :: nat
  vrf_s :: nat
  vrf_A :: 'p

definition VRF_PARAMETERS_SIZE :: nat where
  "VRF_PARAMETERS_SIZE = SIZE_COMPRESSED + 32 + 32 + SIZE_COMPRESSED"

text \<open>Copying a point into its 33 bytes panics for the identity, whose encoding is one byte.\<close>

definition vrf_into_bytes :: "'p secp \<Rightarrow> 'p vrf_parameters \<Rightarrow> bytes option" where
  "vrf_into_bytes L v =
     (let v_bytes = secp_compressed L (vrf_V v); a_bytes = secp_compressed L (vrf_A v);
          h_bytes = secp_scalar_bytes L (vrf_h v); s_bytes = secp_scalar_bytes L (vrf_s v)
      in if length v_bytes = SIZE_COMPRESSED \<and> length h_bytes = 32 \<and> length s_bytes = 32
            \<and> length a_bytes = SIZE_COMPRESSED
         then Some (v_bytes @ h_bytes @ s_bytes @ a_bytes) else None)"

definition vrf_try_from :: "'p secp \<Rightarrow> bytes \<Rightarrow> ('p vrf_parameters, general_error) res" where
  "vrf_try_from L value =
     (if length value = VRF_PARAMETERS_SIZE then
        and_then (map_err (\<lambda>_. ParseError ''VrfParameters.V'')
          (affine_point_from_bytes L (slice_of 0 33 value))) (\<lambda>V.
        and_then (map_err (\<lambda>_. ParseError ''VrfParameters.h'')
          (k256_scalar_from_bytes L (slice_of 33 32 value))) (\<lambda>h.
        and_then (map_err (\<lambda>_. ParseError ''VrfParameters.s'')
          (k256_scalar_from_bytes L (slice_of 65 32 value))) (\<lambda>s.
        and_then (map_err (\<lambda>_. ParseError ''VrfParameters.A'')
          (affine_point_from_bytes L (slice_of 97 33 value))) (\<lambda>A.
        Ok \<lparr>vrf_V = V, vrf_h = h, vrf_s = s, vrf_A = A\<rparr>))))
      else Err (ParseError ''VrfParameters.size''))"

definition wf_vrf :: "'p secp \<Rightarrow> 'p vrf_parameters \<Rightarrow> bool" where
  "wf_vrf L v \<longleftrightarrow> vrf_V v \<noteq> secp_identity L \<and> vrf_A v \<noteq> secp_identity L
     \<and> vrf_h v < secp_order L \<and> vrf_s v < secp_order L"

lemma scalar_bytes_roundtrip:
  assumes "secp_ok L" "v < secp_order L"
  shows "k256_scalar_from_bytes L (to_be 32 v) = Ok v"
proof -
  have "v < 256 ^ 32" using less_trans [OF assms(2) secp_okD(2) [OF assms(1)]] by simp
  then have "from_be (to_be 32 v) = v" by (rule from_be_to_be_id)
  then show ?thesis
    using secp_okD(7) [OF assms(1)] assms(2) by (simp add: k256_scalar_from_bytes_def)
qed

lemma vrf_roundtrip_lemma:
  assumes "secp_ok L" "wf_vrf L v"
  shows "\<exists>bs. vrf_into_bytes L v = Some bs \<and> length bs = VRF_PARAMETERS_SIZE \<and> vrf_try_from L bs = Ok v"
proof -
  have V: "vrf_V v \<noteq> secp_identity L" and A: "vrf_A v \<noteq> secp_identity L"
    and h: "vrf_h v < secp_order L" "vrf_s v < secp_order L" using assms(2) by (simp_all add: wf_vrf_def)
  note pV = secp_ok_point [OF assms(1) V] and pA = secp_ok_point [OF assms(1) A]
  let ?bs = "secp_compressed L (vrf_V v) @ to_be 32 (vrf_h v) @ to_be 32 (vrf_s v) @ secp_compressed L (vrf_A v)"
  have "vrf_into_bytes L v = Some ?bs"
    using pV pA by (simp add: vrf_into_bytes_def Let_def SIZE_COMPRESSED_def secp_okD(9) [OF assms(1)])
  moreover have len: "length ?bs = VRF_PARAMETERS_SIZE"
    using pV pA by (simp add: VRF_PARAMETERS_SIZE_def SIZE_COMPRESSED_def)
  moreover have "vrf_try_from L ?bs = Ok v"
  proof -
    have "slice_of 0 33 ?bs = secp_compressed L (vrf_V v)" "slice_of 33 32 ?bs = to_be 32 (vrf_h v)"
      "slice_of 65 32 ?bs = to_be 32 (vrf_s v)" "slice_of 97 33 ?bs = secp_compressed L (vrf_A v)"
      using pV pA by (simp_all add: slice_of_def)
    then show ?thesis
      using pV pA scalar_bytes_roundtrip [OF assms(1) h(1)] scalar_bytes_roundtrip [OF assms(1) h(2)] len
      by (simp add: vrf_try_from_def affine_point_from_bytes_def)
  qed
  ultimately show ?thesis by blast
qed

section \<open>Verification and the witnesses of the contract\<close>

definition vrf_encoded_payload ::
  "'p vrflib \<Rightarrow> address \<Rightarrow> bytes \<Rightarrow> bytes \<Rightarrow> ('p, crypto_error) res" where
  "vrf_encoded_payload W creator msg dst =
     ok_or CalculationError (vrf_hash_to_curve W [address_bytes creator, msg] [dst])"

definition vrf_verify ::
  "'p secp \<Rightarrow> 'p vrflib \<Rightarrow> 'p vrf_parameters \<Rightarrow> address \<Rightarrow> bytes \<Rightarrow> bytes \<Rightarrow> (unit, crypto_error) res" where
  "vrf_verify L W v creator msg dst =
     and_then (vrf_encoded_payload W creator msg dst) (\<lambda>cap_B.
       let R_v = vrf_sub W (vrf_mul W cap_B (vrf_s v)) (vrf_mul W (vrf_V v) (vrf_h v));
           R_g = vrf_sub W (secp_base_mul L (vrf_s v)) (vrf_mul W (vrf_A v) (vrf_h v))
       in and_then (ok_or CalculationError (vrf_hash_to_scalar W
              [address_bytes creator, drop 1 (secp_uncompressed L (vrf_A v)),
               drop 1 (secp_uncompressed L (vrf_V v)), drop 1 (secp_uncompressed L R_g),
               drop 1 (secp_uncompressed L R_v), msg] [dst])) (\<lambda>h_check.
            if h_check \<noteq> vrf_h v then Err CalculationError else Ok ()))"

definition get_v_encoded_point :: "'p secp \<Rightarrow> 'p vrf_parameters \<Rightarrow> bytes" where
  "get_v_encoded_point L v = secp_uncompressed L (vrf_V v)"

definition get_a_encoded_point :: "'p secp \<Rightarrow> 'p vrf_parameters \<Rightarrow> bytes" where
  "get_a_encoded_point L v = secp_uncompressed L (vrf_A v)"

definition get_h_v_witness :: "'p secp \<Rightarrow> 'p vrflib \<Rightarrow> 'p vrf_parameters \<Rightarrow> bytes" where
  "get_h_v_witness L W v = secp_uncompressed L (vrf_mul W (vrf_V v) (vrf_h v))"

definition get_h_a_witness :: "'p secp \<Rightarrow> 'p vrflib \<Rightarrow> 'p vrf_parameters \<Rightarrow> bytes" where
  "get_h_a_witness L W v = secp_uncompressed L (vrf_mul W (vrf_A v) (vrf_h v))"

definition get_s_g_witness :: "'p secp \<Rightarrow> 'p vrf_parameters \<Rightarrow> bytes" where
  "get_s_g_witness L v = secp_uncompressed L (secp_base_mul L (vrf_s v))"

definition get_s_b_witness ::
  "'p secp \<Rightarrow> 'p vrflib \<Rightarrow> 'p vrf_parameters \<Rightarrow> address \<Rightarrow> bytes \<Rightarrow> bytes \<Rightarrow> (bytes, crypto_error) res" where
  "get_s_b_witness L W v creator msg dst =
     map_ok (\<lambda>p. secp_uncompressed L (vrf_mul W p (vrf_s v))) (vrf_encoded_payload W creator msg dst)"

section \<open>Derivation\<close>

definition vrf_challenge_input :: "'p secp \<Rightarrow> address \<Rightarrow> 'p \<Rightarrow> 'p \<Rightarrow> 'p \<Rightarrow> 'p \<Rightarrow> bytes \<Rightarrow> bytes list" where
  "vrf_challenge_input L addr A V R_g R_v msg =
     [address_bytes addr, drop 1 (secp_uncompressed L A), drop 1 (secp_uncompressed L V),
      drop 1 (secp_uncompressed L R_g), drop 1 (secp_uncompressed L R_v), msg]"

definition derive_vrf_k256 ::
  "'p secp \<Rightarrow> 'p vrflib \<Rightarrow> bytes \<Rightarrow> bytes \<Rightarrow> 'p chain_keypair \<Rightarrow> bytes \<Rightarrow> ('p vrf_parameters, crypto_error) res" where
  "derive_vrf_k256 L W rnd msg kp dst =
     (let chain_addr = chain_keypair_address kp in
      and_then (chain_keypair_scalar L kp) (\<lambda>a.
      let A = secp_base_mul L a in
      and_then (ok_or CalculationError (vrf_hash_to_curve W [address_bytes chain_addr, msg] [dst])) (\<lambda>B.
      let V = vrf_mul W B a in
      and_then (ok_or CalculationError (vrf_hash_to_scalar W
          [secp_scalar_bytes L a, drop 1 (secp_uncompressed L V), rnd] [dst])) (\<lambda>r.
      let R_v = vrf_mul W B r; R_g = secp_base_mul L r in
      and_then (ok_or CalculationError (vrf_hash_to_scalar W
          (vrf_challenge_input L chain_addr A V R_g R_v msg) [dst])) (\<lambda>h.
      Ok \<lparr>vrf_V = V, vrf_h = h, vrf_s = (r + h * a) mod secp_order L, vrf_A = A\<rparr>)))))"

definition derive_vrf_native ::
  "'p secp \<Rightarrow> 'p vrflib \<Rightarrow> bytes \<Rightarrow> bytes \<Rightarrow> 'p chain_keypair \<Rightarrow> bytes \<Rightarrow> ('p vrf_parameters, crypto_error) res" where
  "derive_vrf_native L W rnd msg kp dst =
     (let chain_addr = chain_keypair_address kp in
      and_then (ok_or CalculationError (vrf_hash_to_curve W [address_bytes chain_addr, msg] [dst])) (\<lambda>B.
      and_then (ok_or InvalidSecretScalar (vrf_native_scalar W (secret_bytes (ckp_secret kp)))) (\<lambda>a.
      let a_be_bytes = to_be 32 a in
      and_then (try_into_array 65 InvalidPublicKey (secp_uncompressed L B)) (\<lambda>B_bytes.
      and_then (ok_or InvalidPublicKey (vrf_native_parse W B_bytes)) (\<lambda>B_pk.
      and_then (ok_or CalculationError (secp_native_secret L a_be_bytes)) (\<lambda>sk.
      let A = secp_base_mul L sk in
      and_then (ok_or CalculationError (vrf_native_mul W B_pk a)) (\<lambda>V.
      and_then (ok_or CalculationError (vrf_hash_to_scalar W
          [a_be_bytes, drop 1 (secp_uncompressed L V), rnd] [dst])) (\<lambda>r.
      and_then (ok_or InvalidSecretScalar (vrf_native_scalar W (secp_scalar_bytes L r))) (\<lambda>r_scalar.
      and_then (ok_or CalculationError (vrf_native_mul W B_pk r_scalar)) (\<lambda>R_v.
      and_then (ok_or CalculationError (secp_native_secret L (secp_scalar_bytes L r))) (\<lambda>r_sk.
      let R_g = secp_base_mul L r_sk in
      and_then (ok_or CalculationError (vrf_hash_to_scalar W
          (vrf_challenge_input L chain_addr A V R_g R_v msg) [dst])) (\<lambda>h.
      and_then (chain_keypair_scalar L kp) (\<lambda>a'.
      let s = (r + h * a') mod secp_order L in
      and_then (map_err (\<lambda>_. CalculationError) (affine_point_from_bytes L (secp_uncompressed L V))) (\<lambda>V'.
      and_then (map_err (\<lambda>_. CalculationError) (affine_point_from_bytes L (secp_uncompressed L A))) (\<lambda>A'.
      Ok \<lparr>vrf_V = V', vrf_h = h, vrf_s = s, vrf_A = A'\<rparr>)))))))))))))))"

definition derive_vrf_parameters ::
  "'p secp \<Rightarrow> 'p vrflib \<Rightarrow> bool \<Rightarrow> bytes \<Rightarrow> bytes \<Rightarrow> 'p chain_keypair \<Rightarrow> bytes \<Rightarrow> ('p vrf_parameters, crypto_error) res" where
  "derive_vrf_parameters L W rust_ecdsa rnd msg kp dst =
     (if rust_ecdsa then derive_vrf_k256 L W rnd msg kp dst else derive_vrf_native L W rnd msg kp dst)"

text \<open>
  What both builds compute, stated once: \<open>V = a B\<close>, \<open>A = a G\<close>, the challenge \<open>h\<close> over the
  commitments \<open>r G\<close> and \<open>r B\<close>, and \<open>s = r + h a\<close>.
\<close>

definition vrf_proof ::
  "'p secp \<Rightarrow> 'p vrflib \<Rightarrow> nat \<Rightarrow> address \<Rightarrow> bytes \<Rightarrow> bytes \<Rightarrow> 'p \<Rightarrow> nat \<Rightarrow> 'p vrf_parameters \<Rightarrow> bool" where
  "vrf_proof L W a addr msg dst B r v \<longleftrightarrow>
     vrf_hash_to_curve W [address_bytes addr, msg] [dst] = Some B
   \<and> vrf_V v = vrf_mul W B a \<and> vrf_A v = secp_base_mul L a
   \<and> vrf_s v = (r + vrf_h v * a) mod secp_order L
   \<and> vrf_hash_to_scalar W (vrf_challenge_input L addr (secp_base_mul L a) (vrf_mul W B a)
       (secp_base_mul L r) (vrf_mul W B r) msg) [dst] = Some (vrf_h v)"

lemma derive_vrf_k256_proof:
  assumes "vrflib_ok L W" "wf_chain_keypair L kp" "derive_vrf_k256 L W rnd msg kp dst = Ok v"
  shows "\<exists>B r. vrf_proof L W (from_be (secret_bytes (ckp_secret kp))) (chain_keypair_address kp) msg dst B r v"
proof -
  note sc = chain_keypair_scalar_ok [OF vrflib_okD(1) [OF assms(1)] assms(2)]
  from assms(3) obtain B r where
    "vrf_proof L W (from_be (secret_bytes (ckp_secret kp))) (chain_keypair_address kp) msg dst B r v"
    unfolding derive_vrf_k256_def sc Let_def vrf_proof_def by fastforce
  then show ?thesis by blast
qed

lemma uncompressed_inj:
  assumes "secp_ok L" "q \<noteq> secp_identity L" "secp_uncompressed L p = secp_uncompressed L q"
  shows "p = q"
proof (cases "p = secp_identity L")
  case True
  then have "length (secp_uncompressed L q) = 1" using secp_okD(13) [OF assms(1)] assms(3) by simp
  then show ?thesis using secp_ok_point(2) [OF assms(1,2)] by simp
next
  case False
  then show ?thesis using secp_ok_point(5) [OF assms(1)] assms(2,3) by (metis option.inject)
qed

lemma derive_vrf_native_proof:
  assumes "vrflib_ok L W" "wf_chain_keypair L kp" "derive_vrf_native L W rnd msg kp dst = Ok v"
  shows "\<exists>B r. vrf_proof L W (from_be (secret_bytes (ckp_secret kp))) (chain_keypair_address kp) msg dst B r v
    \<and> vrf_V v \<noteq> secp_identity L"
proof -
  let ?a = "from_be (secret_bytes (ckp_secret kp))" and ?addr = "chain_keypair_address kp"
  note L = vrflib_okD(1) [OF assms(1)]
  note sc = chain_keypair_scalar_ok [OF L assms(2)]
  note kp = wf_chain_keypairD [OF L assms(2)]
  have small: "from_be (to_be 32 x) = x" if "x < secp_order L" for x
    using less_trans [OF that secp_okD(2) [OF L]] by (intro from_be_to_be_id) simp
  have hs: "vrf_hash_to_scalar W i d = Some x \<Longrightarrow> from_be (to_be 32 x) = x" for i d x
    using vrflib_okD(7) [OF assms(1)] by (rule small)
  have "\<exists>B Bp V r R_v.
      vrf_hash_to_curve W [address_bytes ?addr, msg] [dst] = Some B
    \<and> vrf_native_parse W (secp_uncompressed L B) = Some Bp
    \<and> vrf_native_mul W Bp ?a = Some V
    \<and> r < secp_order L \<and> vrf_native_mul W Bp r = Some R_v
    \<and> vrf_hash_to_scalar W (vrf_challenge_input L ?addr (secp_base_mul L ?a) V (secp_base_mul L r) R_v msg) [dst] = Some (vrf_h v)
    \<and> vrf_s v = (r + vrf_h v * ?a) mod secp_order L
    \<and> affine_point_from_bytes L (secp_uncompressed L V) = Ok (vrf_V v)
    \<and> affine_point_from_bytes L (secp_uncompressed L (secp_base_mul L ?a)) = Ok (vrf_A v)"
    using assms(3)
    by (auto simp: derive_vrf_native_def sc Let_def vrflib_okD(8) [OF assms(1)] secp_okD(8,9) [OF L] small hs) blast
  then obtain B Bp V r R_v where
    B: "vrf_hash_to_curve W [address_bytes ?addr, msg] [dst] = Some B"
    and Bp: "vrf_native_parse W (secp_uncompressed L B) = Some Bp"
    and V: "vrf_native_mul W Bp ?a = Some V"
    and r: "r < secp_order L" "vrf_native_mul W Bp r = Some R_v"
    and h: "vrf_hash_to_scalar W (vrf_challenge_input L ?addr (secp_base_mul L ?a) V (secp_base_mul L r) R_v msg) [dst] = Some (vrf_h v)"
    and v: "vrf_s v = (r + vrf_h v * ?a) mod secp_order L"
      "affine_point_from_bytes L (secp_uncompressed L V) = Ok (vrf_V v)"
      "affine_point_from_bytes L (secp_uncompressed L (secp_base_mul L ?a)) = Ok (vrf_A v)"
    by blast
  have BB: "B = Bp" using vrflib_okD(9) [OF assms(1) Bp] by simp
  note Vn = vrflib_okD(10) [OF assms(1) V] and Rn = vrflib_okD(10) [OF assms(1) r(2)]
  have "secp_base_mul L ?a \<noteq> secp_identity L" using secp_okD(5) [OF L] kp by simp
  then have "vrf_V v = V" "vrf_A v = secp_base_mul L ?a"
    using v Vn secp_ok_point(5) [OF L] by (auto simp: affine_point_from_bytes_def)
  then show ?thesis using B h v Vn Rn BB by (auto simp: vrf_proof_def)
qed

lemma derive_vrf_proof:
  assumes "vrflib_ok L W" "wf_chain_keypair L kp" "derive_vrf_parameters L W f rnd msg kp dst = Ok v"
  shows "\<exists>B r. vrf_proof L W (from_be (secret_bytes (ckp_secret kp))) (chain_keypair_address kp) msg dst B r v"
  using assms derive_vrf_k256_proof derive_vrf_native_proof
  by (auto simp: derive_vrf_parameters_def split: if_splits) blast+

text \<open>A proof satisfies the verification equations \<open>s B - h V = r B\<close> and \<open>s G - h A = r G\<close>.\<close>

lemma vrf_proof_verifies:
  assumes "vrflib_ok L W" "vrf_proof L W a addr msg dst B r v"
  shows "vrf_verify L W v addr msg dst = Ok ()"
proof -
  note L = vrflib_okD(1) [OF assms(1)]
  note p = assms(2) [unfolded vrf_proof_def]
  have "vrf_mul W B (vrf_s v) = secp_add L (vrf_mul W B r) (vrf_mul W (vrf_V v) (vrf_h v))"
    using p by (simp add: vrflib_okD(2-4) [OF assms(1)] mult.commute)
  then have Rv: "vrf_sub W (vrf_mul W B (vrf_s v)) (vrf_mul W (vrf_V v) (vrf_h v)) = vrf_mul W B r"
    by (simp add: vrflib_okD(6) [OF assms(1)])
  have "secp_base_mul L (vrf_s v) = secp_add L (secp_base_mul L r) (vrf_mul W (vrf_A v) (vrf_h v))"
    using p by (simp add: vrflib_okD(5) [OF assms(1)] secp_okD(3,4) [OF L] mult.commute)
  then have Rg: "vrf_sub W (secp_base_mul L (vrf_s v)) (vrf_mul W (vrf_A v) (vrf_h v)) = secp_base_mul L r"
    by (simp add: vrflib_okD(6) [OF assms(1)])
  have "vrf_encoded_payload W addr msg dst = Ok B" using p by (simp add: vrf_encoded_payload_def)
  then have "vrf_verify L W v addr msg dst =
    and_then (ok_or CalculationError (vrf_hash_to_scalar W
      (vrf_challenge_input L addr (vrf_A v) (vrf_V v) (secp_base_mul L r) (vrf_mul W B r) msg) [dst]))
      (\<lambda>h_check. if h_check \<noteq> vrf_h v then Err CalculationError else Ok ())"
    by (simp only: vrf_verify_def and_then.simps Let_def Rv Rg vrf_challenge_input_def)
  then show ?thesis using p by simp
qed

lemma vrf_derived:
  assumes "vrflib_ok L W" "wf_chain_keypair L kp"
    and "derive_vrf_parameters L W f rnd msg kp dst = Ok v"
  shows "vrf_verify L W v (chain_keypair_address kp) msg dst = Ok ()
    \<and> vrf_A v = pk_point (ckp_public kp)
    \<and> (derive_vrf_parameters L W f' rnd' msg kp dst = Ok v' \<longrightarrow> vrf_V v' = vrf_V v \<and> vrf_A v' = vrf_A v)"
proof -
  note L = vrflib_okD(1) [OF assms(1)]
  obtain B r where p: "vrf_proof L W (from_be (secret_bytes (ckp_secret kp))) (chain_keypair_address kp) msg dst B r v"
    using derive_vrf_proof [OF assms] by blast
  show ?thesis
    using vrf_proof_verifies [OF assms(1) p] p wf_chain_keypairD(2) [OF L assms(2)]
      derive_vrf_proof [OF assms(1,2)] by (fastforce simp: vrf_proof_def)
qed

lemma derive_vrf_verifies:
  assumes "vrflib_ok L W" "wf_chain_keypair L kp" "derive_vrf_parameters L W f rnd msg kp dst = Ok v"
  shows "vrf_verify L W v (chain_keypair_address kp) msg dst = Ok ()" "vrf_A v = pk_point (ckp_public kp)"
  using vrf_derived [OF assms, of f rnd v] by simp_all

lemma derive_vrf_same_V:
  assumes "vrflib_ok L W" "wf_chain_keypair L kp" "derive_vrf_parameters L W f rnd msg kp dst = Ok v"
    "derive_vrf_parameters L W f' rnd' msg kp dst = Ok v'"
  shows "vrf_V v' = vrf_V v"
  using vrf_derived [OF assms(1-3), of f' rnd' v'] assms(4) by simp

text \<open>
  C14. Verifiable random function: the parameters that either build derives with a valid key pair
  verify under the address of the key pair, for the same message and domain separator; they name
  the public key of the pair, and the point \<open>V\<close>, which decides the ticket's luck, does not depend
  on the random bytes nor on the build.
\<close>

theorem vrf_derive_verify:
  assumes "vrflib_ok L W" "wf_chain_keypair L kp"
    and "derive_vrf_parameters L W f rnd msg kp dst = Ok v"
  shows "vrf_verify L W v (chain_keypair_address kp) msg dst = Ok ()
    \<and> vrf_A v = pk_point (ckp_public kp)
    \<and> (derive_vrf_parameters L W f' rnd' msg kp dst = Ok v' \<longrightarrow> vrf_V v' = vrf_V v \<and> vrf_A v' = vrf_A v)"
  by (rule vrf_derived [OF assms])

text \<open>
  The 130-byte encoding of VRF parameters: parameters with proper points and reduced scalars
  encode without panic and decode to themselves; the decoder never panics and accepts no other
  length.
\<close>

theorem vrf_parameters_roundtrip:
  assumes "secp_ok L" "wf_vrf L v"
  shows "(\<exists>bs. vrf_into_bytes L v = Some bs \<and> length bs = 130 \<and> vrf_try_from L bs = Ok v)
    \<and> vrf_try_from L bs' \<noteq> Panic \<and> (length bs' \<noteq> 130 \<longrightarrow> \<not> is_ok (vrf_try_from L bs'))"
  using vrf_roundtrip_lemma [OF assms]
  by (auto simp: VRF_PARAMETERS_SIZE_def SIZE_COMPRESSED_def vrf_try_from_def and_then_eq_Panic
      affine_point_from_bytes_def k256_scalar_from_bytes_def)

text \<open>The interface over the toy group, for the witnesses.\<close>

definition vrf_toy :: "u32 vrflib" where
  "vrf_toy = \<lparr>
     vrf_mul = (\<lambda>p a. p * of_nat a),
     vrf_sub = (-),
     vrf_hash_to_curve = (\<lambda>i d. Some 2),
     vrf_hash_to_scalar = (\<lambda>i d. Some 4),
     vrf_native_scalar = (\<lambda>bs. if length bs = 32 \<and> from_be bs < 2 ^ 32 then Some (from_be bs) else None),
     vrf_native_parse = (\<lambda>bs. if bs = std_uncompressed (std_point bs) \<and> std_point bs \<noteq> 0 then Some (std_point bs) else None),
     vrf_native_mul = (\<lambda>p a. if p * of_nat a = 0 then None else Some (p * of_nat a))\<rparr>"

lemma vrflib_ok_toy: "vrflib_ok secp_toy vrf_toy"
  unfolding vrflib_ok_def
proof (intro conjI allI impI)
  show "secp_ok secp_toy" by (rule secp_ok_toy)
  have red: "(of_nat (a mod 2 ^ 32) :: u32) = of_nat a" for a :: nat
    by (rule word_unat_eq_iff [THEN iffD2]) (simp add: unat_of_nat)
  fix p a
  show "vrf_mul vrf_toy p (a mod secp_order secp_toy) = vrf_mul vrf_toy p a"
    using red [of a] by (simp only: secp_toy_def vrf_toy_def secp.simps vrflib.simps)
  fix q :: u32
  have "q' = q" if "q' \<noteq> 0" "secp_uncompressed secp_toy q = std_uncompressed q'" for q'
    using that uncompressed_inj [OF secp_ok_toy, of q' q] by (simp add: secp_toy_def)
  then show "p = q" if "vrf_native_parse vrf_toy (secp_uncompressed secp_toy q) = Some p"
    using that by (auto simp: vrf_toy_def split: if_splits)
qed (auto simp: vrf_toy_def secp_toy_def algebra_simps split: if_splits)

theorem vrf_derive_verify_witness:
  "\<exists>v. derive_vrf_parameters secp_toy vrf_toy True [] [1] keypair_toy [2] = Ok v
     \<and> vrf_verify secp_toy vrf_toy v (chain_keypair_address keypair_toy) [1] [2] = Ok ()"
proof -
  have "\<exists>v. derive_vrf_parameters secp_toy vrf_toy True [] [1] keypair_toy [2] = Ok v"
    by (simp add: derive_vrf_parameters_def derive_vrf_k256_def Let_def
        chain_keypair_scalar_ok [OF secp_ok_toy keypair_toy(1)]) (simp add: vrf_toy_def)
  then show ?thesis using vrf_derive_verify [OF vrflib_ok_toy keypair_toy(1)] by blast
qed

theorem vrf_parameters_roundtrip_witness:
  "\<exists>bs. length bs = 130 \<and> vrf_try_from secp_toy bs = Ok \<lparr>vrf_V = 1, vrf_h = 2, vrf_s = 3, vrf_A = 4\<rparr>"
proof -
  have "wf_vrf secp_toy \<lparr>vrf_V = 1, vrf_h = 2, vrf_s = 3, vrf_A = 4\<rparr>"
    by (simp add: wf_vrf_def secp_toy_def)
  then show ?thesis using vrf_parameters_roundtrip [OF secp_ok_toy] by blast
qed

end
