(* ===== verification/Channels.thy ===== *)
theory Channels
  imports Balance Crypto_Types
begin

text \<open>
  \<open>internal/channels.rs\<close>: the status of a payment channel, the channel builder with its bounds,
  channel entries with the closure times and the own node's view, and the difference of two
  states of a channel. Two bounds come from \<open>TicketBuilder\<close> of \<open>internal/tickets.rs\<close>. A Rust
  comparison of values whose \<open>PartialEq\<close> is written by hand is a function of its own here, not
  the equality of the logic.
\<close>

section \<open>Channel status\<close>

datatype channel_status = Closed | Open | PendingToClose system_time

definition channel_status_default :: channel_status where
  "channel_status_default = Closed"

fun closure_time_elapsed :: "channel_status \<Rightarrow> system_time \<Rightarrow> bool" where
  "closure_time_elapsed Closed now \<longleftrightarrow> True"
| "closure_time_elapsed Open now \<longleftrightarrow> False"
| "closure_time_elapsed (PendingToClose closure_time) now \<longleftrightarrow> closure_time \<le> now"

fun channel_status_into_i8 :: "channel_status \<Rightarrow> 8 word" where
  "channel_status_into_i8 Closed = 0"
| "channel_status_into_i8 Open = 1"
| "channel_status_into_i8 (PendingToClose _) = 2"

fun channel_status_eq :: "channel_status \<Rightarrow> channel_status \<Rightarrow> bool" where
  "channel_status_eq Open Open \<longleftrightarrow> True"
| "channel_status_eq Closed Closed \<longleftrightarrow> True"
| "channel_status_eq (PendingToClose ct1) (PendingToClose ct2) \<longleftrightarrow>
     as_secs (saturating_sub (max ct1 ct2) (min ct1 ct2)) = 0"
| "channel_status_eq _ _ \<longleftrightarrow> False"

lemma pending_eq_iff:
  "channel_status_eq (PendingToClose s) (PendingToClose t) \<longleftrightarrow> \<bar>s - t\<bar> < 1000000000"
proof -
  have d: "int (saturating_sub (max s t) (min s t)) = \<bar>s - t\<bar>"
    unfolding saturating_sub_eq by (simp add: max_def min_def)
  have "as_secs (saturating_sub (max s t) (min s t)) = 0 \<longleftrightarrow> saturating_sub (max s t) (min s t) < 1000000000"
    by (simp add: as_secs_def div_eq_0_iff)
  also have "\<dots> \<longleftrightarrow> \<bar>s - t\<bar> < 1000000000" using d by linarith
  finally show ?thesis by simp
qed

lemma channel_status_eq_refl [simp]: "channel_status_eq s s"
  by (cases s) (auto simp: pending_eq_iff simp del: channel_status_eq.simps(3))

lemma channel_status_eq_sym: "channel_status_eq s t \<longleftrightarrow> channel_status_eq t s"
  by (cases s; cases t) (auto simp: pending_eq_iff simp del: channel_status_eq.simps(3))

text \<open>Equal statuses hash alike: \<open>Hash\<close> feeds the discriminant only.\<close>

lemma channel_status_eq_hash:
  "channel_status_eq s t \<Longrightarrow> channel_status_into_i8 s = channel_status_into_i8 t"
  by (cases s; cases t) auto

text \<open>The relation declared as \<open>Eq\<close> is not transitive: 0 s, 0.6 s and 1.2 s.\<close>

lemma channel_status_eq_not_transitive:
  "channel_status_eq (PendingToClose 0) (PendingToClose 600000000)
   \<and> channel_status_eq (PendingToClose 600000000) (PendingToClose 1200000000)
   \<and> \<not> channel_status_eq (PendingToClose 0) (PendingToClose 1200000000)"
  by (simp add: pending_eq_iff del: channel_status_eq.simps(3))

datatype channel_direction = Incoming | Outgoing

type_synonym channel_id = hash

definition generate_channel_id :: "(bytes \<Rightarrow> bytes) \<Rightarrow> address \<Rightarrow> address \<Rightarrow> hash" where
  "generate_channel_id keccak source destination =
     hash_create keccak [address_bytes source, address_bytes destination]"

datatype channel_parties = ChannelParties (parties_source: address) (parties_destination: address)

definition channel_parties_id :: "(bytes \<Rightarrow> bytes) \<Rightarrow> channel_parties \<Rightarrow> channel_id" where
  "channel_parties_id keccak p = generate_channel_id keccak (parties_source p) (parties_destination p)"

section \<open>Channel entries\<close>

record channel_entry =
  channel_source :: address
  channel_destination :: address
  channel_balance :: hopr_balance
  channel_ticket_index :: u64
  channel_status :: channel_status
  channel_epoch :: u32
  channel_id :: channel_id

definition channel_entry_new ::
  "(bytes \<Rightarrow> bytes) \<Rightarrow> address \<Rightarrow> address \<Rightarrow> hopr_balance \<Rightarrow> u64 \<Rightarrow> channel_status \<Rightarrow> u32 \<Rightarrow> channel_entry" where
  "channel_entry_new keccak source destination balance ticket_index status epoch = \<lparr>
     channel_source = source, channel_destination = destination, channel_balance = balance,
     channel_ticket_index = ticket_index, channel_status = status, channel_epoch = epoch,
     channel_id = generate_channel_id keccak source destination\<rparr>"

definition get_id :: "channel_entry \<Rightarrow> channel_id" where
  "get_id c = channel_id c"

definition closure_time_passed :: "channel_entry \<Rightarrow> system_time \<Rightarrow> bool" where
  "closure_time_passed c now = closure_time_elapsed (channel_status c) now"

definition remaining_closure_time :: "channel_entry \<Rightarrow> system_time \<Rightarrow> duration option" where
  "remaining_closure_time c now =
     (case channel_status c of
        Open \<Rightarrow> None
      | PendingToClose closure_time \<Rightarrow> Some (saturating_sub closure_time now)
      | Closed \<Rightarrow> Some 0)"

definition closure_time_at :: "channel_entry \<Rightarrow> system_time option" where
  "closure_time_at c = (case channel_status c of PendingToClose ct \<Rightarrow> Some ct | _ \<Rightarrow> None)"

definition direction :: "channel_entry \<Rightarrow> address \<Rightarrow> channel_direction option" where
  "direction c me =
     (if channel_source c = me then Some Outgoing
      else if channel_destination c = me then Some Incoming else None)"

definition orientation :: "channel_entry \<Rightarrow> address \<Rightarrow> (channel_direction \<times> address) option" where
  "orientation c me =
     (if channel_source c = me then Some (Outgoing, channel_destination c)
      else if channel_destination c = me then Some (Incoming, channel_source c) else None)"

definition channel_entry_parties :: "channel_entry \<Rightarrow> channel_parties" where
  "channel_entry_parties c = ChannelParties (channel_source c) (channel_destination c)"

text \<open>
  Closure times: the closure time has passed exactly when a remaining grace period exists and
  is zero; while time advances it stays passed, the remaining period never grows, and waiting for
  the remaining period is enough. An open channel has neither.
\<close>

theorem closure_time_laws:
  assumes "now \<le> later"
  shows "(closure_time_passed c now \<longleftrightarrow> remaining_closure_time c now = Some 0)
    \<and> (closure_time_passed c now \<longrightarrow> closure_time_passed c later)
    \<and> (remaining_closure_time c now = Some d \<longrightarrow>
        (\<exists>d'. remaining_closure_time c later = Some d' \<and> d' \<le> d) \<and> closure_time_passed c (now + int d))
    \<and> (remaining_closure_time c now = None \<longleftrightarrow> channel_status c = Open)
    \<and> (closure_time_at c = Some t \<longrightarrow> (closure_time_passed c now \<longleftrightarrow> t \<le> now))"
proof (cases "channel_status c")
  case (PendingToClose ct)
  have "saturating_sub ct later \<le> saturating_sub ct now"
    using assms saturating_sub_eq [of ct later] saturating_sub_eq [of ct now] by linarith
  moreover have "ct \<le> now + int (saturating_sub ct now)" using saturating_sub_eq [of ct now] by linarith
  ultimately show ?thesis
    using PendingToClose assms saturating_sub_zero_iff [of ct now]
    by (auto simp: closure_time_passed_def remaining_closure_time_def closure_time_at_def)
qed (auto simp: closure_time_passed_def remaining_closure_time_def closure_time_at_def)

theorem closure_time_laws_witness:
  "\<not> closure_time_passed (channel_entry_new (\<lambda>_. []) address_default address_default (Balance 0 WxHOPR) 0 (PendingToClose 10) 1) 3"
proof -
  define c where "c = channel_entry_new (\<lambda>_. []) address_default address_default (Balance 0 WxHOPR) 0 (PendingToClose 10) 1"
  have "closure_time_at c = Some 10" by (simp add: c_def closure_time_at_def channel_entry_new_def)
  then have "\<not> closure_time_passed c 3" using closure_time_laws [of 3 4 c 7 10] by auto
  then show ?thesis by (simp add: c_def)
qed

section \<open>Builder\<close>

definition MAX_FUNDING_AMOUNT :: nat where
  "MAX_FUNDING_AMOUNT = 10 ^ 25"

definition MAX_CHANNEL_STAKE :: u256 where
  "MAX_CHANNEL_STAKE = 2 ^ 96 - 1"

definition MAX_TICKET_INDEX :: u64 where
  "MAX_TICKET_INDEX = 2 ^ 48 - 1"

definition MAX_CHANNEL_EPOCH :: u32 where
  "MAX_CHANNEL_EPOCH = 2 ^ 24 - 1"

record channel_builder =
  cb_source :: "address option"
  cb_destination :: "address option"
  cb_balance :: "hopr_balance option"
  cb_ticket_index :: u64
  cb_status :: channel_status
  cb_epoch :: u32

definition channel_builder_default :: channel_builder where
  "channel_builder_default = \<lparr>
     cb_source = None, cb_destination = None, cb_balance = None,
     cb_ticket_index = 0, cb_status = Open, cb_epoch = 1\<rparr>"

definition channel_builder_between :: "address \<Rightarrow> address \<Rightarrow> channel_builder \<Rightarrow> channel_builder" where
  "channel_builder_between source destination b =
     b\<lparr>cb_source := Some source, cb_destination := Some destination\<rparr>"

definition channel_builder_amount :: "u256 \<Rightarrow> channel_builder \<Rightarrow> channel_builder" where
  "channel_builder_amount amount b = b\<lparr>cb_balance := Some (balance_from wxhopr_currency amount)\<rparr>"

definition channel_builder_source :: "address \<Rightarrow> channel_builder \<Rightarrow> channel_builder" where
  "channel_builder_source source b = b\<lparr>cb_source := Some source\<rparr>"

definition channel_builder_destination :: "address \<Rightarrow> channel_builder \<Rightarrow> channel_builder" where
  "channel_builder_destination destination b = b\<lparr>cb_destination := Some destination\<rparr>"

definition channel_builder_balance :: "hopr_balance \<Rightarrow> channel_builder \<Rightarrow> channel_builder" where
  "channel_builder_balance balance b = b\<lparr>cb_balance := Some balance\<rparr>"

definition channel_builder_ticket_index :: "u64 \<Rightarrow> channel_builder \<Rightarrow> channel_builder" where
  "channel_builder_ticket_index ticket_index b = b\<lparr>cb_ticket_index := ticket_index\<rparr>"

definition channel_builder_status :: "channel_status \<Rightarrow> channel_builder \<Rightarrow> channel_builder" where
  "channel_builder_status status b = b\<lparr>cb_status := status\<rparr>"

definition channel_builder_epoch :: "u32 \<Rightarrow> channel_builder \<Rightarrow> channel_builder" where
  "channel_builder_epoch epoch b = b\<lparr>cb_epoch := epoch\<rparr>"

text \<open>Setting both parties at once is setting one after the other; the order does not matter.\<close>

lemma channel_builder_between_eq:
  "channel_builder_between s d b = channel_builder_source s (channel_builder_destination d b)"
  "channel_builder_between s d b = channel_builder_destination d (channel_builder_source s b)"
  by (simp_all add: channel_builder_between_def channel_builder_source_def channel_builder_destination_def)

definition then_some :: "bool \<Rightarrow> 'a \<Rightarrow> 'a option" where
  "then_some b x = (if b then Some x else None)"

definition channel_build :: "(bytes \<Rightarrow> bytes) \<Rightarrow> channel_builder \<Rightarrow> (channel_entry, core_types_error) res" where
  "channel_build keccak b =
     and_then (ok_or (InvalidInputData ''missing source'') (cb_source b)) (\<lambda>source.
     and_then (ok_or (InvalidInputData ''missing destination'') (cb_destination b)) (\<lambda>destination.
     and_then (ok_or (InvalidInputData ''missing balance'') (cb_balance b)) (\<lambda>balance.
       if source = destination
       then Err (InvalidInputData ''source and destination cannot be the same'')
       else
         and_then (ok_or (InvalidInputData ''balance too high'')
           (then_some (balance_wei balance \<le> MAX_CHANNEL_STAKE) balance)) (\<lambda>bal.
         and_then (ok_or (InvalidInputData ''ticket index too high'')
           (then_some (cb_ticket_index b \<le> MAX_TICKET_INDEX) (cb_ticket_index b))) (\<lambda>ix.
         and_then (ok_or (InvalidInputData ''channel epoch too high'')
           (then_some (cb_epoch b \<le> MAX_CHANNEL_EPOCH) (cb_epoch b))) (\<lambda>epoch.
           Ok (channel_entry_new keccak source destination bal ix (cb_status b) epoch)))))))"

lemma then_some_eq [simp]: "then_some b x = Some y \<longleftrightarrow> b \<and> y = x"
  by (auto simp: then_some_def)

lemma unat_bounds:
  "unat MAX_CHANNEL_STAKE = 2 ^ 96 - 1" "unat MAX_TICKET_INDEX = 2 ^ 48 - 1" "unat MAX_CHANNEL_EPOCH = 2 ^ 24 - 1"
  by (simp_all add: MAX_CHANNEL_STAKE_def MAX_TICKET_INDEX_def MAX_CHANNEL_EPOCH_def)

text \<open>What a built channel satisfies.\<close>

definition wf_channel :: "(bytes \<Rightarrow> bytes) \<Rightarrow> channel_entry \<Rightarrow> bool" where
  "wf_channel keccak c \<longleftrightarrow>
     channel_source c \<noteq> channel_destination c
   \<and> wei (channel_balance c) < 2 ^ 96
   \<and> unat (channel_ticket_index c) < 2 ^ 48
   \<and> unat (channel_epoch c) < 2 ^ 24
   \<and> channel_id c = generate_channel_id keccak (channel_source c) (channel_destination c)"

lemma channel_build_Ok:
  "channel_build keccak b = Ok c \<longleftrightarrow>
     (\<exists>s d bal. cb_source b = Some s \<and> cb_destination b = Some d \<and> cb_balance b = Some bal \<and> s \<noteq> d
        \<and> wei bal < 2 ^ 96 \<and> unat (cb_ticket_index b) < 2 ^ 48 \<and> unat (cb_epoch b) < 2 ^ 24
        \<and> c = channel_entry_new keccak s d bal (cb_ticket_index b) (cb_status b) (cb_epoch b))"
proof -
  have "(n :: nat) \<le> 2 ^ k - 1 \<longleftrightarrow> n < 2 ^ k" for n k by (simp add: Suc_le_eq flip: less_Suc_eq_le)
  then have "balance_wei bal \<le> MAX_CHANNEL_STAKE \<longleftrightarrow> wei bal < 2 ^ 96" for bal :: hopr_balance
    by (simp only: word_le_nat_alt unat_bounds wei_def)
  moreover have "(n :: nat) \<le> 2 ^ k - 1 \<longleftrightarrow> n < 2 ^ k" for n k by (simp add: Suc_le_eq flip: less_Suc_eq_le)
  then have "cb_ticket_index b \<le> MAX_TICKET_INDEX \<longleftrightarrow> unat (cb_ticket_index b) < 2 ^ 48"
    "cb_epoch b \<le> MAX_CHANNEL_EPOCH \<longleftrightarrow> unat (cb_epoch b) < 2 ^ 24"
    by (simp_all only: word_le_nat_alt unat_bounds)
  ultimately show ?thesis
    by (cases "cb_source b"; cases "cb_destination b"; cases "cb_balance b") (auto simp: channel_build_def)
qed

text \<open>
  C15. The channel builder succeeds exactly on complete inputs within the bounds (different parties,
  stake below 2^96, ticket index below 2^48, epoch below 2^24), copies every input into the entry,
  computes the channel id from the parties, and never panics.
\<close>

theorem channel_build_spec:
  "(channel_build keccak b = Ok c \<longrightarrow>
      wf_channel keccak c
      \<and> cb_source b = Some (channel_source c) \<and> cb_destination b = Some (channel_destination c)
      \<and> cb_balance b = Some (channel_balance c) \<and> channel_ticket_index c = cb_ticket_index b
      \<and> channel_status c = cb_status b \<and> channel_epoch c = cb_epoch b)
   \<and> (wf_channel keccak c \<longrightarrow>
      channel_build keccak \<lparr>cb_source = Some (channel_source c), cb_destination = Some (channel_destination c),
        cb_balance = Some (channel_balance c), cb_ticket_index = channel_ticket_index c,
        cb_status = channel_status c, cb_epoch = channel_epoch c\<rparr> = Ok c)
   \<and> channel_build keccak b \<noteq> Panic"
proof (intro conjI)
  show "channel_build keccak b \<noteq> Panic"
    by (auto simp: channel_build_def and_then_eq_Panic)
qed (auto simp: channel_build_Ok wf_channel_def channel_entry_new_def)

theorem channel_build_spec_witness:
  "is_ok (channel_build (\<lambda>_. []) (channel_builder_amount 5
     (channel_builder_between (Address (replicate 20 1)) (Address (replicate 20 2)) channel_builder_default)))"
proof -
  let ?c = "channel_entry_new (\<lambda>_. []) (Address (replicate 20 1)) (Address (replicate 20 2)) (Balance 5 WxHOPR) 0 Open 1"
  have "wf_channel (\<lambda>_. []) ?c" by (simp add: wf_channel_def channel_entry_new_def wei_def)
  then show ?thesis
    using channel_build_spec [of "\<lambda>_. []" undefined ?c]
    by (simp add: channel_entry_new_def channel_builder_amount_def channel_builder_between_def
        channel_builder_default_def balance_from_def wxhopr_currency_def)
qed

section \<open>Differences\<close>

datatype channel_change =
    StatusChange channel_status channel_status
  | BalanceChange hopr_balance hopr_balance
  | EpochChange u32 u32
  | TicketIndexChange u64 u64

text \<open>The derived equality of entries, with the status compared by its own equality.\<close>

definition channel_entry_eq :: "channel_entry \<Rightarrow> channel_entry \<Rightarrow> bool" where
  "channel_entry_eq a b \<longleftrightarrow>
     channel_source a = channel_source b \<and> channel_destination a = channel_destination b
   \<and> channel_balance a = channel_balance b \<and> channel_ticket_index a = channel_ticket_index b
   \<and> channel_status_eq (channel_status a) (channel_status b)
   \<and> channel_epoch a = channel_epoch b \<and> channel_id a = channel_id b"

definition diff_channels :: "channel_entry \<Rightarrow> channel_entry \<Rightarrow> channel_change list option" where
  "diff_channels left right =
     (if channel_id left \<noteq> channel_id right then None
      else if channel_entry_eq left right then Some []
      else
        let ret = [];
            ret = (if \<not> channel_status_eq (channel_status left) (channel_status right)
                   then ret @ [StatusChange (channel_status left) (channel_status right)] else ret);
            ret = (if channel_balance left \<noteq> channel_balance right
                   then ret @ [BalanceChange (channel_balance left) (channel_balance right)] else ret);
            ret = (if channel_epoch left \<noteq> channel_epoch right
                   then ret @ [EpochChange (channel_epoch left) (channel_epoch right)] else ret);
            ret = (if channel_ticket_index left \<noteq> channel_ticket_index right
                   then ret @ [TicketIndexChange (channel_ticket_index left) (channel_ticket_index right)] else ret)
        in Some ret)"

text \<open>A change read as an update of the left channel.\<close>

fun apply_change :: "channel_change \<Rightarrow> channel_entry \<Rightarrow> channel_entry" where
  "apply_change (StatusChange _ r) c = c\<lparr>channel_status := r\<rparr>"
| "apply_change (BalanceChange _ r) c = c\<lparr>channel_balance := r\<rparr>"
| "apply_change (EpochChange _ r) c = c\<lparr>channel_epoch := r\<rparr>"
| "apply_change (TicketIndexChange _ r) c = c\<lparr>channel_ticket_index := r\<rparr>"

text \<open>
  C16. The difference of two states of a channel panics exactly on different channel ids; for the
  same parties it is empty exactly if the states are equal, and applying the listed changes, at
  most four, to the left state gives a state equal to the right one.
\<close>

theorem diff_channels_spec:
  "(diff_channels l r = None \<longleftrightarrow> channel_id l \<noteq> channel_id r)
   \<and> (channel_entry_parties l = channel_entry_parties r \<longrightarrow> diff_channels l r = Some cs \<longrightarrow>
        (cs = [] \<longleftrightarrow> channel_entry_eq l r) \<and> length cs \<le> 4 \<and> channel_entry_eq (fold apply_change cs l) r)"
proof (intro conjI impI)
  show "diff_channels l r = None \<longleftrightarrow> channel_id l \<noteq> channel_id r"
    by (simp add: diff_channels_def Let_def)
next
  assume p: "channel_entry_parties l = channel_entry_parties r" and d: "diff_channels l r = Some cs"
  then have same: "channel_source l = channel_source r" "channel_destination l = channel_destination r"
    "channel_id l = channel_id r"
    by (auto simp: channel_entry_parties_def diff_channels_def split: if_splits)
  show "cs = [] \<longleftrightarrow> channel_entry_eq l r"
    using d same by (auto simp: diff_channels_def Let_def channel_entry_eq_def split: if_splits)
  show "length cs \<le> 4" using d by (auto simp: diff_channels_def Let_def split: if_splits)
  show "channel_entry_eq (fold apply_change cs l) r"
    using d same by (auto simp: diff_channels_def Let_def channel_entry_eq_def split: if_splits)
qed

theorem diff_channels_spec_witness:
  "\<exists>a b. diff_channels a b = Some [EpochChange 1 2] \<and> channel_entry_eq (fold apply_change [EpochChange 1 2] a) b"
proof -
  let ?c = "\<lambda>e. channel_entry_new (\<lambda>_. []) address_default address_default (Balance 0 WxHOPR) 0 Open e"
  have "diff_channels (?c 1) (?c 2) = Some [EpochChange 1 2]"
    by (simp add: diff_channels_def channel_entry_eq_def channel_entry_new_def)
  moreover have "channel_entry_parties (?c 1) = channel_entry_parties (?c 2)"
    by (simp add: channel_entry_parties_def channel_entry_new_def)
  ultimately show ?thesis using diff_channels_spec [of "?c 1" "?c 2" "[EpochChange 1 2]"] by blast
qed

section \<open>Small wrappers\<close>

datatype corrupted_channel_entry = CorruptedChannelEntry (corrupted_channel_id: channel_id)

datatype src_dst_pair = SrcDstPair address address

definition src_dst_pair_from :: "channel_entry \<Rightarrow> src_dst_pair" where
  "src_dst_pair_from c = SrcDstPair (channel_source c) (channel_destination c)"

lemma orientation_direction: "direction c me = map_option fst (orientation c me)"
  by (simp add: direction_def orientation_def)

lemma channel_parties_id_eq: "wf_channel k c \<Longrightarrow> channel_parties_id k (channel_entry_parties c) = get_id c"
  by (simp add: wf_channel_def channel_parties_id_def channel_entry_parties_def get_id_def)

end
