(* ===== verification/Win_Prob.thy ===== *)
theory Win_Prob
  imports Floats Bytes
begin

text \<open>
  The ticket winning probability of \<open>internal/tickets.rs\<close>: seven bytes, read as a 56-bit number
  (the luck) or as a double. \<open>f64_approx_eq\<close> of \<open>primitive/mod.rs\<close> calls the package \<open>float-cmp\<close>
  and is a parameter; \<open>approx_ok\<close> states a safe reading of its documentation on the unit
  interval: numbers closer than half of epsilon are equal, numbers further apart than twice
  epsilon are not. Reading a decimal text as a double is a parameter too.
\<close>

definition ENCODED_WIN_PROB_LENGTH :: nat where
  "ENCODED_WIN_PROB_LENGTH = 7"

definition REDEEM_CALL_SELECTOR :: bytes where
  "REDEEM_CALL_SELECTOR = [235, 19, 235, 17]"

datatype winning_probability = WinProb (wp_bytes: bytes)

definition WP_ALWAYS :: winning_probability where
  "WP_ALWAYS = WinProb (replicate ENCODED_WIN_PROB_LENGTH 0xff)"

definition WP_NEVER :: winning_probability where
  "WP_NEVER = WinProb (replicate ENCODED_WIN_PROB_LENGTH 0)"

text \<open>The double nearest to \<open>10^-8\<close>.\<close>

definition WP_EPSILON :: rat where
  "WP_EPSILON = 3022314549036573 / 302231454903657293676544"

definition wp_as_luck :: "winning_probability \<Rightarrow> u64" where
  "wp_as_luck w = of_nat (from_be (0 # wp_bytes w))"

definition wp_as_encoded :: "winning_probability \<Rightarrow> bytes" where
  "wp_as_encoded w = wp_bytes w"

text \<open>
  The significand is below \<open>2^52\<close> here, so its bits under the exponent 1023 are those of the
  double \<open>1 + m / 2^52\<close>, and the subtraction is exact.
\<close>

definition wp_as_f64 :: "winning_probability \<Rightarrow> f64" where
  "wp_as_f64 w =
     (if wp_bytes w = wp_bytes WP_NEVER then Num 0
      else if wp_bytes w = wp_bytes WP_ALWAYS then Num 1
      else
        let tmp = of_nat (from_be (0 # wp_bytes w)) :: u64;
            significand = tmp + 1
        in Num (f64_from_mantissa (unat (drop_bit 4 significand)) - 1))"

text \<open>A subtraction that would wrap is a panic.\<close>

definition u64_checked_sub :: "u64 \<Rightarrow> u64 \<Rightarrow> u64 option" where
  "u64_checked_sub a b = (if b \<le> a then Some (a - b) else None)"

definition wp_try_from_f64 ::
  "(f64 \<Rightarrow> f64 \<Rightarrow> rat \<Rightarrow> bool) \<Rightarrow> f64 \<Rightarrow> (winning_probability, core_types_error) res" where
  "wp_try_from_f64 approx_eq win_prob =
     (if \<not> in_unit_interval win_prob
      then Err (InvalidInputData ''winning probability must be in [0.0, 1.0]'')
      else if approx_eq (Num 0) win_prob WP_EPSILON then Ok WP_NEVER
      else if approx_eq (Num 1) win_prob WP_EPSILON then Ok WP_ALWAYS
      else
        let significand = of_nat (f64_mantissa (f64_add win_prob 1)) :: u64
        in map_ok (\<lambda>d. WinProb (drop 1 (to_be 8 (unat (push_bit 4 d OR 0xf)))))
             (expect (u64_checked_sub significand 1)))"

fun f64_partial_cmp :: "f64 \<Rightarrow> f64 \<Rightarrow> ordering option" where
  "f64_partial_cmp (NaN _) _ = None"
| "f64_partial_cmp _ (NaN _) = None"
| "f64_partial_cmp a b = (if f64_less a b then Some Less else if f64_eq a b then Some Equal else Some Greater)"

definition wp_approx_cmp ::
  "(f64 \<Rightarrow> f64 \<Rightarrow> rat \<Rightarrow> bool) \<Rightarrow> winning_probability \<Rightarrow> winning_probability \<Rightarrow> ordering option" where
  "wp_approx_cmp approx_eq v w =
     (let a = wp_as_f64 v; b = wp_as_f64 w in
      if \<not> approx_eq a b WP_EPSILON then f64_partial_cmp a b else Some Equal)"

definition wp_approx_eq ::
  "(f64 \<Rightarrow> f64 \<Rightarrow> rat \<Rightarrow> bool) \<Rightarrow> winning_probability \<Rightarrow> winning_probability \<Rightarrow> bool option" where
  "wp_approx_eq approx_eq v w = map_option (\<lambda>o1. o1 = Equal) (wp_approx_cmp approx_eq v w)"

definition wp_lex_cmp :: "winning_probability \<Rightarrow> winning_probability \<Rightarrow> ordering" where
  "wp_lex_cmp v w = cmp_of (wp_as_luck v) (wp_as_luck w)"

definition wp_lex_eq :: "winning_probability \<Rightarrow> winning_probability \<Rightarrow> bool" where
  "wp_lex_eq v w \<longleftrightarrow> wp_lex_cmp v w = Equal"

definition wp_min ::
  "(f64 \<Rightarrow> f64 \<Rightarrow> rat \<Rightarrow> bool) \<Rightarrow> winning_probability \<Rightarrow> winning_probability \<Rightarrow> winning_probability option" where
  "wp_min approx_eq v w = map_option (\<lambda>o1. if o1 = Less then v else w) (wp_approx_cmp approx_eq v w)"

definition wp_max ::
  "(f64 \<Rightarrow> f64 \<Rightarrow> rat \<Rightarrow> bool) \<Rightarrow> winning_probability \<Rightarrow> winning_probability \<Rightarrow> winning_probability option" where
  "wp_max approx_eq v w = map_option (\<lambda>o1. if o1 = Greater then v else w) (wp_approx_cmp approx_eq v w)"

definition wp_default :: winning_probability where
  "wp_default = WP_ALWAYS"

definition wp_from_str ::
  "(f64 \<Rightarrow> f64 \<Rightarrow> rat \<Rightarrow> bool) \<Rightarrow> (string \<Rightarrow> (f64, string) res) \<Rightarrow> string \<Rightarrow> (winning_probability, core_types_error) res" where
  "wp_from_str approx_eq f64_from_str s =
     and_then (map_err (\<lambda>e. CoreParseError (''failed to parse winning probability: '' @ e)) (f64_from_str s))
       (wp_try_from_f64 approx_eq)"

definition wp_from_u64 :: "u64 \<Rightarrow> winning_probability" where
  "wp_from_u64 v = WinProb (drop 1 (to_be 8 (unat v)))"

definition wp_eq_f64 :: "(f64 \<Rightarrow> f64 \<Rightarrow> rat \<Rightarrow> bool) \<Rightarrow> winning_probability \<Rightarrow> f64 \<Rightarrow> bool" where
  "wp_eq_f64 approx_eq w x \<longleftrightarrow> approx_eq (wp_as_f64 w) x WP_EPSILON"

definition wp_try_from :: "bytes \<Rightarrow> (winning_probability, general_error) res" where
  "wp_try_from = array_try_from WinProb ENCODED_WIN_PROB_LENGTH ''WinningProbability''"

definition wf_wp :: "winning_probability \<Rightarrow> bool" where
  "wf_wp w \<longleftrightarrow> length (wp_bytes w) = ENCODED_WIN_PROB_LENGTH"

interpretation wp: bytes_representable wp_bytes wp_try_from ENCODED_WIN_PROB_LENGTH wf_wp
  unfolding wf_wp_def wp_try_from_def by (rule bytes_representable_array) simp_all

definition approx_ok :: "(f64 \<Rightarrow> f64 \<Rightarrow> rat \<Rightarrow> bool) \<Rightarrow> bool" where
  "approx_ok approx_eq \<longleftrightarrow>
     (\<forall>a b. 0 \<le> a \<longrightarrow> a \<le> 1 \<longrightarrow> 0 \<le> b \<longrightarrow> b \<le> 1 \<longrightarrow>
        (\<bar>a - b\<bar> \<le> WP_EPSILON / 2 \<longrightarrow> approx_eq (Num a) (Num b) WP_EPSILON)
      \<and> (approx_eq (Num a) (Num b) WP_EPSILON \<longrightarrow> \<bar>a - b\<bar> \<le> 2 * WP_EPSILON))"

section \<open>Luck\<close>

lemma wf_wp_consts [simp]: "wf_wp WP_ALWAYS" "wf_wp WP_NEVER" "wf_wp (wp_from_u64 v)"
  by (simp_all add: wf_wp_def WP_ALWAYS_def WP_NEVER_def wp_from_u64_def ENCODED_WIN_PROB_LENGTH_def)

lemma from_be_zero_Cons [simp]: "from_be (0 # bs) = from_be bs"
  using from_be_append [of "[0]" bs] by (simp add: from_be_def)

lemma wp_luck_less: "wf_wp w \<Longrightarrow> from_be (wp_bytes w) < 2 ^ 56"
  using from_be_less [of "wp_bytes w"] by (simp add: wf_wp_def ENCODED_WIN_PROB_LENGTH_def)

lemma wp_as_luck_unat: "wf_wp w \<Longrightarrow> unat (wp_as_luck w) = from_be (wp_bytes w)"
  using wp_luck_less [of w] by (simp add: wp_as_luck_def unat_of_nat)

lemma wp_luck_inj: "wf_wp v \<Longrightarrow> wf_wp w \<Longrightarrow> wp_as_luck v = wp_as_luck w \<longleftrightarrow> v = w"
  using from_be_inj [of "wp_bytes v" "wp_bytes w"] wp_as_luck_unat [of v] wp_as_luck_unat [of w]
  by (cases v; cases w) (auto simp: wf_wp_def)

lemma luck_NEVER: "wf_wp w \<Longrightarrow> wp_bytes w = wp_bytes WP_NEVER \<longleftrightarrow> from_be (wp_bytes w) = 0"
  using from_be_inj [of "wp_bytes w" "wp_bytes WP_NEVER"]
  by (simp add: wf_wp_def WP_NEVER_def)

lemma from_be_ff: "from_be (replicate n 0xff) + 1 = 256 ^ n"
  by (induction n) (simp_all only: replicate_Suc replicate_append_same [symmetric] from_be_snoc, simp_all)

lemma luck_ALWAYS: "wf_wp w \<Longrightarrow> wp_bytes w = wp_bytes WP_ALWAYS \<longleftrightarrow> from_be (wp_bytes w) = 2 ^ 56 - 1"
  using from_be_inj [of "wp_bytes w" "wp_bytes WP_ALWAYS"] from_be_ff [of 7]
  by (simp add: wf_wp_def WP_ALWAYS_def ENCODED_WIN_PROB_LENGTH_def)

text \<open>The probability as a function of the luck.\<close>

definition luck_prob :: "nat \<Rightarrow> rat" where
  "luck_prob l = (if l = 2 ^ 56 - 1 then 1 else of_nat ((l + 1) div 16) / 2 ^ 52)"

lemma wp_as_f64_eq: "wf_wp w \<Longrightarrow> wp_as_f64 w = Num (luck_prob (from_be (wp_bytes w)))"
proof -
  assume w: "wf_wp w"
  let ?l = "from_be (wp_bytes w)"
  note less = wp_luck_less [OF w]
  have "unat (of_nat ?l + 1 :: u64) = ?l + 1"
  proof -
    have "unat (of_nat (?l + 1) :: u64) = ?l + 1" by (rule unat_of_nat_less) (use less in simp)
    then show ?thesis by (simp add: add.commute)
  qed
  then have "unat (drop_bit 4 (of_nat ?l + 1 :: u64)) = (?l + 1) div 16"
    using drop_bit_eq_div [of 4 "?l + 1"] by (simp only: unat_drop_bit_eq) simp
  then have d: "f64_from_mantissa (unat (drop_bit 4 (of_nat ?l + 1 :: u64))) - 1
      = of_nat ((?l + 1) div 16) / 2 ^ 52"
    by (simp only: f64_from_mantissa_def)
  show ?thesis
    unfolding wp_as_f64_def Let_def from_be_zero_Cons luck_NEVER [OF w] luck_ALWAYS [OF w] luck_prob_def d
    by simp
qed

lemma luck_prob_unit: "l < 2 ^ 56 \<Longrightarrow> 0 \<le> luck_prob l \<and> luck_prob l \<le> 1"
proof -
  assume "l < 2 ^ 56"
  then have "(l + 1) div 16 \<le> 2 ^ 52" by simp
  then have "of_nat ((l + 1) div 16) \<le> (of_nat (2 ^ 52) :: rat)" by (simp only: of_nat_le_iff)
  then show ?thesis by (simp add: luck_prob_def)
qed

lemma luck_prob_mono: "l \<le> m \<Longrightarrow> m < 2 ^ 56 \<Longrightarrow> luck_prob l \<le> luck_prob m"
proof (cases "m = 2 ^ 56 - 1")
  case True
  assume "l \<le> m" "m < 2 ^ 56"
  then have "l < 2 ^ 56" by simp
  then show ?thesis using luck_prob_unit [of l] True by (simp add: luck_prob_def)
next
  case False
  assume "l \<le> m" "m < 2 ^ 56"
  then have "(l + 1) div 16 \<le> (m + 1) div 16" "l \<noteq> 2 ^ 56 - 1" using False by (simp_all add: div_le_mono)
  then show ?thesis using False by (simp add: luck_prob_def divide_right_mono)
qed

section \<open>From a double\<close>

lemma luck_prob_above: "luck_prob (16 * k - 1) = of_nat k / 2 ^ 52" if "0 < k" "k < 2 ^ 52"
proof -
  have "16 * k - 1 + 1 = 16 * k" "16 * k - 1 \<noteq> 2 ^ 56 - 1" using that by simp_all
  then show ?thesis by (simp add: luck_prob_def)
qed

lemma push_4_or_15: "unat (push_bit 4 d OR 0xf :: u64) = 16 * unat d + 15" if "unat d < 2 ^ 52"
proof -
  have mask: "0xf = (mask 4 :: u64)" by (simp add: mask_eq_exp_minus_1)
  have "push_bit 4 d AND mask 4 = (0 :: u64)"
    by (rule bit_word_eqI) (auto simp only: bit_and_iff bit_push_bit_iff bit_mask_iff bit_0_eq bot_apply bot_bool_def simp_thms)
  then have "push_bit 4 d OR 0xf = push_bit 4 d + (0xf :: u64)"
    unfolding mask by (rule disjunctive_add_eq_or [symmetric])
  then have "push_bit 4 d OR 0xf = (of_nat (16 * unat d + 15) :: u64)"
    by (simp add: push_bit_eq_mult)
  moreover have "unat (of_nat (16 * unat d + 15) :: u64) = 16 * unat d + 15"
    by (rule unat_of_nat_less) (use that in simp)
  ultimately show ?thesis by simp
qed

text \<open>Off the snapped ends, the encoding of a double is the luck below sixteen times its grid point.\<close>

lemma wp_try_from_f64_mid:
  assumes r: "0 \<le> r" "r \<le> 1" and k: "0 < grid_of r" "grid_of r < 2 ^ 52"
    and a: "\<not> A (Num 0) (Num r) WP_EPSILON" "\<not> A (Num 1) (Num r) WP_EPSILON"
  shows "wp_try_from_f64 A (Num r) = Ok (WinProb (to_be 7 (16 * grid_of r - 1)))"
proof -
  let ?k = "grid_of r"
  have add: "f64_add (Num r) 1 = Num (1 + of_nat ?k / 2 ^ 52)" using f64_add_one [OF r] .
  have m: "f64_mantissa (Num (1 + of_nat ?k / 2 ^ 52)) = ?k"
    using f64_mantissa_grid [of ?k] k by simp
  have u: "unat (of_nat ?k :: u64) = ?k" using k by (intro unat_of_nat_less) simp
  then have le: "(1 :: u64) \<le> of_nat ?k" using k by (simp add: word_le_nat_alt)
  then have d: "unat (of_nat ?k - 1 :: u64) = ?k - 1" using u by (simp add: unat_sub)
  then have p: "unat (push_bit 4 (of_nat ?k - 1) OR 0xf :: u64) = 16 * ?k - 1"
    using push_4_or_15 [of "of_nat ?k - 1"] k by (simp add: d)
  have "drop 1 (to_be 8 (16 * ?k - 1)) = to_be 7 (16 * ?k - 1)"
    using drop_to_be [of 7 8 "16 * ?k - 1"] by simp
  moreover have "in_unit_interval (Num r)" using r by (simp add: in_unit_interval_iff)
  ultimately show ?thesis
    unfolding wp_try_from_f64_def Let_def add m u64_checked_sub_def
    using a le p by (simp only: if_True if_False expect_simps map_ok.simps not_True_eq_False not_False_eq_True p)
qed

lemma approx_okD:
  assumes "approx_ok A" "0 \<le> a" "a \<le> 1" "0 \<le> b" "b \<le> 1"
  shows "\<bar>a - b\<bar> \<le> WP_EPSILON / 2 \<Longrightarrow> A (Num a) (Num b) WP_EPSILON"
    and "A (Num a) (Num b) WP_EPSILON \<Longrightarrow> \<bar>a - b\<bar> \<le> 2 * WP_EPSILON"
  using assms by (auto simp: approx_ok_def)

text \<open>A double that is not snapped to an end lies strictly inside the grid.\<close>

lemma grid_inside:
  assumes A: "approx_ok A" and r: "0 \<le> r" "r \<le> 1"
    and a: "\<not> A (Num 0) (Num r) WP_EPSILON" "\<not> A (Num 1) (Num r) WP_EPSILON"
  shows "0 < grid_of r" "grid_of r < 2 ^ 52"
proof -
  have "WP_EPSILON / 2 < r" "WP_EPSILON / 2 < 1 - r"
    using approx_okD(1) [OF A, of 0 r] approx_okD(1) [OF A, of 1 r] a r
    by (simp_all add: linorder_class.not_le [symmetric] del: linorder_class.not_le)
      (use a in blast)+
  moreover have "1 / 2 ^ 53 < WP_EPSILON / 2" by (simp add: WP_EPSILON_def)
  ultimately have "1 / 2 ^ 53 < r" "r < 1 - 1 / 2 ^ 53" by linarith+
  moreover have "of_nat (grid_of r) / 2 ^ 52 - r \<le> 1 / 2 ^ 53" "r - of_nat (grid_of r) / 2 ^ 52 \<le> 1 / 2 ^ 53"
    using grid_of_near [OF r(1)] by linarith+
  ultimately have "0 < of_nat (grid_of r) / (2 ^ 52 :: rat)" "of_nat (grid_of r) / (2 ^ 52 :: rat) < 1"
    by linarith+
  then show "0 < grid_of r" "grid_of r < 2 ^ 52"
    using grid_of_bounds [OF r] by (simp, cases "grid_of r = 2 ^ 52") auto
qed

lemma wf_wp_to_be: "wf_wp (WinProb (to_be 7 n))"
  by (simp add: wf_wp_def ENCODED_WIN_PROB_LENGTH_def)

lemma wp_as_f64_to_be:
  assumes "0 < k" "k < 2 ^ 52"
  shows "wp_as_f64 (WinProb (to_be 7 (16 * k - 1))) = Num (of_nat k / 2 ^ 52)"
proof -
  have "from_be (to_be 7 (16 * k - 1)) = 16 * k - 1" using assms by (intro from_be_to_be_id) simp
  then show ?thesis using wp_as_f64_eq [OF wf_wp_to_be [of "16 * k - 1"]] luck_prob_above [OF assms]
    by simp
qed

lemma wp_as_f64_ends: "wp_as_f64 WP_NEVER = Num 0" "wp_as_f64 WP_ALWAYS = Num 1"
  by (simp_all add: wp_as_f64_def WP_ALWAYS_def WP_NEVER_def ENCODED_WIN_PROB_LENGTH_def)

text \<open>\<open>WinningProbability::try_from_f64\<close> is an error exactly outside \<open>[0, 1]\<close> (a not-a-number
  and the infinities included) and never panics: no double underflows the subtraction of one from
  the significand. Inside, the result is well formed, its \<open>as_f64\<close> is within the tolerance of
  the input, and within half a unit in the last place of \<open>[1, 2)\<close> when the input is not
  snapped to an end.\<close>

theorem win_prob_from_f64:
  assumes A: "approx_ok A"
  shows "(\<exists>r. x = Num r \<and> 0 \<le> r \<and> r \<le> 1 \<and>
        (\<exists>w p. wp_try_from_f64 A x = Ok w \<and> wf_wp w \<and> wp_as_f64 w = Num p
          \<and> \<bar>p - r\<bar> \<le> 2 * WP_EPSILON
          \<and> (\<bar>p - r\<bar> \<le> 1 / 2 ^ 53
              \<or> w = WP_NEVER \<and> A (Num 0) x WP_EPSILON \<or> w = WP_ALWAYS \<and> A (Num 1) x WP_EPSILON)))
    \<or> \<not> in_unit_interval x
      \<and> wp_try_from_f64 A x = Err (InvalidInputData ''winning probability must be in [0.0, 1.0]'')"
proof (cases "in_unit_interval x")
  case True
  then obtain r where x: "x = Num r" and r: "0 \<le> r" "r \<le> 1" by (auto simp: in_unit_interval_iff)
  consider (low) "A (Num 0) x WP_EPSILON" | (high) "\<not> A (Num 0) x WP_EPSILON" "A (Num 1) x WP_EPSILON"
    | (mid) "\<not> A (Num 0) x WP_EPSILON" "\<not> A (Num 1) x WP_EPSILON" by blast
  then show ?thesis
  proof cases
    case low
    then have "wp_try_from_f64 A x = Ok WP_NEVER" "\<bar>0 - r\<bar> \<le> 2 * WP_EPSILON"
      using True approx_okD(2) [OF A, of 0 r] r by (auto simp: wp_try_from_f64_def x)
    then show ?thesis using x r low wp_as_f64_ends wf_wp_consts by blast
  next
    case high
    then have "wp_try_from_f64 A x = Ok WP_ALWAYS" "\<bar>1 - r\<bar> \<le> 2 * WP_EPSILON"
      using True approx_okD(2) [OF A, of 1 r] r by (auto simp: wp_try_from_f64_def x)
    then show ?thesis using x r high wp_as_f64_ends wf_wp_consts by blast
  next
    case mid
    note k = grid_inside [OF A r mid [unfolded x]]
    have near: "\<bar>of_nat (grid_of r) / 2 ^ 52 - r\<bar> \<le> 1 / 2 ^ 53" by (rule grid_of_near [OF r(1)])
    moreover have "1 / 2 ^ 53 \<le> 2 * WP_EPSILON" by (simp add: WP_EPSILON_def)
    ultimately have "\<bar>of_nat (grid_of r) / 2 ^ 52 - r\<bar> \<le> 2 * WP_EPSILON" by linarith
    then show ?thesis
      using near x r wp_try_from_f64_mid [of r A, OF r k mid [unfolded x]] wp_as_f64_to_be [OF k] wf_wp_to_be
      by blast
  qed
next
  case False
  then show ?thesis by (simp add: wp_try_from_f64_def)
qed

text \<open>A tolerance test on the exact values, an instance of the hypothesis.\<close>

fun approx_abs :: "f64 \<Rightarrow> f64 \<Rightarrow> rat \<Rightarrow> bool" where
  "approx_abs (Num a) (Num b) e = (\<bar>a - b\<bar> \<le> e)"
| "approx_abs _ _ _ = False"

lemma approx_ok_abs: "approx_ok approx_abs"
  unfolding approx_ok_def by (simp add: WP_EPSILON_def field_simps)

theorem win_prob_from_f64_witness:
  "\<exists>w p. wp_try_from_f64 approx_abs (Num (1 / 2)) = Ok w \<and> wp_as_f64 w = Num p \<and> \<bar>p - 1 / 2\<bar> \<le> 1 / 2 ^ 53"
proof -
  have "\<not> approx_abs (Num 0) (Num (1 / 2)) WP_EPSILON" "\<not> approx_abs (Num 1) (Num (1 / 2)) WP_EPSILON"
    by (simp_all add: WP_EPSILON_def)
  moreover have "in_unit_interval (Num (1 / 2))" by (simp add: in_unit_interval_def)
  ultimately show ?thesis
    using win_prob_from_f64 [OF approx_ok_abs, of "Num (1 / 2)"] unfolding f64.inject by blast
qed

section \<open>Orders\<close>

lemma luck_prob_grid:
  assumes "l < 2 ^ 56" "luck_prob l \<noteq> 1"
  shows "luck_prob l = of_nat ((l + 1) div 16) / 2 ^ 52" "(l + 1) div 16 < 2 ^ 52"
proof -
  have "l \<noteq> 2 ^ 56 - 1" using assms(2) by (auto simp: luck_prob_def)
  with assms(1) show "luck_prob l = of_nat ((l + 1) div 16) / 2 ^ 52" "(l + 1) div 16 < 2 ^ 52"
    by (simp_all add: luck_prob_def)
qed

text \<open>Reading a well-formed probability as a double and encoding it again keeps its value and
  sets the low four bits of its luck: the result is the largest luck with the same double
  below sixteen times its grid point. (Probabilities within the tolerance of an end are snapped
  to it.)\<close>

theorem win_prob_reencode:
  assumes A: "approx_ok A" and w: "wf_wp w"
    and a: "\<not> A (Num 0) (wp_as_f64 w) WP_EPSILON" "\<not> A (Num 1) (wp_as_f64 w) WP_EPSILON"
  shows "\<exists>w'. wp_try_from_f64 A (wp_as_f64 w) = Ok w' \<and> wf_wp w' \<and> wp_as_f64 w' = wp_as_f64 w
    \<and> unat (wp_as_luck w') = 16 * ((unat (wp_as_luck w) + 1) div 16) - 1"
proof -
  let ?l = "from_be (wp_bytes w)" and ?k = "(from_be (wp_bytes w) + 1) div 16"
  note less = wp_luck_less [OF w]
  have f: "wp_as_f64 w = Num (luck_prob ?l)" by (rule wp_as_f64_eq [OF w])
  note r = luck_prob_unit [OF less]
  have ne: "luck_prob ?l \<noteq> 1"
    using approx_okD(1) [OF A, of 1 1] a(2) f by (auto simp: WP_EPSILON_def)
  note lp = luck_prob_grid(1) [OF less ne] and k = luck_prob_grid(2) [OF less ne]
  have g: "grid_of (luck_prob ?l) = ?k" unfolding lp by (rule grid_of_grid) (use k in simp)
  note a' = a [unfolded f]
  have g0: "0 < ?k" using grid_inside(1) [OF A conjunct1 [OF r] conjunct2 [OF r] a'] by (simp only: g)
  let ?w = "WinProb (to_be 7 (16 * ?k - 1))"
  have "wp_try_from_f64 A (Num (luck_prob ?l)) = Ok ?w"
    using wp_try_from_f64_mid [of "luck_prob ?l" A] r g0 k a' by (simp only: g) blast
  moreover have "wp_as_f64 ?w = Num (luck_prob ?l)"
    using wp_as_f64_to_be [OF g0 k] by (simp only: lp)
  moreover have "from_be (to_be 7 (16 * ?k - 1)) = 16 * ?k - 1"
    using k by (intro from_be_to_be_id) simp
  ultimately show ?thesis
    using wf_wp_to_be [of "16 * ?k - 1"] wp_as_luck_unat [OF w] wp_as_luck_unat [OF wf_wp_to_be] f
    by (intro exI [of _ ?w]) simp
qed

theorem win_prob_reencode_witness:
  "\<exists>w. wp_try_from_f64 approx_abs (wp_as_f64 (WinProb [0x80, 0, 0, 0, 0, 0, 0])) = Ok w \<and> wf_wp w"
proof -
  let ?w = "WinProb [0x80, 0, 0, 0, 0, 0, 0]"
  have w: "wf_wp ?w" by (simp add: wf_wp_def ENCODED_WIN_PROB_LENGTH_def)
  have "from_be (wp_bytes ?w) = 36028797018963968" by (simp add: from_be_def)
  then have "wp_as_f64 ?w = Num (1 / 2)" using wp_as_f64_eq [OF w] by (simp add: luck_prob_def)
  then have "\<not> approx_abs (Num 0) (wp_as_f64 ?w) WP_EPSILON" "\<not> approx_abs (Num 1) (wp_as_f64 ?w) WP_EPSILON"
    by (simp_all add: WP_EPSILON_def)
  then show ?thesis using win_prob_reencode [OF approx_ok_abs w] by blast
qed

lemma wp_lex_le_f64: "wf_wp v \<Longrightarrow> wf_wp w \<Longrightarrow> wp_as_luck v \<le> wp_as_luck w \<Longrightarrow> f64_le (wp_as_f64 v) (wp_as_f64 w)"
  using luck_prob_mono [of "from_be (wp_bytes v)" "from_be (wp_bytes w)"] wp_luck_less [of w]
  by (simp add: wp_as_f64_eq wp_as_luck_unat word_le_nat_alt)

lemma wp_lex_eq_iff: "wf_wp v \<Longrightarrow> wf_wp w \<Longrightarrow> wp_lex_eq v w \<longleftrightarrow> v = w"
  using wp_luck_inj [of v w] by (auto simp: wp_lex_eq_def wp_lex_cmp_def cmp_of_def)

text \<open>The \<open>expect\<close> of \<open>approx_cmp\<close> never fires.\<close>

lemma wp_approx_cmp_total: "wf_wp v \<Longrightarrow> wf_wp w \<Longrightarrow> wp_approx_cmp A v w \<noteq> None"
  by (simp add: wp_approx_cmp_def wp_as_f64_eq Let_def)

lemma wp_min_max_total:
  "wf_wp v \<Longrightarrow> wf_wp w \<Longrightarrow> \<exists>m. wp_min A v w = Some m \<and> m \<in> {v, w}"
  "wf_wp v \<Longrightarrow> wf_wp w \<Longrightarrow> \<exists>m. wp_max A v w = Some m \<and> m \<in> {v, w}"
  using wp_approx_cmp_total [of v w A]
  by (cases "wp_approx_cmp A v w"; simp add: wp_min_def wp_max_def)+

end
