(* ===== verification/Error_Messages.thy ===== *)
theory Error_Messages
  imports Errors Strings
begin

text \<open>
  The messages the error enumerations print (\<open>#[error(...)]\<close> of \<open>primitive/errors.rs\<close>,
  \<open>crypto/errors.rs\<close> and \<open>internal/errors.rs\<close>); some errors carry the message of another one.
\<close>

fun general_error_display :: "general_error \<Rightarrow> string" where
  "general_error_display (ParseError s) = ''failed to parse/deserialize the data: '' @ s"
| "general_error_display InvalidInput = ''input argument to the function is invalid''"
| "general_error_display (NonSpecificError s) = ''non-specific error: '' @ s"

fun crypto_error_display :: "crypto_error \<Rightarrow> string" where
  "crypto_error_display (InvalidParameterSize name expected) =
     ''cryptographic parameter '' @ [CHR 0x27] @ name @ [CHR 0x27] @ '' must be '' @ show_nat expected @ '' bytes long''"
| "crypto_error_display (InvalidInputValue s) =
     ''input to the function '' @ [CHR 0x27] @ s @ [CHR 0x27] @ '' has invalid value or size''"
| "crypto_error_display InvalidSecretScalar = ''secret scalar results in an invalid EC point''"
| "crypto_error_display InvalidPublicKey = ''ec point represents an invalid public key''"
| "crypto_error_display TagMismatch = ''mac or authentication tag did not match''"
| "crypto_error_display (EllipticCurveError s) = ''curve error: '' @ s"
| "crypto_error_display CalculationError = ''failed to perform cryptographic calculation''"
| "crypto_error_display SignatureVerification = ''signature verification failed''"
| "crypto_error_display SealingError = ''error during sealing/unsealing of data''"
| "crypto_error_display InvalidChallenge = ''ethereum challenge on the ticket is invalid''"
| "crypto_error_display InvalidVrfValues = ''invalid vrf values''"
| "crypto_error_display (CryptoOther e) = ''lower-level error: '' @ general_error_display e"

fun core_types_error_display :: "core_types_error \<Rightarrow> string" where
  "core_types_error_display (InvalidInputData s) = s"
| "core_types_error_display (CoreParseError s) = ''failed to parse/deserialize the data of '' @ s"
| "core_types_error_display (ArithmeticError s) = ''arithmetic error: '' @ s"
| "core_types_error_display InvalidTicketRecipient = ''invalid ticket signature or wrong ticket recipient''"
| "core_types_error_display InvalidAcknowledgement = ''packet acknowledgement could not be verified''"
| "core_types_error_display InvalidWinningProbability = ''invalid winning probability value''"
| "core_types_error_display LoopbackTicket =
     ''cannot acknowledge self-signed tickets. Ticket sender and recipient must be different''"
| "core_types_error_display TicketNotWinning = ''ticket is not winning''"
| "core_types_error_display (InvalidMultiaddr s) = s"
| "core_types_error_display (CoreCrypto e) = crypto_error_display e"
| "core_types_error_display (CoreGeneral e) = general_error_display e"

fun path_error_display :: "path_error \<Rightarrow> string" where
  "path_error_display PathNotValid = ''path is not valid''"
| "path_error_display (InvalidPeer s) = ''path contains a missing peer id or address: '' @ s"
| "path_error_display (UnknownPeer s) = ''path contains a unknown peer that cannot be resolved: '' @ s"
| "path_error_display (MissingChannel a b) = ''missing channel between '' @ a @ '' and '' @ b"
| "path_error_display (ChannelNotOpened a b) = ''channel between '' @ a @ '' and '' @ b @ '' is not opened''"
| "path_error_display (LoopsNotAllowed s) = ''path contains loop on '' @ s"
| "path_error_display (PathNotFound n a b) =
     ''cannot find '' @ show_nat n @ '' hop path '' @ a @ '' -> '' @ b @ '' in the channel graph''"
| "path_error_display (PathOther e) = general_error_display e"

end
