(* ===== verification/Tickets.thy ===== *)
theory Tickets
  imports Channels Signing Win_Prob Error_Messages
begin

text \<open>
  Tickets of \<open>internal/tickets.rs\<close>: the builder with its bounds, the wire encoding, the hash that
  is signed, signing and verification. The signing engine is an argument; the digest comes with
  the curve interface. A ticket that was signed or verified is the record \<open>verified_ticket\<close>.
\<close>

section \<open>Data\<close>

record ticket_builder =
  tb_counterparty :: "address option"
  tb_amount :: "u256 option"
  tb_balance :: "hopr_balance option"
  tb_index :: u64
  tb_epoch :: u32
  tb_win_prob :: winning_probability
  tb_challenge :: "ethereum_challenge option"
  tb_signature :: "chain_signature option"

record ticket =
  counterparty :: address
  ticket_amount :: hopr_balance
  ticket_index :: u64
  encoded_win_prob :: bytes
  ticket_epoch :: u32
  ticket_challenge :: ethereum_challenge
  ticket_signature :: "chain_signature option"

record verified_ticket =
  vt_ticket :: ticket
  vt_hash :: hash
  vt_issuer :: address
  vt_channel_id :: channel_id

record ticket_id =
  tid_channel :: channel_id
  tid_epoch :: u32
  tid_index :: u64

definition ticket_id_of :: "verified_ticket \<Rightarrow> ticket_id" where
  "ticket_id_of v = \<lparr>tid_channel = vt_channel_id v, tid_epoch = ticket_epoch (vt_ticket v),
     tid_index = ticket_index (vt_ticket v)\<rparr>"

text \<open>The derived order: channel, epoch, index.\<close>

definition ticket_id_cmp :: "ticket_id \<Rightarrow> ticket_id \<Rightarrow> ordering" where
  "ticket_id_cmp a b =
     ord_then (hash_cmp (tid_channel a) (tid_channel b))
       (ord_then (cmp_of (tid_epoch a) (tid_epoch b)) (cmp_of (tid_index a) (tid_index b)))"

definition verified_ticket_cmp :: "verified_ticket \<Rightarrow> verified_ticket \<Rightarrow> ordering" where
  "verified_ticket_cmp v w = ticket_id_cmp (ticket_id_of v) (ticket_id_of w)"

section \<open>The builder\<close>

definition MAX_TICKET_AMOUNT :: nat where
  "MAX_TICKET_AMOUNT = MAX_FUNDING_AMOUNT"

definition ticket_builder_default :: ticket_builder where
  "ticket_builder_default = \<lparr>tb_counterparty = None, tb_amount = None, tb_balance = None, tb_index = 0,
     tb_epoch = 1, tb_win_prob = wp_default, tb_challenge = None, tb_signature = None\<rparr>"

definition ticket_builder_zero_hop :: ticket_builder where
  "ticket_builder_zero_hop = ticket_builder_default\<lparr>tb_index := 0, tb_amount := Some 0,
     tb_win_prob := WP_NEVER, tb_epoch := 0\<rparr>"

definition tb_with_counterparty :: "address \<Rightarrow> ticket_builder \<Rightarrow> ticket_builder" where
  "tb_with_counterparty a b = b\<lparr>tb_counterparty := Some a\<rparr>"

definition tb_with_amount :: "u256 \<Rightarrow> ticket_builder \<Rightarrow> ticket_builder" where
  "tb_with_amount a b = b\<lparr>tb_amount := Some a, tb_balance := None\<rparr>"

definition tb_with_balance :: "hopr_balance \<Rightarrow> ticket_builder \<Rightarrow> ticket_builder" where
  "tb_with_balance bal b = b\<lparr>tb_balance := Some bal, tb_amount := None\<rparr>"

definition tb_with_index :: "u64 \<Rightarrow> ticket_builder \<Rightarrow> ticket_builder" where
  "tb_with_index i b = b\<lparr>tb_index := i\<rparr>"

definition tb_with_epoch :: "u32 \<Rightarrow> ticket_builder \<Rightarrow> ticket_builder" where
  "tb_with_epoch e b = b\<lparr>tb_epoch := e\<rparr>"

definition tb_with_win_prob :: "winning_probability \<Rightarrow> ticket_builder \<Rightarrow> ticket_builder" where
  "tb_with_win_prob w b = b\<lparr>tb_win_prob := w\<rparr>"

definition tb_with_challenge :: "'p secp \<Rightarrow> 'p challenge \<Rightarrow> ticket_builder \<Rightarrow> ticket_builder option" where
  "tb_with_challenge L c b =
     map_option (\<lambda>e. b\<lparr>tb_challenge := Some e\<rparr>) (to_ethereum_challenge L c)"

definition tb_with_eth_challenge :: "ethereum_challenge \<Rightarrow> ticket_builder \<Rightarrow> ticket_builder" where
  "tb_with_eth_challenge c b = b\<lparr>tb_challenge := Some c\<rparr>"

definition tb_with_signature :: "chain_signature \<Rightarrow> ticket_builder \<Rightarrow> ticket_builder" where
  "tb_with_signature s b = b\<lparr>tb_signature := Some s\<rparr>"

definition below_max_ticket :: "u256 \<Rightarrow> bool" where
  "below_max_ticket a \<longleftrightarrow> a < of_nat MAX_TICKET_AMOUNT"

definition tb_checked_amount :: "ticket_builder \<Rightarrow> (hopr_balance, core_types_error) res" where
  "tb_checked_amount b =
     (case (tb_amount b, tb_balance b) of
        (Some amount, None) \<Rightarrow>
          if below_max_ticket amount then Ok (balance_from wxhopr_currency amount)
          else Err (InvalidInputData ''tickets may not have more than 1% of total supply'')
      | (None, Some balance) \<Rightarrow>
          if below_max_ticket (balance_amount balance) then Ok balance
          else Err (InvalidInputData ''tickets may not have more than 1% of total supply'')
      | (None, None) \<Rightarrow> Err (InvalidInputData ''missing ticket amount'')
      | (Some _, Some _) \<Rightarrow> Err (InvalidInputData ''either amount or balance must be set but not both''))"

definition ticket_build :: "ticket_builder \<Rightarrow> (ticket, core_types_error) res" where
  "ticket_build b =
     and_then (tb_checked_amount b) (\<lambda>amount.
     if tb_index b > MAX_TICKET_INDEX then
       Err (InvalidInputData ''cannot hold ticket indices larger than 2^48 - 1'')
     else if tb_epoch b > MAX_CHANNEL_EPOCH then
       Err (InvalidInputData ''cannot hold channel epoch larger than 2^24 - 1'')
     else
       and_then (ok_or (InvalidInputData ''missing channel id'') (tb_counterparty b)) (\<lambda>cp.
       and_then (ok_or (InvalidInputData ''missing ticket challenge'') (tb_challenge b)) (\<lambda>ch.
       Ok \<lparr>counterparty = cp, ticket_amount = amount, ticket_index = tb_index b,
           encoded_win_prob = wp_as_encoded (tb_win_prob b), ticket_epoch = tb_epoch b,
           ticket_challenge = ch, ticket_signature = tb_signature b\<rparr>)))"

definition ticket_builder_from :: "ticket \<Rightarrow> ticket_builder" where
  "ticket_builder_from t = \<lparr>tb_counterparty = Some (counterparty t), tb_amount = None,
     tb_balance = Some (ticket_amount t), tb_index = ticket_index t, tb_epoch = ticket_epoch t,
     tb_win_prob = WinProb (encoded_win_prob t), tb_challenge = Some (ticket_challenge t),
     tb_signature = None\<rparr>"

section \<open>Encoding\<close>

definition ticket_win_prob :: "ticket \<Rightarrow> winning_probability" where
  "ticket_win_prob t = WinProb (encoded_win_prob t)"

definition encode_tail_without_signature :: "ticket \<Rightarrow> bytes" where
  "encode_tail_without_signature t =
     slice_of 20 12 (u256_to_be_bytes (balance_amount (ticket_amount t)))
     @ slice_of 2 6 (to_be 8 (unat (ticket_index t)))
     @ slice_of 1 3 (to_be 4 (unat (ticket_epoch t)))
     @ encoded_win_prob t
     @ ethereum_challenge_as_ref (ticket_challenge t)"

definition encode_for_transfer :: "ticket \<Rightarrow> bytes" where
  "encode_for_transfer t = address_bytes (counterparty t) @ encode_tail_without_signature t"

definition encode_for_signing :: "(bytes \<Rightarrow> bytes) \<Rightarrow> ticket \<Rightarrow> address \<Rightarrow> channel_id \<times> bytes" where
  "encode_for_signing keccak t issuer =
     (let channel_id = generate_channel_id keccak issuer (counterparty t)
      in (channel_id, hash_bytes channel_id @ encode_tail_without_signature t))"

definition ticket_get_hash :: "(bytes \<Rightarrow> bytes) \<Rightarrow> ticket \<Rightarrow> address \<Rightarrow> hash \<Rightarrow> channel_id \<times> hash" where
  "ticket_get_hash keccak t issuer domain_separator =
     (let (channel_id, hash_struct) = encode_for_signing keccak t issuer;
          ticket_hash = hash_create keccak [hash_struct];
          hash_struct = hash_create keccak [REDEEM_CALL_SELECTOR, replicate 28 0, hash_bytes ticket_hash]
      in (channel_id, hash_create keccak [[0x19, 0x01], hash_bytes domain_separator, hash_bytes hash_struct]))"

definition TICKET_SIZE :: nat where
  "TICKET_SIZE = 48 + ADDRESS_SIZE + ECDSA_SIGNATURE_SIZE"

text \<open>A ticket without signature cannot be serialized: a panic.\<close>

definition ticket_into_bytes :: "ticket \<Rightarrow> bytes option" where
  "ticket_into_bytes t = map_option (\<lambda>s. encode_for_transfer t @ signature_bytes s) (ticket_signature t)"

definition ticket_try_from :: "bytes \<Rightarrow> (ticket, general_error) res" where
  "ticket_try_from value =
     (if length value = TICKET_SIZE then
        and_then (address_try_from (slice_of 0 20 value)) (\<lambda>cp.
        let amount = replicate 20 0 @ slice_of 20 12 value;
            index = replicate 2 0 @ slice_of 32 6 value;
            epoch = replicate 1 0 @ slice_of 38 3 value in
        and_then (wp_try_from (slice_of 41 7 value)) (\<lambda>win_prob.
        and_then (ethereum_challenge_try_from (slice_of 48 20 value)) (\<lambda>challenge.
        and_then (signature_try_from (slice_of 68 64 value)) (\<lambda>signature.
        map_err (\<lambda>e. ParseError (''ticket build failed: '' @ core_types_error_display e))
          (ticket_build
            (tb_with_signature signature
              (tb_with_eth_challenge challenge
                (tb_with_win_prob win_prob
                  (tb_with_epoch (of_nat (from_be epoch))
                    (tb_with_index (of_nat (from_be index))
                      (tb_with_amount (of_nat (from_be amount))
                        (tb_with_counterparty cp ticket_builder_default)))))))))))) 
      else Err (ParseError ''Ticket''))"

section \<open>Signing and verification\<close>

definition ticket_sign ::
  "'p secp \<Rightarrow> 'p ecdsa_engine \<Rightarrow> ticket \<Rightarrow> 'p chain_keypair \<Rightarrow> hash \<Rightarrow> verified_ticket option" where
  "ticket_sign L E t signing_key domain_separator =
     (let (channel_id, ticket_hash) =
            ticket_get_hash (keccak256 L) t (public_key_to_address (ckp_public signing_key)) domain_separator
      in map_option (\<lambda>s. \<lparr>vt_ticket = t\<lparr>ticket_signature := Some s\<rparr>, vt_hash = ticket_hash,
             vt_issuer = public_key_to_address (ckp_public signing_key), vt_channel_id = channel_id\<rparr>)
           (signature_sign_hash E ticket_hash signing_key))"

definition ticket_verify ::
  "'p secp \<Rightarrow> 'p ecdsa_engine \<Rightarrow> ticket \<Rightarrow> address \<Rightarrow> hash \<Rightarrow> (verified_ticket, ticket) res" where
  "ticket_verify L E t issuer domain_separator =
     (let (channel_id, ticket_hash) = ticket_get_hash (keccak256 L) t issuer domain_separator in
      case ticket_signature t of
        Some s \<Rightarrow>
          (case signature_recover_from_hash E s ticket_hash of
             Ok pk \<Rightarrow>
               if public_key_to_address pk = issuer then
                 Ok \<lparr>vt_ticket = t, vt_hash = ticket_hash, vt_issuer = issuer, vt_channel_id = channel_id\<rparr>
               else Err t
           | Err e \<Rightarrow> Err t
           | Panic \<Rightarrow> Panic)
      | None \<Rightarrow> Err t)"

definition ticket_build_signed ::
  "'p secp \<Rightarrow> 'p ecdsa_engine \<Rightarrow> ticket_builder \<Rightarrow> 'p chain_keypair \<Rightarrow> hash \<Rightarrow> (verified_ticket, core_types_error) res" where
  "ticket_build_signed L E b signer domain_separator =
     (if tb_signature b = None then
        and_then (ticket_build b) (\<lambda>t. expect (ticket_sign L E t signer domain_separator))
      else Err (InvalidInputData ''signature already set''))"

definition ticket_build_verified ::
  "'p secp \<Rightarrow> 'p ecdsa_engine \<Rightarrow> ticket_builder \<Rightarrow> hash \<Rightarrow> (verified_ticket, core_types_error) res" where
  "ticket_build_verified L E b h =
     (case tb_signature b of
        Some s \<Rightarrow>
          and_then (map_err CoreCrypto (signature_recover_from_hash E s h)) (\<lambda>pk.
          let issuer = public_key_to_address pk in
          and_then (ticket_build b) (\<lambda>t.
          Ok \<lparr>vt_ticket = t, vt_hash = h, vt_issuer = issuer,
              vt_channel_id = generate_channel_id (keccak256 L) issuer (counterparty t)\<rparr>))
      | None \<Rightarrow> Err (InvalidInputData ''signature is missing''))"

section \<open>Bounds\<close>

text \<open>What a built ticket satisfies; the parts whose type fixes their length are in it too.\<close>

definition wf_ticket :: "ticket \<Rightarrow> bool" where
  "wf_ticket t \<longleftrightarrow>
     wf_address (counterparty t) \<and> wf_wp (ticket_win_prob t) \<and> wf_ethereum_challenge (ticket_challenge t)
   \<and> pred_option wf_signature (ticket_signature t)
   \<and> wei (ticket_amount t) < 10 ^ 25 \<and> unat (ticket_index t) < 2 ^ 48 \<and> unat (ticket_epoch t) < 2 ^ 24"

definition wf_ticket_builder :: "ticket_builder \<Rightarrow> bool" where
  "wf_ticket_builder b \<longleftrightarrow>
     pred_option wf_address (tb_counterparty b) \<and> wf_wp (tb_win_prob b)
   \<and> pred_option wf_ethereum_challenge (tb_challenge b) \<and> pred_option wf_signature (tb_signature b)"

lemma below_max_ticket_iff: "below_max_ticket a \<longleftrightarrow> unat a < 10 ^ 25"
  by (simp add: below_max_ticket_def MAX_TICKET_AMOUNT_def MAX_FUNDING_AMOUNT_def word_less_nat_alt)

lemma ticket_bounds_iff:
  "MAX_TICKET_INDEX < i \<longleftrightarrow> \<not> unat i < 2 ^ 48" "MAX_CHANNEL_EPOCH < e \<longleftrightarrow> \<not> unat e < 2 ^ 24"
proof -
  have "n - 1 < k \<longleftrightarrow> \<not> k < n" if "0 < n" for n k :: nat using that by arith
  then show "MAX_TICKET_INDEX < i \<longleftrightarrow> \<not> unat i < 2 ^ 48" "MAX_CHANNEL_EPOCH < e \<longleftrightarrow> \<not> unat e < 2 ^ 24"
    unfolding word_less_nat_alt unat_bounds by (simp_all only: zero_less_power zero_less_numeral)
qed

lemma tb_checked_amount_Ok:
  "tb_checked_amount b = Ok a \<longleftrightarrow> wei a < 10 ^ 25 \<and>
     (tb_amount b = Some (balance_amount a) \<and> tb_balance b = None \<or> tb_amount b = None \<and> tb_balance b = Some a)"
  using wxhopr.single_value [of "balance_currency a"]
  by (cases "tb_amount b"; cases "tb_balance b"; cases a)
    (auto simp: tb_checked_amount_def below_max_ticket_iff wei_def balance_amount_def balance_from_def)

lemma ticket_build_Ok:
  "ticket_build b = Ok t \<longleftrightarrow>
     tb_checked_amount b = Ok (ticket_amount t)
   \<and> unat (tb_index b) < 2 ^ 48 \<and> unat (tb_epoch b) < 2 ^ 24
   \<and> tb_counterparty b = Some (counterparty t) \<and> tb_challenge b = Some (ticket_challenge t)
   \<and> ticket_index t = tb_index b \<and> ticket_epoch t = tb_epoch b
   \<and> ticket_win_prob t = tb_win_prob b \<and> ticket_signature t = tb_signature b"
  by (cases t; cases "tb_win_prob b"; cases "tb_counterparty b"; cases "tb_challenge b")
    (auto simp: ticket_build_def ticket_bounds_iff wp_as_encoded_def ticket_win_prob_def)

lemma ticket_build_not_Panic: "ticket_build b \<noteq> Panic"
  by (auto simp: ticket_build_def and_then_eq_Panic tb_checked_amount_def split: option.splits)

lemma ticket_build_wf: "ticket_build b = Ok t \<Longrightarrow> wf_ticket_builder b \<Longrightarrow> wf_ticket t"
  by (auto simp: ticket_build_Ok wf_ticket_def wf_ticket_builder_def tb_checked_amount_Ok)

text \<open>C10. The ticket builder: it succeeds exactly when one of amount and balance is set and below
  \<open>10^25\<close>, the index is below \<open>2^48\<close>, the epoch below \<open>2^24\<close>, and counterparty and challenge are
  set; then every input is in the ticket. It never panics, keeps the lengths of its parts, and
  building again from a built ticket (and its signature) gives the same ticket.\<close>

theorem ticket_build_spec:
  assumes "wf_ticket_builder b"
  shows "(ticket_build b = Ok t \<longleftrightarrow>
      wf_ticket t
      \<and> (tb_amount b = Some (balance_amount (ticket_amount t)) \<and> tb_balance b = None
          \<or> tb_amount b = None \<and> tb_balance b = Some (ticket_amount t))
      \<and> tb_counterparty b = Some (counterparty t) \<and> tb_challenge b = Some (ticket_challenge t)
      \<and> ticket_index t = tb_index b \<and> ticket_epoch t = tb_epoch b
      \<and> ticket_win_prob t = tb_win_prob b \<and> ticket_signature t = tb_signature b)
    \<and> ticket_build b \<noteq> Panic
    \<and> (ticket_build b = Ok t \<longrightarrow>
        ticket_build ((ticket_builder_from t)\<lparr>tb_signature := ticket_signature t\<rparr>) = Ok t)"
proof (intro conjI impI)
  show "ticket_build b = Ok t \<longleftrightarrow> wf_ticket t
      \<and> (tb_amount b = Some (balance_amount (ticket_amount t)) \<and> tb_balance b = None
          \<or> tb_amount b = None \<and> tb_balance b = Some (ticket_amount t))
      \<and> tb_counterparty b = Some (counterparty t) \<and> tb_challenge b = Some (ticket_challenge t)
      \<and> ticket_index t = tb_index b \<and> ticket_epoch t = tb_epoch b
      \<and> ticket_win_prob t = tb_win_prob b \<and> ticket_signature t = tb_signature b"
    using ticket_build_wf [OF _ assms, of t] by (auto simp: ticket_build_Ok tb_checked_amount_Ok wf_ticket_def)
  show "ticket_build b \<noteq> Panic" by (rule ticket_build_not_Panic)
  assume "ticket_build b = Ok t"
  then show "ticket_build ((ticket_builder_from t)\<lparr>tb_signature := ticket_signature t\<rparr>) = Ok t"
    by (auto simp: ticket_build_Ok tb_checked_amount_Ok ticket_builder_from_def ticket_win_prob_def)
qed

section \<open>The wire format\<close>

lemma tail_fields:
  "encode_tail_without_signature t =
     to_be 12 (wei (ticket_amount t)) @ to_be 6 (unat (ticket_index t)) @ to_be 3 (unat (ticket_epoch t))
     @ encoded_win_prob t @ address_bytes (challenge_address (ticket_challenge t))"
proof -
  have "slice_of (n - k) k (to_be n x) = to_be k x" if "k \<le> n" for n k x
    using that by (simp add: slice_of_def drop_to_be)
  from this [of 12 32] this [of 6 8] this [of 3 4] show ?thesis
    by (simp add: encode_tail_without_signature_def u256_to_be_bytes_def balance_amount_def wei_def
        ethereum_challenge_as_ref_def)
qed

lemma wf_ticket_lengths:
  assumes "wf_ticket t"
  shows "length (encoded_win_prob t) = 7" "length (address_bytes (challenge_address (ticket_challenge t))) = 20"
    "length (address_bytes (counterparty t)) = 20" "ticket_signature t = Some s \<Longrightarrow> length (signature_bytes s) = 64"
  using assms by (auto simp: wf_ticket_def wf_wp_def ENCODED_WIN_PROB_LENGTH_def ticket_win_prob_def
      wf_ethereum_challenge_def wf_address_def ADDRESS_SIZE_def wf_signature_def ECDSA_SIGNATURE_SIZE_def)

lemma wf_ticket_small:
  assumes "wf_ticket t"
  shows "wei (ticket_amount t) < 256 ^ 12" "unat (ticket_index t) < 256 ^ 6" "unat (ticket_epoch t) < 256 ^ 3"
  using assms by (auto simp: wf_ticket_def elim: less_trans)

text \<open>The encoded fields determine all but the counterparty and the signature.\<close>

lemma tail_inj:
  assumes "wf_ticket t" "wf_ticket u" "encode_tail_without_signature t = encode_tail_without_signature u"
  shows "u = t\<lparr>counterparty := counterparty u, ticket_signature := ticket_signature u\<rparr>"
proof -
  have e: "to_be 12 (wei (ticket_amount t)) = to_be 12 (wei (ticket_amount u))"
    "to_be 6 (unat (ticket_index t)) = to_be 6 (unat (ticket_index u))"
    "to_be 3 (unat (ticket_epoch t)) = to_be 3 (unat (ticket_epoch u))"
    "encoded_win_prob t = encoded_win_prob u"
    "address_bytes (challenge_address (ticket_challenge t)) = address_bytes (challenge_address (ticket_challenge u))"
    using assms(3) wf_ticket_lengths [OF assms(1)] wf_ticket_lengths [OF assms(2)]
    by (auto simp: tail_fields)
  have "wei (ticket_amount t) = wei (ticket_amount u)" "unat (ticket_index t) = unat (ticket_index u)"
    "unat (ticket_epoch t) = unat (ticket_epoch u)"
    using e(1-3) wf_ticket_small [OF assms(1)] wf_ticket_small [OF assms(2)]
    by (metis from_be_to_be_id)+
  then have "balance_wei (ticket_amount t) = balance_wei (ticket_amount u)" "ticket_index t = ticket_index u"
    "ticket_epoch t = ticket_epoch u" by (simp_all add: wei_def word_unat_eq_iff)
  moreover have "challenge_address (ticket_challenge t) = challenge_address (ticket_challenge u)"
    using e(5) by (rule address.expand)
  then have "ticket_challenge t = ticket_challenge u" by (rule ethereum_challenge.expand)
  moreover have "balance_currency (ticket_amount t) = balance_currency (ticket_amount u)"
    by (cases "balance_currency (ticket_amount t)"; cases "balance_currency (ticket_amount u)") simp
  ultimately show ?thesis using e(4) by (intro ticket.equality) (auto intro: balance.expand)
qed

text \<open>Decoding a concatenation of fields of the right lengths.\<close>

definition ticket_of_fields :: "bytes \<Rightarrow> bytes \<Rightarrow> bytes \<Rightarrow> bytes \<Rightarrow> bytes \<Rightarrow> bytes \<Rightarrow> bytes \<Rightarrow> ticket" where
  "ticket_of_fields cp am ix ep wp ch sg = \<lparr>counterparty = Address cp,
     ticket_amount = balance_from wxhopr_currency (of_nat (from_be am)), ticket_index = of_nat (from_be ix),
     encoded_win_prob = wp, ticket_epoch = of_nat (from_be ep),
     ticket_challenge = EthereumChallenge (Address ch), ticket_signature = Some (ChainSignature sg)\<rparr>"

lemma split_length: "length bs = n + m \<Longrightarrow> \<exists>xs ys. bs = xs @ ys \<and> length xs = n \<and> length ys = m"
  by (rule exI [of _ "take n bs"], rule exI [of _ "drop n bs"]) simp

lemma split_fields:
  assumes "length bs = 132"
  shows "\<exists>cp am ix ep wp ch sg. bs = cp @ am @ ix @ ep @ wp @ ch @ sg \<and> length cp = 20 \<and> length am = 12
    \<and> length ix = 6 \<and> length ep = 3 \<and> length wp = 7 \<and> length ch = 20 \<and> length sg = 64"
proof -
  obtain cp b1 where b1: "bs = cp @ b1" "length cp = 20" "length b1 = 112"
    using split_length [of bs 20 112] assms by auto
  obtain am b2 where b2: "b1 = am @ b2" "length am = 12" "length b2 = 100"
    using split_length [of b1 12 100] b1 by auto
  obtain ix b3 where b3: "b2 = ix @ b3" "length ix = 6" "length b3 = 94"
    using split_length [of b2 6 94] b2 by auto
  obtain ep b4 where b4: "b3 = ep @ b4" "length ep = 3" "length b4 = 91"
    using split_length [of b3 3 91] b3 by auto
  obtain wp b5 where b5: "b4 = wp @ b5" "length wp = 7" "length b5 = 84"
    using split_length [of b4 7 84] b4 by auto
  obtain ch sg where b6: "b5 = ch @ sg" "length ch = 20" "length sg = 64"
    using split_length [of b5 20 64] b5 by auto
  have "bs = cp @ am @ ix @ ep @ wp @ ch @ sg" using b1(1) b2(1) b3(1) b4(1) b5(1) b6(1) by simp
  then show ?thesis using b1(2) b2(2) b3(2) b4(2) b5(2) b6(2,3) by blast
qed

lemma decode_fields:
  assumes l: "length cp = 20" "length am = 12" "length ix = 6" "length ep = 3" "length wp = 7"
    "length ch = 20" "length sg = 64"
  shows "ticket_try_from (cp @ am @ ix @ ep @ wp @ ch @ sg) =
    (if from_be am < 10 ^ 25 then Ok (ticket_of_fields cp am ix ep wp ch sg)
     else Err (ParseError (''ticket build failed: '' @ ''tickets may not have more than 1% of total supply'')))"
proof -
  let ?bs = "cp @ am @ ix @ ep @ wp @ ch @ sg"
  have sl: "slice_of 0 20 ?bs = cp" "slice_of 20 12 ?bs = am" "slice_of 32 6 ?bs = ix" "slice_of 38 3 ?bs = ep"
    "slice_of 41 7 ?bs = wp" "slice_of 48 20 ?bs = ch" "slice_of 68 64 ?bs = sg"
    using l by (simp_all add: slice_of_def)
  have am: "from_be am < 2 ^ 96" and ix: "from_be ix < 2 ^ 48" and ep: "from_be ep < 2 ^ 24"
    using from_be_less [of am] from_be_less [of ix] from_be_less [of ep] l by simp_all
  have u: "unat (of_nat (from_be am) :: u256) = from_be am" "unat (of_nat (from_be ix) :: u64) = from_be ix"
    "unat (of_nat (from_be ep) :: u32) = from_be ep"
    by (rule unat_of_nat_less, rule less_trans [OF am], simp) (rule unat_of_nat_less, rule less_trans [OF ix], simp,
        rule unat_of_nat_less, rule less_trans [OF ep], simp)
  have b: "\<not> MAX_TICKET_INDEX < of_nat (from_be ix)" "\<not> MAX_CHANNEL_EPOCH < of_nat (from_be ep)"
    unfolding ticket_bounds_iff using u ix ep by simp_all
  show ?thesis
    unfolding ticket_try_from_def sl Let_def from_be_zeros_append
    by (simp add: l b u TICKET_SIZE_def ADDRESS_SIZE_def ECDSA_SIGNATURE_SIZE_def ENCODED_WIN_PROB_LENGTH_def
        address_try_from_def array_try_from_def try_into_array_def wp_try_from_def ethereum_challenge_try_from_def
        signature_try_from_def ticket_build_def tb_checked_amount_def below_max_ticket_iff wp_as_encoded_def
        tb_with_counterparty_def tb_with_amount_def tb_with_index_def tb_with_epoch_def tb_with_win_prob_def
        tb_with_eth_challenge_def tb_with_signature_def ticket_builder_default_def ticket_of_fields_def)
qed

lemma ticket_of_fields_encode:
  assumes l: "length cp = 20" "length am = 12" "length ix = 6" "length ep = 3" "length wp = 7"
    "length ch = 20" "length sg = 64" and am: "from_be am < 10 ^ 25"
  shows "wf_ticket (ticket_of_fields cp am ix ep wp ch sg)"
    "ticket_into_bytes (ticket_of_fields cp am ix ep wp ch sg) = Some (cp @ am @ ix @ ep @ wp @ ch @ sg)"
proof -
  have ix: "from_be ix < 2 ^ 48" and ep: "from_be ep < 2 ^ 24"
    using from_be_less [of ix] from_be_less [of ep] l by simp_all
  have u: "unat (of_nat (from_be am) :: u256) = from_be am" "unat (of_nat (from_be ix) :: u64) = from_be ix"
    "unat (of_nat (from_be ep) :: u32) = from_be ep"
    by (rule unat_of_nat_less, rule less_trans [OF am], simp) (rule unat_of_nat_less, rule less_trans [OF ix], simp,
        rule unat_of_nat_less, rule less_trans [OF ep], simp)
  have "to_be 12 (from_be am) = am" "to_be 6 (from_be ix) = ix" "to_be 3 (from_be ep) = ep"
    using l by (simp_all add: to_be_from_be_len)
  then show "ticket_into_bytes (ticket_of_fields cp am ix ep wp ch sg) = Some (cp @ am @ ix @ ep @ wp @ ch @ sg)"
    by (simp add: ticket_into_bytes_def encode_for_transfer_def tail_fields ticket_of_fields_def wei_def
        balance_from_def u)
  show "wf_ticket (ticket_of_fields cp am ix ep wp ch sg)"
    using l am ix ep by (simp add: wf_ticket_def ticket_of_fields_def wei_def balance_from_def u wf_address_def
        wf_wp_def ticket_win_prob_def wf_ethereum_challenge_def wf_signature_def ADDRESS_SIZE_def
        ECDSA_SIGNATURE_SIZE_def ENCODED_WIN_PROB_LENGTH_def)
qed

definition signed_ticket :: "ticket \<Rightarrow> bool" where
  "signed_ticket t \<longleftrightarrow> wf_ticket t \<and> ticket_signature t \<noteq> None"

lemma ticket_decode_encode:
  assumes "signed_ticket t"
  shows "\<exists>bs. ticket_into_bytes t = Some bs \<and> length bs = 132 \<and> ticket_try_from bs = Ok t"
proof -
  have wf: "wf_ticket t" using assms by (simp add: signed_ticket_def)
  obtain s where s: "ticket_signature t = Some s" using assms by (auto simp: signed_ticket_def)
  note l = wf_ticket_lengths [OF wf] and small = wf_ticket_small [OF wf]
  have cur: "balance_currency (ticket_amount t) = currency_default wxhopr_currency" by (rule wxhopr.single_value)
  have am: "from_be (to_be 12 (wei (ticket_amount t))) = wei (ticket_amount t)" "wei (ticket_amount t) < 10 ^ 25"
    using small wf by (simp_all only: from_be_to_be_id wf_ticket_def)
  let ?bs = "address_bytes (counterparty t) @ to_be 12 (wei (ticket_amount t)) @ to_be 6 (unat (ticket_index t))
    @ to_be 3 (unat (ticket_epoch t)) @ encoded_win_prob t
    @ address_bytes (challenge_address (ticket_challenge t)) @ signature_bytes s"
  have "ticket_into_bytes t = Some ?bs"
    by (simp add: ticket_into_bytes_def encode_for_transfer_def tail_fields s)
  moreover have "length ?bs = 132" using l s by simp
  moreover have "ticket_of_fields (address_bytes (counterparty t)) (to_be 12 (wei (ticket_amount t)))
      (to_be 6 (unat (ticket_index t))) (to_be 3 (unat (ticket_epoch t))) (encoded_win_prob t)
      (address_bytes (challenge_address (ticket_challenge t))) (signature_bytes s) = t"
    unfolding ticket_of_fields_def am(1) from_be_to_be_id [OF small(2)] from_be_to_be_id [OF small(3)]
    by (rule ticket.equality)
      (simp_all add: s balance_from_def wei_def cur [symmetric])
  then have "ticket_try_from ?bs = Ok t"
    using decode_fields [OF l(3) length_to_be length_to_be length_to_be l(1) l(2) l(4) [OF s],
        of "wei (ticket_amount t)" "unat (ticket_index t)" "unat (ticket_epoch t)"] am
    by simp
  ultimately show ?thesis by blast
qed

lemma ticket_encode_decode:
  assumes "ticket_try_from bs = Ok t"
  shows "signed_ticket t \<and> ticket_into_bytes t = Some bs"
proof -
  have "length bs = 132"
    using assms by (simp add: ticket_try_from_def TICKET_SIZE_def ADDRESS_SIZE_def ECDSA_SIGNATURE_SIZE_def
        split: if_splits)
  from split_fields [OF this] obtain cp am ix ep wp ch sg where bs: "bs = cp @ am @ ix @ ep @ wp @ ch @ sg"
    and l: "length cp = 20" "length am = 12" "length ix = 6" "length ep = 3" "length wp = 7" "length ch = 20"
      "length sg = 64"
    by (elim exE conjE) (rule that)
  have am: "from_be am < 10 ^ 25" "t = ticket_of_fields cp am ix ep wp ch sg"
    using assms unfolding bs decode_fields [OF l] by (auto split: if_splits)
  show ?thesis
    using ticket_of_fields_encode [OF l am(1)] am(2) bs
    by (simp add: signed_ticket_def) (simp add: ticket_of_fields_def)
qed

interpretation ticket: bytes_encodable "\<lambda>t. the (ticket_into_bytes t)" ticket_try_from TICKET_SIZE signed_ticket
proof unfold_locales
  show "signed_ticket t \<Longrightarrow> length (the (ticket_into_bytes t)) = TICKET_SIZE" for t
    using ticket_decode_encode by (fastforce simp: TICKET_SIZE_def ADDRESS_SIZE_def ECDSA_SIGNATURE_SIZE_def)
  show "signed_ticket t \<Longrightarrow> ticket_try_from (the (ticket_into_bytes t)) = Ok t" for t
    using ticket_decode_encode by fastforce
  show "ticket_try_from bs = Ok t \<Longrightarrow> signed_ticket t \<and> the (ticket_into_bytes t) = bs" for bs t
    using ticket_encode_decode by fastforce
qed

lemma ticket_try_from_not_Panic: "ticket_try_from bs \<noteq> Panic"
  by (auto simp: ticket_try_from_def and_then_eq_Panic address_try_from_def array_try_from_def wp_try_from_def
      ethereum_challenge_try_from_def signature_try_from_def ticket_build_not_Panic Let_def)

text \<open>C6. The wire format of tickets: a byte string decodes to a ticket exactly when the ticket is
  within the bounds, carries a signature, and encodes to that string, so decoding and encoding
  are inverse to each other and no ticket has two encodings. Decoding never panics; encoding
  panics exactly on an unsigned ticket.\<close>

theorem ticket_wire_format:
  "(ticket_try_from bs = Ok t \<longleftrightarrow> signed_ticket t \<and> ticket_into_bytes t = Some bs)
   \<and> ticket_try_from bs \<noteq> Panic
   \<and> (ticket_into_bytes t = None \<longleftrightarrow> ticket_signature t = None)"
proof -
  have "signed_ticket t \<Longrightarrow> \<exists>bs. ticket_into_bytes t = Some bs" using ticket_decode_encode by blast
  then have "ticket_try_from bs = Ok t \<longleftrightarrow> signed_ticket t \<and> ticket_into_bytes t = Some bs"
    using ticket.decode_iff [of bs t] by (cases "ticket_into_bytes t") auto
  then show ?thesis using ticket_try_from_not_Panic [of bs] by (simp add: ticket_into_bytes_def)
qed

section \<open>The signed hash\<close>

text \<open>The inputs of the four digests behind the hash of a ticket.\<close>

definition ticket_hash_inputs :: "(bytes \<Rightarrow> bytes) \<Rightarrow> ticket \<Rightarrow> address \<Rightarrow> hash \<Rightarrow> bytes set" where
  "ticket_hash_inputs keccak t issuer dst =
     (let parties = address_bytes issuer @ address_bytes (counterparty t);
          body = keccak parties @ encode_tail_without_signature t;
          call = REDEEM_CALL_SELECTOR @ replicate 28 0 @ keccak body
      in {parties, body, call, [0x19, 0x01] @ hash_bytes dst @ keccak call})"

lemma ticket_get_hash_eq:
  "ticket_get_hash keccak t issuer dst =
     (generate_channel_id keccak issuer (counterparty t),
      Hash (keccak ([0x19, 0x01] @ hash_bytes dst
        @ keccak (REDEEM_CALL_SELECTOR @ replicate 28 0
            @ keccak (keccak (address_bytes issuer @ address_bytes (counterparty t)) @ encode_tail_without_signature t)))))"
  by (simp add: ticket_get_hash_def encode_for_signing_def generate_channel_id_def hash_create_def Let_def)

text \<open>C8. The signed hash binds every field of a ticket: if the digest has no collision among the
  eight inputs of two computations, equal hashes mean the same domain separator, the same issuer,
  and tickets that agree on everything but the signature (which is not hashed).\<close>

theorem ticket_hash_binds:
  assumes "digest32 keccak" "wf_ticket t" "wf_ticket u" "wf_address i" "wf_address j" "wf_hash d" "wf_hash e"
    and inj: "inj_on keccak (ticket_hash_inputs keccak t i d \<union> ticket_hash_inputs keccak u j e)"
    and eq: "snd (ticket_get_hash keccak t i d) = snd (ticket_get_hash keccak u j e)"
  shows "d = e \<and> i = j \<and> t\<lparr>ticket_signature := None\<rparr> = u\<lparr>ticket_signature := None\<rparr>"
proof -
  have k: "length (keccak x) = 32" for x using assms(1) by (simp add: digest32_def)
  have l: "length (hash_bytes d) = length (hash_bytes e)" "length (address_bytes i) = length (address_bytes j)"
    using assms by (simp_all add: wf_hash_def wf_address_def)
  note step = inj_onD [OF inj]
  let ?pt = "address_bytes i @ address_bytes (counterparty t)" and ?pu = "address_bytes j @ address_bytes (counterparty u)"
  let ?bt = "keccak ?pt @ encode_tail_without_signature t" and ?bu = "keccak ?pu @ encode_tail_without_signature u"
  let ?ct = "REDEEM_CALL_SELECTOR @ replicate 28 0 @ keccak ?bt" and ?cu = "REDEEM_CALL_SELECTOR @ replicate 28 0 @ keccak ?bu"
  have "[0x19, 0x01] @ hash_bytes d @ keccak ?ct = [0x19, 0x01] @ hash_bytes e @ keccak ?cu"
    by (rule step) (use eq in \<open>simp_all add: ticket_get_hash_eq ticket_hash_inputs_def Let_def\<close>)
  then have d: "hash_bytes d = hash_bytes e" "keccak ?ct = keccak ?cu" using l by simp_all
  have "?ct = ?cu" by (rule step [OF d(2)]) (simp_all add: ticket_hash_inputs_def Let_def)
  then have b: "keccak ?bt = keccak ?bu" by simp
  have "?bt = ?bu" by (rule step [OF b]) (simp_all add: ticket_hash_inputs_def Let_def)
  then have p: "keccak ?pt = keccak ?pu" and tail: "encode_tail_without_signature t = encode_tail_without_signature u"
    using k by simp_all
  have "?pt = ?pu" by (rule step [OF p]) (simp_all add: ticket_hash_inputs_def Let_def)
  then have i: "address_bytes i = address_bytes j" and c: "address_bytes (counterparty t) = address_bytes (counterparty u)"
    using l by simp_all
  have "u = t\<lparr>counterparty := counterparty u, ticket_signature := ticket_signature u\<rparr>"
    by (rule tail_inj [OF assms(2,3) tail])
  moreover have "counterparty t = counterparty u" using c by (rule address.expand)
  ultimately have "t\<lparr>ticket_signature := None\<rparr> = u\<lparr>ticket_signature := None\<rparr>"
    by (cases t; cases u) simp
  then show ?thesis using d(1) i by (simp add: hash.expand address.expand)
qed

section \<open>Signing, then verifying\<close>

lemma ticket_hash_unsigned [simp]:
  "ticket_get_hash keccak (t\<lparr>ticket_signature := s\<rparr>) issuer dst = ticket_get_hash keccak t issuer dst"
  by (simp add: ticket_get_hash_eq encode_tail_without_signature_def)

lemma wf_ticket_hash: "secp_ok L \<Longrightarrow> wf_hash (snd (ticket_get_hash (keccak256 L) t issuer dst))"
  by (simp add: ticket_get_hash_eq wf_hash_def HASH_BASE_SIZE_def secp_okD(11))

lemma ticket_verify_Ok:
  "ticket_verify L E t issuer dst = Ok v \<longleftrightarrow>
     (\<exists>s pk. ticket_signature t = Some s
       \<and> signature_recover_from_hash E s (snd (ticket_get_hash (keccak256 L) t issuer dst)) = Ok pk
       \<and> public_key_to_address pk = issuer)
     \<and> v = \<lparr>vt_ticket = t, vt_hash = snd (ticket_get_hash (keccak256 L) t issuer dst), vt_issuer = issuer,
          vt_channel_id = generate_channel_id (keccak256 L) issuer (counterparty t)\<rparr>"
  by (auto simp: ticket_verify_def ticket_get_hash_eq split: option.splits res.splits)

lemma ticket_verify_Err: "ticket_verify L E t issuer dst = Err u \<Longrightarrow> u = t"
  by (auto simp: ticket_verify_def Let_def split: option.splits res.splits prod.splits if_splits)

lemma ticket_verify_total:
  "ecdsalib_ok L X \<Longrightarrow> ticket_verify L (signature_engine L X f) t issuer dst \<noteq> Panic"
proof -
  assume "ecdsalib_ok L X"
  then have "signature_recover_from_hash (signature_engine L X f) s h \<noteq> Panic" for s h
    by (rule ecdsa_engine_laws.recover_total [OF signature_engine_laws])
  then show ?thesis by (auto simp: ticket_verify_def Let_def split: option.splits res.splits prod.splits)
qed

lemma ticket_signed_verifies:
  assumes ok: "ecdsalib_ok L X" "wf_chain_keypair L kp" and E: "E = signature_engine L X f"
    and h: "h = snd (ticket_get_hash (keccak256 L) t (chain_keypair_address kp) dst)"
    and raw: "engine_sign E h kp = Ok (sig, rec)" "rec < 2 \<or> \<not> is_ok (engine_recover E (sig, rec AND 1) h)"
  shows "\<exists>v. ticket_sign L E t kp dst = Some v
    \<and> (vt_ticket v)\<lparr>ticket_signature := None\<rparr> = t\<lparr>ticket_signature := None\<rparr>
    \<and> vt_hash v = h \<and> vt_issuer v = chain_keypair_address kp
    \<and> ticket_verify L E (vt_ticket v) (chain_keypair_address kp) dst = Ok v
    \<and> (wf_ticket t \<longrightarrow> signed_ticket (vt_ticket v))"
proof -
  note laws = signature_engine_laws [of L X f, folded E]
  have L: "secp_ok L" by (rule ecdsa_engine_laws.valid_curve [OF laws ok(1)])
  have wf: "wf_hash h" unfolding h by (rule wf_ticket_hash [OF L])
  obtain s where s: "signature_sign_hash E h kp = Some s" "signature_recover_from_hash E s h = Ok (ckp_public kp)"
    using ecdsa_engine_laws.recover_signed [OF laws ok wf raw] by blast
  have ws: "wf_signature s" by (rule ecdsa_engine_laws.verify_signed(2) [OF laws ok wf s(1)])
  let ?v = "\<lparr>vt_ticket = t\<lparr>ticket_signature := Some s\<rparr>, vt_hash = h, vt_issuer = chain_keypair_address kp,
    vt_channel_id = generate_channel_id (keccak256 L) (chain_keypair_address kp) (counterparty t)\<rparr>"
  have "ticket_sign L E t kp dst = Some ?v"
    using s(1) by (simp add: ticket_sign_def h chain_keypair_address_def ticket_get_hash_eq)
  moreover have "ticket_verify L E (vt_ticket ?v) (chain_keypair_address kp) dst = Ok ?v"
    using s(2) by (simp add: ticket_verify_Ok h chain_keypair_address_def)
  moreover have "wf_ticket t \<Longrightarrow> signed_ticket (vt_ticket ?v)"
    using ws by (simp add: signed_ticket_def wf_ticket_def ticket_win_prob_def)
  ultimately show ?thesis by (intro exI [of _ ?v]) simp
qed

text \<open>C7. A ticket signed with a valid key pair verifies: signing does not panic, changes nothing but
  the signature, names the signer as issuer, and \<open>verify\<close> under that issuer and the same domain
  separator returns the very same verified ticket (given that the smaller recovery id of the
  signature's parity does not recover another key, which happens with negligible probability).\<close>

theorem ticket_sign_verify:
  assumes ok: "ecdsalib_ok L X" "wf_chain_keypair L kp" and E: "E = signature_engine L X f"
    and h: "h = snd (ticket_get_hash (keccak256 L) t (chain_keypair_address kp) dst)"
    and raw: "engine_sign E h kp = Ok (sig, rec)" "rec < 2 \<or> \<not> is_ok (engine_recover E (sig, rec AND 1) h)"
  shows "\<exists>v. ticket_sign L E t kp dst = Some v
    \<and> (vt_ticket v)\<lparr>ticket_signature := None\<rparr> = t\<lparr>ticket_signature := None\<rparr>
    \<and> vt_hash v = h \<and> vt_issuer v = chain_keypair_address kp
    \<and> ticket_verify L E (vt_ticket v) (chain_keypair_address kp) dst = Ok v
    \<and> (wf_ticket t \<longrightarrow> signed_ticket (vt_ticket v))"
  by (rule ticket_signed_verifies [OF assms])

text \<open>C9. Verification accepts exactly the tickets whose signature recovers, over the hash of the
  ticket for that issuer and domain separator, a key with the issuer's address; the verified
  ticket then holds the ticket unchanged, that hash, the issuer and the channel id. Every other
  ticket is handed back in the error, and nothing panics.\<close>

theorem ticket_verify_spec:
  assumes "ecdsalib_ok L X" "E = signature_engine L X f"
  shows "(ticket_verify L E t issuer dst = Ok v \<longleftrightarrow>
      (\<exists>s pk. ticket_signature t = Some s
        \<and> signature_recover_from_hash E s (snd (ticket_get_hash (keccak256 L) t issuer dst)) = Ok pk
        \<and> public_key_to_address pk = issuer)
      \<and> v = \<lparr>vt_ticket = t, vt_hash = snd (ticket_get_hash (keccak256 L) t issuer dst), vt_issuer = issuer,
           vt_channel_id = generate_channel_id (keccak256 L) issuer (counterparty t)\<rparr>)
    \<and> ((\<exists>v. ticket_verify L E t issuer dst = Ok v) \<or> ticket_verify L E t issuer dst = Err t)"
  using ticket_verify_Ok [of L E t issuer dst] ticket_verify_total [OF assms(1), of f t issuer dst]
    ticket_verify_Err [of L E t issuer dst] assms(2)
  by (cases "ticket_verify L E t issuer dst") auto

text \<open>The two ways to finish a builder agree: \<open>build_verified\<close> with the hash and signature that
  \<open>build_signed\<close> computed gives the same verified ticket.\<close>

lemma ticket_build_verified_signed:
  assumes "ticket_build_signed L E b kp dst = Ok v" "ticket_signature (vt_ticket v) = Some s"
    and "signature_recover_from_hash E s (vt_hash v) = Ok (ckp_public kp)"
  shows "ticket_build_verified L E (tb_with_signature s b) (vt_hash v) = Ok v"
proof -
  obtain t where t: "ticket_build b = Ok t" "ticket_sign L E t kp dst = Some v"
    using assms(1) by (cases "ticket_build b"; cases "tb_signature b"; cases "ticket_sign L E (case ticket_build b of Ok t \<Rightarrow> t) kp dst")
      (auto simp: ticket_build_signed_def)
  have v: "vt_ticket v = t\<lparr>ticket_signature := Some s\<rparr>" "vt_issuer v = public_key_to_address (ckp_public kp)"
    "vt_channel_id v = generate_channel_id (keccak256 L) (vt_issuer v) (counterparty t)"
    using t(2) assms(2) by (auto simp: ticket_sign_def ticket_get_hash_eq)
  have "ticket_build (tb_with_signature s b) = Ok (t\<lparr>ticket_signature := Some s\<rparr>)"
    using t(1) by (auto simp: ticket_build_Ok tb_checked_amount_Ok tb_with_signature_def ticket_win_prob_def)
  then show ?thesis
    using assms(3) v by (simp add: ticket_build_verified_def tb_with_signature_def Let_def)
qed

section \<open>A concrete ticket\<close>

definition ticket_example :: ticket where
  "ticket_example = \<lparr>counterparty = Address (replicate 20 1), ticket_amount = balance_from wxhopr_currency 10,
     ticket_index = 1, encoded_win_prob = replicate 7 0xff, ticket_epoch = 1,
     ticket_challenge = EthereumChallenge (Address (replicate 20 2)), ticket_signature = None\<rparr>"

lemma wf_ticket_example: "wf_ticket ticket_example"
  by (simp add: wf_ticket_def ticket_example_def wf_address_def ADDRESS_SIZE_def wf_wp_def ticket_win_prob_def
      ENCODED_WIN_PROB_LENGTH_def wf_ethereum_challenge_def wei_def balance_from_def)

lemma engine_example:
  "engine_sign (signature_engine secp_toy ecdsa_toy True) h keypair_toy = Ok (to_be 64 (from_be (to_be 32 3)), 0)"
  by (simp add: signature_engine_def k256_engine_def ecdsa_toy_def keypair_toy(2))

theorem ticket_build_spec_witness:
  "\<exists>t. ticket_build ((ticket_builder_from ticket_example)\<lparr>tb_signature := None\<rparr>) = Ok t \<and> wf_ticket t"
proof -
  have "wf_ticket_builder ((ticket_builder_from ticket_example)\<lparr>tb_signature := None\<rparr>)"
    using wf_ticket_example by (simp add: wf_ticket_builder_def ticket_builder_from_def wf_ticket_def ticket_win_prob_def)
  from ticket_build_spec [OF this, of ticket_example] show ?thesis
    using wf_ticket_example by (auto simp: ticket_builder_from_def ticket_win_prob_def ticket_example_def)
qed

theorem ticket_hash_binds_witness:
  "\<exists>t u keccak. inj_on keccak (ticket_hash_inputs keccak t (Address (replicate 20 3)) hash_default
        \<union> ticket_hash_inputs keccak u (Address (replicate 20 3)) hash_default)
     \<and> snd (ticket_get_hash keccak t (Address (replicate 20 3)) hash_default)
        = snd (ticket_get_hash keccak u (Address (replicate 20 3)) hash_default)
     \<and> t \<noteq> u \<and> t\<lparr>ticket_signature := None\<rparr> = u\<lparr>ticket_signature := None\<rparr>"
proof -
  let ?k = "\<lambda>bs :: bytes. to_be 32 (length bs)" and ?i = "Address (replicate 20 3)"
  let ?u = "ticket_example\<lparr>ticket_signature := Some (ChainSignature (replicate 64 0))\<rparr>"
  have small: "to_be 32 n = to_be 32 m \<longleftrightarrow> n = m" if "n < 100" "m < 100" for n m
  proof -
    have "(100 :: nat) < 256 ^ 32" by simp
    with that have "n < 256 ^ 32" "m < 256 ^ 32" by (meson less_trans)+
    then show ?thesis by (metis from_be_to_be_id)
  qed
  have tail: "length (encode_tail_without_signature ticket_example) = 48"
    using wf_ticket_lengths [OF wf_ticket_example] by (simp add: tail_fields)
  have same: "ticket_hash_inputs ?k ?u ?i hash_default = ticket_hash_inputs ?k ticket_example ?i hash_default"
    by (simp add: ticket_hash_inputs_def encode_tail_without_signature_def)
  have "inj_on ?k (ticket_hash_inputs ?k ticket_example ?i hash_default)"
    using tail by (simp add: ticket_hash_inputs_def Let_def inj_on_def small REDEEM_CALL_SELECTOR_def
        hash_default_def HASH_BASE_SIZE_def ticket_example_def)
  then have inj: "inj_on ?k (ticket_hash_inputs ?k ticket_example ?i hash_default \<union> ticket_hash_inputs ?k ?u ?i hash_default)"
    by (simp only: same Un_absorb)
  have u: "wf_ticket ?u"
    using wf_ticket_example by (simp add: wf_ticket_def ticket_win_prob_def wf_signature_def ECDSA_SIGNATURE_SIZE_def)
  have eq: "snd (ticket_get_hash ?k ticket_example ?i hash_default) = snd (ticket_get_hash ?k ?u ?i hash_default)"
    by (simp add: ticket_get_hash_eq encode_tail_without_signature_def)
  have ne: "ticket_example \<noteq> ?u" by (simp add: ticket_example_def)
  have wf: "digest32 ?k" "wf_address ?i" "wf_hash hash_default"
    by (simp_all add: digest32_def wf_address_def ADDRESS_SIZE_def wf_hash_def hash_default_def)
  have binds: "ticket_example\<lparr>ticket_signature := None\<rparr> = ?u\<lparr>ticket_signature := None\<rparr>"
    using ticket_hash_binds [OF wf(1) wf_ticket_example u wf(2,2,3,3) inj eq] by blast
  show ?thesis
    by (intro exI [of _ ticket_example] exI [of _ ?u] exI [of _ ?k] conjI) (fact inj eq ne binds)+
qed

theorem ticket_sign_verify_witness:
  "\<exists>v. ticket_sign secp_toy (signature_engine secp_toy ecdsa_toy True) ticket_example keypair_toy hash_default = Some v
     \<and> ticket_verify secp_toy (signature_engine secp_toy ecdsa_toy True) (vt_ticket v)
         (chain_keypair_address keypair_toy) hash_default = Ok v"
proof -
  have z: "(0 :: u8) < 2 \<or> Q" for Q by simp
  show ?thesis
    using ticket_sign_verify [OF ecdsalib_ok_toy keypair_toy(1) refl refl engine_example z] by blast
qed

theorem ticket_verify_spec_witness:
  "ticket_verify secp_toy (signature_engine secp_toy ecdsa_toy True) ticket_example
     (chain_keypair_address keypair_toy) hash_default = Err ticket_example"
  using ticket_verify_spec [OF ecdsalib_ok_toy refl, of True ticket_example "chain_keypair_address keypair_toy" hash_default]
  by (auto simp: ticket_example_def)

end
