(* ===== verification/Ticket_Flow.thy ===== *)
theory Ticket_Flow
  imports Tickets Vrf
begin

text \<open>
  The life of a ticket in \<open>internal/tickets.rs\<close>: a verified ticket becomes unacknowledged,
  acknowledged, redeemable and transferable. The operations of these types, the check whether
  a ticket wins, the whole state machine as a step relation, and what holds in every state it
  reaches. The random bytes of the VRF derivation are an argument.
\<close>

section \<open>Winning\<close>

definition ticket_luck ::
  "'p secp \<Rightarrow> hash \<Rightarrow> chain_signature \<Rightarrow> response \<Rightarrow> 'p vrf_parameters \<Rightarrow> u64" where
  "ticket_luck L h signature response vrf_params =
     of_nat (from_be (0 # take 7 (hash_bytes (hash_create (keccak256 L)
       [hash_bytes h, drop 1 (get_v_encoded_point L vrf_params), response_bytes response,
        signature_bytes signature]))))"

definition check_ticket_win ::
  "'p secp \<Rightarrow> hash \<Rightarrow> chain_signature \<Rightarrow> winning_probability \<Rightarrow> response \<Rightarrow> 'p vrf_parameters \<Rightarrow> bool" where
  "check_ticket_win L h signature win_prob response vrf_params \<longleftrightarrow>
     ticket_luck L h signature response vrf_params \<le> wp_as_luck win_prob"

section \<open>The ticket types\<close>

record unacknowledged_ticket =
  ut_ticket :: verified_ticket
  ut_own_key :: half_key

datatype acknowledged_ticket_status = Untouched | BeingRedeemed

record acknowledged_ticket =
  at_status :: acknowledged_ticket_status
  at_ticket :: verified_ticket
  at_response :: response

record 'p redeemable_ticket =
  rt_ticket :: verified_ticket
  rt_response :: response
  rt_vrf_params :: "'p vrf_parameters"
  rt_channel_dst :: hash

record 'p transferable_ticket =
  tt_ticket :: ticket
  tt_response :: response
  tt_vrf_params :: "'p vrf_parameters"
  tt_signer :: address

fun status_from_u8 :: "u8 \<Rightarrow> acknowledged_ticket_status option" where
  "status_from_u8 n = (if n = 0 then Some Untouched else if n = 1 then Some BeingRedeemed else None)"

fun status_into_u8 :: "acknowledged_ticket_status \<Rightarrow> u8" where
  "status_into_u8 Untouched = 0"
| "status_into_u8 BeingRedeemed = 1"

definition verified_signature :: "verified_ticket \<Rightarrow> chain_signature option" where
  "verified_signature v = ticket_signature (vt_ticket v)"

definition verified_leak :: "verified_ticket \<Rightarrow> ticket" where
  "verified_leak v = vt_ticket v"

definition into_unacknowledged :: "verified_ticket \<Rightarrow> half_key \<Rightarrow> unacknowledged_ticket" where
  "into_unacknowledged v own_key = \<lparr>ut_ticket = v, ut_own_key = own_key\<rparr>"

definition into_acknowledged :: "verified_ticket \<Rightarrow> response \<Rightarrow> acknowledged_ticket" where
  "into_acknowledged v response = \<lparr>at_status = Untouched, at_ticket = v, at_response = response\<rparr>"

text \<open>A missing signature is a panic; a derivation that fails makes the ticket lose.\<close>

definition verified_is_winning ::
  "'p secp \<Rightarrow> 'p vrflib \<Rightarrow> bool \<Rightarrow> bytes \<Rightarrow> verified_ticket \<Rightarrow> response \<Rightarrow> 'p chain_keypair \<Rightarrow> hash \<Rightarrow> bool option" where
  "verified_is_winning L W rust_ecdsa rnd v response kp domain_separator =
     (case derive_vrf_parameters L W rust_ecdsa rnd (hash_bytes (vt_hash v)) kp (hash_bytes domain_separator) of
        Ok vrf_params \<Rightarrow>
          map_option (\<lambda>s. check_ticket_win L (vt_hash v) s (ticket_win_prob (vt_ticket v)) response vrf_params)
            (ticket_signature (vt_ticket v))
      | Err _ \<Rightarrow> Some False
      | Panic \<Rightarrow> None)"

definition acknowledge ::
  "'p secp \<Rightarrow> bool \<Rightarrow> unacknowledged_ticket \<Rightarrow> half_key \<Rightarrow> (acknowledged_ticket, core_types_error) res" where
  "acknowledge L rust_ecdsa u acknowledgement =
     and_then (map_err CoreCrypto (response_from_half_keys L (ut_own_key u) acknowledgement)) (\<lambda>response.
     and_then (map_err CoreCrypto (response_to_challenge L rust_ecdsa response)) (\<lambda>c.
     and_then (expect (to_ethereum_challenge L c)) (\<lambda>e.
       if ticket_challenge (vt_ticket (ut_ticket u)) = e then Ok (into_acknowledged (ut_ticket u) response)
       else Err (CoreCrypto InvalidChallenge))))"

definition acknowledged_is_winning ::
  "'p secp \<Rightarrow> 'p vrflib \<Rightarrow> bool \<Rightarrow> bytes \<Rightarrow> acknowledged_ticket \<Rightarrow> 'p chain_keypair \<Rightarrow> hash \<Rightarrow> bool option" where
  "acknowledged_is_winning L W rust_ecdsa rnd a kp domain_separator =
     verified_is_winning L W rust_ecdsa rnd (at_ticket a) (at_response a) kp domain_separator"

definition acknowledged_into_redeemable ::
  "'p secp \<Rightarrow> 'p vrflib \<Rightarrow> bool \<Rightarrow> bytes \<Rightarrow> acknowledged_ticket \<Rightarrow> 'p chain_keypair \<Rightarrow> hash
    \<Rightarrow> ('p redeemable_ticket, core_types_error) res" where
  "acknowledged_into_redeemable L W rust_ecdsa rnd a kp domain_separator =
     (if public_key_to_address (ckp_public kp) = vt_issuer (at_ticket a) then Err LoopbackTicket
      else
        and_then (map_err CoreCrypto (derive_vrf_parameters L W rust_ecdsa rnd
          (hash_bytes (vt_hash (at_ticket a))) kp (hash_bytes domain_separator))) (\<lambda>vrf_params.
        and_then (expect (verified_signature (at_ticket a))) (\<lambda>s.
          if \<not> check_ticket_win L (vt_hash (at_ticket a)) s (ticket_win_prob (vt_ticket (at_ticket a)))
                (at_response a) vrf_params
          then Err TicketNotWinning
          else Ok \<lparr>rt_ticket = at_ticket a, rt_response = at_response a, rt_vrf_params = vrf_params,
                   rt_channel_dst = domain_separator\<rparr>)))"

definition redeemable_into_acknowledged :: "'p redeemable_ticket \<Rightarrow> acknowledged_ticket" where
  "redeemable_into_acknowledged r =
     \<lparr>at_status = Untouched, at_ticket = rt_ticket r, at_response = rt_response r\<rparr>"

definition transferable_from :: "'p redeemable_ticket \<Rightarrow> 'p transferable_ticket" where
  "transferable_from r = \<lparr>tt_ticket = verified_leak (rt_ticket r), tt_response = rt_response r,
     tt_vrf_params = rt_vrf_params r, tt_signer = vt_issuer (rt_ticket r)\<rparr>"

definition acknowledged_into_transferable ::
  "'p secp \<Rightarrow> 'p vrflib \<Rightarrow> bool \<Rightarrow> bytes \<Rightarrow> acknowledged_ticket \<Rightarrow> 'p chain_keypair \<Rightarrow> hash
    \<Rightarrow> ('p transferable_ticket, core_types_error) res" where
  "acknowledged_into_transferable L W rust_ecdsa rnd a kp domain_separator =
     map_ok transferable_from (acknowledged_into_redeemable L W rust_ecdsa rnd a kp domain_separator)"

definition transferable_into_redeemable ::
  "'p secp \<Rightarrow> 'p ecdsa_engine \<Rightarrow> 'p transferable_ticket \<Rightarrow> address \<Rightarrow> hash
    \<Rightarrow> ('p redeemable_ticket, core_types_error) res" where
  "transferable_into_redeemable L E t expected_issuer domain_separator =
     (if tt_signer t \<noteq> expected_issuer then Err (InvalidInputData ''invalid ticket issuer'')
      else
        and_then (map_err (\<lambda>_. CoreCrypto SignatureVerification)
          (ticket_verify L E (tt_ticket t) (tt_signer t) domain_separator)) (\<lambda>v.
        and_then (expect (verified_signature v)) (\<lambda>s.
          if check_ticket_win L (vt_hash v) s (ticket_win_prob (vt_ticket v)) (tt_response t) (tt_vrf_params t)
          then Ok \<lparr>rt_ticket = v, rt_response = tt_response t, rt_vrf_params = tt_vrf_params t,
                   rt_channel_dst = domain_separator\<rparr>
          else Err (InvalidInputData ''ticket is not a win''))))"

text \<open>The comparisons written by hand leave out the VRF parameters.\<close>

definition redeemable_eq :: "'p redeemable_ticket \<Rightarrow> 'p redeemable_ticket \<Rightarrow> bool" where
  "redeemable_eq a b \<longleftrightarrow> rt_ticket a = rt_ticket b \<and> rt_channel_dst a = rt_channel_dst b
     \<and> rt_response a = rt_response b"

definition transferable_eq :: "'p transferable_ticket \<Rightarrow> 'p transferable_ticket \<Rightarrow> bool" where
  "transferable_eq a b \<longleftrightarrow> tt_ticket a = tt_ticket b \<and> tt_signer a = tt_signer b
     \<and> tt_response a = tt_response b"

definition redeemable_ticket_id :: "'p redeemable_ticket \<Rightarrow> ticket_id" where
  "redeemable_ticket_id r = ticket_id_of (rt_ticket r)"

definition acknowledged_cmp :: "acknowledged_ticket \<Rightarrow> acknowledged_ticket \<Rightarrow> ordering" where
  "acknowledged_cmp a b = verified_ticket_cmp (at_ticket a) (at_ticket b)"

definition redeemable_cmp :: "'p redeemable_ticket \<Rightarrow> 'p redeemable_ticket \<Rightarrow> ordering" where
  "redeemable_cmp a b = verified_ticket_cmp (rt_ticket a) (rt_ticket b)"

section \<open>Luck and probability\<close>

lemma ticket_luck_less: "secp_ok L \<Longrightarrow> unat (ticket_luck L h s r v) < 2 ^ 56"
proof -
  let ?bs = "take 7 (hash_bytes (hash_create (keccak256 L)
       [hash_bytes h, drop 1 (get_v_encoded_point L v), response_bytes r, signature_bytes s]))"
  assume "secp_ok L"
  then have "length ?bs = 7" by (simp add: hash_create_def secp_okD(11))
  then have less: "from_be ?bs < 2 ^ 56" using from_be_less [of ?bs] by simp
  have "unat (of_nat (from_be ?bs) :: u64) = from_be ?bs" by (rule unat_of_nat_less) (use less in simp)
  with less show ?thesis by (simp only: ticket_luck_def from_be_zero_Cons)
qed

lemma check_ticket_win_unat:
  "wf_wp w \<Longrightarrow> check_ticket_win L h s w r v \<longleftrightarrow> unat (ticket_luck L h s r v) \<le> from_be (wp_bytes w)"
  by (simp add: check_ticket_win_def word_le_nat_alt wp_as_luck_unat)

lemma check_ticket_win_vrf_V:
  "vrf_V v = vrf_V v' \<Longrightarrow> check_ticket_win L h s w r v \<longleftrightarrow> check_ticket_win L h s w r v'"
  by (simp add: check_ticket_win_def ticket_luck_def get_v_encoded_point_def)

lemma card_lucks: "card {l. l \<le> (n :: nat)} = n + 1" by simp


section \<open>Acknowledging\<close>

text \<open>C5. Proof of relay on a ticket: the ticket is acknowledged exactly when the challenge that the
  own half-key and the acknowledgement add up to on the curve is the one in the ticket; the
  acknowledged ticket carries the sum of the two half-keys as its response.\<close>

theorem acknowledge_proof_of_relay:
  assumes "secp_ok L"
  shows "acknowledge L f u k = Ok a \<longleftrightarrow>
    (\<exists>c. and_then (half_key_to_challenge L f (ut_own_key u))
            (\<lambda>h. challenge_from_own_share_and_half_key L f h k) = Ok c
        \<and> to_ethereum_challenge L c = Some (ticket_challenge (vt_ticket (ut_ticket u))))
    \<and> response_from_half_keys L (ut_own_key u) k = Ok (at_response a)
    \<and> at_ticket a = ut_ticket u \<and> at_status a = Untouched"
proof -
  have e: "expect x = Ok y \<longleftrightarrow> x = Some y" for x and y :: ethereum_challenge by (cases x) simp_all
  have "acknowledge L f u k = Ok a \<longleftrightarrow>
    (\<exists>r c. response_from_half_keys L (ut_own_key u) k = Ok r \<and> response_to_challenge L f r = Ok c
        \<and> to_ethereum_challenge L c = Some (ticket_challenge (vt_ticket (ut_ticket u)))
        \<and> a = into_acknowledged (ut_ticket u) r)"
    by (auto simp: acknowledge_def e split: if_splits)
  also have "\<dots> \<longleftrightarrow> (\<exists>c. (\<exists>r. response_from_half_keys L (ut_own_key u) k = Ok r \<and> response_to_challenge L f r = Ok c)
        \<and> to_ethereum_challenge L c = Some (ticket_challenge (vt_ticket (ut_ticket u))))
    \<and> response_from_half_keys L (ut_own_key u) k = Ok (at_response a)
    \<and> at_ticket a = ut_ticket u \<and> at_status a = Untouched"
    by (cases a) (auto simp: into_acknowledged_def)
  finally show ?thesis unfolding half_keys_combined [OF assms, of f "ut_own_key u" k _ f] .
qed

lemma privkey_no_panic: "secp_ok L \<Longrightarrow> public_key_from_privkey L f bs \<noteq> Panic"
proof -
  assume L: "secp_ok L"
  have np: "expect (public_key_from L q) \<noteq> (Panic :: (_, crypto_error) res)" if "q \<noteq> secp_identity L" for q
    using public_key_from_ok [OF L that] by (metis expect_simps(2) res.distinct(3))
  have nz: "secp_base_mul L v \<noteq> secp_identity L" if "0 < v" "v < secp_order L" for v
    using that secp_okD(5) [OF L] by simp
  show ?thesis
    unfolding public_key_from_privkey_def
    by (auto simp: and_then_eq_Panic non_zero_scalar_Some [OF L] affine_point_from_bytes_def np nz)
qed

lemma acknowledge_total: "secp_ok L \<Longrightarrow> acknowledge L f u k \<noteq> Panic"
proof -
  assume L: "secp_ok L"
  have eth: "\<exists>e. to_ethereum_challenge L c = Some e" for c
    using address_of_point [OF L, of "challenge_point c"] by (auto simp: to_ethereum_challenge_def)
  have "response_to_challenge L f r \<noteq> Panic" for r
    by (cases "public_key_from_privkey L f (response_bytes r)")
      (auto simp: response_to_challenge_def privkey_no_panic [OF L])
  then show ?thesis
    by (auto simp: acknowledge_def and_then_eq_Panic expect_def response_from_half_keys_def Let_def
        split: option.splits if_splits) (metis eth option.distinct(1))
qed

section \<open>Redeeming\<close>

lemma into_redeemable_Ok:
  "acknowledged_into_redeemable L W f rnd a kp dst = Ok r \<longleftrightarrow>
     chain_keypair_address kp \<noteq> vt_issuer (at_ticket a)
   \<and> rt_ticket r = at_ticket a \<and> rt_response r = at_response a \<and> rt_channel_dst r = dst
   \<and> derive_vrf_parameters L W f rnd (hash_bytes (vt_hash (at_ticket a))) kp (hash_bytes dst) = Ok (rt_vrf_params r)
   \<and> (\<exists>s. ticket_signature (vt_ticket (at_ticket a)) = Some s
        \<and> check_ticket_win L (vt_hash (at_ticket a)) s (ticket_win_prob (vt_ticket (at_ticket a)))
            (at_response a) (rt_vrf_params r))"
  by (cases r; cases "ticket_signature (vt_ticket (at_ticket a))")
    (auto simp: acknowledged_into_redeemable_def verified_signature_def chain_keypair_address_def)

lemma is_winning_True:
  "verified_is_winning L W f rnd v response kp dst = Some True \<longleftrightarrow>
     (\<exists>p s. derive_vrf_parameters L W f rnd (hash_bytes (vt_hash v)) kp (hash_bytes dst) = Ok p
        \<and> ticket_signature (vt_ticket v) = Some s
        \<and> check_ticket_win L (vt_hash v) s (ticket_win_prob (vt_ticket v)) response p)"
  by (auto simp: verified_is_winning_def split: res.splits)

text \<open>C4. Redemption: an acknowledged ticket becomes redeemable exactly when the key pair is not the
  issuer's and \<open>is_winning\<close> holds; the redeemable ticket keeps ticket, response and domain
  separator, and its VRF parameters verify for the recipient's address, name the recipient's
  public key, and make the ticket win.\<close>

theorem redeemable_iff_winning:
  assumes "vrflib_ok L W" "wf_chain_keypair L kp"
  shows "((\<exists>r. acknowledged_into_redeemable L W f rnd a kp dst = Ok r) \<longleftrightarrow>
      chain_keypair_address kp \<noteq> vt_issuer (at_ticket a)
      \<and> acknowledged_is_winning L W f rnd a kp dst = Some True)
    \<and> (acknowledged_into_redeemable L W f rnd a kp dst = Ok r \<longrightarrow>
        rt_ticket r = at_ticket a \<and> rt_response r = at_response a \<and> rt_channel_dst r = dst
        \<and> vrf_verify L W (rt_vrf_params r) (chain_keypair_address kp) (hash_bytes (vt_hash (at_ticket a)))
            (hash_bytes dst) = Ok ()
        \<and> vrf_A (rt_vrf_params r) = pk_point (ckp_public kp)
        \<and> (\<exists>s. ticket_signature (vt_ticket (rt_ticket r)) = Some s
            \<and> check_ticket_win L (vt_hash (rt_ticket r)) s (ticket_win_prob (vt_ticket (rt_ticket r)))
                (rt_response r) (rt_vrf_params r)))"
proof
  show "(\<exists>r. acknowledged_into_redeemable L W f rnd a kp dst = Ok r) \<longleftrightarrow>
      chain_keypair_address kp \<noteq> vt_issuer (at_ticket a)
      \<and> acknowledged_is_winning L W f rnd a kp dst = Some True"
    unfolding into_redeemable_Ok acknowledged_is_winning_def is_winning_True
    by (metis redeemable_ticket.select_convs)
  show "acknowledged_into_redeemable L W f rnd a kp dst = Ok r \<longrightarrow>
        rt_ticket r = at_ticket a \<and> rt_response r = at_response a \<and> rt_channel_dst r = dst
        \<and> vrf_verify L W (rt_vrf_params r) (chain_keypair_address kp) (hash_bytes (vt_hash (at_ticket a)))
            (hash_bytes dst) = Ok ()
        \<and> vrf_A (rt_vrf_params r) = pk_point (ckp_public kp)
        \<and> (\<exists>s. ticket_signature (vt_ticket (rt_ticket r)) = Some s
            \<and> check_ticket_win L (vt_hash (rt_ticket r)) s (ticket_win_prob (vt_ticket (rt_ticket r)))
                (rt_response r) (rt_vrf_params r))"
    using derive_vrf_verifies [OF assms] by (auto simp: into_redeemable_Ok)
qed

text \<open>The three errors of \<open>into_redeemable\<close>, in the order of the code.\<close>

lemma into_redeemable_errors:
  "chain_keypair_address kp = vt_issuer (at_ticket a) \<Longrightarrow>
     acknowledged_into_redeemable L W f rnd a kp dst = Err LoopbackTicket"
  "chain_keypair_address kp \<noteq> vt_issuer (at_ticket a) \<Longrightarrow>
     derive_vrf_parameters L W f rnd (hash_bytes (vt_hash (at_ticket a))) kp (hash_bytes dst) = Err e \<Longrightarrow>
     acknowledged_into_redeemable L W f rnd a kp dst = Err (CoreCrypto e)"
  "chain_keypair_address kp \<noteq> vt_issuer (at_ticket a) \<Longrightarrow> acknowledged_is_winning L W f rnd a kp dst = Some False \<Longrightarrow>
     derive_vrf_parameters L W f rnd (hash_bytes (vt_hash (at_ticket a))) kp (hash_bytes dst) = Ok p \<Longrightarrow>
     acknowledged_into_redeemable L W f rnd a kp dst = Err TicketNotWinning"
  by (auto simp: acknowledged_into_redeemable_def chain_keypair_address_def acknowledged_is_winning_def
      verified_is_winning_def verified_signature_def)

section \<open>Transferring\<close>

definition winning :: "'p secp \<Rightarrow> 'p redeemable_ticket \<Rightarrow> bool" where
  "winning L r \<longleftrightarrow> (\<exists>s. ticket_signature (vt_ticket (rt_ticket r)) = Some s
     \<and> check_ticket_win L (vt_hash (rt_ticket r)) s (ticket_win_prob (vt_ticket (rt_ticket r)))
         (rt_response r) (rt_vrf_params r))"

lemma into_redeemable_winning:
  "acknowledged_into_redeemable L W f rnd a kp dst = Ok r \<Longrightarrow> winning L r"
  by (auto simp: into_redeemable_Ok winning_def)

lemma transferable_into_redeemable_Ok:
  "transferable_into_redeemable L E t issuer dst = Ok r \<longleftrightarrow>
     tt_signer t = issuer \<and> ticket_verify L E (tt_ticket t) issuer dst = Ok (rt_ticket r)
   \<and> rt_response r = tt_response t \<and> rt_vrf_params r = tt_vrf_params t \<and> rt_channel_dst r = dst \<and> winning L r"
proof (cases "ticket_verify L E (tt_ticket t) issuer dst")
  case (Ok v)
  then show ?thesis
    by (cases r; cases "ticket_signature (vt_ticket v)")
      (auto simp: transferable_into_redeemable_def verified_signature_def winning_def)
qed (auto simp: transferable_into_redeemable_def)

text \<open>C11. Transfer of a winning ticket: what a node made redeemable and sent on is redeemable at the
  receiver, unchanged, exactly if the receiver expects the ticket's issuer; for another issuer it
  is refused. Turned back into an acknowledged ticket, it becomes redeemable again with any
  random bytes for which the derivation succeeds, equal up to the VRF parameters.\<close>

theorem transfer_roundtrip:
  assumes "vrflib_ok L W" "wf_chain_keypair L kp"
    and red: "acknowledged_into_redeemable L W f rnd a kp dst = Ok r"
    and authentic: "ticket_verify L E (vt_ticket (at_ticket a)) (vt_issuer (at_ticket a)) dst = Ok (at_ticket a)"
  shows "transferable_into_redeemable L E (transferable_from r) issuer dst =
      (if issuer = vt_issuer (at_ticket a) then Ok r else Err (InvalidInputData ''invalid ticket issuer''))
    \<and> (derive_vrf_parameters L W f' rnd' (hash_bytes (vt_hash (at_ticket a))) kp (hash_bytes dst) = Ok p \<longrightarrow>
        (\<exists>r'. acknowledged_into_redeemable L W f' rnd' (redeemable_into_acknowledged r) kp dst = Ok r'
          \<and> redeemable_eq r' r \<and> vrf_V (rt_vrf_params r') = vrf_V (rt_vrf_params r)))"
proof (intro conjI impI)
  note r = red [unfolded into_redeemable_Ok]
  have win: "winning L r" using red by (rule into_redeemable_winning)
  have "transferable_into_redeemable L E (transferable_from r) (vt_issuer (at_ticket a)) dst = Ok r"
    unfolding transferable_into_redeemable_Ok
    using r authentic win by (simp add: transferable_from_def verified_leak_def)
  moreover have "transferable_into_redeemable L E (transferable_from r) issuer dst
      = Err (InvalidInputData ''invalid ticket issuer'')" if "issuer \<noteq> vt_issuer (at_ticket a)"
    using that r by (simp add: transferable_into_redeemable_def transferable_from_def)
  ultimately show "transferable_into_redeemable L E (transferable_from r) issuer dst =
      (if issuer = vt_issuer (at_ticket a) then Ok r else Err (InvalidInputData ''invalid ticket issuer''))"
    by simp
  assume p: "derive_vrf_parameters L W f' rnd' (hash_bytes (vt_hash (at_ticket a))) kp (hash_bytes dst) = Ok p"
  have V: "vrf_V p = vrf_V (rt_vrf_params r)"
    by (rule derive_vrf_same_V [OF assms(1,2) _ p]) (use r in blast)
  let ?r = "r\<lparr>rt_vrf_params := p\<rparr>"
  have "acknowledged_into_redeemable L W f' rnd' (redeemable_into_acknowledged r) kp dst = Ok ?r"
    unfolding into_redeemable_Ok
    using r p check_ticket_win_vrf_V [OF V] by (auto simp: redeemable_into_acknowledged_def)
  then show "\<exists>r'. acknowledged_into_redeemable L W f' rnd' (redeemable_into_acknowledged r) kp dst = Ok r'
      \<and> redeemable_eq r' r \<and> vrf_V (rt_vrf_params r') = vrf_V (rt_vrf_params r)"
    using V by (intro exI [of _ ?r]) (simp add: redeemable_eq_def)
qed

section \<open>The state machine\<close>

datatype 'p ticket_state =
    Raw ticket
  | Verified verified_ticket
  | Unacknowledged unacknowledged_ticket
  | Acknowledged acknowledged_ticket
  | Redeemable "'p redeemable_ticket"
  | Transferable "'p transferable_ticket"

inductive ticket_step ::
  "'p secp \<Rightarrow> 'p ecdsa_engine \<Rightarrow> 'p vrflib \<Rightarrow> bool \<Rightarrow> 'p ticket_state \<Rightarrow> 'p ticket_state \<Rightarrow> bool"
  for L :: "'p secp" and E :: "'p ecdsa_engine" and W :: "'p vrflib" and f :: bool where
  verify: "ticket_verify L E t issuer dst = Ok v \<Longrightarrow> ticket_step L E W f (Raw t) (Verified v)"
| sign: "wf_chain_keypair L kp \<Longrightarrow> ticket_sign L E t kp dst = Some v \<Longrightarrow> ticket_step L E W f (Raw t) (Verified v)"
| leak: "ticket_step L E W f (Verified v) (Raw (verified_leak v))"
| unacknowledge: "ticket_step L E W f (Verified v) (Unacknowledged (into_unacknowledged v own_key))"
| accept: "ticket_step L E W f (Verified v) (Acknowledged (into_acknowledged v response))"
| ack: "acknowledge L f u k = Ok a \<Longrightarrow> ticket_step L E W f (Unacknowledged u) (Acknowledged a)"
| redeem: "acknowledged_into_redeemable L W f rnd a kp dst = Ok r \<Longrightarrow>
    ticket_step L E W f (Acknowledged a) (Redeemable r)"
| send: "acknowledged_into_transferable L W f rnd a kp dst = Ok t \<Longrightarrow>
    ticket_step L E W f (Acknowledged a) (Transferable t)"
| send_redeemable: "ticket_step L E W f (Redeemable r) (Transferable (transferable_from r))"
| receive: "transferable_into_redeemable L E t issuer dst = Ok r \<Longrightarrow>
    ticket_step L E W f (Transferable t) (Redeemable r)"
| restart: "ticket_step L E W f (Redeemable r) (Acknowledged (redeemable_into_acknowledged r))"

inductive_cases ticket_step_RawE: "ticket_step L E W f (Raw t) s"
inductive_cases ticket_step_VerifiedE: "ticket_step L E W f (Verified v) s"
inductive_cases ticket_step_UnacknowledgedE: "ticket_step L E W f (Unacknowledged u) s"
inductive_simps ticket_step_to_Redeemable: "ticket_step L E W f s (Redeemable r)"

fun state_ticket :: "'p ticket_state \<Rightarrow> ticket" where
  "state_ticket (Raw t) = t"
| "state_ticket (Verified v) = vt_ticket v"
| "state_ticket (Unacknowledged u) = vt_ticket (ut_ticket u)"
| "state_ticket (Acknowledged a) = vt_ticket (at_ticket a)"
| "state_ticket (Redeemable r) = vt_ticket (rt_ticket r)"
| "state_ticket (Transferable t) = tt_ticket t"

text \<open>
  What a verified ticket stands for: its hash is the hash of its ticket for its issuer and some
  domain separator, its channel id is that of the issuer and the counterparty, and its signature
  recovers the issuer from that hash or was made by a key pair with the issuer's address.
\<close>

definition authentic :: "'p secp \<Rightarrow> 'p ecdsa_engine \<Rightarrow> verified_ticket \<Rightarrow> bool" where
  "authentic L E v \<longleftrightarrow> (\<exists>s dst. ticket_signature (vt_ticket v) = Some s
     \<and> ticket_get_hash (keccak256 L) (vt_ticket v) (vt_issuer v) dst = (vt_channel_id v, vt_hash v)
     \<and> ((\<exists>pk. signature_recover_from_hash E s (vt_hash v) = Ok pk \<and> public_key_to_address pk = vt_issuer v)
       \<or> (\<exists>kp. wf_chain_keypair L kp \<and> chain_keypair_address kp = vt_issuer v
            \<and> signature_sign_hash E (vt_hash v) kp = Some s)))"

fun state_ok :: "'p secp \<Rightarrow> 'p ecdsa_engine \<Rightarrow> 'p ticket_state \<Rightarrow> bool" where
  "state_ok L E (Raw t) \<longleftrightarrow> True"
| "state_ok L E (Verified v) \<longleftrightarrow> authentic L E v"
| "state_ok L E (Unacknowledged u) \<longleftrightarrow> authentic L E (ut_ticket u)"
| "state_ok L E (Acknowledged a) \<longleftrightarrow> authentic L E (at_ticket a)"
| "state_ok L E (Redeemable r) \<longleftrightarrow> authentic L E (rt_ticket r) \<and> winning L r"
| "state_ok L E (Transferable t) \<longleftrightarrow> True"

text \<open>A ticket enters as a received ticket, one of the own node, or a transferred winning ticket.\<close>

definition state_initial :: "'p ticket_state \<Rightarrow> bool" where
  "state_initial s \<longleftrightarrow> (\<exists>t. s = Raw t) \<or> (\<exists>t. s = Transferable t)"

lemma verify_authentic: "ticket_verify L E t issuer dst = Ok v \<Longrightarrow> authentic L E v \<and> vt_ticket v = t"
  by (auto simp: ticket_verify_Ok authentic_def ticket_get_hash_eq)

lemma sign_authentic:
  "wf_chain_keypair L kp \<Longrightarrow> ticket_sign L E t kp dst = Some v \<Longrightarrow>
     authentic L E v \<and> (vt_ticket v)\<lparr>ticket_signature := None\<rparr> = t\<lparr>ticket_signature := None\<rparr>"
  by (auto simp: ticket_sign_def authentic_def chain_keypair_address_def split: prod.splits)

lemma acknowledge_ticket: "acknowledge L f u k = Ok a \<Longrightarrow> at_ticket a = ut_ticket u"
  by (auto simp: acknowledge_def into_acknowledged_def split: if_splits)

lemma ticket_step_ok: "ticket_step L E W f s s' \<Longrightarrow> state_ok L E s \<Longrightarrow> state_ok L E s'"
proof (induction rule: ticket_step.induct)
  case (receive t issuer dst r)
  then show ?case by (auto simp: transferable_into_redeemable_Ok dest: verify_authentic)
qed (auto simp: verify_authentic sign_authentic into_unacknowledged_def into_acknowledged_def
    acknowledge_ticket into_redeemable_Ok into_redeemable_winning redeemable_into_acknowledged_def winning_def)

lemma ticket_step_ticket:
  "ticket_step L E W f s s' \<Longrightarrow>
     (state_ticket s')\<lparr>ticket_signature := None\<rparr> = (state_ticket s)\<lparr>ticket_signature := None\<rparr>"
proof (induction rule: ticket_step.induct)
  case (receive t issuer dst r)
  then show ?case using verify_authentic by (fastforce simp: transferable_into_redeemable_Ok)
qed (auto simp: verify_authentic sign_authentic into_unacknowledged_def into_acknowledged_def verified_leak_def
    acknowledge_ticket into_redeemable_Ok acknowledged_into_transferable_def transferable_from_def
    redeemable_into_acknowledged_def)

text \<open>C1. The ticket state machine: whatever steps a ticket takes, from being received or created or
  transferred, its data never changes (only the signature may, by signing again); every verified,
  unacknowledged, acknowledged or redeemable ticket on the way is authentic (its hash and channel
  id are those of its data, its signature is the issuer's), and every redeemable one wins with
  its response and VRF parameters.\<close>

theorem ticket_flow_safety:
  assumes "state_initial s" "(ticket_step L E W f)\<^sup>*\<^sup>* s s'"
  shows "state_ok L E s' \<and> (state_ticket s')\<lparr>ticket_signature := None\<rparr> = (state_ticket s)\<lparr>ticket_signature := None\<rparr>"
  using assms(2)
proof (induction rule: rtranclp_induct)
  case base
  then show ?case using assms(1) by (auto simp: state_initial_def)
next
  case (step s1 s2)
  then show ?case using ticket_step_ok ticket_step_ticket by metis
qed

section \<open>A concrete flow\<close>

lemma keypair_example:
  assumes "0 < n" "n < 2 ^ 32"
  shows "\<exists>kp. wf_chain_keypair secp_toy kp \<and> secret_bytes (ckp_secret kp) = to_be 32 n
    \<and> chain_keypair_address kp = Address (to_be 20 n)"
proof -
  have v: "from_be (to_be 32 n) = n" by (rule from_be_to_be_id) (rule less_trans [OF assms(2)], simp)
  obtain pk where pk: "public_key_from_privkey secp_toy True (to_be 32 n) = Ok pk" "wf_public_key secp_toy pk"
    "pk_point pk = secp_base_mul secp_toy (from_be (to_be 32 n))"
    by (rule privkey_exists [OF secp_ok_toy, of "to_be 32 n" True]) (use assms in \<open>simp_all add: v secp_toy_def\<close>)
  have kp: "chain_keypair_from_secret secp_toy True (to_be 32 n) = Ok (ChainKeypair (SecretValue (to_be 32 n)) pk)"
    using pk(1) by (simp add: chain_keypair_from_secret_def)
  have u: "unat (of_nat n :: u32) = n" using assms(2) by (intro unat_of_nat_less) simp
  have nz: "(of_nat n :: u32) \<noteq> 0" using u assms(1) by (metis less_numeral_extra(3) unsigned_0)
  have e: "from_be (to_be 64 n) = n" by (rule from_be_to_be_id) (rule less_trans [OF assms(2)], simp)
  have d: "drop 12 (to_be 32 n) = to_be 20 n" using drop_to_be [of 20 32 n] by simp
  have "affine_point_to_address secp_toy (of_nat n) = Some (Address (to_be 20 n))"
    by (simp add: affine_point_to_address_def hash_create_def secp_toy_def std_uncompressed_def nz u e d address_new_def
        ADDRESS_SIZE_def)
  then have "pk_address pk = Address (to_be 20 n)"
    using pk(2,3) v wf_public_keyD [OF pk(2)] by (simp add: secp_toy_def)
  then have "chain_keypair_address (ChainKeypair (SecretValue (to_be 32 n)) pk) = Address (to_be 20 n)"
    by (simp add: chain_keypair_address_def public_key_to_address_def)
  moreover have "wf_chain_keypair secp_toy (ChainKeypair (SecretValue (to_be 32 n)) pk)"
    using kp by (auto simp: wf_chain_keypair_def)
  ultimately show ?thesis by (intro exI [of _ "ChainKeypair (SecretValue (to_be 32 n)) pk"]) simp
qed

lemma derive_example:
  "wf_chain_keypair secp_toy kp \<Longrightarrow> \<exists>p. derive_vrf_parameters secp_toy vrf_toy True rnd msg kp dst = Ok p"
  by (simp add: derive_vrf_parameters_def derive_vrf_k256_def Let_def
      chain_keypair_scalar_ok [OF secp_ok_toy]) (simp add: vrf_toy_def)

lemma always_wins: "secp_ok L \<Longrightarrow> check_ticket_win L h s WP_ALWAYS r v"
proof -
  assume "secp_ok L"
  note less = ticket_luck_less [OF this, of h s r v]
  have "from_be (wp_bytes WP_ALWAYS) = 2 ^ 56 - 1" using luck_ALWAYS [of WP_ALWAYS] by simp
  then show ?thesis using less by (simp add: check_ticket_win_unat)
qed

text \<open>A ticket signed by the key pair of 3 and redeemed by the key pair of 5.\<close>

lemma flow_example_for:
  assumes "wf_ticket t" "encoded_win_prob t = replicate 7 0xff"
  shows "\<exists>kp v r. wf_chain_keypair secp_toy kp \<and> secret_bytes (ckp_secret kp) = to_be 32 5
     \<and> chain_keypair_address kp = Address (to_be 20 5) \<and> vt_issuer v = Address (to_be 20 3)
     \<and> chain_keypair_address kp \<noteq> vt_issuer v
     \<and> (vt_ticket v)\<lparr>ticket_signature := None\<rparr> = t\<lparr>ticket_signature := None\<rparr> \<and> signed_ticket (vt_ticket v)
     \<and> ticket_verify secp_toy (signature_engine secp_toy ecdsa_toy True) (vt_ticket v) (vt_issuer v) hash_default = Ok v
     \<and> acknowledged_into_redeemable secp_toy vrf_toy True [] (into_acknowledged v response) kp hash_default = Ok r"
proof -
  let ?E = "signature_engine secp_toy ecdsa_toy True"
  obtain kp where kp: "wf_chain_keypair secp_toy kp" "chain_keypair_address kp = Address (to_be 20 5)"
    "secret_bytes (ckp_secret kp) = to_be 32 5"
    using keypair_example [of 5] by auto
  obtain ip where ip: "wf_chain_keypair secp_toy ip" "chain_keypair_address ip = Address (to_be 20 3)"
    "secret_bytes (ckp_secret ip) = to_be 32 3"
    using keypair_example [of 3] by auto
  have e: "engine_sign ?E h ip = Ok (to_be 64 (from_be (to_be 32 3)), 0)" for h
    by (simp add: signature_engine_def k256_engine_def ecdsa_toy_def ip(3))
  have z: "(0 :: u8) < 2 \<or> Q" for Q by simp
  obtain v where v: "(vt_ticket v)\<lparr>ticket_signature := None\<rparr> = t\<lparr>ticket_signature := None\<rparr>"
      "vt_issuer v = chain_keypair_address ip" "signed_ticket (vt_ticket v)"
      "ticket_verify secp_toy ?E (vt_ticket v) (chain_keypair_address ip) hash_default = Ok v"
    using ticket_signed_verifies [OF ecdsalib_ok_toy ip(1) refl refl e z, of t hash_default] assms(1) by blast
  obtain p where p: "derive_vrf_parameters secp_toy vrf_toy True [] (hash_bytes (vt_hash v)) kp (hash_bytes hash_default) = Ok p"
    using derive_example [OF kp(1)] by blast
  have "encoded_win_prob ((vt_ticket v)\<lparr>ticket_signature := None\<rparr>) = replicate 7 0xff"
    unfolding v(1) using assms(2) by simp
  then have w: "ticket_win_prob (vt_ticket v) = WP_ALWAYS"
    by (simp add: ticket_win_prob_def WP_ALWAYS_def ENCODED_WIN_PROB_LENGTH_def)
  have ne: "to_be 20 5 \<noteq> to_be 20 3"
  proof
    assume "to_be 20 5 = to_be 20 3"
    then have "from_be (to_be 20 5) = from_be (to_be 20 3)" by simp
    then show False by (simp add: from_be_to_be_id del: to_be.simps)
  qed
  obtain s where s: "ticket_signature (vt_ticket v) = Some s" using v(3) by (auto simp: signed_ticket_def)
  have "acknowledged_into_redeemable secp_toy vrf_toy True [] (into_acknowledged v response) kp hash_default
      = Ok \<lparr>rt_ticket = v, rt_response = response, rt_vrf_params = p, rt_channel_dst = hash_default\<rparr>"
    unfolding into_redeemable_Ok
    using p w s ne v(2) kp(2) ip(2) always_wins [OF secp_ok_toy] by (simp add: into_acknowledged_def)
  then show ?thesis using kp v ip(2) ne by (intro exI [of _ kp] exI [of _ v] exI conjI) simp_all
qed

lemma flow_example:
  "\<exists>kp v r. wf_chain_keypair secp_toy kp \<and> chain_keypair_address kp \<noteq> vt_issuer v
     \<and> ticket_verify secp_toy (signature_engine secp_toy ecdsa_toy True) (vt_ticket v) (vt_issuer v) hash_default = Ok v
     \<and> acknowledged_into_redeemable secp_toy vrf_toy True [] (into_acknowledged v (Response [])) kp hash_default = Ok r"
proof -
  have "encoded_win_prob ticket_example = replicate 7 0xff" by (simp add: ticket_example_def)
  from flow_example_for [OF wf_ticket_example this, of "Response []"] show ?thesis by blast
qed


theorem acknowledge_proof_of_relay_witness:
  "\<exists>u a. acknowledge secp_toy True u (HalfKey (to_be 32 3)) = Ok a \<and> ut_own_key u = HalfKey (to_be 32 2)"
proof -
  obtain r where r: "response_from_half_keys secp_toy (HalfKey (to_be 32 2)) (HalfKey (to_be 32 3)) = Ok r"
    "response_to_challenge secp_toy True r = Ok (Challenge 5)"
    using por_example by blast
  obtain b where "affine_point_to_address secp_toy 5 = Some b"
    by (rule address_of_point [OF secp_ok_toy, of 5])
  then obtain e where e: "to_ethereum_challenge secp_toy (Challenge 5) = Some e"
    by (simp add: to_ethereum_challenge_def)
  let ?v = "\<lparr>vt_ticket = ticket_example\<lparr>ticket_challenge := e\<rparr>, vt_hash = hash_default,
    vt_issuer = Address [], vt_channel_id = hash_default\<rparr>"
  let ?u = "into_unacknowledged ?v (HalfKey (to_be 32 2))"
  have "acknowledge secp_toy True ?u (HalfKey (to_be 32 3)) = Ok (into_acknowledged ?v r)"
    unfolding acknowledge_proof_of_relay [OF secp_ok_toy] half_keys_combined [OF secp_ok_toy, of True _ _ _ True]
    using r e by (auto simp: into_unacknowledged_def into_acknowledged_def)
  moreover have "ut_own_key ?u = HalfKey (to_be 32 2)"
    unfolding into_unacknowledged_def by (rule unacknowledged_ticket.select_convs)
  ultimately show ?thesis by blast
qed

theorem redeemable_iff_winning_witness:
  "\<exists>kp a r. acknowledged_into_redeemable secp_toy vrf_toy True [] a kp hash_default = Ok r
     \<and> acknowledged_is_winning secp_toy vrf_toy True [] a kp hash_default = Some True"
  using flow_example redeemable_iff_winning [OF vrflib_ok_toy] by blast

theorem transfer_roundtrip_witness:
  "\<exists>kp a r. acknowledged_into_redeemable secp_toy vrf_toy True [] a kp hash_default = Ok r
     \<and> transferable_into_redeemable secp_toy (signature_engine secp_toy ecdsa_toy True) (transferable_from r)
         (vt_issuer (at_ticket a)) hash_default = Ok r"
proof -
  obtain kp v r where e: "wf_chain_keypair secp_toy kp"
    "ticket_verify secp_toy (signature_engine secp_toy ecdsa_toy True) (vt_ticket v) (vt_issuer v) hash_default = Ok v"
    "acknowledged_into_redeemable secp_toy vrf_toy True [] (into_acknowledged v (Response [])) kp hash_default = Ok r"
    using flow_example by blast
  have a: "at_ticket (into_acknowledged v (Response [])) = v" by (simp add: into_acknowledged_def)
  show ?thesis
    using transfer_roundtrip [OF vrflib_ok_toy e(1) e(3), unfolded a, OF e(2)] e(3) a by metis
qed

theorem ticket_flow_safety_witness:
  "\<exists>t r. (ticket_step secp_toy (signature_engine secp_toy ecdsa_toy True) vrf_toy True)\<^sup>*\<^sup>* (Raw t) (Redeemable r)
     \<and> winning secp_toy r"
proof -
  obtain kp v r where e:
    "ticket_verify secp_toy (signature_engine secp_toy ecdsa_toy True) (vt_ticket v) (vt_issuer v) hash_default = Ok v"
    "acknowledged_into_redeemable secp_toy vrf_toy True [] (into_acknowledged v (Response [])) kp hash_default = Ok r"
    using flow_example by blast
  let ?step = "ticket_step secp_toy (signature_engine secp_toy ecdsa_toy True) vrf_toy True"
  have s1: "?step (Raw (vt_ticket v)) (Verified v)" using e(1) by (rule ticket_step.verify)
  have s2: "?step (Verified v) (Acknowledged (into_acknowledged v (Response [])))" by (rule ticket_step.accept)
  have s3: "?step (Acknowledged (into_acknowledged v (Response []))) (Redeemable r)"
    using e(2) by (rule ticket_step.redeem)
  have r: "?step\<^sup>*\<^sup>* (Raw (vt_ticket v)) (Redeemable r)"
    by (rule converse_rtranclp_into_rtranclp [of ?step, OF s1],
        rule converse_rtranclp_into_rtranclp [of ?step, OF s2], rule r_into_rtranclp [of ?step, OF s3])
  have "winning secp_toy r"
    using ticket_flow_safety [OF _ r] by (simp add: state_initial_def)
  with r show ?thesis by blast
qed

end
