(* ===== verification/Lioness.thy ===== *)
theory Lioness
  imports Prelude
begin

text \<open>
  \<open>crypto/lioness.rs\<close>: the Lioness wide-block cipher over a keyed digest and a stream cipher, which
  are parameters. The block is worked on through \<open>InOut\<close>: an input and an output buffer that may
  be the same memory, which the model keeps apart with a flag. The trait \<open>PRP\<close> (pseudorandom
  permutation) is the locale \<open>prp\<close>.
\<close>

section \<open>The trait\<close>

locale prp =
  fixes forward :: "bytes \<Rightarrow> bytes"
    and inverse :: "bytes \<Rightarrow> bytes"
    and block_size :: nat
    and valid :: bool
  assumes forward_length: "valid \<Longrightarrow> length bs = block_size \<Longrightarrow> length (forward bs) = block_size"
    and inverse_length: "valid \<Longrightarrow> length bs = block_size \<Longrightarrow> length (inverse bs) = block_size"
    and inverse_forward: "valid \<Longrightarrow> length bs = block_size \<Longrightarrow> inverse (forward bs) = bs"
    and forward_inverse: "valid \<Longrightarrow> length bs = block_size \<Longrightarrow> forward (inverse bs) = bs"
begin

definition blocks :: "bytes set" where
  "blocks = {bs. length bs = block_size}"

lemma forward_inj: "valid \<Longrightarrow> length a = block_size \<Longrightarrow> length b = block_size \<Longrightarrow> forward a = forward b \<longleftrightarrow> a = b"
  using inverse_forward by metis

lemma forward_bij: "valid \<Longrightarrow> bij_betw forward blocks blocks"
  by (rule bij_betw_byWitness [where f' = inverse])
    (auto simp: blocks_def forward_length inverse_length inverse_forward forward_inverse)

lemma inverse_bij: "valid \<Longrightarrow> bij_betw inverse blocks blocks"
  by (rule bij_betw_byWitness [where f' = forward])
    (auto simp: blocks_def forward_length inverse_length inverse_forward forward_inverse)

end

section \<open>Buffers\<close>

text \<open>\<open>InOut\<close>: with \<open>io_aliased\<close> the input is read from the output buffer, which is the same memory.\<close>

record inout =
  io_input :: bytes
  io_out :: bytes
  io_aliased :: bool

definition io_in :: "inout \<Rightarrow> bytes" where
  "io_in b = (if io_aliased b then io_out b else io_input b)"

definition io_write_left :: "nat \<Rightarrow> bytes \<Rightarrow> inout \<Rightarrow> inout" where
  "io_write_left k bs b = b\<lparr>io_out := bs @ drop k (io_out b)\<rparr>"

definition io_write_right :: "nat \<Rightarrow> bytes \<Rightarrow> inout \<Rightarrow> inout" where
  "io_write_right k bs b = b\<lparr>io_out := take k (io_out b) @ bs\<rparr>"

definition io_in_place :: "bytes \<Rightarrow> inout" where
  "io_in_place bs = \<lparr>io_input = [], io_out = bs, io_aliased = True\<rparr>"

definition xor_bytes :: "bytes \<Rightarrow> bytes \<Rightarrow> bytes" where
  "xor_bytes xs ys = map2 (XOR) xs ys"

lemma length_xor_bytes [simp]: "length (xor_bytes xs ys) = min (length xs) (length ys)"
  by (simp add: xor_bytes_def)

lemma xor_bytes_twice [simp]: "length xs \<le> length ys \<Longrightarrow> xor_bytes (xor_bytes xs ys) ys = xs"
  unfolding xor_bytes_def by (induction xs ys rule: list_induct2') (simp_all add: xor.assoc)

section \<open>The cipher\<close>

text \<open>
  The keyed digest takes a key and the data; the stream cipher takes a key, an IV and the number
  of keystream bytes.
\<close>

record cipher_lib =
  keyed_hash :: "bytes \<Rightarrow> bytes \<Rightarrow> bytes"
  keystream :: "bytes \<Rightarrow> bytes \<Rightarrow> nat \<Rightarrow> bytes"

definition cipher_lib_ok :: "nat \<Rightarrow> cipher_lib \<Rightarrow> bool" where
  "cipher_lib_ok k X \<longleftrightarrow>
     (\<forall>key bs. length (keyed_hash X key bs) = k) \<and> (\<forall>key iv n. length (keystream X key iv n) = n)"

record lioness =
  k1 :: bytes
  k2 :: bytes
  k3 :: bytes
  k4 :: bytes
  iv1 :: bytes
  iv2 :: bytes

definition lioness_new :: "nat \<Rightarrow> nat \<Rightarrow> bytes \<Rightarrow> bytes \<Rightarrow> lioness" where
  "lioness_new k i key iv = \<lparr>
     k1 = slice_of 0 k key, k2 = slice_of k k key, k3 = slice_of (2 * k) k key, k4 = slice_of (3 * k) k key,
     iv1 = slice_of 0 i iv, iv2 = slice_of i i iv\<rparr>"

definition apply_keystream :: "cipher_lib \<Rightarrow> bytes \<Rightarrow> bytes \<Rightarrow> bytes \<Rightarrow> bytes" where
  "apply_keystream X key iv bs = xor_bytes bs (keystream X key iv (length bs))"

definition encrypt_block :: "cipher_lib \<Rightarrow> nat \<Rightarrow> lioness \<Rightarrow> inout \<Rightarrow> inout" where
  "encrypt_block X k c block =
     (let left_prime = xor_bytes (take k (io_in block)) (k1 c);
          r_cpy = drop k (io_in block);
          block = io_write_right k (apply_keystream X left_prime (iv1 c) r_cpy) block;
          r_prime = keyed_hash X (k2 c) (drop k (io_out block));
          block = io_write_left k (xor_bytes (take k (io_in block)) r_prime) block;
          left_prime = xor_bytes (take k (io_out block)) (k3 c);
          block = io_write_right k (apply_keystream X left_prime (iv2 c) (drop k (io_out block))) block;
          r_prime = keyed_hash X (k4 c) (drop k (io_out block))
      in io_write_left k (xor_bytes (take k (io_out block)) r_prime) block)"

definition decrypt_block :: "cipher_lib \<Rightarrow> nat \<Rightarrow> lioness \<Rightarrow> inout \<Rightarrow> inout" where
  "decrypt_block X k c block =
     (let r_prime = keyed_hash X (k4 c) (drop k (io_in block));
          block = io_write_left k (xor_bytes (take k (io_in block)) r_prime) block;
          left_prime = xor_bytes (take k (io_out block)) (k3 c);
          r_cpy = drop k (io_in block);
          block = io_write_right k (apply_keystream X left_prime (iv2 c) r_cpy) block;
          r_prime = keyed_hash X (k2 c) (drop k (io_out block));
          block = io_write_left k (xor_bytes (take k (io_out block)) r_prime) block;
          left_prime = xor_bytes (take k (io_out block)) (k1 c)
      in io_write_right k (apply_keystream X left_prime (iv1 c) (drop k (io_out block))) block)"

definition lioness_forward :: "cipher_lib \<Rightarrow> nat \<Rightarrow> lioness \<Rightarrow> bytes \<Rightarrow> bytes" where
  "lioness_forward X k c data = io_out (encrypt_block X k c (io_in_place data))"

definition lioness_inverse :: "cipher_lib \<Rightarrow> nat \<Rightarrow> lioness \<Rightarrow> bytes \<Rightarrow> bytes" where
  "lioness_inverse X k c data = io_out (decrypt_block X k c (io_in_place data))"

section \<open>The four rounds\<close>

definition wf_lioness :: "nat \<Rightarrow> lioness \<Rightarrow> bool" where
  "wf_lioness k c \<longleftrightarrow> length (k1 c) = k \<and> length (k2 c) = k \<and> length (k3 c) = k \<and> length (k4 c) = k"

definition round_right :: "cipher_lib \<Rightarrow> bytes \<Rightarrow> bytes \<Rightarrow> bytes \<times> bytes \<Rightarrow> bytes \<times> bytes" where
  "round_right X key iv = (\<lambda>(l, r). (l, apply_keystream X (xor_bytes l key) iv r))"

definition round_left :: "cipher_lib \<Rightarrow> bytes \<Rightarrow> bytes \<times> bytes \<Rightarrow> bytes \<times> bytes" where
  "round_left X key = (\<lambda>(l, r). (xor_bytes l (keyed_hash X key r), r))"

definition feistel :: "cipher_lib \<Rightarrow> lioness \<Rightarrow> bytes \<times> bytes \<Rightarrow> bytes \<times> bytes" where
  "feistel X c p =
     round_left X (k4 c) (round_right X (k3 c) (iv2 c) (round_left X (k2 c) (round_right X (k1 c) (iv1 c) p)))"

definition feistel_inv :: "cipher_lib \<Rightarrow> lioness \<Rightarrow> bytes \<times> bytes \<Rightarrow> bytes \<times> bytes" where
  "feistel_inv X c p =
     round_right X (k1 c) (iv1 c) (round_left X (k2 c) (round_right X (k3 c) (iv2 c) (round_left X (k4 c) p)))"

lemma round_right_twice [simp]:
  "cipher_lib_ok k X \<Longrightarrow> round_right X key iv (round_right X key iv p) = p"
  by (cases p) (simp add: round_right_def apply_keystream_def cipher_lib_ok_def)

lemma round_left_twice [simp]:
  "cipher_lib_ok k X \<Longrightarrow> length (fst p) \<le> k \<Longrightarrow> round_left X key (round_left X key p) = p"
  by (cases p) (simp add: round_left_def cipher_lib_ok_def)

lemma round_lengths [simp]:
  "cipher_lib_ok k X \<Longrightarrow> length (fst p) = k \<Longrightarrow> length (fst (round_left X key p)) = k"
  "length (fst (round_right X key iv p)) = length (fst p)"
  "cipher_lib_ok k X \<Longrightarrow> length (snd (round_right X key iv p)) = length (snd p)"
  "snd (round_left X key p) = snd p"
  by (cases p; simp add: round_left_def round_right_def apply_keystream_def cipher_lib_ok_def)+

lemma feistel_inverse:
  assumes "cipher_lib_ok k X" "length (fst p) = k"
  shows "feistel_inv X c (feistel X c p) = p" "feistel X c (feistel_inv X c p) = p"
  using assms by (simp_all add: feistel_def feistel_inv_def)

lemma feistel_lengths:
  assumes "cipher_lib_ok k X" "length (fst p) = k"
  shows "length (fst (feistel X c p)) = k" "length (snd (feistel X c p)) = length (snd p)"
    "length (fst (feistel_inv X c p)) = k" "length (snd (feistel_inv X c p)) = length (snd p)"
  using assms by (simp_all add: feistel_def feistel_inv_def)

definition halves :: "nat \<Rightarrow> bytes \<Rightarrow> bytes \<times> bytes" where
  "halves k bs = (take k bs, drop k bs)"

lemma write_right [simp]:
  assumes "k \<le> length (io_out b)"
  shows "drop k (io_out (io_write_right k x b)) = x" "take k (io_out (io_write_right k x b)) = take k (io_out b)"
    "take k (io_in (io_write_right k x b)) = take k (io_in b)"
    "k \<le> length (io_out (io_write_right k x b))" "io_out (io_write_right k x b) = take k (io_out b) @ x"
  using assms by (simp_all add: io_write_right_def io_in_def)

lemma write_left [simp]:
  assumes "length x = k" "k \<le> length (io_out b)"
  shows "take k (io_out (io_write_left k x b)) = x" "drop k (io_out (io_write_left k x b)) = drop k (io_out b)"
    "drop k (io_in (io_write_left k x b)) = drop k (io_in b)"
    "k \<le> length (io_out (io_write_left k x b))" "io_out (io_write_left k x b) = x @ drop k (io_out b)"
  using assms by (simp_all add: io_write_left_def io_in_def)

text \<open>Whether the buffers are the same or not, the output is the four rounds of the input.\<close>

lemma encrypt_rounds:
  assumes X: "cipher_lib_ok k X" and k: "k \<le> length (io_in b)" "k \<le> length (io_out b)"
  shows "io_out (encrypt_block X k c b) = (case feistel X c (halves k (io_in b)) of (l, r) \<Rightarrow> l @ r)"
proof -
  have h [simp]: "length (keyed_hash X key bs) = k" for key bs using X by (simp add: cipher_lib_ok_def)
  define l r where "l = take k (io_in b)" and "r = drop k (io_in b)"
  have l [simp]: "length l = k" using k by (simp add: l_def)
  define r1 where "r1 = apply_keystream X (xor_bytes l (k1 c)) (iv1 c) r"
  define b1 where "b1 = io_write_right k r1 b"
  have b1: "take k (io_in b1) = l" "drop k (io_out b1) = r1" "k \<le> length (io_out b1)"
    using k by (simp_all add: b1_def l_def)
  define l1 where "l1 = xor_bytes l (keyed_hash X (k2 c) r1)"
  define b2 where "b2 = io_write_left k l1 b1"
  have l1 [simp]: "length l1 = k" by (simp add: l1_def)
  have b2: "take k (io_out b2) = l1" "drop k (io_out b2) = r1" "k \<le> length (io_out b2)"
    using b1 by (simp_all add: b2_def)
  define r2 where "r2 = apply_keystream X (xor_bytes l1 (k3 c)) (iv2 c) r1"
  define b3 where "b3 = io_write_right k r2 b2"
  have b3: "take k (io_out b3) = l1" "drop k (io_out b3) = r2" "k \<le> length (io_out b3)"
    using b2 by (simp_all add: b3_def)
  have "encrypt_block X k c b = io_write_left k (xor_bytes l1 (keyed_hash X (k4 c) r2)) b3"
    unfolding encrypt_block_def Let_def l_def [symmetric] r_def [symmetric] r1_def [symmetric] b1_def [symmetric] b1
      l1_def [symmetric] b2_def [symmetric] b2 r2_def [symmetric] b3_def [symmetric] b3 ..
  then have "io_out (encrypt_block X k c b) = xor_bytes l1 (keyed_hash X (k4 c) r2) @ r2"
    using b3 by simp
  then show ?thesis
    by (simp add: feistel_def round_left_def round_right_def halves_def flip: l_def r_def r1_def l1_def r2_def)
qed

lemma decrypt_rounds:
  assumes X: "cipher_lib_ok k X" and k: "k \<le> length (io_in b)" "k \<le> length (io_out b)"
  shows "io_out (decrypt_block X k c b) = (case feistel_inv X c (halves k (io_in b)) of (l, r) \<Rightarrow> l @ r)"
proof -
  have h [simp]: "length (keyed_hash X key bs) = k" for key bs using X by (simp add: cipher_lib_ok_def)
  define l r where "l = take k (io_in b)" and "r = drop k (io_in b)"
  have l [simp]: "length l = k" using k by (simp add: l_def)
  define l1 where "l1 = xor_bytes l (keyed_hash X (k4 c) r)"
  define b1 where "b1 = io_write_left k l1 b"
  have l1 [simp]: "length l1 = k" by (simp add: l1_def)
  have b1: "take k (io_out b1) = l1" "drop k (io_in b1) = r" "k \<le> length (io_out b1)"
    using k by (simp_all add: b1_def r_def)
  define r1 where "r1 = apply_keystream X (xor_bytes l1 (k3 c)) (iv2 c) r"
  define b2 where "b2 = io_write_right k r1 b1"
  have b2: "take k (io_out b2) = l1" "drop k (io_out b2) = r1" "k \<le> length (io_out b2)"
    using b1 by (simp_all add: b2_def)
  define l2 where "l2 = xor_bytes l1 (keyed_hash X (k2 c) r1)"
  define b3 where "b3 = io_write_left k l2 b2"
  have l2 [simp]: "length l2 = k" by (simp add: l2_def)
  have b3: "take k (io_out b3) = l2" "drop k (io_out b3) = r1" "k \<le> length (io_out b3)"
    using b2 by (simp_all add: b3_def)
  have "decrypt_block X k c b = io_write_right k (apply_keystream X (xor_bytes l2 (k1 c)) (iv1 c) r1) b3"
    unfolding decrypt_block_def Let_def l_def [symmetric] r_def [symmetric] l1_def [symmetric] b1_def [symmetric] b1
      r1_def [symmetric] b2_def [symmetric] b2 l2_def [symmetric] b3_def [symmetric] b3 ..
  then have "io_out (decrypt_block X k c b) = l2 @ apply_keystream X (xor_bytes l2 (k1 c)) (iv1 c) r1"
    using b3 by simp
  then show ?thesis
    by (simp add: feistel_inv_def round_left_def round_right_def halves_def flip: l_def r_def r1_def l1_def l2_def)
qed

lemma halves_append: "length l = k \<Longrightarrow> halves k (l @ r) = (l, r)"
  by (simp add: halves_def)

lemma forward_eq:
  "cipher_lib_ok k X \<Longrightarrow> k \<le> length bs \<Longrightarrow>
     lioness_forward X k c bs = fst (feistel X c (halves k bs)) @ snd (feistel X c (halves k bs))"
  using encrypt_rounds [of k X "io_in_place bs" c]
  by (simp add: lioness_forward_def io_in_def io_in_place_def split: prod.splits)

lemma inverse_eq:
  "cipher_lib_ok k X \<Longrightarrow> k \<le> length bs \<Longrightarrow>
     lioness_inverse X k c bs = fst (feistel_inv X c (halves k bs)) @ snd (feistel_inv X c (halves k bs))"
  using decrypt_rounds [of k X "io_in_place bs" c]
  by (simp add: lioness_inverse_def io_in_def io_in_place_def split: prod.splits)

interpretation lioness: prp "lioness_forward X k c" "lioness_inverse X k c" n "cipher_lib_ok k X \<and> k \<le> n" for X k c n
proof unfold_locales
  fix bs :: bytes
  assume ok: "cipher_lib_ok k X \<and> k \<le> n" and n: "length bs = n"
  have h: "length (fst (halves k bs)) = k" "length (snd (halves k bs)) = n - k"
    "fst (halves k bs) @ snd (halves k bs) = bs"
    using ok n by (simp_all add: halves_def)
  note len = feistel_lengths [OF conjunct1 [OF ok] h(1), of c]
  show "length (lioness_forward X k c bs) = n" "length (lioness_inverse X k c bs) = n"
    using ok n h len by (simp_all add: forward_eq inverse_eq)
  have f: "halves k (lioness_forward X k c bs) = feistel X c (halves k bs)"
    "halves k (lioness_inverse X k c bs) = feistel_inv X c (halves k bs)"
    using ok n len by (simp_all add: forward_eq inverse_eq halves_append)
  have "k \<le> length (lioness_forward X k c bs)" "k \<le> length (lioness_inverse X k c bs)"
    using ok n h len by (simp_all add: forward_eq inverse_eq)
  then show "lioness_inverse X k c (lioness_forward X k c bs) = bs" "lioness_forward X k c (lioness_inverse X k c bs) = bs"
    using ok feistel_inverse [OF conjunct1 [OF ok] h(1), of c] h(3) by (simp_all add: forward_eq [of k X "lioness_inverse X k c bs"]
        inverse_eq [of k X "lioness_forward X k c bs"] f)
qed

text \<open>C40. The Lioness cipher is a permutation of the blocks: decrypting what was encrypted and
  encrypting what was decrypted give the block back, blocks keep their length, encryption is a
  bijection of the blocks, and the output does not depend on whether the input and output
  buffers are the same memory, nor on what the output buffer held.\<close>

theorem lioness_permutation:
  assumes "cipher_lib_ok k X" "k \<le> n" "length bs = n" "length junk = n"
  shows "lioness_inverse X k c (lioness_forward X k c bs) = bs
    \<and> lioness_forward X k c (lioness_inverse X k c bs) = bs
    \<and> bij_betw (lioness_forward X k c) {bs. length bs = n} {bs. length bs = n}
    \<and> io_out (encrypt_block X k c \<lparr>io_input = bs, io_out = junk, io_aliased = False\<rparr>) = lioness_forward X k c bs
    \<and> io_out (decrypt_block X k c \<lparr>io_input = bs, io_out = junk, io_aliased = False\<rparr>) = lioness_inverse X k c bs"
  using lioness.inverse_forward [of k X n bs c] lioness.forward_inverse [of k X n bs c] lioness.forward_bij [of k X n c]
    encrypt_rounds [of k X "\<lparr>io_input = bs, io_out = junk, io_aliased = False\<rparr>" c]
    decrypt_rounds [of k X "\<lparr>io_input = bs, io_out = junk, io_aliased = False\<rparr>" c] assms
  by (simp add: forward_eq inverse_eq io_in_def case_prod_beta lioness.blocks_def)

text \<open>A key of four digests and an IV of two parts are split without overlap.\<close>

lemma lioness_new_keys:
  assumes "length key = 4 * k" "length iv = 2 * i"
  shows "k1 (lioness_new k i key iv) @ k2 (lioness_new k i key iv) @ k3 (lioness_new k i key iv)
      @ k4 (lioness_new k i key iv) = key"
    "iv1 (lioness_new k i key iv) @ iv2 (lioness_new k i key iv) = iv" "wf_lioness k (lioness_new k i key iv)"
proof -
  have "take k (drop k key) = drop k (take (2 * k) key)" by (simp add: take_drop mult_2)
  then have "take k key @ take k (drop k key) @ take k (drop (2 * k) key) @ take k (drop (3 * k) key)
      = take (2 * k) key @ take k (drop (2 * k) key) @ take k (drop (3 * k) key)"
    by (metis append.assoc mult_2 take_add)
  also have "\<dots> = take (3 * k) key @ take k (drop (3 * k) key)"
    using take_add [of "2 * k" k key] by (simp add: algebra_simps)
  also have "\<dots> = key" using take_add [of "3 * k" k key] assms(1) by (simp add: algebra_simps)
  finally show "k1 (lioness_new k i key iv) @ k2 (lioness_new k i key iv) @ k3 (lioness_new k i key iv)
      @ k4 (lioness_new k i key iv) = key"
    by (simp add: lioness_new_def slice_of_def)
  show "iv1 (lioness_new k i key iv) @ iv2 (lioness_new k i key iv) = iv"
    using take_add [of i i iv] assms(2) by (simp add: lioness_new_def slice_of_def mult_2)
  show "wf_lioness k (lioness_new k i key iv)"
    using assms(1) by (simp add: wf_lioness_def lioness_new_def)
qed

definition cipher_example :: cipher_lib where
  "cipher_example = \<lparr>keyed_hash = (\<lambda>key bs. to_be 2 (length key + from_be bs)),
     keystream = (\<lambda>key iv n. to_be n (from_be key + from_be iv))\<rparr>"

theorem lioness_permutation_witness:
  "lioness_inverse cipher_example 2 (lioness_new 2 1 [1, 2, 3, 4, 5, 6, 7, 8] [9, 10])
     (lioness_forward cipher_example 2 (lioness_new 2 1 [1, 2, 3, 4, 5, 6, 7, 8] [9, 10]) [1, 2, 3, 4, 5])
   = [1, 2, 3, 4, 5]"
proof -
  have "cipher_lib_ok 2 cipher_example" by (simp add: cipher_lib_ok_def cipher_example_def)
  from lioness_permutation [OF this, of 5 "[1, 2, 3, 4, 5]" "replicate 5 0"] show ?thesis by simp
qed

end
