(* ===== verification/Accounts.thy ===== *)
theory Accounts
  imports Signing
begin

text \<open>
  \<open>internal/mod.rs\<close>, \<open>internal/account.rs\<close> and \<open>internal/announcement.rs\<close>: node identifiers, account
  entries, the binding of a chain key to a packet key, and announcements. The package \<open>multiaddr\<close>
  is the record \<open>malib\<close>; \<open>malib_ok\<close> states its documentation on the list of the protocols of an
  address. That Ed25519 signatures verify is the hypothesis \<open>eddsa_ok\<close>.
\<close>

section \<open>Node identifiers\<close>

datatype node_id = Chain address | Offchain offchain_public_key

definition node_id_from_address :: "address \<Rightarrow> node_id" where
  "node_id_from_address a = Chain a"

definition node_id_from_opk :: "offchain_public_key \<Rightarrow> node_id" where
  "node_id_from_opk k = Offchain k"

fun node_id_try_into_address :: "node_id \<Rightarrow> (address, general_error) res" where
  "node_id_try_into_address (Chain a) = Ok a"
| "node_id_try_into_address (Offchain _) = Err InvalidInput"

fun node_id_try_into_opk :: "node_id \<Rightarrow> (offchain_public_key, general_error) res" where
  "node_id_try_into_opk (Chain _) = Err InvalidInput"
| "node_id_try_into_opk (Offchain k) = Ok k"

fun node_id_display :: "hexlib \<Rightarrow> node_id \<Rightarrow> string" where
  "node_id_display h (Chain a) = to_hex h address_bytes a"
| "node_id_display h (Offchain k) = to_hex h opk_bytes k"

definition node_id_from_str :: "hexlib \<Rightarrow> string \<Rightarrow> (node_id, general_error) res" where
  "node_id_from_str h s =
     (if length s < OPK_SIZE * 2 then map_ok Chain (address_from_str h s)
      else map_ok Offchain (opk_from_str h s))"

fun wf_node_id :: "node_id \<Rightarrow> bool" where
  "wf_node_id (Chain a) \<longleftrightarrow> wf_address a"
| "wf_node_id (Offchain k) \<longleftrightarrow> wf_opk k"

lemma from_hex_Ok: "from_hex h f s = Ok x \<Longrightarrow> \<exists>bs. f bs = Ok x"
  by (auto simp: from_hex_def Let_def split: if_splits)

lemma drop_hex_prefix: "drop 2 (to_hex h f x) = hex_encode h (f x)"
  by (simp add: to_hex_def)

text \<open>A node identifier that is printed and parsed is the same identifier, of the same kind; with
  and without the prefix, an address is short enough and a key long enough to be told apart.
  Only strings of four lengths parse, and what parses is well formed.\<close>

theorem node_id_text_roundtrip:
  assumes "hex_ok h" "wf_node_id n"
  shows "node_id_from_str h (node_id_display h n) = Ok n
    \<and> node_id_from_str h (drop 2 (node_id_display h n)) = Ok n
    \<and> (node_id_from_str h s = Ok m \<longrightarrow> wf_node_id m \<and> length s \<in> {40, 42, 64, 66})"
proof (intro conjI impI)
  note la = address.length_to_hex [OF assms(1)] and lk = opk.length_to_hex [OF assms(1)]
  note enc = hex_okD(1) [OF assms(1)]
  have la': "wf_address a \<Longrightarrow> length (hex_encode h (address_bytes a)) = 40" for a
    using la [of a] by (simp add: to_hex_def ADDRESS_SIZE_def)
  have lk': "wf_opk k \<Longrightarrow> length (hex_encode h (opk_bytes k)) = 64" for k
    using lk [of k] by (simp add: to_hex_def OPK_SIZE_def)
  show "node_id_from_str h (node_id_display h n) = Ok n"
    using assms la lk address.hex_roundtrip [OF assms(1)] opk.hex_roundtrip [OF assms(1)]
    by (cases n) (simp_all add: node_id_from_str_def address_from_str_def opk_from_str_def ADDRESS_SIZE_def OPK_SIZE_def)
  show "node_id_from_str h (drop 2 (node_id_display h n)) = Ok n"
    using assms la' lk' address.hex_roundtrip_unprefixed [OF assms(1)] opk.hex_roundtrip_unprefixed [OF assms(1)]
    by (cases n) (simp_all add: node_id_from_str_def address_from_str_def opk_from_str_def drop_hex_prefix
        ADDRESS_SIZE_def OPK_SIZE_def)
  assume s: "node_id_from_str h s = Ok m"
  show "wf_node_id m"
    using s address.try_from_Ok opk.try_from_Ok
    by (auto simp: node_id_from_str_def address_from_str_def opk_from_str_def split: if_splits dest!: from_hex_Ok)
  show "length s \<in> {40, 42, 64, 66}"
    using s address.from_hex_length [OF assms(1), of s] opk.from_hex_length [OF assms(1), of s]
    by (auto simp: node_id_from_str_def address_from_str_def opk_from_str_def ADDRESS_SIZE_def OPK_SIZE_def
        HEX_DECODE_STACK_BUF_SIZE_def split: if_splits)
qed

theorem node_id_text_roundtrip_witness:
  "node_id_from_str hex_std (node_id_display hex_std (Chain (Address (replicate 20 1)))) = Ok (Chain (Address (replicate 20 1)))"
proof -
  have "wf_node_id (Chain (Address (replicate 20 1)))" by (simp add: wf_address_def ADDRESS_SIZE_def)
  from node_id_text_roundtrip [OF hex_ok_std this] show ?thesis by blast
qed

section \<open>Multiaddresses\<close>

datatype ma_protocol = P2p peer_id | OtherProtocol string bytes

fun ma_tag :: "ma_protocol \<Rightarrow> string" where
  "ma_tag (P2p _) = ''p2p''"
| "ma_tag (OtherProtocol t _) = t"

record 'm malib =
  ma_protocols :: "'m \<Rightarrow> ma_protocol list"
  ma_collect :: "ma_protocol list \<Rightarrow> 'm"
  ma_is_empty :: "'m \<Rightarrow> bool"
  ma_with_p2p :: "'m \<Rightarrow> peer_id \<Rightarrow> ('m, 'm) res"
  ma_pop :: "'m \<Rightarrow> 'm"
  ma_display :: "'m \<Rightarrow> string"

text \<open>
  Documented: \<open>with_p2p\<close> appends the peer id unless the address already ends with one, which must
  then be the same; \<open>pop\<close> removes the last protocol.
\<close>

definition malib_ok :: "'m malib \<Rightarrow> bool" where
  "malib_ok A \<longleftrightarrow>
     (\<forall>ps. ma_protocols A (ma_collect A ps) = ps)
   \<and> (\<forall>m. ma_collect A (ma_protocols A m) = m)
   \<and> (\<forall>m. ma_is_empty A m \<longleftrightarrow> ma_protocols A m = [])
   \<and> (\<forall>m. ma_protocols A (ma_pop A m) = butlast (ma_protocols A m))
   \<and> (\<forall>m p. ma_with_p2p A m p =
        (case rev (ma_protocols A m) of
           P2p q # _ \<Rightarrow> if q = p then Ok m else Err m
         | _ \<Rightarrow> Ok (ma_collect A (ma_protocols A m @ [P2p p]))))"

definition decapsulate_multiaddress :: "'m malib \<Rightarrow> 'm \<Rightarrow> 'm" where
  "decapsulate_multiaddress A m =
     ma_collect A (takeWhile (\<lambda>p. case p of P2p _ \<Rightarrow> False | _ \<Rightarrow> True) (ma_protocols A m))"

section \<open>Account entries\<close>

datatype 'm account_type = NotAnnounced | Announced "'m list"

record 'm account_entry =
  ae_public_key :: offchain_public_key
  ae_chain_addr :: address
  ae_entry_type :: "'m account_type"
  ae_safe_address :: "address option"
  ae_key_id :: key_ident

definition has_announced :: "'m account_entry \<Rightarrow> bool" where
  "has_announced e = (case ae_entry_type e of Announced addrs \<Rightarrow> addrs \<noteq> [] | NotAnnounced \<Rightarrow> False)"

definition has_announced_with_routing_info :: "'m malib \<Rightarrow> 'm account_entry \<Rightarrow> bool" where
  "has_announced_with_routing_info A e =
     (case ae_entry_type e of
        NotAnnounced \<Rightarrow> False
      | Announced ms \<Rightarrow> ms \<noteq> [] \<and>
          list_all (\<lambda>m.
            list_ex (\<lambda>p. p = ''ip4'' \<or> p = ''dns4'' \<or> p = ''ip6'' \<or> p = ''dns6'') (map ma_tag (ma_protocols A m))
            \<and> list_ex (\<lambda>p. p = ''tcp'' \<or> p = ''udp'') (map ma_tag (ma_protocols A m))) ms)"

definition get_multiaddrs :: "'m account_entry \<Rightarrow> 'm list" where
  "get_multiaddrs e = (case ae_entry_type e of NotAnnounced \<Rightarrow> [] | Announced ms \<Rightarrow> ms)"

definition account_update :: "'m account_entry \<Rightarrow> 'm account_type \<Rightarrow> 'm account_entry" where
  "account_update e t = e\<lparr>ae_entry_type := t\<rparr>"

lemma has_announced_iff: "has_announced e \<longleftrightarrow> get_multiaddrs e \<noteq> []"
  by (simp add: has_announced_def get_multiaddrs_def split: account_type.splits)

lemma routing_info_announced: "has_announced_with_routing_info A e \<Longrightarrow> has_announced e"
  by (simp add: has_announced_def has_announced_with_routing_info_def split: account_type.splits)

lemma account_update_get: "get_multiaddrs (account_update e t) = (case t of NotAnnounced \<Rightarrow> [] | Announced ms \<Rightarrow> ms)"
  by (simp add: account_update_def get_multiaddrs_def)

section \<open>Key bindings\<close>

record key_binding =
  kb_chain_key :: address
  kb_packet_key :: offchain_public_key
  kb_signature :: offchain_signature

definition kb_prepare_for_signing :: "address \<Rightarrow> offchain_public_key \<Rightarrow> bytes" where
  "kb_prepare_for_signing chain_key packet_key =
     ascii_bytes ''HOPR_KEY_BINDING'' @ address_bytes chain_key @ opk_bytes packet_key"

definition key_binding_new :: "('e, 'v) eddsa \<Rightarrow> address \<Rightarrow> 'e offchain_keypair \<Rightarrow> key_binding" where
  "key_binding_new D chain_key packet_key =
     (let to_sign = kb_prepare_for_signing chain_key (offchain_keypair_public packet_key)
      in \<lparr>kb_chain_key = chain_key, kb_packet_key = offchain_keypair_public packet_key,
          kb_signature = offchain_sign_message D to_sign packet_key\<rparr>)"

definition key_binding_from_parts ::
  "('e, 'v) eddsa \<Rightarrow> address \<Rightarrow> offchain_public_key \<Rightarrow> offchain_signature \<Rightarrow> (key_binding, core_types_error) res" where
  "key_binding_from_parts D chain_key packet_key signature =
     (let to_verify = kb_prepare_for_signing chain_key packet_key
      in and_then (expect (offchain_verify_message D signature to_verify packet_key)) (\<lambda>b.
         if b then Ok \<lparr>kb_chain_key = chain_key, kb_packet_key = packet_key, kb_signature = signature\<rparr>
         else Err (CoreCrypto SignatureVerification)))"

text \<open>
  Documented: a message signed with a key pair verifies strictly under its public key.
\<close>

definition eddsa_ok :: "'e edlib \<Rightarrow> ('e, 'v) eddsa \<Rightarrow> bool" where
  "eddsa_ok E D \<longleftrightarrow> (\<forall>kp msg. wf_offchain_keypair E kp \<longrightarrow>
     (let sig = dalek_sign D (secret_bytes (okp_secret kp)) msg (expanded_edwards (okp_expanded kp)) in
      length sig = 64
      \<and> (\<exists>v. dalek_key D (opk_bytes (offchain_keypair_public kp)) = Some v \<and> dalek_verify_strict D v msg sig)))"

lemma offchain_sign_verify:
  assumes "eddsa_ok E D" "wf_offchain_keypair E kp"
  shows "offchain_verify_message D (offchain_sign_message D msg kp) msg (offchain_keypair_public kp) = Some True"
    "wf_offchain_signature (offchain_sign_message D msg kp)"
  using assms
  by (force simp: eddsa_ok_def Let_def offchain_verify_message_def offchain_sign_message_def
      offchain_keypair_public_expanded_def OFFCHAIN_SIGNATURE_SIZE_def wf_offchain_signature_def)+

lemma kb_payload_inj:
  assumes "wf_address a" "wf_address b" "kb_prepare_for_signing a k = kb_prepare_for_signing b l"
  shows "a = b \<and> k = l"
  using assms
  by (auto simp: kb_prepare_for_signing_def wf_address_def intro: address.expand offchain_public_key.expand)

text \<open>Key bindings: the binding a node signs is accepted when it is taken apart and checked; a
  binding is accepted exactly if its signature verifies over the two keys; and the signed text
  determines both keys, so that a signature made for one binding verifies for another only if
  it verifies for another text.\<close>

theorem key_binding_check:
  assumes "eddsa_ok E D" "wf_offchain_keypair E kp" "wf_address a" "wf_address b" "wf_offchain_signature sig"
  shows "key_binding_from_parts D (kb_chain_key (key_binding_new D a kp)) (kb_packet_key (key_binding_new D a kp))
      (kb_signature (key_binding_new D a kp)) = Ok (key_binding_new D a kp)
    \<and> (key_binding_from_parts D b k sig = Ok kb \<longleftrightarrow>
        offchain_verify_message D sig (kb_prepare_for_signing b k) k = Some True
        \<and> kb = \<lparr>kb_chain_key = b, kb_packet_key = k, kb_signature = sig\<rparr>)
    \<and> key_binding_from_parts D b k sig \<noteq> Panic
    \<and> (kb_prepare_for_signing a l = kb_prepare_for_signing b k \<longrightarrow> a = b \<and> l = k)"
proof (intro conjI impI)
  show "key_binding_from_parts D (kb_chain_key (key_binding_new D a kp)) (kb_packet_key (key_binding_new D a kp))
      (kb_signature (key_binding_new D a kp)) = Ok (key_binding_new D a kp)"
    using offchain_sign_verify(1) [OF assms(1,2)] by (simp add: key_binding_from_parts_def key_binding_new_def Let_def)
  obtain r where r: "offchain_verify_message D sig (kb_prepare_for_signing b k) k = Some r"
    using assms(5) by (simp add: offchain_verify_message_def wf_offchain_signature_def)
  show "key_binding_from_parts D b k sig = Ok kb \<longleftrightarrow>
        offchain_verify_message D sig (kb_prepare_for_signing b k) k = Some True
        \<and> kb = \<lparr>kb_chain_key = b, kb_packet_key = k, kb_signature = sig\<rparr>"
    by (auto simp: key_binding_from_parts_def r)
  show "key_binding_from_parts D b k sig \<noteq> Panic" by (simp add: key_binding_from_parts_def r)
qed (use kb_payload_inj assms(3,4) in blast)+

section \<open>Announcements\<close>

record 'm announcement_data =
  an_multiaddress :: "'m option"
  an_key_binding :: key_binding

definition announcement_new ::
  "'e edlib \<Rightarrow> 'm malib \<Rightarrow> key_binding \<Rightarrow> 'm option \<Rightarrow> ('m announcement_data, general_error) res" where
  "announcement_new E A kb multiaddress =
     (case multiaddress of
        Some m \<Rightarrow>
          if ma_is_empty A m then Err InvalidInput
          else
            and_then (expect (peer_id_from E (kb_packet_key kb))) (\<lambda>peer.
              case ma_with_p2p A m peer of
                Ok m' \<Rightarrow> Ok \<lparr>an_multiaddress = Some (ma_pop A m'), an_key_binding = kb\<rparr>
              | Err m' \<Rightarrow>
                  and_then (expect (to_peerid_str E (kb_packet_key kb))) (\<lambda>p.
                    Err (NonSpecificError (ma_display A m' @ '' does not match the keybinding '' @ p @ '' peer id'')))
              | Panic \<Rightarrow> Panic)
      | None \<Rightarrow> Ok \<lparr>an_multiaddress = None, an_key_binding = kb\<rparr>)"

text \<open>Announcements: an address is stored without the peer id it ends with, which must be the
  announced key's; any other address is stored as given. An empty address and one that ends with
  another peer id are refused, and nothing panics. (An address that is only the own peer id is
  stored as the empty address.)\<close>

theorem announcement_decapsulates:
  assumes "malib_ok A" "peer_id_from E (kb_packet_key kb) = Some peer"
  shows "announcement_new E A kb None = Ok \<lparr>an_multiaddress = None, an_key_binding = kb\<rparr>
    \<and> (announcement_new E A kb (Some (ma_collect A [])) = Err InvalidInput)
    \<and> announcement_new E A kb (Some (ma_collect A (ps @ [P2p peer])))
        = Ok \<lparr>an_multiaddress = Some (ma_collect A ps), an_key_binding = kb\<rparr>
    \<and> (\<exists>e. announcement_new E A kb (Some (ma_collect A (ps @ [P2p q])))
        = (if q = peer then Ok \<lparr>an_multiaddress = Some (ma_collect A ps), an_key_binding = kb\<rparr> else Err e))
    \<and> announcement_new E A kb (Some (ma_collect A (ps @ [OtherProtocol t bs])))
        = Ok \<lparr>an_multiaddress = Some (ma_collect A (ps @ [OtherProtocol t bs])), an_key_binding = kb\<rparr>"
proof -
  have A: "ma_protocols A (ma_collect A ps) = ps" "ma_collect A (ma_protocols A m) = m"
    "ma_is_empty A m \<longleftrightarrow> ma_protocols A m = []" "ma_protocols A (ma_pop A m) = butlast (ma_protocols A m)"
    "ma_with_p2p A m p = (case rev (ma_protocols A m) of
           P2p q # _ \<Rightarrow> if q = p then Ok m else Err m
         | _ \<Rightarrow> Ok (ma_collect A (ma_protocols A m @ [P2p p])))" for ps m p
    using assms(1) by (simp_all only: malib_ok_def)
  have pop: "ma_pop A (ma_collect A (ps @ [x])) = ma_collect A ps" for ps x
    using A(2) [of "ma_pop A (ma_collect A (ps @ [x]))"] by (simp add: A(1,4))
  have pop2: "ma_pop A (ma_collect A (ps @ [x, y])) = ma_collect A (ps @ [x])" for ps x y
    using pop [of "ps @ [x]" y] by simp
  have s: "to_peerid_str E (kb_packet_key kb) = Some (peer_base58 E peer)"
    using assms(2) by (simp add: to_peerid_str_def)
  show ?thesis using assms(2) by (simp add: announcement_new_def A(1,3,5) pop pop2 s)
qed

section \<open>Instances of the interfaces\<close>

definition ma_std :: "ma_protocol list malib" where
  "ma_std = \<lparr>ma_protocols = (\<lambda>m. m), ma_collect = (\<lambda>m. m), ma_is_empty = (\<lambda>m. m = []),
     ma_with_p2p = (\<lambda>m p. case rev m of
        P2p q # _ \<Rightarrow> if q = p then Ok m else Err m
      | _ \<Rightarrow> Ok (m @ [P2p p])),
     ma_pop = butlast, ma_display = (\<lambda>_. ''/'')\<rparr>"

lemma ma_std_simps:
  "ma_protocols ma_std m = m" "ma_collect ma_std m = m" "ma_is_empty ma_std m \<longleftrightarrow> m = []" "ma_pop ma_std m = butlast m"
  "ma_with_p2p ma_std m p = (case rev m of
        P2p q # _ \<Rightarrow> if q = p then Ok m else Err m
      | _ \<Rightarrow> Ok (m @ [P2p p]))"
  by (simp_all add: ma_std_def)

lemma malib_ok_std: "malib_ok ma_std"
  unfolding malib_ok_def ma_std_simps by simp

definition eddsa_toy :: "(bytes, bytes) eddsa" where
  "eddsa_toy = \<lparr>dalek_sign = (\<lambda>s msg e. to_be 64 (from_be (e @ msg))), dalek_key = Some,
     dalek_verify_strict = (\<lambda>k msg sig. sig = to_be 64 (from_be (k @ msg))),
     dalek_verify_batch = (\<lambda>_ _ _. True)\<rparr>"

lemma eddsa_ok_toy: "eddsa_ok ed_std eddsa_toy"
proof -
  have "expanded_edwards (okp_expanded kp) = opk_bytes (offchain_keypair_public kp)"
    if "wf_offchain_keypair ed_std kp" for kp
    using that unfolding wf_offchain_keypair_def
    by (cases kp; cases "okp_expanded kp")
      (auto simp: offchain_keypair_from_secret_def expanded_try_from_def ed_std_def offchain_keypair_public_def
        split: if_splits)
  then show ?thesis by (simp add: eddsa_ok_def Let_def eddsa_toy_def)
qed

lemma offchain_keypair_example: "\<exists>kp. wf_offchain_keypair ed_std kp"
proof -
  let ?k = "replicate 32 (1 :: 8 word)"
  have "offchain_keypair_from_secret ed_std ?k
      = Ok (OffchainKeypair (SecretValue ?k) (ExpandedOffchainPublicKey (OffchainPublicKey ?k) ?k))"
    by (simp add: offchain_keypair_from_secret_def secret_value_try_from_def opk_from_privkey_def try_into_array_def
        ed_std_def opk_try_from_def array_try_from_def OPK_SIZE_def expanded_try_from_def)
  then show ?thesis
    unfolding wf_offchain_keypair_def
    by (intro exI [of _ "OffchainKeypair (SecretValue ?k) (ExpandedOffchainPublicKey (OffchainPublicKey ?k) ?k)"]) simp
qed

theorem key_binding_check_witness:
  "\<exists>kp kb. wf_offchain_keypair ed_std kp \<and> kb = key_binding_new eddsa_toy (Address (replicate 20 1)) kp
     \<and> key_binding_from_parts eddsa_toy (kb_chain_key kb) (kb_packet_key kb) (kb_signature kb) = Ok kb"
proof -
  obtain kp where kp: "wf_offchain_keypair ed_std kp" using offchain_keypair_example by blast
  have a: "wf_address (Address (replicate 20 1))" by (simp add: wf_address_def ADDRESS_SIZE_def)
  have s: "wf_offchain_signature (OffchainSignature (replicate 64 0))"
    by (simp add: wf_offchain_signature_def OFFCHAIN_SIGNATURE_SIZE_def)
  from key_binding_check [OF eddsa_ok_toy kp a a s] show ?thesis using kp by blast
qed

theorem announcement_decapsulates_witness:
  "announcement_new ed_std ma_std
     \<lparr>kb_chain_key = Address (replicate 20 1), kb_packet_key = OffchainPublicKey (replicate 32 1),
      kb_signature = OffchainSignature (replicate 64 0)\<rparr> (Some []) = Err InvalidInput"
proof -
  have "peer_id_from ed_std (OffchainPublicKey (replicate 32 1)) = Some (0, [0x08, 0x01, 0x12, 0x20] @ replicate 32 1)"
    using peer_id_from_eq [OF edlib_ok_std, of "OffchainPublicKey (replicate 32 1)"]
    by (simp add: wf_opk_def OPK_SIZE_def)
  from announcement_decapsulates [OF malib_ok_std, of ed_std "\<lparr>kb_chain_key = Address (replicate 20 1),
      kb_packet_key = OffchainPublicKey (replicate 32 1), kb_signature = OffchainSignature (replicate 64 0)\<rparr>"] this
  show ?thesis by (simp add: ma_std_simps)
qed

end
