(* ===== verification/Acknowledgements.thy ===== *)
theory Acknowledgements
  imports Accounts Ticket_Flow
begin

text \<open>
  \<open>internal/protocol.rs\<close>: packet acknowledgements, which carry the half key that completes the
  Proof of Relay of a ticket, signed by the node that received the packet; their verification, alone
  and in batches.

  The batch verifier pulls its entries from a lazy iterator whose closure records, for every entry it
  is asked for, the parsed acknowledgement and its key. \<open>optimistic_loop\<close> is that interleaving of
  the closure with the loop of \<open>OffchainSignature::verify_batch\<close> (\<open>batch_loop\<close> of
  \<open>Signing\<close>): what the loop does not ask for is not recorded.
\<close>

section \<open>Acknowledgements\<close>

datatype acknowledgement = Acknowledgement (acknowledgement_bytes: bytes)

definition ACKNOWLEDGEMENT_SIZE :: nat where
  "ACKNOWLEDGEMENT_SIZE = HALF_KEY_SIZE + OFFCHAIN_SIGNATURE_SIZE"

definition acknowledgement_try_from :: "bytes \<Rightarrow> (acknowledgement, general_error) res" where
  "acknowledgement_try_from = array_try_from Acknowledgement ACKNOWLEDGEMENT_SIZE ''Acknowledgement''"

definition wf_acknowledgement :: "acknowledgement \<Rightarrow> bool" where
  "wf_acknowledgement a \<longleftrightarrow> length (acknowledgement_bytes a) = ACKNOWLEDGEMENT_SIZE"

interpretation acknowledgement: bytes_representable
  acknowledgement_bytes acknowledgement_try_from ACKNOWLEDGEMENT_SIZE wf_acknowledgement
  unfolding wf_acknowledgement_def acknowledgement_try_from_def by (rule bytes_representable_array) simp_all

definition MIN_BATCH_SIZE :: nat where
  "MIN_BATCH_SIZE = 4"

record verified_acknowledgement =
  va_ack_key_share :: half_key
  va_signature :: offchain_signature

definition verified_acknowledgement_new ::
  "('e, 'v) eddsa \<Rightarrow> half_key \<Rightarrow> 'e offchain_keypair \<Rightarrow> verified_acknowledgement" where
  "verified_acknowledgement_new D ack_key_share node_keypair =
     (let signature = offchain_sign_message D (half_key_bytes ack_key_share) node_keypair
      in \<lparr>va_ack_key_share = ack_key_share, va_signature = signature\<rparr>)"

definition verified_acknowledgement_leak :: "verified_acknowledgement \<Rightarrow> acknowledgement" where
  "verified_acknowledgement_leak v =
     Acknowledgement (half_key_bytes (va_ack_key_share v) @ offchain_signature_bytes (va_signature v))"

definition wf_verified_acknowledgement :: "verified_acknowledgement \<Rightarrow> bool" where
  "wf_verified_acknowledgement v \<longleftrightarrow>
     wf_half_key (va_ack_key_share v) \<and> wf_offchain_signature (va_signature v)"

text \<open>Who waits for an acknowledgement: the sender of a packet, or a relayer with its ticket.\<close>

datatype pending_acknowledgement = WaitingAsSender | WaitingAsRelayer unacknowledged_ticket

section \<open>Verification\<close>

definition ack_verify ::
  "('e, 'v) eddsa \<Rightarrow> acknowledgement \<Rightarrow> offchain_public_key \<Rightarrow> (verified_acknowledgement, core_types_error) res" where
  "ack_verify D a sender_node_key =
     and_then (map_err CoreGeneral
       (offchain_signature_try_from (slice_of HALF_KEY_SIZE OFFCHAIN_SIGNATURE_SIZE (acknowledgement_bytes a)))) (\<lambda>s.
     and_then (expect (offchain_verify_message D s (slice_of 0 HALF_KEY_SIZE (acknowledgement_bytes a)) sender_node_key)) (\<lambda>b.
       if b then
         map_ok (\<lambda>k. \<lparr>va_ack_key_share = k, va_signature = s\<rparr>)
           (map_err CoreGeneral (half_key_try_from (slice_of 0 HALF_KEY_SIZE (acknowledgement_bytes a))))
       else Err InvalidAcknowledgement))"

text \<open>The parse of an entry in the closure of the batch.\<close>

definition ack_parse :: "acknowledgement \<Rightarrow> (half_key \<times> offchain_signature, general_error) res" where
  "ack_parse a =
     and_then (half_key_try_from (slice_of 0 HALF_KEY_SIZE (acknowledgement_bytes a))) (\<lambda>k.
     map_ok (\<lambda>s. (k, s))
       (offchain_signature_try_from (slice_of HALF_KEY_SIZE OFFCHAIN_SIGNATURE_SIZE (acknowledgement_bytes a))))"

text \<open>
  The loop over the entries. It returns the input of the batch check, or \<open>None\<close> when a key does not
  parse and the loop stops, with the results and keys recorded so far.
\<close>

fun optimistic_loop ::
  "('e, 'v) eddsa \<Rightarrow> (offchain_public_key \<times> 'v) list \<Rightarrow> bytes list \<Rightarrow> bytes list \<Rightarrow> 'v list
    \<Rightarrow> (verified_acknowledgement, core_types_error) res list \<Rightarrow> offchain_public_key option list
    \<Rightarrow> (offchain_public_key \<times> acknowledgement) list
    \<Rightarrow> (bytes list \<times> bytes list \<times> 'v list) option
       \<times> (verified_acknowledgement, core_types_error) res list \<times> offchain_public_key option list" where
  "optimistic_loop D seen msgs sigs vks results keys [] = (Some (msgs, sigs, vks), results, keys)"
| "optimistic_loop D seen msgs sigs vks results keys ((key, ack) # acks) =
     (case ack_parse ack of
        Err e \<Rightarrow> optimistic_loop D seen msgs sigs vks (results @ [Err (CoreGeneral e)]) (keys @ [None]) acks
      | Panic \<Rightarrow> (None, results @ [Panic], keys @ [None])
      | Ok (k, s) \<Rightarrow>
          (let results = results @ [Ok \<lparr>va_ack_key_share = k, va_signature = s\<rparr>];
               keys = keys @ [Some key]
           in case map_of seen key of
                Some v \<Rightarrow> optimistic_loop D seen (msgs @ [half_key_bytes k]) (sigs @ [offchain_signature_bytes s])
                            (vks @ [v]) results keys acks
              | None \<Rightarrow>
                  (case dalek_key D (opk_bytes key) of
                     Some v \<Rightarrow> optimistic_loop D (try_push MEMO_CAPACITY seen (key, v))
                                 (msgs @ [half_key_bytes k]) (sigs @ [offchain_signature_bytes s])
                                 (vks @ [v]) results keys acks
                   | None \<Rightarrow> (None, results, keys))))"

text \<open>A panic while a vector is collected is a panic of the whole call.\<close>

definition collect_results :: "('a, 'e) res list \<Rightarrow> ('a, 'e) res list option" where
  "collect_results rs = (if list_all (\<lambda>r. r \<noteq> Panic) rs then Some rs else None)"

text \<open>The entries to verify again: those with a recorded key and a parsed acknowledgement.\<close>

fun recorded_entry ::
  "offchain_public_key option \<times> (verified_acknowledgement, core_types_error) res
    \<Rightarrow> (offchain_public_key \<times> acknowledgement) option" where
  "recorded_entry (Some key, Ok v) = Some (key, verified_acknowledgement_leak v)"
| "recorded_entry (Some key, Err _) = None"
| "recorded_entry (Some key, Panic) = None"
| "recorded_entry (None, _) = None"

text \<open>
  \<open>sz_lower_bound\<close> is the lower size hint of the iterator. When the batch check fails, what was
  recorded is verified entry by entry; what did not parse is left out.
\<close>

definition ack_verify_batch ::
  "('e, 'v) eddsa \<Rightarrow> nat \<Rightarrow> (offchain_public_key \<times> acknowledgement) list
    \<Rightarrow> (verified_acknowledgement, core_types_error) res list option" where
  "ack_verify_batch D sz_lower_bound acks =
     (if sz_lower_bound < MIN_BATCH_SIZE then
        collect_results (map (\<lambda>(key, ack). ack_verify D ack key) acks)
      else
        case optimistic_loop D [] [] [] [] [] [] acks of (inputs, results, keys) \<Rightarrow>
          (let optimistic_check = (case inputs of None \<Rightarrow> False
                                   | Some (msgs, sigs, vks) \<Rightarrow> dalek_verify_batch D msgs sigs vks)
           in if optimistic_check then collect_results results
              else collect_results (map (\<lambda>(key, ack). ack_verify D ack key)
                (List.map_filter recorded_entry (zip keys results)))))"

section \<open>Well-formed acknowledgements\<close>

text \<open>An acknowledgement read without looking at its signature.\<close>

definition ack_fields :: "acknowledgement \<Rightarrow> verified_acknowledgement" where
  "ack_fields a = \<lparr>va_ack_key_share = HalfKey (take HALF_KEY_SIZE (acknowledgement_bytes a)),
     va_signature = OffchainSignature (drop HALF_KEY_SIZE (acknowledgement_bytes a))\<rparr>"

lemma ack_slices:
  assumes "wf_acknowledgement a"
  shows "slice_of 0 HALF_KEY_SIZE (acknowledgement_bytes a) = half_key_bytes (va_ack_key_share (ack_fields a))"
    "slice_of HALF_KEY_SIZE OFFCHAIN_SIGNATURE_SIZE (acknowledgement_bytes a) =
      offchain_signature_bytes (va_signature (ack_fields a))"
    "wf_verified_acknowledgement (ack_fields a)"
  using assms by (simp_all add: slice_of_def ack_fields_def wf_acknowledgement_def ACKNOWLEDGEMENT_SIZE_def
      wf_verified_acknowledgement_def wf_half_key_def wf_offchain_signature_def)

lemma wf_verified_acknowledgementD:
  assumes "wf_verified_acknowledgement v"
  shows "half_key_try_from (half_key_bytes (va_ack_key_share v)) = Ok (va_ack_key_share v)"
    "offchain_signature_try_from (offchain_signature_bytes (va_signature v)) = Ok (va_signature v)"
    "length (offchain_signature_bytes (va_signature v)) = OFFCHAIN_SIGNATURE_SIZE"
  using assms half_key.try_from_as_ref offchain_signature.try_from_as_ref
  by (simp_all add: wf_verified_acknowledgement_def wf_offchain_signature_def)

lemma ack_leak_fields: "wf_verified_acknowledgement v \<Longrightarrow> ack_fields (verified_acknowledgement_leak v) = v"
  by (cases v, cases "va_ack_key_share v", cases "va_signature v")
    (simp add: ack_fields_def verified_acknowledgement_leak_def wf_verified_acknowledgement_def wf_half_key_def)

lemma ack_fields_leak: "verified_acknowledgement_leak (ack_fields a) = a"
  by (cases a) (simp add: ack_fields_def verified_acknowledgement_leak_def)

lemma wf_leak: "wf_verified_acknowledgement v \<Longrightarrow> wf_acknowledgement (verified_acknowledgement_leak v)"
  by (simp add: wf_verified_acknowledgement_def wf_acknowledgement_def verified_acknowledgement_leak_def
      wf_half_key_def wf_offchain_signature_def ACKNOWLEDGEMENT_SIZE_def)

lemma ack_parse_wf:
  "wf_acknowledgement a \<Longrightarrow> ack_parse a = Ok (va_ack_key_share (ack_fields a), va_signature (ack_fields a))"
  using ack_slices [of a] wf_verified_acknowledgementD [of "ack_fields a"] by (simp add: ack_parse_def)

text \<open>Verification of a well-formed acknowledgement is the check of its signature.\<close>

definition ack_valid :: "('e, 'v) eddsa \<Rightarrow> acknowledgement \<Rightarrow> offchain_public_key \<Rightarrow> bool" where
  "ack_valid D a key \<longleftrightarrow>
     offchain_verify_message D (va_signature (ack_fields a)) (half_key_bytes (va_ack_key_share (ack_fields a))) key = Some True"

lemma ack_verify_wf:
  assumes "wf_acknowledgement a"
  shows "ack_verify D a key = (if ack_valid D a key then Ok (ack_fields a) else Err InvalidAcknowledgement)"
proof -
  note f = ack_slices [OF assms] and p = wf_verified_acknowledgementD [OF ack_slices(3) [OF assms]]
  obtain b where b: "offchain_verify_message D (va_signature (ack_fields a))
      (half_key_bytes (va_ack_key_share (ack_fields a))) key = Some b"
    using p(3) by (simp add: offchain_verify_message_def)
  show ?thesis unfolding ack_verify_def f p ack_valid_def b and_then.simps map_err.simps expect_simps by simp
qed

section \<open>Batches\<close>

definition key_parses :: "('e, 'v) eddsa \<Rightarrow> offchain_public_key \<Rightarrow> bool" where
  "key_parses D k \<longleftrightarrow> dalek_key D (opk_bytes k) \<noteq> None"

text \<open>The entries the loop asks for: up to and including the first whose key does not parse.\<close>

definition pulled :: "('e, 'v) eddsa \<Rightarrow> (offchain_public_key \<times> 'a) list \<Rightarrow> (offchain_public_key \<times> 'a) list" where
  "pulled D acks = take (Suc (length (takeWhile (\<lambda>(k, _). key_parses D k) acks))) acks"

lemma pulled_simps [simp]:
  "pulled D [] = []"
  "pulled D ((k, a) # acks) = (k, a) # (if key_parses D k then pulled D acks else [])"
  by (simp_all add: pulled_def)

lemma pulled_all: "\<forall>(k, a) \<in> set acks. key_parses D k \<Longrightarrow> pulled D acks = acks"
  by (induction acks) auto

lemma memo_ok_lookup_parses: "memo_ok D seen \<Longrightarrow> map_of seen k = Some v \<Longrightarrow> dalek_key D (opk_bytes k) = Some v"
  unfolding memo_ok_def by (blast dest: map_of_SomeD)

definition ack_entry :: "offchain_public_key \<times> acknowledgement \<Rightarrow> batch_entry" where
  "ack_entry = (\<lambda>(k, a). ((half_key_bytes (va_ack_key_share (ack_fields a)), va_signature (ack_fields a)), k))"

text \<open>On well-formed entries the loop is the loop of the batch verifier, and records what it asks for.\<close>

lemma optimistic_loop_eq:
  assumes "memo_ok D seen" "\<forall>(k, a) \<in> set acks. wf_acknowledgement a"
  shows "optimistic_loop D seen msgs sigs vks results keys acks =
    (batch_loop D seen msgs sigs vks (map ack_entry acks),
     results @ map (\<lambda>(k, a). Ok (ack_fields a)) (pulled D acks), keys @ map (\<lambda>(k, a). Some k) (pulled D acks))"
  using assms
proof (induction acks arbitrary: seen msgs sigs vks results keys)
  case (Cons x acks)
  obtain k a where x: "x = (k, a)" by (cases x)
  have p: "ack_parse a = Ok (va_ack_key_share (ack_fields a), va_signature (ack_fields a))"
    using Cons.prems(2) ack_parse_wf by (simp add: x)
  have eta: "\<lparr>va_ack_key_share = va_ack_key_share (ack_fields a), va_signature = va_signature (ack_fields a)\<rparr> = ack_fields a"
    by simp
  have wf: "\<forall>(k, a) \<in> set acks. wf_acknowledgement a" using Cons.prems(2) by simp
  note IH = Cons.IH [OF _ wf]
  show ?case
  proof (cases "map_of seen k")
    case (Some v)
    have "key_parses D k" using memo_ok_lookup_parses [OF Cons.prems(1) Some] by (simp add: key_parses_def)
    then show ?thesis using Some by (simp add: x p ack_entry_def IH [OF Cons.prems(1)])
  next
    case None
    show ?thesis
    proof (cases "dalek_key D (opk_bytes k)")
      case (Some v)
      then have kp: "key_parses D k" by (simp add: key_parses_def)
      show ?thesis
        using None Some kp by (simp add: x p ack_entry_def IH [OF memo_ok_push [OF Cons.prems(1) Some]])
    next
      case parse: None
      then show ?thesis using None by (simp add: x p ack_entry_def key_parses_def)
    qed
  qed
qed simp

lemma collect_results_ok: "Panic \<notin> set rs \<Longrightarrow> collect_results rs = Some rs"
  by (auto simp: collect_results_def list_all_iff)

lemma ack_verify_no_panic:
  "\<forall>(k, a) \<in> set acks. wf_acknowledgement a \<Longrightarrow> Panic \<notin> set (map (\<lambda>(k, a). ack_verify D a k) acks)"
  by (auto dest!: bspec simp: ack_verify_wf split: if_splits)

lemma recorded_entries:
  "List.map_filter recorded_entry
     (zip (map (\<lambda>(k, a). Some k) acks) (map (\<lambda>(k, a). Ok (ack_fields a)) acks)) = acks"
  by (induction acks) (auto simp: List.map_filter_simps ack_fields_leak)

lemma ack_verify_batch_wf:
  assumes "\<forall>(k, a) \<in> set acks. wf_acknowledgement a"
  shows "ack_verify_batch D n acks = Some
    (if n < 4 then map (\<lambda>(k, a). ack_verify D a k) acks
     else if offchain_verify_batch D (map ack_entry acks) then map (\<lambda>(k, a). Ok (ack_fields a)) (pulled D acks)
     else map (\<lambda>(k, a). ack_verify D a k) (pulled D acks))"
proof -
  have m: "memo_ok D []" by (simp add: memo_ok_def)
  have sub: "\<forall>(k, a) \<in> set (pulled D acks). wf_acknowledgement a"
    using assms by (auto simp: pulled_def dest: in_set_takeD)
  note np = collect_results_ok [OF ack_verify_no_panic [OF assms]] collect_results_ok [OF ack_verify_no_panic [OF sub]]
  have oks: "collect_results (map (\<lambda>(k, a). Ok (ack_fields a)) (pulled D acks)) =
      Some (map (\<lambda>(k, a). Ok (ack_fields a)) (pulled D acks))"
    by (rule collect_results_ok) auto
  show ?thesis
    by (simp add: ack_verify_batch_def MIN_BATCH_SIZE_def optimistic_loop_eq [OF m assms] np oks recorded_entries
        offchain_verify_batch_def split: option.splits)
qed

text \<open>A batch with a key that does not parse is not accepted at once.\<close>

lemma batch_bad_key:
  assumes "(k, a) \<in> set acks" "\<not> key_parses D k"
  shows "\<not> offchain_verify_batch D (map ack_entry acks)"
proof -
  have "None \<in> set (batch_keys D (map ack_entry acks))"
    using assms by (force simp: batch_keys_def key_parses_def ack_entry_def)
  moreover have "memo_ok D []" by (simp add: memo_ok_def)
  ultimately show ?thesis by (simp add: offchain_verify_batch_def batch_loop_eq)
qed

lemma pulled_bad_key:
  "\<forall>(k, a) \<in> set pre. key_parses D k \<Longrightarrow> \<not> key_parses D k \<Longrightarrow> pulled D (pre @ (k, a) # rest) = pre @ [(k, a)]"
  by (induction pre) auto

lemma ack_verify_bad_key:
  "wf_acknowledgement a \<Longrightarrow> \<not> key_parses D k \<Longrightarrow> ack_verify D a k = Err InvalidAcknowledgement"
  by (simp add: ack_verify_wf ack_valid_def offchain_verify_message_def key_parses_def)

text \<open>C25. The results of a batch of acknowledgements, for any lower size hint \<open>n\<close> of the iterator. Below
  four the entries are verified one by one. From four on, and when every sender key parses, the
  batch is accepted as it is if the batch check accepts it, and is verified one by one otherwise, so
  there is one result for each entry, in their order. But a sender key that does not parse ends the
  loop of the batch check: the entries after it are never recorded, and the vector that is returned
  holds no result for them. No batch panics.\<close>

theorem ack_verify_batch_results:
  assumes "\<forall>(k, a) \<in> set acks. wf_acknowledgement a"
  shows "(n < 4 \<longrightarrow> ack_verify_batch D n acks = Some (map (\<lambda>(k, a). ack_verify D a k) acks))
    \<and> (4 \<le> n \<and> (\<forall>(k, a) \<in> set acks. key_parses D k) \<longrightarrow>
        ack_verify_batch D n acks = Some (map (\<lambda>(k, a).
          if offchain_verify_batch D (map ack_entry acks) then Ok (ack_fields a) else ack_verify D a k) acks))
    \<and> (4 \<le> n \<and> acks = pre @ (k, a) # rest \<and> (\<forall>(k, a) \<in> set pre. key_parses D k) \<and> \<not> key_parses D k \<longrightarrow>
        ack_verify_batch D n acks = Some (map (\<lambda>(k, a). ack_verify D a k) pre @ [Err InvalidAcknowledgement]))"
proof (intro conjI impI)
  note batch = ack_verify_batch_wf [OF assms, of D n]
  show "ack_verify_batch D n acks = Some (map (\<lambda>(k, a). ack_verify D a k) acks)" if "n < 4"
    using that by (simp add: batch)
  show "ack_verify_batch D n acks = Some (map (\<lambda>(k, a).
      if offchain_verify_batch D (map ack_entry acks) then Ok (ack_fields a) else ack_verify D a k) acks)"
    if "4 \<le> n \<and> (\<forall>(k, a) \<in> set acks. key_parses D k)"
    using that pulled_all [of acks D] by (simp add: batch)
  assume h: "4 \<le> n \<and> acks = pre @ (k, a) # rest \<and> (\<forall>(k, a) \<in> set pre. key_parses D k) \<and> \<not> key_parses D k"
  then have "wf_acknowledgement a" using assms by auto
  moreover have "\<not> offchain_verify_batch D (map ack_entry acks)" using batch_bad_key [of k a acks D] h by simp
  moreover have "pulled D acks = pre @ [(k, a)]" using pulled_bad_key [of pre D k a rest] h by blast
  ultimately show "ack_verify_batch D n acks = Some (map (\<lambda>(k, a). ack_verify D a k) pre @ [Err InvalidAcknowledgement])"
    unfolding batch using h ack_verify_bad_key [of a D k] by simp
qed

section \<open>Signed acknowledgements\<close>

lemma new_acknowledgement:
  assumes "eddsa_ok E D" "wf_offchain_keypair E kp" "wf_half_key k"
  shows "wf_verified_acknowledgement (verified_acknowledgement_new D k kp)"
    "key_parses D (offchain_keypair_public kp)"
    "ack_valid D (verified_acknowledgement_leak (verified_acknowledgement_new D k kp)) (offchain_keypair_public kp)"
proof -
  let ?v = "verified_acknowledgement_new D k kp"
  show wf: "wf_verified_acknowledgement ?v"
    using offchain_sign_verify(2) [OF assms(1,2)] assms(3)
    by (simp add: wf_verified_acknowledgement_def verified_acknowledgement_new_def Let_def)
  show "key_parses D (offchain_keypair_public kp)"
    using assms(1,2) by (auto simp: eddsa_ok_def Let_def key_parses_def)
  show "ack_valid D (verified_acknowledgement_leak ?v) (offchain_keypair_public kp)"
    unfolding ack_valid_def ack_leak_fields [OF wf]
    using offchain_sign_verify(1) [OF assms(1,2)] by (simp add: verified_acknowledgement_new_def Let_def)
qed

lemma new_acknowledgement_verifies:
  assumes "eddsa_ok E D" "wf_offchain_keypair E kp" "wf_half_key k"
  shows "ack_verify D (verified_acknowledgement_leak (verified_acknowledgement_new D k kp))
    (offchain_keypair_public kp) = Ok (verified_acknowledgement_new D k kp)"
  using new_acknowledgement [OF assms] by (simp add: ack_verify_wf wf_leak ack_leak_fields)

text \<open>C26. An acknowledgement that a node signs survives the wire and verifies under the node's key with
  the half key it was made for, alone and in a batch of acknowledgements of any nodes: whatever the
  size hint and whatever the batch check answers, the batch returns every one of them. Another
  half key is accepted only if its own bytes verify under the signature.\<close>

theorem ack_sign_verify:
  assumes "eddsa_ok E D" "\<forall>(k, kp) \<in> set ks. wf_half_key k \<and> wf_offchain_keypair E kp" "(k, kp) \<in> set ks"
  shows "ack_verify_batch D n (map (\<lambda>(k, kp).
        (offchain_keypair_public kp, verified_acknowledgement_leak (verified_acknowledgement_new D k kp))) ks)
      = Some (map (\<lambda>(k, kp). Ok (verified_acknowledgement_new D k kp)) ks)
    \<and> acknowledgement_try_from (acknowledgement_bytes (verified_acknowledgement_leak (verified_acknowledgement_new D k kp)))
      = Ok (verified_acknowledgement_leak (verified_acknowledgement_new D k kp))
    \<and> ack_verify D (verified_acknowledgement_leak (verified_acknowledgement_new D k kp)) (offchain_keypair_public kp)
      = Ok (verified_acknowledgement_new D k kp)
    \<and> (wf_acknowledgement a \<longrightarrow> ack_verify D a pk = Ok v \<longrightarrow>
        acknowledgement_bytes a = half_key_bytes (va_ack_key_share v) @ offchain_signature_bytes (va_signature v)
        \<and> offchain_verify_message D (va_signature v) (half_key_bytes (va_ack_key_share v)) pk = Some True)"
proof (intro conjI impI)
  let ?acks = "map (\<lambda>(k, kp).
        (offchain_keypair_public kp, verified_acknowledgement_leak (verified_acknowledgement_new D k kp))) ks"
  have each: "wf_offchain_keypair E kp" "wf_half_key k" if "(k, kp) \<in> set ks" for k kp using assms(2) that by auto
  have new: "wf_verified_acknowledgement (verified_acknowledgement_new D k kp)"
    "key_parses D (offchain_keypair_public kp)" if "(k, kp) \<in> set ks" for k kp
    using new_acknowledgement [OF assms(1) each [OF that]] by blast+
  have ver: "ack_verify D (verified_acknowledgement_leak (verified_acknowledgement_new D k kp))
      (offchain_keypair_public kp) = Ok (verified_acknowledgement_new D k kp)" if "(k, kp) \<in> set ks" for k kp
    by (rule new_acknowledgement_verifies [OF assms(1) each [OF that]])
  have wf: "\<forall>(k, a) \<in> set ?acks. wf_acknowledgement a" using wf_leak [OF new(1)] by auto
  have "\<forall>(k, a) \<in> set ?acks. key_parses D k" using new(2) by auto
  note all = pulled_all [OF this]
  have f: "map (\<lambda>(k, a). Ok (ack_fields a)) ?acks = map (\<lambda>(k, kp). Ok (verified_acknowledgement_new D k kp)) ks"
    using ack_leak_fields [OF new(1)] by auto
  have v: "map (\<lambda>(k, a). ack_verify D a k) ?acks = map (\<lambda>(k, kp). Ok (verified_acknowledgement_new D k kp)) ks"
    using ver by auto
  show "ack_verify_batch D n ?acks = Some (map (\<lambda>(k, kp). Ok (verified_acknowledgement_new D k kp)) ks)"
    unfolding ack_verify_batch_wf [OF wf] all f v by simp
  show "acknowledgement_try_from (acknowledgement_bytes (verified_acknowledgement_leak (verified_acknowledgement_new D k kp)))
      = Ok (verified_acknowledgement_leak (verified_acknowledgement_new D k kp))"
    by (rule acknowledgement.try_from_as_ref) (rule wf_leak [OF new(1) [OF assms(3)]])
  show "ack_verify D (verified_acknowledgement_leak (verified_acknowledgement_new D k kp)) (offchain_keypair_public kp)
      = Ok (verified_acknowledgement_new D k kp)" by (rule ver [OF assms(3)])
  assume a: "wf_acknowledgement a" "ack_verify D a pk = Ok v"
  then have "v = ack_fields a" "ack_valid D a pk" by (simp_all add: ack_verify_wf split: if_splits)
  then show "acknowledgement_bytes a = half_key_bytes (va_ack_key_share v) @ offchain_signature_bytes (va_signature v)"
    "offchain_verify_message D (va_signature v) (half_key_bytes (va_ack_key_share v)) pk = Some True"
    by (simp_all add: ack_fields_def ack_valid_def)
qed

text \<open>Five acknowledgements, the second with a key that is no point: three results are missing.\<close>

theorem ack_verify_batch_results_witness:
  "let D = eddsa_toy \<lparr>dalek_key := (\<lambda>b. if hd b = 0 then None else Some b)\<rparr>;
       a = Acknowledgement (replicate 96 1);
       good = (OffchainPublicKey (replicate 32 1), a);
       bad = (OffchainPublicKey (replicate 32 0), a)
   in map_option length (ack_verify_batch D 5 [good, bad, good, good, good]) = Some 2"
proof -
  let ?D = "eddsa_toy \<lparr>dalek_key := (\<lambda>b. if hd b = 0 then None else Some b)\<rparr>"
  let ?a = "Acknowledgement (replicate 96 1)"
  let ?good = "(OffchainPublicKey (replicate 32 1), ?a)"
  let ?bad = "OffchainPublicKey (replicate 32 0)"
  have wf: "\<forall>(k, a) \<in> set [?good, (?bad, ?a), ?good, ?good, ?good]. wf_acknowledgement a"
    by (simp add: wf_acknowledgement_def ACKNOWLEDGEMENT_SIZE_def HALF_KEY_SIZE_def OFFCHAIN_SIGNATURE_SIZE_def)
  have k: "key_parses ?D (OffchainPublicKey (replicate 32 1))" "\<not> key_parses ?D ?bad"
    by (simp_all add: key_parses_def)
  show ?thesis
    using ack_verify_batch_results [OF wf, of 5 ?D "[?good]" ?bad ?a "[?good, ?good, ?good]"] k by (simp add: Let_def)
qed

theorem ack_sign_verify_witness:
  "\<exists>kp. wf_offchain_keypair ed_std kp \<and>
     ack_verify eddsa_toy (verified_acknowledgement_leak (verified_acknowledgement_new eddsa_toy (HalfKey (replicate 32 7)) kp))
       (offchain_keypair_public kp) = Ok (verified_acknowledgement_new eddsa_toy (HalfKey (replicate 32 7)) kp)"
proof -
  obtain kp where kp: "wf_offchain_keypair ed_std kp" using offchain_keypair_example by blast
  let ?k = "HalfKey (replicate 32 7)"
  have "wf_half_key ?k" by (simp add: wf_half_key_def HALF_KEY_SIZE_def)
  then have "\<forall>(k, kp) \<in> set [(?k, kp)]. wf_half_key k \<and> wf_offchain_keypair ed_std kp" using kp by simp
  from ack_sign_verify [OF eddsa_ok_toy this, of ?k kp] show ?thesis using kp by auto
qed

end
