(* ===== verification/Paths.thy ===== *)
theory Paths
  imports Accounts Channels
begin

text \<open>
  \<open>internal/path.rs\<close>: abstract paths, transport and chain paths, and the validation of a path against
  the resolver of addresses and channels. The trait \<open>Path\<close> is the locale \<open>path_trait\<close>, \<open>NonEmptyPath\<close> the
  locale \<open>nonempty_path_trait\<close>; all path types interpret them. The resolver's asynchronous functions are
  a record of functions: its answers do not change while one path is validated.
\<close>

section \<open>The traits\<close>

definition contains_cycle :: "('n \<Rightarrow> node_id) \<Rightarrow> 'n list \<Rightarrow> bool" where
  "contains_cycle into hops \<longleftrightarrow> card (set (map into hops)) \<noteq> length hops"

lemma contains_cycle_iff: "contains_cycle into hops \<longleftrightarrow> \<not> distinct (map into hops)"
  by (metis card_distinct contains_cycle_def distinct_card length_map)

lemma contains_cycle_rev [simp]: "contains_cycle into (rev hops) = contains_cycle into hops"
  by (simp add: contains_cycle_def)

definition num_hops :: "'n list \<Rightarrow> nat" where
  "num_hops hops = length hops"

locale path_trait =
  fixes hops :: "'p \<Rightarrow> 'n list"
    and invert :: "'p \<Rightarrow> 'p option"
  assumes invert_rev: "invert p = Some q \<Longrightarrow> hops q = rev (hops p)"
begin

lemma invert_num_hops: "invert p = Some q \<Longrightarrow> num_hops (hops q) = num_hops (hops p)"
  by (simp add: num_hops_def invert_rev)

lemma invert_cycle: "invert p = Some q \<Longrightarrow> contains_cycle into (hops q) = contains_cycle into (hops p)"
  by (simp add: invert_rev)

lemma invert_twice: "invert p = Some q \<Longrightarrow> invert q = Some r \<Longrightarrow> hops r = hops p"
  by (simp add: invert_rev)

end

locale nonempty_path_trait = path_trait +
  fixes valid :: "'a \<Rightarrow> bool"
  assumes valid_hops: "valid p \<Longrightarrow> hops p \<noteq> []"
    and valid_invert: "valid p \<Longrightarrow> invert p = Some q \<Longrightarrow> valid q"
begin

definition last_hop :: "'a \<Rightarrow> 'b option" where
  "last_hop p = (if hops p = [] then None else Some (last (hops p)))"

lemma last_hop_exists: "valid p \<Longrightarrow> \<exists>n. last_hop p = Some n \<and> n \<in> set (hops p)"
  using valid_hops by (simp add: last_hop_def)

lemma last_hop_invert: "valid p \<Longrightarrow> invert p = Some q \<Longrightarrow> last_hop q = Some (hd (hops p))"
  using valid_hops [of p] by (simp add: last_hop_def invert_rev last_rev)

end

section \<open>Path types\<close>

definition vec_invert :: "'n list \<Rightarrow> 'n list option" where
  "vec_invert p = Some (rev p)"

interpretation vec_path: path_trait "\<lambda>p. p" vec_invert
  by unfold_locales (simp add: vec_invert_def)

type_synonym channel_path = "address list"

datatype transport_path = TransportPath (transport_hops: "offchain_public_key list")

definition transport_path_new :: "offchain_public_key list \<Rightarrow> (transport_path, path_error) res" where
  "transport_path_new hops = (if hops \<noteq> [] then Ok (TransportPath hops) else Err PathNotValid)"

definition transport_path_direct :: "offchain_public_key \<Rightarrow> transport_path" where
  "transport_path_direct destination = TransportPath [destination]"

definition transport_path_invert :: "transport_path \<Rightarrow> transport_path option" where
  "transport_path_invert p = Some (TransportPath (rev (transport_hops p)))"

interpretation transport_path: nonempty_path_trait transport_hops transport_path_invert
  "\<lambda>p. transport_path_new (transport_hops p) = Ok p"
  by unfold_locales (auto simp: transport_path_invert_def transport_path_new_def split: if_splits)

datatype chain_path = ChainPath (chain_hops: "address list")

definition chain_path_new :: "address list \<Rightarrow> (chain_path, path_error) res" where
  "chain_path_new hops = (if hops \<noteq> [] then Ok (ChainPath hops) else Err PathNotValid)"

definition chain_path_from_channel_path :: "channel_path \<Rightarrow> address \<Rightarrow> chain_path" where
  "chain_path_from_channel_path path destination = ChainPath (path @ [destination])"

definition chain_path_direct :: "address \<Rightarrow> chain_path" where
  "chain_path_direct destination = ChainPath [destination]"

definition chain_path_into_channel_path :: "chain_path \<Rightarrow> channel_path" where
  "chain_path_into_channel_path p = butlast (chain_hops p)"

text \<open>The conversion \<open>From\<close> takes \<open>len - 1\<close> hops; on an empty vector the subtraction would panic.\<close>

definition channel_path_from :: "chain_path \<Rightarrow> channel_path option" where
  "channel_path_from p =
     (if length (chain_hops p) = 0 then None else Some (take (length (chain_hops p) - 1) (chain_hops p)))"

definition chain_path_invert :: "chain_path \<Rightarrow> chain_path option" where
  "chain_path_invert p = Some (ChainPath (rev (chain_hops p)))"

interpretation chain_path: nonempty_path_trait chain_hops chain_path_invert
  "\<lambda>p. chain_path_new (chain_hops p) = Ok p"
  by unfold_locales (auto simp: chain_path_invert_def chain_path_new_def split: if_splits)

lemma channel_path_roundtrip:
  "chain_path_into_channel_path (chain_path_from_channel_path p d) = p"
  "channel_path_from (chain_path_from_channel_path p d) = Some p"
  by (simp_all add: chain_path_into_channel_path_def chain_path_from_channel_path_def channel_path_from_def)

lemma channel_path_from_eq:
  "chain_hops p \<noteq> [] \<Longrightarrow> channel_path_from p = Some (chain_path_into_channel_path p)"
  by (simp add: channel_path_from_def chain_path_into_channel_path_def butlast_conv_take)

section \<open>Validation\<close>

record resolver =
  resolve_transport_address :: "address \<Rightarrow> (offchain_public_key option, path_error) res"
  resolve_chain_address :: "offchain_public_key \<Rightarrow> (address option, path_error) res"
  get_channel :: "address \<Rightarrow> address \<Rightarrow> (channel_entry option, path_error) res"

datatype validated_path = ValidatedPath (validated_transport: transport_path) (validated_chain: chain_path)

definition validated_path_direct :: "offchain_public_key \<Rightarrow> address \<Rightarrow> validated_path" where
  "validated_path_direct dst_key dst_address = ValidatedPath (TransportPath [dst_key]) (ChainPath [dst_address])"

definition validated_path_invert :: "validated_path \<Rightarrow> validated_path option" where
  "validated_path_invert p = None"

text \<open>The message of the error is built before the answer is looked at.\<close>

definition resolve_origin ::
  "'e edlib \<Rightarrow> resolver \<Rightarrow> node_id \<Rightarrow> (address, path_error) res" where
  "resolve_origin E R origin =
     (case origin of
        Chain addr \<Rightarrow> Ok addr
      | Offchain key \<Rightarrow>
          and_then (resolve_chain_address R key) (\<lambda>r.
          and_then (expect (to_peerid_str E key)) (\<lambda>s. ok_or (InvalidPeer s) r)))"

definition resolve_hop ::
  "'e edlib \<Rightarrow> hexlib \<Rightarrow> resolver \<Rightarrow> node_id \<Rightarrow> (offchain_public_key \<times> address, path_error) res" where
  "resolve_hop E h R hop =
     (case hop of
        Chain addr \<Rightarrow>
          and_then (resolve_transport_address R addr) (\<lambda>r.
          and_then (ok_or (InvalidPeer (to_hex h address_bytes addr)) r) (\<lambda>key. Ok (key, addr)))
      | Offchain key \<Rightarrow>
          and_then (resolve_chain_address R key) (\<lambda>r.
          and_then (expect (to_peerid_str E key)) (\<lambda>s.
          and_then (ok_or (InvalidPeer s) r) (\<lambda>addr. Ok (key, addr)))))"

definition check_channel_open :: "hexlib \<Rightarrow> resolver \<Rightarrow> address \<Rightarrow> address \<Rightarrow> (unit, path_error) res" where
  "check_channel_open h R ticket_issuer ticket_receiver =
     and_then (get_channel R ticket_issuer ticket_receiver) (\<lambda>r.
     and_then (ok_or (MissingChannel (to_hex h address_bytes ticket_issuer) (to_hex h address_bytes ticket_receiver)) r)
       (\<lambda>channel.
         if \<not> channel_status_eq (channel_status channel) Open then
           Err (ChannelNotOpened (to_hex h address_bytes ticket_issuer) (to_hex h address_bytes ticket_receiver))
         else Ok ()))"

fun validate_loop ::
  "'e edlib \<Rightarrow> hexlib \<Rightarrow> resolver \<Rightarrow> nat \<Rightarrow> nat \<Rightarrow> address \<Rightarrow> offchain_public_key list \<Rightarrow> address list \<Rightarrow> address set
    \<Rightarrow> node_id list \<Rightarrow> (offchain_public_key list \<times> address list, path_error) res" where
  "validate_loop E h R n i ticket_issuer keys addrs seen [] = Ok (keys, addrs)"
| "validate_loop E h R n i ticket_issuer keys addrs seen (hop # hops) =
     and_then (resolve_hop E h R hop) (\<lambda>(key, ticket_receiver).
     if ticket_issuer = ticket_receiver then Err (LoopsNotAllowed (to_hex h address_bytes ticket_receiver))
     else if ticket_receiver \<in> seen then Err (LoopsNotAllowed (to_hex h address_bytes ticket_receiver))
     else
       and_then
         (if i < n - 1 then check_channel_open h R ticket_issuer ticket_receiver else Ok ())
         (\<lambda>_. validate_loop E h R n (i + 1) ticket_receiver (keys @ [key]) (addrs @ [ticket_receiver])
                (insert ticket_receiver seen) hops))"

definition validated_path_new ::
  "'e edlib \<Rightarrow> hexlib \<Rightarrow> resolver \<Rightarrow> node_id \<Rightarrow> node_id list \<Rightarrow> (validated_path, path_error) res" where
  "validated_path_new E h R origin hops =
     (if hops = [] then Err PathNotValid
      else
        and_then (resolve_origin E R origin) (\<lambda>ticket_issuer.
        map_ok (\<lambda>(keys, addrs). ValidatedPath (TransportPath keys) (ChainPath addrs))
          (validate_loop E h R (num_hops hops) 0 ticket_issuer [] [] {} hops)))"

definition validated_hops :: "validated_path \<Rightarrow> offchain_public_key list" where
  "validated_hops p = transport_hops (validated_transport p)"

interpretation validated_path: nonempty_path_trait validated_hops validated_path_invert
  "\<lambda>p. transport_path_new (validated_hops p) = Ok (validated_transport p)"
  by unfold_locales (auto simp: validated_path_invert_def transport_path_new_def split: if_splits)

section \<open>What a validated path satisfies\<close>

fun hop_resolves :: "resolver \<Rightarrow> node_id \<Rightarrow> offchain_public_key \<Rightarrow> address \<Rightarrow> bool" where
  "hop_resolves R (Chain addr) k a \<longleftrightarrow> a = addr \<and> resolve_transport_address R addr = Ok (Some k)"
| "hop_resolves R (Offchain key) k a \<longleftrightarrow> k = key \<and> resolve_chain_address R key = Ok (Some a)"

definition open_channel :: "resolver \<Rightarrow> address \<Rightarrow> address \<Rightarrow> bool" where
  "open_channel R src dst \<longleftrightarrow> (\<exists>c. get_channel R src dst = Ok (Some c) \<and> channel_status c = Open)"

fun hops_ok :: "resolver \<Rightarrow> address \<Rightarrow> address set \<Rightarrow> node_id list \<Rightarrow> offchain_public_key list \<Rightarrow> address list \<Rightarrow> bool" where
  "hops_ok R issuer seen [] ks as \<longleftrightarrow> ks = [] \<and> as = []"
| "hops_ok R issuer seen (h # hs) ks as \<longleftrightarrow> (\<exists>k ks' a as'. ks = k # ks' \<and> as = a # as'
     \<and> hop_resolves R h k a \<and> issuer \<noteq> a \<and> a \<notin> seen \<and> (hs \<noteq> [] \<longrightarrow> open_channel R issuer a)
     \<and> hops_ok R a (insert a seen) hs ks' as')"

text \<open>A key of 32 bytes has a peer id, so the error of an unresolved key can be built.\<close>

lemma resolve_hop_Ok:
  assumes "edlib_ok E" "wf_node_id hop"
  shows "resolve_hop E h R hop = Ok (k, a) \<longleftrightarrow> hop_resolves R hop k a"
proof (cases hop)
  case (Offchain key)
  with assms(2) have "peer_id_from E key \<noteq> None" using peer_id_from_eq [OF assms(1)] by simp
  then obtain s where "to_peerid_str E key = Some s" by (auto simp: to_peerid_str_def)
  then show ?thesis by (auto simp: resolve_hop_def Offchain)
qed (auto simp: resolve_hop_def)

lemma status_eq_Open: "channel_status_eq s Open \<longleftrightarrow> s = Open"
  by (cases s) simp_all

lemma check_channel_open_Ok: "check_channel_open h R src dst = Ok u \<longleftrightarrow> open_channel R src dst"
  by (auto simp: check_channel_open_def open_channel_def status_eq_Open split: if_splits)

lemma validate_loop_Ok:
  assumes "edlib_ok E"
  shows "list_all wf_node_id hops \<Longrightarrow> n = i + length hops \<Longrightarrow>
    validate_loop E h R n i issuer keys addrs seen hops = Ok (ks, as) \<longleftrightarrow>
      (\<exists>ks' as'. ks = keys @ ks' \<and> as = addrs @ as' \<and> hops_ok R issuer seen hops ks' as')"
proof (induction hops arbitrary: i issuer keys addrs seen)
  case Nil
  then show ?case by auto
next
  case (Cons hop hops)
  have last: "i < n - 1 \<longleftrightarrow> hops \<noteq> []" using Cons.prems by (cases hops) simp_all
  have wf: "wf_node_id hop" using Cons.prems by simp
  have IH: "validate_loop E h R n (i + 1) a (keys @ [k]) (addrs @ [a]) (insert a seen) hops = Ok (ks, as) \<longleftrightarrow>
      (\<exists>ks' as'. ks = (keys @ [k]) @ ks' \<and> as = (addrs @ [a]) @ as' \<and> hops_ok R a (insert a seen) hops ks' as')"
    for a k by (rule Cons.IH) (use Cons.prems in simp_all)
  have "validate_loop E h R n i issuer keys addrs seen (hop # hops) = Ok (ks, as) \<longleftrightarrow>
      (\<exists>k a. hop_resolves R hop k a \<and> issuer \<noteq> a \<and> a \<notin> seen \<and> (hops \<noteq> [] \<longrightarrow> open_channel R issuer a)
        \<and> validate_loop E h R n (i + 1) a (keys @ [k]) (addrs @ [a]) (insert a seen) hops = Ok (ks, as))"
  proof -
    have "(if hops \<noteq> [] then check_channel_open h R issuer a else Ok ()) = Ok u
        \<longleftrightarrow> (hops \<noteq> [] \<longrightarrow> open_channel R issuer a)" for a u
      by (simp add: check_channel_open_Ok)
    then show ?thesis
      unfolding validate_loop.simps and_then_eq_Ok last
      by (auto simp: resolve_hop_Ok [OF assms wf] split: if_splits)
  qed
  also have "\<dots> \<longleftrightarrow> (\<exists>ks' as'. ks = keys @ ks' \<and> as = addrs @ as' \<and> hops_ok R issuer seen (hop # hops) ks' as')"
    unfolding IH by auto
  finally show ?case .
qed

text \<open>The same condition position by position.\<close>

definition path_valid :: "resolver \<Rightarrow> address \<Rightarrow> node_id list \<Rightarrow> offchain_public_key list \<Rightarrow> address list \<Rightarrow> bool" where
  "path_valid R src hops ks as \<longleftrightarrow>
     length ks = length hops \<and> length as = length hops
   \<and> (\<forall>i<length hops. hop_resolves R (hops ! i) (ks ! i) (as ! i))
   \<and> distinct as \<and> (hops \<noteq> [] \<longrightarrow> src \<noteq> hd as)
   \<and> (\<forall>i<length hops - 1. open_channel R ((src # as) ! i) (as ! i))"

lemma all_less_Suc_shift: "(\<forall>i<Suc n. P i) \<longleftrightarrow> P 0 \<and> (\<forall>i<n. P (Suc i))"
  by (metis less_Suc_eq_0_disj)

lemma hops_ok_iff:
  "issuer \<in> seen \<or> seen = {} \<Longrightarrow> hops_ok R issuer seen hops ks as \<longleftrightarrow> path_valid R issuer hops ks as \<and> set as \<inter> seen = {}"
proof (induction hops arbitrary: issuer seen ks as)
  case Nil
  then show ?case by (auto simp: path_valid_def)
next
  case (Cons hop hops)
  show ?case
  proof (cases ks; cases as)
    fix k ks' a as'
    assume e: "ks = k # ks'" "as = a # as'"
    have "hops_ok R issuer seen (hop # hops) ks as \<longleftrightarrow>
        hop_resolves R hop k a \<and> issuer \<noteq> a \<and> a \<notin> seen \<and> (hops \<noteq> [] \<longrightarrow> open_channel R issuer a)
        \<and> path_valid R a hops ks' as' \<and> set as' \<inter> insert a seen = {}"
      using Cons.IH [of a "insert a seen" ks' as'] by (simp add: e)
    also have "\<dots> \<longleftrightarrow> path_valid R issuer (hop # hops) ks as \<and> set as \<inter> seen = {}"
    proof (cases hops)
      case Nil
      then show ?thesis by (auto simp: path_valid_def e)
    next
      case (Cons x xs)
      then show ?thesis
        by (cases as') (auto simp: path_valid_def e all_less_Suc_shift)
    qed
    finally show ?thesis .
  qed (auto simp: path_valid_def)
qed

text \<open>What the loop returns from the start of a path, as the positional condition.\<close>

lemma validated_path_new_Ok:
  assumes "edlib_ok E" "list_all wf_node_id hops"
  shows "validated_path_new E h R origin hops = Ok p \<longleftrightarrow>
    hops \<noteq> [] \<and> (\<exists>src. resolve_origin E R origin = Ok src
      \<and> path_valid R src hops (validated_hops p) (chain_hops (validated_chain p)))"
proof -
  obtain ks as where p: "p = ValidatedPath (TransportPath ks) (ChainPath as)"
    by (metis chain_path.exhaust transport_path.exhaust validated_path.exhaust)
  have loop: "validate_loop E h R (num_hops hops) 0 src [] [] {} hops = Ok (ks, as) \<longleftrightarrow> path_valid R src hops ks as" for src
    using validate_loop_Ok [OF assms, of "num_hops hops" 0] by (simp add: num_hops_def hops_ok_iff)
  show ?thesis
    using loop by (auto simp: validated_path_new_def validated_hops_def p)
qed

text \<open>C27. Path validation: for a path that is not empty, of keys and addresses of their lengths, and an
  origin that resolves, the result is the path of the keys and addresses the hops resolve to, exactly
  if every hop resolves, the addresses are pairwise different, the origin is not the first of them, and
  every channel from the origin along the path but the last one exists and is open. (The origin may
  return further down the path: only the first hop is compared with it.)\<close>

theorem validated_path_spec:
  assumes "edlib_ok E" "list_all wf_node_id hops" "hops \<noteq> []" "resolve_origin E R origin = Ok src"
  shows "validated_path_new E h R origin hops = Ok p \<longleftrightarrow>
    path_valid R src hops (transport_hops (validated_transport p)) (chain_hops (validated_chain p))"
  using assms(3,4) by (simp add: validated_path_new_Ok [OF assms(1,2)] validated_hops_def)

lemma validated_path_empty: "validated_path_new E h R origin [] = Err PathNotValid"
  by (simp add: validated_path_new_def)

text \<open>The addresses are compared, the keys are not: a key occurs twice exactly if the resolver gives one
  key to the addresses of two hops. Two hops that are given by their keys never do that, since a key
  has one address.\<close>

definition shared_key :: "resolver \<Rightarrow> node_id list \<Rightarrow> bool" where
  "shared_key R hops \<longleftrightarrow> (\<exists>i<length hops. \<exists>j<i. \<exists>k a b.
     hop_resolves R (hops ! i) k a \<and> hop_resolves R (hops ! j) k b)"

lemma hop_resolves_unique: "hop_resolves R h k a \<Longrightarrow> hop_resolves R h k' b \<Longrightarrow> k = k' \<and> a = b"
  by (cases h) auto

lemma path_valid_keys:
  assumes "path_valid R src hops ks as"
  shows "distinct ks \<longleftrightarrow> \<not> shared_key R hops"
proof -
  have len: "length ks = length hops" using assms by (simp add: path_valid_def)
  have r: "hop_resolves R (hops ! i) k a \<longleftrightarrow> k = ks ! i \<and> a = as ! i" if "i < length hops" for i k a
    using assms that hop_resolves_unique unfolding path_valid_def by blast
  have "shared_key R hops \<longleftrightarrow> (\<exists>i<length hops. \<exists>j<i. ks ! i = ks ! j)"
    unfolding shared_key_def using r by (metis less_trans)
  also have "\<dots> \<longleftrightarrow> \<not> distinct ks"
    unfolding distinct_conv_nth len by (metis less_trans nat_neq_iff)
  finally show ?thesis by blast
qed

lemma path_valid_offchain_keys:
  assumes "path_valid R src hops ks as" "\<forall>h \<in> set hops. \<exists>k. h = Offchain k"
  shows "distinct ks"
proof -
  have r: "resolve_chain_address R (ks ! i) = Ok (Some (as ! i))" if "i < length hops" for i
  proof -
    have "hops ! i \<in> set hops" using that by simp
    then obtain k where "hops ! i = Offchain k" using assms(2) by blast
    moreover have "hop_resolves R (hops ! i) (ks ! i) (as ! i)" using assms(1) that by (simp add: path_valid_def)
    ultimately show ?thesis by simp
  qed
  have len: "length ks = length hops" "length as = length hops" "distinct as"
    using assms(1) by (simp_all add: path_valid_def)
  show ?thesis unfolding distinct_conv_nth
  proof (intro allI impI)
    fix i j
    assume ij: "i < length ks" "j < length ks" "i \<noteq> j"
    then have "as ! i \<noteq> as ! j" using len by (simp add: nth_eq_iff_index_eq)
    then show "ks ! i \<noteq> ks ! j" using r [of i] r [of j] ij len by auto
  qed
qed

text \<open>C28. A validated path can carry packets: it has as many hops as were given, at least one, no address
  twice, and its last hop is what the last given hop resolves to; it cannot be inverted. Its keys are
  not compared with each other: one of them occurs twice exactly if the resolver gives one key to two
  of the hops, which is impossible when the hops are given by their keys.\<close>

theorem validated_path_acyclic:
  assumes "edlib_ok E" "list_all wf_node_id hops" "validated_path_new E h R origin hops = Ok p"
  shows "num_hops (validated_hops p) = num_hops hops \<and> hops \<noteq> []
    \<and> \<not> contains_cycle Chain (chain_hops (validated_chain p))
    \<and> (contains_cycle Offchain (validated_hops p) \<longleftrightarrow> shared_key R hops)
    \<and> ((\<forall>n \<in> set hops. \<exists>k. n = Offchain k) \<longrightarrow> \<not> contains_cycle Offchain (validated_hops p))
    \<and> hop_resolves R (last hops) (last (validated_hops p)) (last (chain_hops (validated_chain p)))
    \<and> validated_path_invert p = None"
proof -
  obtain src where ne: "hops \<noteq> []" and v: "path_valid R src hops (validated_hops p) (chain_hops (validated_chain p))"
    using validated_path_new_Ok [OF assms(1,2)] assms(3) by blast
  have len: "length (validated_hops p) = length hops" "length (chain_hops (validated_chain p)) = length hops"
    using v by (simp_all add: path_valid_def)
  have "hop_resolves R (hops ! (length hops - 1)) (validated_hops p ! (length hops - 1))
      (chain_hops (validated_chain p) ! (length hops - 1))"
    using v ne by (simp add: path_valid_def)
  moreover have "validated_hops p \<noteq> []" "chain_hops (validated_chain p) \<noteq> []" using len ne by auto
  moreover have "contains_cycle Offchain (validated_hops p) \<longleftrightarrow> \<not> distinct (validated_hops p)"
    by (simp add: contains_cycle_iff distinct_map inj_on_def)
  moreover have "\<not> contains_cycle Chain (chain_hops (validated_chain p))"
    using v by (simp add: contains_cycle_iff distinct_map inj_on_def path_valid_def)
  ultimately show ?thesis
    using len ne path_valid_keys [OF v] path_valid_offchain_keys [OF v]
    by (simp add: last_conv_nth num_hops_def validated_path_invert_def)
qed

section \<open>Path selection\<close>

definition INTERMEDIATE_HOPS :: nat where
  "INTERMEDIATE_HOPS = 3"

type_synonym path_selector = "address \<Rightarrow> address \<Rightarrow> nat \<Rightarrow> nat \<Rightarrow> (channel_path, path_error) res"

definition select_auto_path :: "path_selector \<Rightarrow> address \<Rightarrow> address \<Rightarrow> (channel_path, path_error) res" where
  "select_auto_path select_path source destination = select_path source destination 1 INTERMEDIATE_HOPS"

definition no_path_selector :: "hexlib \<Rightarrow> path_selector" where
  "no_path_selector h source destination min_hops max_hops =
     Err (PathNotFound min_hops (to_hex h address_bytes source) (to_hex h address_bytes destination))"

lemma no_path_selector_auto:
  "select_auto_path (no_path_selector h) src dst = Err (PathNotFound 1 (to_hex h address_bytes src) (to_hex h address_bytes dst))"
  by (simp add: select_auto_path_def no_path_selector_def)

section \<open>A concrete network\<close>

text \<open>Nodes \<open>n\<close> with an address of 20 and a key of 32 bytes \<open>n\<close>; all channels are open.\<close>

definition node_address :: "u8 \<Rightarrow> address" where
  "node_address n = Address (replicate 20 n)"

definition node_key :: "u8 \<Rightarrow> offchain_public_key" where
  "node_key n = OffchainPublicKey (replicate 32 n)"

definition resolver_example :: resolver where
  "resolver_example = \<lparr>
     resolve_transport_address = (\<lambda>a. Ok (Some (node_key (hd (address_bytes a))))),
     resolve_chain_address = (\<lambda>k. Ok (Some (node_address (hd (opk_bytes k))))),
     get_channel = (\<lambda>src dst. Ok (Some (channel_entry_new (\<lambda>_. []) src dst (balance_from wxhopr_currency 1) 0 Open 1)))\<rparr>"

lemma node_address_hd [simp]: "hd (address_bytes (node_address n)) = n" "hd (opk_bytes (node_key n)) = n"
  by (simp_all add: node_address_def node_key_def)

lemma node_address_eq [simp]: "node_address m = node_address n \<longleftrightarrow> m = n"
  by (metis node_address_hd(1))

lemma wf_nodes [simp]: "wf_address (node_address n)" "wf_opk (node_key n)"
  by (simp_all add: node_address_def node_key_def wf_address_def ADDRESS_SIZE_def wf_opk_def OPK_SIZE_def)

lemma path_example:
  "path_valid resolver_example (node_address 0) [Chain (node_address 1), Offchain (node_key 2)]
     [node_key 1, node_key 2] [node_address 1, node_address 2]"
  by (simp add: path_valid_def resolver_example_def open_channel_def channel_entry_new_def all_less_Suc_shift)

theorem validated_path_spec_witness:
  "validated_path_new ed_std hex_std resolver_example (Chain (node_address 0)) [Chain (node_address 1), Offchain (node_key 2)]
   = Ok (ValidatedPath (TransportPath [node_key 1, node_key 2]) (ChainPath [node_address 1, node_address 2]))"
proof -
  have "list_all wf_node_id [Chain (node_address 1), Offchain (node_key 2)]"
    and "resolve_origin ed_std resolver_example (Chain (node_address 0)) = Ok (node_address 0)"
    by (simp_all add: resolve_origin_def)
  from validated_path_spec [OF edlib_ok_std this(1) _ this(2)] show ?thesis using path_example by simp
qed

theorem validated_path_acyclic_witness:
  "\<exists>p. validated_path_new ed_std hex_std resolver_example (Chain (node_address 0)) [Chain (node_address 1), Offchain (node_key 2)] = Ok p
     \<and> num_hops (validated_hops p) = 2 \<and> (contains_cycle Offchain (validated_hops p)
         \<longleftrightarrow> shared_key resolver_example [Chain (node_address 1), Offchain (node_key 2)])"
proof -
  have wf: "list_all wf_node_id [Chain (node_address 1), Offchain (node_key 2)]" by simp
  have "resolve_origin ed_std resolver_example (Chain (node_address 0)) = Ok (node_address 0)"
    by (simp add: resolve_origin_def)
  then have p: "validated_path_new ed_std hex_std resolver_example (Chain (node_address 0)) [Chain (node_address 1), Offchain (node_key 2)]
      = Ok (ValidatedPath (TransportPath [node_key 1, node_key 2]) (ChainPath [node_address 1, node_address 2]))"
    using path_example by (auto simp: validated_path_new_Ok [OF edlib_ok_std wf] validated_hops_def)
  from validated_path_acyclic [OF edlib_ok_std wf p] p show ?thesis by (auto simp: num_hops_def)
qed

end
