(* ===== verification/Routing.thy ===== *)
theory Routing
  imports Paths Bounded
begin

text \<open>
  \<open>internal/routing.rs\<close>: routing options, the matching of SURBs (single use reply blocks), the routing
  of a packet before and after its resolution, and the identifiers of packet senders with their
  pseudorandom sequence. The random pseudonym of \<open>forward_only\<close> and the random SURB identifier of
  \<open>new\<close> are arguments; the hash is the digest \<open>blake3\<close>.
\<close>

section \<open>Routing options\<close>

datatype routing_options = IntermediatePath "node_id bounded_vec" | Hops bounded_size

definition MAX_INTERMEDIATE_HOPS :: nat where
  "MAX_INTERMEDIATE_HOPS = 3"

fun routing_invert :: "routing_options \<Rightarrow> routing_options" where
  "routing_invert (IntermediatePath v) = IntermediatePath (bvec_from_iter MAX_INTERMEDIATE_HOPS (rev (bvec_into_iter v)))"
| "routing_invert (Hops h) = Hops h"

fun count_hops :: "routing_options \<Rightarrow> nat" where
  "count_hops (IntermediatePath v) = length (bvec_as_ref v)"
| "count_hops (Hops h) = unat (bounded_into_usize h)"

fun wf_routing :: "routing_options \<Rightarrow> bool" where
  "wf_routing (IntermediatePath v) \<longleftrightarrow> wf_bvec MAX_INTERMEDIATE_HOPS v"
| "wf_routing (Hops h) \<longleftrightarrow> wf_bounded (of_nat MAX_INTERMEDIATE_HOPS) h"

lemma routing_invert_laws:
  assumes "wf_routing r"
  shows "wf_routing (routing_invert r)" "routing_invert (routing_invert r) = r"
    "count_hops (routing_invert r) = count_hops r" "count_hops r \<le> MAX_INTERMEDIATE_HOPS"
proof -
  have "unat (bounded_value h) \<le> 3" if "bounded_value h \<le> 3" for h
    using that by (simp add: word_le_nat_alt)
  then show "count_hops r \<le> MAX_INTERMEDIATE_HOPS"
    using assms by (cases r) (simp_all add: wf_bvec_def bvec_as_ref_def wf_bounded_def bounded_into_usize_def
        MAX_INTERMEDIATE_HOPS_def)
  show "wf_routing (routing_invert r)" "routing_invert (routing_invert r) = r"
    "count_hops (routing_invert r) = count_hops r"
    using assms
    by (cases r; simp add: wf_bvec_def bvec_as_ref_def bvec_from_iter_def bvec_into_iter_def bounded_vec.expand)+
qed

section \<open>Sender identifiers\<close>

datatype sender_id = HoprSenderId (sender_bytes: bytes)

definition SURB_ID_SIZE :: nat where
  "SURB_ID_SIZE = 8"

definition SENDER_ID_SIZE :: nat where
  "SENDER_ID_SIZE = PSEUDONYM_SIZE + SURB_ID_SIZE"

definition sender_id_try_from :: "bytes \<Rightarrow> (sender_id, general_error) res" where
  "sender_id_try_from = array_try_from HoprSenderId SENDER_ID_SIZE ''HoprSenderId.size''"

definition wf_sender_id :: "sender_id \<Rightarrow> bool" where
  "wf_sender_id s \<longleftrightarrow> length (sender_bytes s) = SENDER_ID_SIZE"

interpretation sender_id: bytes_representable sender_bytes sender_id_try_from SENDER_ID_SIZE wf_sender_id
  unfolding wf_sender_id_def sender_id_try_from_def by (rule bytes_representable_array) simp_all

text \<open>\<open>rnd\<close>: the random bytes of the whole identifier, of which the SURB part is kept.\<close>

definition sender_id_new :: "bytes \<Rightarrow> simple_pseudonym \<Rightarrow> sender_id" where
  "sender_id_new rnd pseudonym = HoprSenderId (pseudonym_bytes pseudonym @ drop PSEUDONYM_SIZE rnd)"

definition from_pseudonym_and_id :: "simple_pseudonym \<Rightarrow> bytes \<Rightarrow> sender_id" where
  "from_pseudonym_and_id pseudonym surb = HoprSenderId (pseudonym_bytes pseudonym @ surb)"

text \<open>The parts of an identifier; a wrong length is a panic.\<close>

definition sender_pseudonym :: "hexlib \<Rightarrow> sender_id \<Rightarrow> simple_pseudonym option" where
  "sender_pseudonym h s = ok (pseudonym_try_from h (slice_of 0 PSEUDONYM_SIZE (sender_bytes s)))"

definition sender_surb_id :: "sender_id \<Rightarrow> bytes option" where
  "sender_surb_id s = ok (try_into_array SURB_ID_SIZE () (slice_of PSEUDONYM_SIZE SURB_ID_SIZE (sender_bytes s)))"

text \<open>
  The sequence is an iterator whose state is a 32-bit counter and the current identifier. Taking an
  item computes its successor first, so an overflow of the counter panics one item early where
  overflow is checked (\<open>checks\<close>) and wraps otherwise.
\<close>

definition sender_successor ::
  "(bytes \<Rightarrow> bytes) \<Rightarrow> hexlib \<Rightarrow> bool \<Rightarrow> u32 \<times> sender_id \<Rightarrow> (u32 \<times> sender_id) option" where
  "sender_successor blake3 h checks = (\<lambda>(i, prev).
     let hash = hash_create blake3 [to_be 4 (unat i), sender_bytes prev] in
     if checks \<and> i = - 1 then None
     else map_option (\<lambda>p. (i + 1, from_pseudonym_and_id p (slice_of 0 SURB_ID_SIZE (hash_bytes hash))))
            (sender_pseudonym h prev))"

fun sender_items ::
  "(bytes \<Rightarrow> bytes) \<Rightarrow> hexlib \<Rightarrow> bool \<Rightarrow> nat \<Rightarrow> u32 \<times> sender_id \<Rightarrow> sender_id list option" where
  "sender_items blake3 h checks 0 s = Some []"
| "sender_items blake3 h checks (Suc n) s =
     (case sender_successor blake3 h checks s of
        None \<Rightarrow> None
      | Some s' \<Rightarrow> map_option ((#) (snd s)) (sender_items blake3 h checks n s'))"

text \<open>The first \<open>n\<close> items of the sequence.\<close>

definition into_sequence ::
  "(bytes \<Rightarrow> bytes) \<Rightarrow> hexlib \<Rightarrow> bool \<Rightarrow> sender_id \<Rightarrow> nat \<Rightarrow> sender_id list option" where
  "into_sequence blake3 h checks s n = sender_items blake3 h checks n (1, s)"

section \<open>Matching and routing\<close>

datatype surb_matcher = Exact sender_id | MatchPseudonym simple_pseudonym

fun matcher_pseudonym :: "hexlib \<Rightarrow> surb_matcher \<Rightarrow> simple_pseudonym option" where
  "matcher_pseudonym h (Exact s) = sender_pseudonym h s"
| "matcher_pseudonym h (MatchPseudonym p) = Some p"

definition surb_matcher_from :: "simple_pseudonym \<Rightarrow> surb_matcher" where
  "surb_matcher_from p = MatchPseudonym p"

datatype destination_routing =
    ForwardTo node_id "simple_pseudonym option" routing_options "routing_options option"
  | ReturnBy surb_matcher

definition destination_forward_only :: "node_id \<Rightarrow> routing_options \<Rightarrow> destination_routing" where
  "destination_forward_only destination forward_options = ForwardTo destination None forward_options None"

datatype 's resolved_routing =
    ResolvedForward simple_pseudonym validated_path "validated_path list"
  | ResolvedReturn sender_id 's

definition resolved_forward_only :: "simple_pseudonym \<Rightarrow> validated_path \<Rightarrow> 's resolved_routing" where
  "resolved_forward_only random_pseudonym forward_path = ResolvedForward random_pseudonym forward_path []"

fun count_return_paths :: "'s resolved_routing \<Rightarrow> nat" where
  "count_return_paths (ResolvedForward _ _ return_paths) = length return_paths"
| "count_return_paths (ResolvedReturn _ _) = 0"

section \<open>The sequence of identifiers\<close>

lemma sender_parts:
  assumes "wf_sender_id s"
  shows "sender_pseudonym h s = Some (pseudonym_from h (take PSEUDONYM_SIZE (sender_bytes s)))"
    "sender_surb_id s = Some (drop PSEUDONYM_SIZE (sender_bytes s))"
  using assms
  by (simp_all add: sender_pseudonym_def sender_surb_id_def wf_sender_id_def SENDER_ID_SIZE_def slice_of_def
      pseudonym_try_from_def try_into_array_def)

lemma sender_build:
  assumes "length (pseudonym_bytes p) = PSEUDONYM_SIZE" "length surb = SURB_ID_SIZE"
  shows "wf_sender_id (from_pseudonym_and_id p surb)"
    "take PSEUDONYM_SIZE (sender_bytes (from_pseudonym_and_id p surb)) = pseudonym_bytes p"
    "sender_surb_id (from_pseudonym_and_id p surb) = Some surb"
  using assms by (simp_all add: sender_surb_id_def wf_sender_id_def SENDER_ID_SIZE_def slice_of_def
      from_pseudonym_and_id_def try_into_array_def)

lemma pseudonym_from_bytes [simp]: "pseudonym_bytes (pseudonym_from h bs) = bs"
  by (simp add: pseudonym_from_def)

text \<open>One step keeps the pseudonym and hashes the counter with the whole previous identifier.\<close>

lemma sender_successor_wf:
  assumes "digest32 blake3" "wf_sender_id s" "checks \<longrightarrow> i \<noteq> - 1"
  obtains t where "sender_successor blake3 h checks (i, s) = Some (i + 1, t)" "wf_sender_id t"
    "sender_pseudonym h t = sender_pseudonym h s"
    "sender_surb_id t = Some (take SURB_ID_SIZE (blake3 (to_be 4 (unat i) @ sender_bytes s)))"
proof (rule that)
  let ?p = "pseudonym_from h (take PSEUDONYM_SIZE (sender_bytes s))"
  let ?d = "take SURB_ID_SIZE (blake3 (to_be 4 (unat i) @ sender_bytes s))"
  have l: "length (pseudonym_bytes ?p) = PSEUDONYM_SIZE" "length ?d = SURB_ID_SIZE"
    using assms(1,2) by (simp_all add: wf_sender_id_def SENDER_ID_SIZE_def digest32_def SURB_ID_SIZE_def)
  note b = sender_build [OF l]
  show "sender_successor blake3 h checks (i, s) = Some (i + 1, from_pseudonym_and_id ?p ?d)"
    using assms(3) by (auto simp: sender_successor_def Let_def sender_parts(1) [OF assms(2)] hash_create_def slice_of_def)
  show "wf_sender_id (from_pseudonym_and_id ?p ?d)" by (rule b(1))
  show "sender_pseudonym h (from_pseudonym_and_id ?p ?d) = sender_pseudonym h s"
    unfolding sender_parts(1) [OF b(1)] sender_parts(1) [OF assms(2)] b(2) by simp
  show "sender_surb_id (from_pseudonym_and_id ?p ?d) = Some ?d" by (rule b(3))
qed

lemma sender_items_wf:
  assumes "digest32 blake3" "wf_sender_id s" "unat i + n < 2 ^ 32"
  shows "\<exists>ids. sender_items blake3 h checks n (i, s) = Some ids \<and> length ids = n \<and> (0 < n \<longrightarrow> ids ! 0 = s)
    \<and> (\<forall>k < n. wf_sender_id (ids ! k) \<and> sender_pseudonym h (ids ! k) = sender_pseudonym h s)
    \<and> (\<forall>k. Suc k < n \<longrightarrow> sender_surb_id (ids ! Suc k) =
          Some (take SURB_ID_SIZE (blake3 (to_be 4 (unat i + k) @ sender_bytes (ids ! k)))))"
  using assms(2,3)
proof (induction n arbitrary: i s)
  case (Suc n)
  have ni: "i \<noteq> - 1"
  proof
    assume "i = - 1"
    then have "unat i = 2 ^ 32 - 1" by (simp add: unsigned_minus_1_eq_mask mask_eq_exp_minus_1)
    with Suc.prems(2) show False by simp
  qed
  have u: "unat (i + 1) = unat i + 1"
    using Suc.prems(2) unat_add_lem [of i 1] by simp
  obtain t where t: "sender_successor blake3 h checks (i, s) = Some (i + 1, t)" "wf_sender_id t"
    "sender_pseudonym h t = sender_pseudonym h s"
    "sender_surb_id t = Some (take SURB_ID_SIZE (blake3 (to_be 4 (unat i) @ sender_bytes s)))"
    by (rule sender_successor_wf [OF assms(1) Suc.prems(1), of checks i h]) (use ni in auto)
  have "unat (i + 1) + n < 2 ^ 32" using Suc.prems(2) u by simp
  from Suc.IH [OF t(2) this] obtain ids where ids:
    "sender_items blake3 h checks n (i + 1, t) = Some ids" "length ids = n" "0 < n \<longrightarrow> ids ! 0 = t"
    "\<forall>k < n. wf_sender_id (ids ! k) \<and> sender_pseudonym h (ids ! k) = sender_pseudonym h t"
    "\<forall>k. Suc k < n \<longrightarrow> sender_surb_id (ids ! Suc k) =
          Some (take SURB_ID_SIZE (blake3 (to_be 4 (unat (i + 1) + k) @ sender_bytes (ids ! k))))"
    by (elim exE conjE)
  show ?case
  proof (intro exI [of _ "s # ids"] conjI allI impI)
    show "sender_items blake3 h checks (Suc n) (i, s) = Some (s # ids)" by (simp add: t(1) ids(1))
    show "wf_sender_id ((s # ids) ! k)" "sender_pseudonym h ((s # ids) ! k) = sender_pseudonym h s" if "k < Suc n" for k
      using that Suc.prems(1) ids(4) t(3) by (cases k; simp)+
    show "sender_surb_id ((s # ids) ! Suc k) =
          Some (take SURB_ID_SIZE (blake3 (to_be 4 (unat i + k) @ sender_bytes ((s # ids) ! k))))" if "Suc k < Suc n" for k
      using that ids(3,5) t(4) u by (cases k) simp_all
  qed (simp_all add: ids(2))
qed simp

text \<open>The identifiers a sender derives from its first one: any number of items below \<open>2 ^ 32 - 1\<close> is
  produced without panic; the first item is the identifier itself, every item is 18 bytes long and
  has its pseudonym, and the SURB part of the item after the \<open>k\<close>-th is the start of the hash of the
  number \<open>k\<close> and the whole \<open>k\<close>-th item. The parts of an
  identifier determine it: it is rebuilt from its pseudonym and its SURB identifier.\<close>

theorem sender_sequence:
  assumes "digest32 blake3" "wf_sender_id s" "n < 2 ^ 32 - 1"
  shows "(\<exists>ids. into_sequence blake3 h checks s n = Some ids \<and> length ids = n \<and> (0 < n \<longrightarrow> ids ! 0 = s)
      \<and> (\<forall>k < n. wf_sender_id (ids ! k) \<and> sender_pseudonym h (ids ! k) = sender_pseudonym h s)
      \<and> (\<forall>k. Suc k < n \<longrightarrow> sender_surb_id (ids ! Suc k) =
            Some (take SURB_ID_SIZE (blake3 (to_be 4 (Suc k) @ sender_bytes (ids ! k))))))
    \<and> (\<exists>p surb. sender_pseudonym h s = Some p \<and> sender_surb_id s = Some surb \<and> from_pseudonym_and_id p surb = s
        \<and> (wf_pseudonym h q \<and> length b = SURB_ID_SIZE \<longrightarrow>
            sender_pseudonym h (from_pseudonym_and_id q b) = Some q \<and> sender_surb_id (from_pseudonym_and_id q b) = Some b))"
proof
  have "unat (1 :: u32) + n < 2 ^ 32" using assms(3) by simp
  from sender_items_wf [OF assms(1,2) this, of h checks]
  show "\<exists>ids. into_sequence blake3 h checks s n = Some ids \<and> length ids = n \<and> (0 < n \<longrightarrow> ids ! 0 = s)
      \<and> (\<forall>k < n. wf_sender_id (ids ! k) \<and> sender_pseudonym h (ids ! k) = sender_pseudonym h s)
      \<and> (\<forall>k. Suc k < n \<longrightarrow> sender_surb_id (ids ! Suc k) =
            Some (take SURB_ID_SIZE (blake3 (to_be 4 (Suc k) @ sender_bytes (ids ! k)))))"
    by (simp add: into_sequence_def)
  have "sender_pseudonym h (from_pseudonym_and_id q b) = Some q \<and> sender_surb_id (from_pseudonym_and_id q b) = Some b"
    if "wf_pseudonym h q \<and> length b = SURB_ID_SIZE"
  proof -
    have l: "length (pseudonym_bytes q) = PSEUDONYM_SIZE" using that by (simp add: wf_pseudonym_def)
    have "pseudonym_from h (pseudonym_bytes q) = q"
      using that by (cases q) (simp add: wf_pseudonym_def pseudonym_from_def)
    then show ?thesis
      using sender_build [OF l, of b] that sender_parts(1) [of "from_pseudonym_and_id q b" h] by simp
  qed
  moreover have "from_pseudonym_and_id (pseudonym_from h (take PSEUDONYM_SIZE (sender_bytes s)))
      (drop PSEUDONYM_SIZE (sender_bytes s)) = s"
    by (cases s) (simp add: from_pseudonym_and_id_def)
  ultimately show "\<exists>p surb. sender_pseudonym h s = Some p \<and> sender_surb_id s = Some surb \<and> from_pseudonym_and_id p surb = s
        \<and> (wf_pseudonym h q \<and> length b = SURB_ID_SIZE \<longrightarrow>
            sender_pseudonym h (from_pseudonym_and_id q b) = Some q \<and> sender_surb_id (from_pseudonym_and_id q b) = Some b)"
    unfolding sender_parts [OF assms(2)] by blast
qed

theorem sender_sequence_witness:
  "\<exists>t. into_sequence (\<lambda>bs. to_be 32 (from_be bs)) hex_std True (HoprSenderId (replicate 18 1)) 2
       = Some [HoprSenderId (replicate 18 1), t]
     \<and> sender_pseudonym hex_std t = sender_pseudonym hex_std (HoprSenderId (replicate 18 1))"
proof -
  have d: "digest32 (\<lambda>bs. to_be 32 (from_be bs))" by (simp add: digest32_def)
  have s: "wf_sender_id (HoprSenderId (replicate 18 1))"
    by (simp add: wf_sender_id_def SENDER_ID_SIZE_def PSEUDONYM_SIZE_def SURB_ID_SIZE_def)
  note seq = sender_sequence [OF d s, of 2 hex_std True, THEN conjunct1]
  obtain ids where ids: "into_sequence (\<lambda>bs. to_be 32 (from_be bs)) hex_std True (HoprSenderId (replicate 18 1)) 2 = Some ids"
    "length ids = 2" "ids ! 0 = HoprSenderId (replicate 18 1)"
    "sender_pseudonym hex_std (ids ! 1) = sender_pseudonym hex_std (HoprSenderId (replicate 18 1))"
    using seq by auto
  have "ids = [ids ! 0, ids ! 1]"
    using ids(2) by (intro nth_equalityI) (auto simp: less_2_cases_iff)
  then show ?thesis using ids(1,3,4) by metis
qed

end
