(* ===== verification/Services.thy ===== *)
theory Services
  imports Primitives Bounded
begin

text \<open>
  \<open>internal/service.rs\<close>: service types, which by convention hold right-padded ASCII names, service
  metadata of bounded length, registry entries and their construction from the events of the
  registry contract. Strings are lists of bytes seen as characters, which for the names that are
  accepted (printable ASCII) is what the code compares. An event of the bindings is a record of its
  fields, with the 48-bit time stamps as words.
\<close>

section \<open>Service types\<close>

definition SERVICE_TYPE_SIZE :: nat where
  "SERVICE_TYPE_SIZE = 32"

datatype service_type = ServiceType (service_type_bytes: bytes)

text \<open>Writing the bytes over zeroes one by one; a write past the end panics.\<close>

definition right_pad :: "bytes \<Rightarrow> bytes option" where
  "right_pad bs = bvec_fill 0 bs (replicate SERVICE_TYPE_SIZE 0)"

definition is_ascii_graphic :: "u8 \<Rightarrow> bool" where
  "is_ascii_graphic b \<longleftrightarrow> 0x21 \<le> b \<and> b \<le> 0x7e"

definition service_type_as_encoded :: "service_type \<Rightarrow> bytes" where
  "service_type_as_encoded t = service_type_bytes t"

definition byte_char :: "u8 \<Rightarrow> char" where
  "byte_char b = char_of (unat b)"

text \<open>The index of the last byte other than zero, plus one.\<close>

definition name_length :: "bytes \<Rightarrow> nat option" where
  "name_length bs =
     (if list_all (\<lambda>b. b = 0) bs then None else Some (length (rev (dropWhile (\<lambda>b. b = 0) (rev bs)))))"

text \<open>
  \<open>from_utf8\<close> accepts every string of ASCII bytes, and what it refuses the second check refuses.
\<close>

definition service_type_as_ascii :: "service_type \<Rightarrow> string option" where
  "service_type_as_ascii t =
     (case name_length (service_type_bytes t) of
        None \<Rightarrow> None
      | Some len \<Rightarrow>
          (let name = take len (service_type_bytes t)
           in if list_all is_ascii_graphic name then Some (map byte_char name) else None))"

definition service_type_try_from_array :: "bytes \<Rightarrow> (service_type, general_error) res" where
  "service_type_try_from_array value =
     (if value = replicate SERVICE_TYPE_SIZE 0 then Err (ParseError ''zero service type'') else Ok (ServiceType value))"

definition service_type_try_from :: "bytes \<Rightarrow> (service_type, general_error) res" where
  "service_type_try_from value =
     and_then (try_into_array SERVICE_TYPE_SIZE (ParseError ''ServiceType'') value) service_type_try_from_array"

definition service_type_from_str :: "string \<Rightarrow> (service_type, general_error) res" where
  "service_type_from_str s =
     (if s = [] \<or> length s > SERVICE_TYPE_SIZE then Err (ParseError ''service type name must be 1 to 32 bytes long'')
      else if \<not> list_all is_ascii_graphic (ascii_bytes s)
      then Err (ParseError ''service type name must be printable non-space ASCII'')
      else map_ok ServiceType (expect (right_pad (ascii_bytes s))))"

definition service_type_display :: "hexlib \<Rightarrow> service_type \<Rightarrow> string" where
  "service_type_display h t =
     (case service_type_as_ascii t of Some name \<Rightarrow> name | None \<Rightarrow> to_hex h service_type_bytes t)"

definition GVPN_EXIT :: "service_type option" where
  "GVPN_EXIT = map_option ServiceType (right_pad (ascii_bytes ''gvpn:exit''))"

definition wf_service_type :: "service_type \<Rightarrow> bool" where
  "wf_service_type t \<longleftrightarrow> length (service_type_bytes t) = SERVICE_TYPE_SIZE \<and> service_type_bytes t \<noteq> replicate SERVICE_TYPE_SIZE 0"

interpretation service_type: bytes_representable
  service_type_bytes service_type_try_from SERVICE_TYPE_SIZE wf_service_type
proof unfold_locales
  fix t assume "wf_service_type t"
  then show "service_type_try_from (service_type_bytes t) = Ok t" "length (service_type_bytes t) = SERVICE_TYPE_SIZE"
    by (cases t; simp add: wf_service_type_def service_type_try_from_def service_type_try_from_array_def try_into_array_def)+
next
  fix bs
  show "service_type_try_from bs = Ok t \<Longrightarrow> wf_service_type t \<and> service_type_bytes t = bs" for t
    by (auto simp: wf_service_type_def service_type_try_from_def service_type_try_from_array_def try_into_array_def
        split: if_splits)
  show "service_type_try_from bs \<noteq> Panic"
    by (simp add: service_type_try_from_def service_type_try_from_array_def try_into_array_def)
qed

section \<open>Metadata and entries\<close>

datatype service_metadata = ServiceMetadata (metadata_vec: "u8 bounded_vec")

definition METADATA_MAX_LENGTH :: nat where
  "METADATA_MAX_LENGTH = 2048"

definition service_metadata_try_from :: "bytes \<Rightarrow> (service_metadata, general_error) res" where
  "service_metadata_try_from value = map_ok ServiceMetadata (bvec_try_from METADATA_MAX_LENGTH value)"

definition service_metadata_into_vec :: "service_metadata \<Rightarrow> bytes" where
  "service_metadata_into_vec m = bvec_into_vec (metadata_vec m)"

definition service_metadata_as_ref :: "service_metadata \<Rightarrow> bytes" where
  "service_metadata_as_ref m = bvec_as_ref (metadata_vec m)"

record service_entry =
  se_service_type :: service_type
  se_node :: address
  se_safe :: address
  se_metadata :: service_metadata
  se_registered_at :: system_time
  se_updated_at :: system_time

definition service_entry_new ::
  "service_type \<Rightarrow> address \<Rightarrow> address \<Rightarrow> service_metadata \<Rightarrow> system_time \<Rightarrow> system_time
    \<Rightarrow> (service_entry, general_error) res" where
  "service_entry_new service_ty node safe metadata registered_at updated_at =
     (if registered_at \<le> UNIX_EPOCH then Err InvalidInput
      else if updated_at < registered_at then Err InvalidInput
      else Ok \<lparr>se_service_type = service_ty, se_node = node, se_safe = safe, se_metadata = metadata,
              se_registered_at = registered_at, se_updated_at = updated_at\<rparr>)"

definition service_entry_display :: "hexlib \<Rightarrow> service_entry \<Rightarrow> string" where
  "service_entry_display h e =
     ''service '' @ service_type_display h (se_service_type e) @ '' of node '' @ to_hex h address_bytes (se_node e)
     @ '' (safe: '' @ to_hex h address_bytes (se_safe e) @ '', ''
     @ show_nat (length (service_metadata_as_ref (se_metadata e))) @ '' bytes of metadata)''"

section \<open>Events of the registry contract\<close>

text \<open>The fields of \<open>Registered\<close> and \<open>Updated\<close> that are read; the time is \<open>registeredAt\<close> or \<open>updatedAt\<close>.\<close>

record registry_event =
  ev_service_type :: bytes
  ev_node :: bytes
  ev_safe :: bytes
  ev_metadata :: bytes
  ev_at :: "48 word"

definition service_type_try_from_b256 :: "bytes \<Rightarrow> (service_type, general_error) res" where
  "service_type_try_from_b256 value = service_type_try_from_array value"

definition seconds_to_system_time :: "u64 \<Rightarrow> system_time" where
  "seconds_to_system_time seconds = UNIX_EPOCH + 1000000000 * uint seconds"

definition service_entry_from_registered :: "registry_event \<Rightarrow> (service_entry, general_error) res" where
  "service_entry_from_registered value =
     (let registered_at = seconds_to_system_time (ucast (ev_at value)) in
      and_then (service_type_try_from_b256 (ev_service_type value)) (\<lambda>t.
      and_then (service_metadata_try_from (ev_metadata value)) (\<lambda>m.
        service_entry_new t (Address (ev_node value)) (Address (ev_safe value)) m registered_at registered_at)))"

definition service_entry_from_updated :: "registry_event \<Rightarrow> (service_entry, general_error) res" where
  "service_entry_from_updated value =
     (let updated_at = seconds_to_system_time (ucast (ev_at value)) in
      and_then (service_type_try_from_b256 (ev_service_type value)) (\<lambda>t.
      and_then (service_metadata_try_from (ev_metadata value)) (\<lambda>m.
        service_entry_new t (Address (ev_node value)) (Address (ev_safe value)) m updated_at updated_at)))"

section \<open>Names\<close>

lemma right_pad_eq:
  "length bs \<le> SERVICE_TYPE_SIZE \<Longrightarrow> right_pad bs = Some (bs @ replicate (SERVICE_TYPE_SIZE - length bs) 0)"
  by (simp add: right_pad_def bvec_fill_eq)

lemma dropWhile_replicate_zero: "dropWhile (\<lambda>b. b = z) (replicate n z @ xs) = dropWhile (\<lambda>b. b = z) xs"
  by (induction n) simp_all

lemma graphic_nonzero: "is_ascii_graphic b \<Longrightarrow> b \<noteq> 0"
  by (auto simp: is_ascii_graphic_def)

lemma name_length_padded:
  assumes "bs \<noteq> []" "last bs \<noteq> 0"
  shows "name_length (bs @ replicate n 0) = Some (length bs)"
proof -
  have "dropWhile (\<lambda>b. b = 0) (rev bs) = rev bs"
    using assms by (cases bs rule: rev_cases) simp_all
  moreover have "\<not> list_all (\<lambda>b. b = 0) bs" using assms by (auto simp: list_all_iff)
  ultimately show ?thesis by (simp add: name_length_def dropWhile_replicate_zero)
qed

lemma name_length_split:
  assumes "name_length bs = Some n"
  shows "0 < n" "n \<le> length bs" "bs = take n bs @ replicate (length bs - n) 0"
proof -
  let ?r = "dropWhile (\<lambda>b. b = 0) (rev bs)"
  have n: "n = length ?r" and nz: "\<not> list_all (\<lambda>b. b = 0) bs"
    using assms by (auto simp: name_length_def split: if_splits)
  show "0 < n" using nz by (auto simp: n dropWhile_eq_Nil_conv list_all_iff)
  show "n \<le> length bs" using length_dropWhile_le [of "\<lambda>b. b = 0" "rev bs"] by (simp add: n)
  have "rev bs = takeWhile (\<lambda>b. b = 0) (rev bs) @ ?r" by simp
  then have b: "bs = rev ?r @ rev (takeWhile (\<lambda>b. b = 0) (rev bs))"
    by (metis rev_append rev_rev_ident)
  have z: "rev (takeWhile (\<lambda>b. b = 0) (rev bs)) = replicate (length bs - n) 0"
  proof (rule replicate_eqI)
    show "length (rev (takeWhile (\<lambda>b. b = 0) (rev bs))) = length bs - n"
      using arg_cong [OF b, of length] by (simp add: n)
  qed (auto dest: set_takeWhileD)
  show "bs = take n bs @ replicate (length bs - n) 0"
    using b unfolding z by (metis append_eq_conv_conj length_rev n)
qed

lemma of_char_byte [simp]: "(of_char (byte_char b) :: u8) = b"
proof -
  have "(of_char (byte_char b) :: u8) = of_nat (of_char (byte_char b))" by (simp only: of_nat_of_char)
  also have "\<dots> = b" using unat_byte_less [of b] by (simp add: byte_char_def)
  finally show ?thesis .
qed

lemma byte_of_char [simp]: "byte_char (of_char c) = c"
proof -
  have "unat (of_char c :: u8) = of_char c"
    using of_char_byte [of "of_char c"] of_nat_of_char [of c, where 'a = u8]
    by (metis of_char_mod_256 unat_of_nat_byte)
  then show ?thesis by (simp add: byte_char_def)
qed

lemma ascii_bytes_of_chars: "ascii_bytes (map byte_char bs) = bs"
  by (simp add: ascii_bytes_def comp_def)

lemma chars_of_ascii_bytes: "map byte_char (ascii_bytes s) = s"
  by (simp add: ascii_bytes_def comp_def)

lemma from_str_iff:
  assumes "wf_service_type t"
  shows "service_type_from_str s = Ok t \<longleftrightarrow> service_type_as_ascii t = Some s"
proof
  let ?b = "ascii_bytes s"
  assume ok: "service_type_from_str s = Ok t"
  then have s: "s \<noteq> []" "length ?b \<le> SERVICE_TYPE_SIZE" "list_all is_ascii_graphic ?b"
    by (auto simp: service_type_from_str_def ascii_bytes_def split: if_splits)
  have t: "service_type_bytes t = ?b @ replicate (SERVICE_TYPE_SIZE - length ?b) 0"
    using ok s right_pad_eq [OF s(2)] by (auto simp: service_type_from_str_def split: if_splits)
  have ne: "?b \<noteq> []" using s(1) by (simp add: ascii_bytes_def)
  then have "last ?b \<noteq> 0" using s(3) graphic_nonzero by (auto simp: list_all_iff)
  from name_length_padded [OF ne this] show "service_type_as_ascii t = Some s"
    using s(3) by (simp add: service_type_as_ascii_def t chars_of_ascii_bytes)
next
  assume "service_type_as_ascii t = Some s"
  then obtain n where n: "name_length (service_type_bytes t) = Some n"
    "list_all is_ascii_graphic (take n (service_type_bytes t))" "s = map byte_char (take n (service_type_bytes t))"
    by (auto simp: service_type_as_ascii_def Let_def split: option.splits if_splits)
  note sp = name_length_split [OF n(1)]
  have l: "length (service_type_bytes t) = SERVICE_TYPE_SIZE" using assms by (simp add: wf_service_type_def)
  have b: "ascii_bytes s = take n (service_type_bytes t)" using n(3) by (simp add: ascii_bytes_of_chars)
  have ls: "length s = n" using n(3) sp(2) by simp
  have "right_pad (ascii_bytes s) = Some (service_type_bytes t)"
    using right_pad_eq [of "ascii_bytes s"] sp(2,3) l by (simp add: b)
  then show "service_type_from_str s = Ok t"
    using ls sp(1,2) n(2) l b by (auto simp: service_type_from_str_def)
qed

lemma from_str_wf: "service_type_from_str s = Ok t \<Longrightarrow> wf_service_type t"
proof -
  assume ok: "service_type_from_str s = Ok t"
  let ?b = "ascii_bytes s"
  have s: "s \<noteq> []" "length ?b \<le> SERVICE_TYPE_SIZE" "list_all is_ascii_graphic ?b"
    using ok by (auto simp: service_type_from_str_def ascii_bytes_def split: if_splits)
  then obtain b bs where b: "?b = b # bs" by (cases s) (auto simp: ascii_bytes_def)
  have "b \<noteq> 0" using s(3) graphic_nonzero by (simp add: b)
  moreover have t: "service_type_bytes t = ?b @ replicate (SERVICE_TYPE_SIZE - length ?b) 0"
    using ok s right_pad_eq [OF s(2)] by (auto simp: service_type_from_str_def split: if_splits)
  moreover have "replicate SERVICE_TYPE_SIZE (0 :: 8 word) = 0 # replicate 31 0"
    by (simp add: SERVICE_TYPE_SIZE_def numeral_eq_Suc)
  ultimately show "wf_service_type t" using s(2) by (simp add: wf_service_type_def b)
qed

text \<open>Service type names: a string is accepted as the name of a type exactly if the type decodes to
  that name, so names and the types that follow the convention correspond one to one. Every accepted
  name gives a type the contract accepts (32 bytes, not zero), which prints as its name and parses
  back; a type without a name prints as its hexadecimal form, which is no name. Parsing never
  panics.\<close>

theorem service_type_names:
  assumes "hex_ok h" "wf_service_type t"
  shows "(service_type_from_str s = Ok t \<longleftrightarrow> service_type_as_ascii t = Some s)
    \<and> (service_type_from_str s = Ok u \<longrightarrow> wf_service_type u \<and> service_type_display h u = s)
    \<and> (service_type_from_str (service_type_display h t) =
        (if service_type_as_ascii t = None then Err (ParseError ''service type name must be 1 to 32 bytes long'') else Ok t))
    \<and> service_type_from_str s \<noteq> Panic"
proof (intro conjI impI)
  show "service_type_from_str s = Ok t \<longleftrightarrow> service_type_as_ascii t = Some s" by (rule from_str_iff [OF assms(2)])
  show u: "wf_service_type u" if "service_type_from_str s = Ok u" using that by (rule from_str_wf)
  show "service_type_display h u = s" if "service_type_from_str s = Ok u"
    using that from_str_iff [OF u [OF that]] by (simp add: service_type_display_def)
  show "service_type_from_str (service_type_display h t) =
        (if service_type_as_ascii t = None then Err (ParseError ''service type name must be 1 to 32 bytes long'') else Ok t)"
  proof (cases "service_type_as_ascii t")
    case None
    then show ?thesis
      using service_type.length_to_hex [OF assms]
      by (simp add: service_type_display_def service_type_from_str_def SERVICE_TYPE_SIZE_def)
  next
    case (Some n)
    then show ?thesis using from_str_iff [OF assms(2), of n] by (simp add: service_type_display_def)
  qed
  show "service_type_from_str s \<noteq> Panic"
    using right_pad_eq [of "ascii_bytes s"] by (auto simp: service_type_from_str_def ascii_bytes_def)
qed

lemma entry_of_event:
  assumes "length (ev_service_type v) = SERVICE_TYPE_SIZE"
  shows "service_entry_from_registered v = Ok e \<longleftrightarrow>
    ev_service_type v \<noteq> replicate SERVICE_TYPE_SIZE 0 \<and> length (ev_metadata v) \<le> METADATA_MAX_LENGTH \<and> 0 < ev_at v
    \<and> e = \<lparr>se_service_type = ServiceType (ev_service_type v), se_node = Address (ev_node v),
           se_safe = Address (ev_safe v), se_metadata = ServiceMetadata (BoundedVec (ev_metadata v)),
           se_registered_at = 1000000000 * uint (ev_at v), se_updated_at = 1000000000 * uint (ev_at v)\<rparr>"
proof -
  have "uint (ev_at v) < 2 ^ 64" by (rule order_less_trans [of _ "2 ^ 48"]) (use unsigned_less [of "ev_at v"] in simp_all)
  then have "uint (ucast (ev_at v) :: u64) = uint (ev_at v)"
    by (simp add: unsigned_ucast_eq take_bit_int_eq_self)
  moreover have "0 < ev_at v \<longleftrightarrow> 0 < uint (ev_at v)" "\<not> 0 < uint (ev_at v) \<longleftrightarrow> uint (ev_at v) = 0"
    using uint_ge_0 [of "ev_at v"] by (simp_all add: word_less_def not_less order_antisym_conv)
  ultimately show ?thesis
    by (auto simp: service_entry_from_registered_def service_type_try_from_b256_def service_type_try_from_array_def
        service_metadata_try_from_def service_entry_new_def seconds_to_system_time_def UNIX_EPOCH_def Let_def)
qed

text \<open>Registry events: an event becomes an entry exactly if its type is not zero, its metadata is
  within the cap of the contract and its time is not zero; the entry has the fields of the event, its
  two times are equal (an \<open>Updated\<close> event does not carry the time of registration), and it satisfies
  the invariants of the contract. An entry is built exactly from times that satisfy them.\<close>

theorem service_events:
  assumes "length (ev_service_type v) = SERVICE_TYPE_SIZE"
  shows "(service_entry_from_registered v = Ok e \<longleftrightarrow>
      ev_service_type v \<noteq> replicate SERVICE_TYPE_SIZE 0 \<and> length (ev_metadata v) \<le> METADATA_MAX_LENGTH \<and> 0 < ev_at v
      \<and> e = \<lparr>se_service_type = ServiceType (ev_service_type v), se_node = Address (ev_node v),
             se_safe = Address (ev_safe v), se_metadata = ServiceMetadata (BoundedVec (ev_metadata v)),
             se_registered_at = 1000000000 * uint (ev_at v), se_updated_at = 1000000000 * uint (ev_at v)\<rparr>)
    \<and> service_entry_from_updated v = service_entry_from_registered v
    \<and> (service_entry_new t n sf m r up = Ok e \<longleftrightarrow> UNIX_EPOCH < r \<and> r \<le> up \<and>
        e = \<lparr>se_service_type = t, se_node = n, se_safe = sf, se_metadata = m, se_registered_at = r, se_updated_at = up\<rparr>)"
  using entry_of_event [OF assms]
  by (auto simp: service_entry_from_updated_def service_entry_from_registered_def service_entry_new_def)

theorem service_type_names_witness:
  "\<exists>t. service_type_from_str ''gvpn:exit'' = Ok t \<and> GVPN_EXIT = Some t \<and> service_type_as_ascii t = Some ''gvpn:exit''"
proof -
  let ?t = "ServiceType (ascii_bytes ''gvpn:exit'' @ replicate 23 0)"
  have p: "right_pad (ascii_bytes ''gvpn:exit'') = Some (service_type_bytes ?t)"
    using right_pad_eq [of "ascii_bytes ''gvpn:exit''"] by (simp add: SERVICE_TYPE_SIZE_def ascii_bytes_def)
  have "list_all is_ascii_graphic (ascii_bytes ''gvpn:exit'')"
    by (simp add: ascii_bytes_def is_ascii_graphic_def)
  then have ok: "service_type_from_str ''gvpn:exit'' = Ok ?t"
    by (simp add: service_type_from_str_def SERVICE_TYPE_SIZE_def p)
  with service_type_names [OF hex_ok_std from_str_wf [OF ok], of "''gvpn:exit''"] show ?thesis by (auto simp: GVPN_EXIT_def p)
qed

theorem service_events_witness:
  "\<exists>e. service_entry_from_updated \<lparr>ev_service_type = replicate 32 1, ev_node = replicate 20 2, ev_safe = replicate 20 3,
      ev_metadata = [7], ev_at = 5\<rparr> = Ok e \<and> se_registered_at e = 5000000000"
  using service_events [of "\<lparr>ev_service_type = replicate 32 1, ev_node = replicate 20 2, ev_safe = replicate 20 3,
      ev_metadata = [7], ev_at = 5\<rparr>"]
  by (simp add: SERVICE_TYPE_SIZE_def METADATA_MAX_LENGTH_def word_less_def replicate_eq_replicate)

end
