(* ===== verification/Abi.thy ===== *)
theory Abi
  imports Primitives
begin

text \<open>
  The contract ABI. The first sections are the reference: values, the head-and-tail encoding of a list
  of parameters and its decoder, as the Solidity specification gives them. The rest is the code of
  \<open>chain/payload/static_based.rs\<close> that encodes by hand: selectors, words, dynamic tails and calls,
  with a lemma for each that it computes the reference encoding. Lengths are those of vectors in
  memory, which a 64-bit \<open>usize\<close> holds.
\<close>

section \<open>The reference encoding\<close>

text \<open>
  A static word of 32 bytes, a byte string (\<open>bytes\<close>, \<open>string\<close>) or an array of static words. The
  words of a static tuple stand in the parameter list one after the other.
\<close>

datatype abi_value = AWord bytes | ABytes bytes | AWords "bytes list"

definition be32 :: "nat \<Rightarrow> bytes" where
  "be32 n = to_be 32 n"

definition zero_pad :: "nat \<Rightarrow> bytes" where
  "zero_pad n = replicate ((32 - n mod 32) mod 32) 0"

fun abi_tail :: "abi_value \<Rightarrow> bytes" where
  "abi_tail (AWord w) = []"
| "abi_tail (ABytes d) = be32 (length d) @ d @ zero_pad (length d)"
| "abi_tail (AWords ws) = be32 (length ws) @ concat ws"

fun abi_parts :: "nat \<Rightarrow> abi_value list \<Rightarrow> bytes \<times> bytes" where
  "abi_parts off [] = ([], [])"
| "abi_parts off (v # vs) =
     (let (h, t) = abi_parts (off + length (abi_tail v)) vs
      in ((case v of AWord w \<Rightarrow> w | _ \<Rightarrow> be32 off) @ h, abi_tail v @ t))"

definition abi_encode :: "abi_value list \<Rightarrow> bytes" where
  "abi_encode vs = (let (h, t) = abi_parts (32 * length vs) vs in h @ t)"

text \<open>A struct with a dynamic member is encoded behind an offset word when it stands alone.\<close>

fun is_dynamic :: "abi_value \<Rightarrow> bool" where
  "is_dynamic (AWord _) = False"
| "is_dynamic (ABytes _) = True"
| "is_dynamic (AWords _) = True"

definition abi_encode_struct :: "abi_value list \<Rightarrow> bytes" where
  "abi_encode_struct vs = (if list_ex is_dynamic vs then be32 32 else []) @ abi_encode vs"

section \<open>The reference decoder\<close>

text \<open>\<open>TWord n\<close>: a word that holds a number below \<open>2 ^ n\<close> (160 for an address).\<close>

datatype abi_type = TWord nat | TBytes | TWords nat

fun has_type :: "abi_value \<Rightarrow> abi_type \<Rightarrow> bool" where
  "has_type (AWord w) (TWord n) \<longleftrightarrow> length w = 32 \<and> from_be w < 2 ^ n"
| "has_type (ABytes d) TBytes \<longleftrightarrow> True"
| "has_type (AWords ws) (TWords n) \<longleftrightarrow> list_all (\<lambda>w. length w = 32 \<and> from_be w < 2 ^ n) ws"
| "has_type _ _ \<longleftrightarrow> False"

definition read_at :: "nat \<Rightarrow> nat \<Rightarrow> bytes \<Rightarrow> bytes option" where
  "read_at pos n data = (if pos + n \<le> length data then Some (slice_of pos n data) else None)"

definition read_word :: "nat \<Rightarrow> nat \<Rightarrow> bytes \<Rightarrow> bytes option" where
  "read_word n pos data = Option.bind (read_at pos 32 data) (\<lambda>w. if from_be w < 2 ^ n then Some w else None)"

fun read_words :: "nat \<Rightarrow> nat \<Rightarrow> nat \<Rightarrow> bytes \<Rightarrow> bytes list option" where
  "read_words n 0 pos data = Some []"
| "read_words n (Suc k) pos data =
     Option.bind (read_word n pos data) (\<lambda>w. map_option ((#) w) (read_words n k (pos + 32) data))"

fun abi_read :: "abi_type \<Rightarrow> nat \<Rightarrow> bytes \<Rightarrow> abi_value option" where
  "abi_read (TWord n) pos data = map_option AWord (read_word n pos data)"
| "abi_read TBytes pos data =
     Option.bind (read_word 256 pos data) (\<lambda>off.
     Option.bind (read_word 256 (from_be off) data) (\<lambda>len.
       map_option ABytes (read_at (from_be off + 32) (from_be len) data)))"
| "abi_read (TWords n) pos data =
     Option.bind (read_word 256 pos data) (\<lambda>off.
     Option.bind (read_word 256 (from_be off) data) (\<lambda>len.
       if from_be len \<le> length data then map_option AWords (read_words n (from_be len) (from_be off + 32) data)
       else None))"

fun abi_decode_at :: "nat \<Rightarrow> abi_type list \<Rightarrow> bytes \<Rightarrow> abi_value list option" where
  "abi_decode_at pos [] data = Some []"
| "abi_decode_at pos (t # ts) data =
     Option.bind (abi_read t pos data) (\<lambda>v. map_option ((#) v) (abi_decode_at (pos + 32) ts data))"

definition abi_decode :: "abi_type list \<Rightarrow> bytes \<Rightarrow> abi_value list option" where
  "abi_decode ts data = abi_decode_at 0 ts data"

section \<open>Decoding inverts encoding\<close>

text \<open>\<open>bs\<close> stands at position \<open>pos\<close> of \<open>data\<close>.\<close>

definition at_pos :: "nat \<Rightarrow> bytes \<Rightarrow> bytes \<Rightarrow> bool" where
  "at_pos pos bs data \<longleftrightarrow> pos + length bs \<le> length data \<and> slice_of pos (length bs) data = bs"

lemma at_pos_append:
  "at_pos pos (bs @ cs) data \<longleftrightarrow> at_pos pos bs data \<and> at_pos (pos + length bs) cs data"
proof -
  have "slice_of pos (length bs + length cs) data = slice_of pos (length bs) data @ slice_of (pos + length bs) (length cs) data"
    by (simp add: slice_of_def take_add add.commute)
  moreover have "length (slice_of pos (length bs) data) = length bs" if "pos + length bs \<le> length data"
    using that by simp
  ultimately show ?thesis by (auto simp: at_pos_def)
qed

lemma at_pos_here: "at_pos 0 bs (bs @ cs)" "at_pos (length cs) bs (cs @ bs)"
  by (simp_all add: at_pos_def slice_of_def)

lemma read_at_pos: "at_pos pos bs data \<Longrightarrow> length bs = n \<Longrightarrow> read_at pos n data = Some bs"
  by (auto simp: at_pos_def read_at_def)

lemma read_word_pos: "at_pos pos w data \<Longrightarrow> length w = 32 \<Longrightarrow> from_be w < 2 ^ n \<Longrightarrow> read_word n pos data = Some w"
  by (simp add: read_word_def read_at_pos)

lemma length_be32 [simp, len_simps]: "length (be32 n) = 32"
  by (simp add: be32_def)

lemma from_be_be32: "n < 2 ^ 256 \<Longrightarrow> from_be (be32 n) = n"
  unfolding be32_def by (rule from_be_to_be_id) simp

lemma read_words_pos:
  "at_pos pos (concat ws) data \<Longrightarrow> \<forall>w \<in> set ws. length w = 32 \<and> from_be w < 2 ^ n
    \<Longrightarrow> read_words n (length ws) pos data = Some ws"
  by (induction ws arbitrary: pos) (auto simp: at_pos_append read_word_pos)

lemma concat_words_length: "\<forall>w \<in> set ws. length w = 32 \<Longrightarrow> length (concat ws) = 32 * length ws"
  by (induction ws) simp_all

lemma abi_read_value:
  assumes "has_type v t" "length data < 2 ^ 64" "at_pos off (abi_tail v) data"
    and "at_pos pos (case v of AWord w \<Rightarrow> w | _ \<Rightarrow> be32 off) data"
  shows "abi_read t pos data = Some v"
proof (cases v)
  case (AWord w)
  then obtain n where "t = TWord n" "length w = 32" "from_be w < 2 ^ n" using assms(1) by (cases t) auto
  then show ?thesis using assms(4) AWord by (simp add: read_word_pos)
next
  case (ABytes d)
  then have t: "t = TBytes" using assms(1) by (cases t) auto
  have p: "at_pos off (be32 (length d)) data" "at_pos (off + 32) d data"
    using assms(3) by (simp_all add: ABytes at_pos_append)
  have b: "off < 2 ^ 256" "length d < 2 ^ 256"
    using p assms(2) by (simp_all add: at_pos_def)
  have "read_word 256 pos data = Some (be32 off)" "read_word 256 off data = Some (be32 (length d))"
    using assms(4) p(1) b by (simp_all add: ABytes read_word_pos from_be_be32)
  then show ?thesis using p(2) b by (simp add: ABytes t from_be_be32 read_at_pos)
next
  case (AWords ws)
  then obtain n where t: "t = TWords n" "\<forall>w \<in> set ws. length w = 32 \<and> from_be w < 2 ^ n"
    using assms(1) by (cases t) (auto simp: list_all_iff)
  have p: "at_pos off (be32 (length ws)) data" "at_pos (off + 32) (concat ws) data"
    using assms(3) by (simp_all add: AWords at_pos_append)
  have l: "length ws \<le> length data" using p(2) t(2) concat_words_length [of ws] by (simp add: at_pos_def)
  have b: "off < 2 ^ 256" "length ws < 2 ^ 256" using p l assms(2) by (simp_all add: at_pos_def)
  have "read_word 256 pos data = Some (be32 off)" "read_word 256 off data = Some (be32 (length ws))"
    using assms(4) p(1) b by (simp_all add: AWords read_word_pos from_be_be32)
  then show ?thesis using p(2) b l t(2) by (simp add: AWords t(1) from_be_be32 read_words_pos)
qed

lemma abi_decode_parts:
  assumes "list_all2 has_type vs ts" "length data < 2 ^ 64"
    and "at_pos pos (fst (abi_parts off vs)) data" "at_pos off (snd (abi_parts off vs)) data"
  shows "abi_decode_at pos ts data = Some vs"
  using assms
proof (induction vs arbitrary: ts pos off)
  case (Cons v vs)
  obtain t ts' where ts: "ts = t # ts'" "has_type v t" "list_all2 has_type vs ts'"
    using Cons.prems(1) by (cases ts) auto
  have h32: "length (case v of AWord w \<Rightarrow> w | _ \<Rightarrow> be32 off) = 32"
    using ts(2) by (cases v; cases t) auto
  have p: "at_pos pos (case v of AWord w \<Rightarrow> w | _ \<Rightarrow> be32 off) data"
    "at_pos (pos + 32) (fst (abi_parts (off + length (abi_tail v)) vs)) data"
    "at_pos off (abi_tail v) data" "at_pos (off + length (abi_tail v)) (snd (abi_parts (off + length (abi_tail v)) vs)) data"
    using Cons.prems(3,4) h32 by (simp_all add: at_pos_append split_beta)
  show ?case
    using abi_read_value [OF ts(2) Cons.prems(2) p(3,1)] Cons.IH [OF ts(3) Cons.prems(2) p(2,4)] by (simp add: ts(1))
qed simp

lemma length_heads: "list_all2 has_type vs ts \<Longrightarrow> length (fst (abi_parts off vs)) = 32 * length vs"
proof (induction vs arbitrary: ts off)
  case (Cons v vs)
  then obtain t ts' where ts: "ts = t # ts'" "has_type v t" "list_all2 has_type vs ts'" by (cases ts) auto
  have "length (case v of AWord w \<Rightarrow> w | _ \<Rightarrow> be32 off) = 32"
    using ts(2) by (cases v; cases t) auto
  then show ?case using Cons.IH [OF ts(3)] by (simp add: split_beta)
qed simp

lemma abi_decode_encode:
  assumes "list_all2 has_type vs ts" "length (abi_encode vs) < 2 ^ 64"
  shows "abi_decode ts (abi_encode vs) = Some vs"
proof -
  have e: "abi_encode vs = fst (abi_parts (32 * length vs) vs) @ snd (abi_parts (32 * length vs) vs)"
    by (simp add: abi_encode_def split_beta)
  note l = length_heads [OF assms(1), of "32 * length vs"]
  show ?thesis
    unfolding abi_decode_def
    by (rule abi_decode_parts [OF assms, where off = "32 * length vs"])
      (use at_pos_here [where bs = "fst (abi_parts (32 * length vs) vs)"]
        at_pos_here(2) [of "fst (abi_parts (32 * length vs) vs)" "snd (abi_parts (32 * length vs) vs)"] l
        in \<open>simp_all add: e\<close>)
qed

section \<open>Functions of the contracts\<close>

datatype contract_fn =
    FnApprove | FnTransfer | FnSend | FnRegisterSafeByNode | FnDeregisterNodeBySafe
  | FnSelfRegister | FnSelfUpdate | FnSelfDeregister | FnMultiSend | FnExecTransactionFromModule
  | FnFundChannel | FnFundChannelSafe | FnCloseIncomingChannel | FnCloseIncomingChannelSafe
  | FnInitiateOutgoingChannelClosure | FnInitiateOutgoingChannelClosureSafe
  | FnFinalizeOutgoingChannelClosure | FnFinalizeOutgoingChannelClosureSafe
  | FnRedeemTicket | FnRedeemTicketSafe

text \<open>The constants of the module \<open>selectors\<close>.\<close>

fun selector :: "contract_fn \<Rightarrow> bytes" where
  "selector FnApprove = [0x09, 0x5e, 0xa7, 0xb3]"
| "selector FnTransfer = [0xa9, 0x05, 0x9c, 0xbb]"
| "selector FnSend = [0x9b, 0xd9, 0xbb, 0xc6]"
| "selector FnRegisterSafeByNode = [0x7f, 0x93, 0x59, 0x31]"
| "selector FnDeregisterNodeBySafe = [0x91, 0x60, 0x7c, 0x4c]"
| "selector FnSelfRegister = [0x32, 0x60, 0x05, 0xaf]"
| "selector FnSelfUpdate = [0x21, 0x0c, 0x32, 0x98]"
| "selector FnSelfDeregister = [0x1e, 0x46, 0xf9, 0x07]"
| "selector FnMultiSend = [0x8d, 0x80, 0xff, 0x0a]"
| "selector FnExecTransactionFromModule = [0x46, 0x87, 0x21, 0xa7]"
| "selector FnFundChannel = [0xfc, 0x55, 0x30, 0x9a]"
| "selector FnFundChannelSafe = [0x0a, 0xbe, 0xc5, 0x8f]"
| "selector FnCloseIncomingChannel = [0x1a, 0x7f, 0xfe, 0x7a]"
| "selector FnCloseIncomingChannelSafe = [0x54, 0xa2, 0xed, 0xf5]"
| "selector FnInitiateOutgoingChannelClosure = [0x7c, 0x8e, 0x28, 0xda]"
| "selector FnInitiateOutgoingChannelClosureSafe = [0xbd, 0xa6, 0x5f, 0x45]"
| "selector FnFinalizeOutgoingChannelClosure = [0x23, 0xcb, 0x3a, 0xc0]"
| "selector FnFinalizeOutgoingChannelClosureSafe = [0x65, 0x15, 0x14, 0xbf]"
| "selector FnRedeemTicket = [0xeb, 0x13, 0xeb, 0x11]"
| "selector FnRedeemTicketSafe = [0xab, 0x9b, 0x6b, 0xa7]"

text \<open>The parameter types of the signatures in the comments of that module.\<close>

definition redeem_types :: "abi_type list" where
  "redeem_types = [TWord 256, TWord 96, TWord 48, TWord 24, TWord 56, TWord 256, TWord 256, TWord 256]
     @ replicate 14 (TWord 256)"

fun fn_types :: "contract_fn \<Rightarrow> abi_type list" where
  "fn_types FnApprove = [TWord 160, TWord 256]"
| "fn_types FnTransfer = [TWord 160, TWord 256]"
| "fn_types FnSend = [TWord 160, TWord 256, TBytes]"
| "fn_types FnRegisterSafeByNode = [TWord 160]"
| "fn_types FnDeregisterNodeBySafe = [TWord 160]"
| "fn_types FnSelfRegister = [TWord 256, TWord 160, TBytes]"
| "fn_types FnSelfUpdate = [TWord 256, TWord 160, TBytes]"
| "fn_types FnSelfDeregister = [TWord 256, TWord 160]"
| "fn_types FnMultiSend = [TBytes]"
| "fn_types FnExecTransactionFromModule = [TWord 160, TWord 256, TBytes, TWord 8]"
| "fn_types FnFundChannel = [TWord 160, TWord 96]"
| "fn_types FnFundChannelSafe = [TWord 160, TWord 160, TWord 96]"
| "fn_types FnCloseIncomingChannel = [TWord 160]"
| "fn_types FnCloseIncomingChannelSafe = [TWord 160, TWord 160]"
| "fn_types FnInitiateOutgoingChannelClosure = [TWord 160]"
| "fn_types FnInitiateOutgoingChannelClosureSafe = [TWord 160, TWord 160]"
| "fn_types FnFinalizeOutgoingChannelClosure = [TWord 160]"
| "fn_types FnFinalizeOutgoingChannelClosureSafe = [TWord 160, TWord 160]"
| "fn_types FnRedeemTicket = redeem_types"
| "fn_types FnRedeemTicketSafe = TWord 160 # redeem_types"

text \<open>The call data of a function, by the specification; and reading it.\<close>

definition call_data :: "contract_fn \<Rightarrow> abi_value list \<Rightarrow> bytes" where
  "call_data f vs = selector f @ abi_encode vs"

definition read_call :: "contract_fn \<Rightarrow> bytes \<Rightarrow> abi_value list option" where
  "read_call f input = (if take 4 input = selector f then abi_decode (fn_types f) (drop 4 input) else None)"

lemma length_selector [simp, len_simps]: "length (selector f) = 4"
  by (cases f) simp_all

lemma selector_inj: "selector f = selector g \<longleftrightarrow> f = g"
  by (cases f; cases g) simp_all

declare selector.simps [simp del]

lemma take_call [simp]: "take 4 (call_data f vs) = selector f" "drop 4 (call_data f vs) = abi_encode vs"
  by (simp_all add: call_data_def)

lemma read_call_data:
  "list_all2 has_type vs (fn_types f) \<Longrightarrow> length (abi_encode vs) < 2 ^ 64 \<Longrightarrow> read_call f (call_data f vs) = Some vs"
  by (simp add: read_call_def abi_decode_encode)

lemma read_other_call: "f \<noteq> g \<Longrightarrow> read_call g (call_data f vs) = None"
  by (simp add: read_call_def selector_inj)

section \<open>Encoding by hand\<close>

text \<open>\<open>U256::from_big_endian\<close> panics above 32 bytes; every caller passes at most 32.\<close>

definition right_align32 :: "bytes \<Rightarrow> bytes" where
  "right_align32 bs = (case u256_from_be_bytes bs of None \<Rightarrow> [] | Some v \<Rightarrow> u256_to_be_bytes v)"

definition addr32 :: "address \<Rightarrow> bytes" where
  "addr32 a = right_align32 (address_bytes a)"

definition truncated_word :: "bytes \<Rightarrow> nat \<Rightarrow> bytes" where
  "truncated_word full keep = right_align32 (drop (length full - keep) full)"

definition word_usize :: "nat \<Rightarrow> bytes" where
  "word_usize v = right_align32 (to_be 8 v)"

definition abi_dyn_tail :: "bytes \<Rightarrow> bytes" where
  "abi_dyn_tail data =
     (let pad = (32 - length data mod 32) mod 32
      in word_usize (length data) @ data @ replicate pad 0)"

definition static_call :: "bytes \<Rightarrow> bytes list \<Rightarrow> bytes" where
  "static_call sel ws = sel @ concat ws"

definition call_with_bytes :: "bytes \<Rightarrow> bytes list \<Rightarrow> bytes \<Rightarrow> bytes" where
  "call_with_bytes sel static_words data =
     (let offset = (length static_words + 1) * 32;
          tail = abi_dyn_tail data
      in sel @ concat static_words @ word_usize offset @ tail)"

text \<open>A SEC1 point of 65 bytes and a compact signature in halves; a short slice panics.\<close>

definition point_xy_words :: "bytes \<Rightarrow> (bytes \<times> bytes) option" where
  "point_xy_words p =
     (if 65 \<le> length p then Some (right_align32 (slice_of 1 32 p), right_align32 (slice_of 33 32 p)) else None)"

definition split64 :: "bytes \<Rightarrow> (bytes \<times> bytes) option" where
  "split64 bs =
     (if 64 \<le> length bs then Some (right_align32 (slice_of 0 32 bs), right_align32 (slice_of 32 32 bs)) else None)"

section \<open>What the helpers compute\<close>

lemma right_align32_eq: "length bs \<le> 32 \<Longrightarrow> right_align32 bs = be32 (from_be bs)"
proof -
  assume l: "length bs \<le> 32"
  have "from_be bs < 256 ^ length bs" by (rule from_be_less)
  also have "(256 :: nat) ^ length bs \<le> 256 ^ 32" using l by (rule power_increasing) simp
  finally have "from_be bs < 2 ^ 256" by simp
  then show ?thesis
    by (simp add: right_align32_def u256_from_be_bytes_def l u256_to_be_bytes_def be32_def unat_of_nat_less)
qed

lemma be32_from_be: "length w = 32 \<Longrightarrow> be32 (from_be w) = w"
  unfolding be32_def by (metis to_be_from_be_len)

lemma right_align32_word [simp]: "length w = 32 \<Longrightarrow> right_align32 w = w"
  by (simp add: right_align32_eq be32_from_be)

lemma word_usize_eq: "n < 2 ^ 64 \<Longrightarrow> word_usize n = be32 n"
  by (simp add: word_usize_def right_align32_eq from_be_to_be)

lemma truncated_word_eq: "k \<le> 32 \<Longrightarrow> k \<le> n \<Longrightarrow> truncated_word (to_be n x) k = be32 (x mod 256 ^ k)"
  by (simp add: truncated_word_def right_align32_eq drop_to_be from_be_to_be)

lemma addr32_eq: "wf_address a \<Longrightarrow> addr32 a = be32 (from_be (address_bytes a))"
  by (simp add: addr32_def right_align32_eq wf_address_def ADDRESS_SIZE_def)

lemma addr32_word:
  assumes "wf_address a"
  shows "length (addr32 a) = 32" "from_be (addr32 a) < 2 ^ 160" "drop 12 (addr32 a) = address_bytes a"
proof -
  have l: "length (address_bytes a) = 20" using assms by (simp add: wf_address_def ADDRESS_SIZE_def)
  have b: "from_be (address_bytes a) < 2 ^ 160" using from_be_less [of "address_bytes a"] by (simp add: l)
  show "length (addr32 a) = 32" by (simp add: addr32_eq [OF assms])
  have "(2 :: nat) ^ 160 < 2 ^ 256" by simp
  then show "from_be (addr32 a) < 2 ^ 160" using b by (simp add: addr32_eq [OF assms] from_be_be32)
  show "drop 12 (addr32 a) = address_bytes a"
    using drop_to_be [of 20 32 "from_be (address_bytes a)"] l
    by (simp add: addr32_eq [OF assms] be32_def to_be_from_be_len)
qed

lemma abi_dyn_tail_eq: "length d < 2 ^ 64 \<Longrightarrow> abi_dyn_tail d = abi_tail (ABytes d)"
  by (simp add: abi_dyn_tail_def word_usize_eq zero_pad_def Let_def)

lemma abi_parts_words: "abi_parts off (map AWord ws) = (concat ws, [])"
  by (induction ws arbitrary: off) simp_all

lemma static_call_eq: "static_call (selector f) ws = call_data f (map AWord ws)"
  by (simp add: static_call_def call_data_def abi_encode_def abi_parts_words)

lemma abi_parts_append:
  "abi_parts off (us @ vs) =
     (fst (abi_parts off us) @ fst (abi_parts (off + length (snd (abi_parts off us))) vs),
      snd (abi_parts off us) @ snd (abi_parts (off + length (snd (abi_parts off us))) vs))"
  by (induction us arbitrary: off) (simp_all add: split_beta add.assoc)

lemma call_with_bytes_eq:
  assumes "length data < 2 ^ 63" "length ws < 2 ^ 32"
  shows "call_with_bytes (selector f) ws data = call_data f (map AWord ws @ [ABytes data])"
proof -
  have "(length ws + 1) * 32 < 2 ^ 64" "length data < 2 ^ 64" using assms by simp_all
  then show ?thesis
    by (simp add: call_with_bytes_def call_data_def abi_encode_def abi_parts_append abi_parts_words
        word_usize_eq abi_dyn_tail_eq Let_def algebra_simps)
qed

lemma length_zero_pad [simp]: "length (zero_pad n) \<le> 31"
  by (simp add: zero_pad_def)

end
