(* ===== verification/Payloads.thy ===== *)
theory Payloads
  imports Abi Services Ticket_Flow Accounts
begin

text \<open>
  \<open>chain/payload/mod.rs\<close> and \<open>chain/payload/static_based.rs\<close>: the transaction requests of both payload
  generators, with the calls encoded by hand. The basic generator addresses the contracts directly;
  the Safe generator wraps every call in \<open>execTransactionFromModule\<close>. A 20-byte array is the
  \<open>address\<close> it is taken from; a value is its 32 bytes.
\<close>

section \<open>Errors, addresses, notes, gas\<close>

datatype chain_types_error =
    InvalidState string | InvalidArguments string | SigningError string | TxParseError string

fun chain_types_error_display :: "chain_types_error \<Rightarrow> string" where
  "chain_types_error_display (InvalidState s) = ''invalid state: '' @ s"
| "chain_types_error_display (InvalidArguments s) = ''invalid arguments: '' @ s"
| "chain_types_error_display (SigningError s) = ''signing error: '' @ s"
| "chain_types_error_display (TxParseError s) = ''error while parsing an EIP-2718 transaction: '' @ s"

record contract_addresses =
  ca_token :: address
  ca_channels :: address
  ca_announcements :: address
  ca_node_safe_registry :: address
  ca_service_registry :: address
  ca_ticket_price_oracle :: address
  ca_winning_probability_oracle :: address
  ca_node_safe_migration :: address
  ca_node_stake_factory :: address
  ca_module_implementation :: address

definition contract_list :: "contract_addresses \<Rightarrow> address list" where
  "contract_list c = [ca_token c, ca_channels c, ca_announcements c, ca_node_safe_registry c, ca_service_registry c,
     ca_ticket_price_oracle c, ca_winning_probability_oracle c, ca_node_safe_migration c, ca_node_stake_factory c,
     ca_module_implementation c]"

definition wf_contracts :: "contract_addresses \<Rightarrow> bool" where
  "wf_contracts c \<longleftrightarrow> list_all wf_address (contract_list c)"

record curvy_note =
  cn_owner_hash :: u256
  cn_token :: u256
  cn_amount :: u256
  cn_ephemeral_key :: "u256 \<times> u256"
  cn_view_tag :: u16

datatype curvy_erc777_payload = DirectShield (ds_aggregator: address) (ds_note: curvy_note)

datatype erc777_payload = Curvy curvy_erc777_payload

record gas_estimation =
  ge_gas_limit :: u64
  ge_max_fee_per_gas :: "128 word"
  ge_max_priority_fee_per_gas :: "128 word"

definition gas_estimation_default :: gas_estimation where
  "gas_estimation_default = \<lparr>ge_gas_limit = 10000000, ge_max_fee_per_gas = 10000000000,
     ge_max_priority_fee_per_gas = 2000000000\<rparr>"

section \<open>Requests\<close>

record tx_request =
  tx_to :: "address option"
  tx_input :: bytes
  tx_value :: bytes
  tx_gas_limit :: "u64 option"

definition zero_word :: bytes where
  "zero_word = replicate 32 0"

definition tx_default :: tx_request where
  "tx_default = \<lparr>tx_to = None, tx_input = [], tx_value = zero_word, tx_gas_limit = None\<rparr>"

definition with_to :: "address \<Rightarrow> tx_request \<Rightarrow> tx_request" where
  "with_to a t = t\<lparr>tx_to := Some a\<rparr>"

definition with_input :: "bytes \<Rightarrow> tx_request \<Rightarrow> tx_request" where
  "with_input i t = t\<lparr>tx_input := i\<rparr>"

definition with_value :: "bytes \<Rightarrow> tx_request \<Rightarrow> tx_request" where
  "with_value v t = t\<lparr>tx_value := v\<rparr>"

definition with_gas_limit :: "u64 \<Rightarrow> tx_request \<Rightarrow> tx_request" where
  "with_gas_limit g t = t\<lparr>tx_gas_limit := Some g\<rparr>"

section \<open>Call encoders\<close>

definition encode_approve :: "address \<Rightarrow> bytes \<Rightarrow> bytes" where
  "encode_approve spender amount = static_call (selector FnApprove) [addr32 spender, amount]"

definition encode_transfer :: "address \<Rightarrow> bytes \<Rightarrow> bytes" where
  "encode_transfer recipient amount = static_call (selector FnTransfer) [addr32 recipient, amount]"

definition encode_send :: "address \<Rightarrow> bytes \<Rightarrow> bytes \<Rightarrow> bytes" where
  "encode_send recipient amount data = call_with_bytes (selector FnSend) [addr32 recipient, amount] data"

fun encode_erc777_payload :: "erc777_payload \<Rightarrow> bytes" where
  "encode_erc777_payload (Curvy (DirectShield aggregator note)) =
     addr32 aggregator
     @ concat (map u256_to_be_bytes [cn_owner_hash note, cn_token note, cn_amount note,
         fst (cn_ephemeral_key note), snd (cn_ephemeral_key note)])
     @ right_align32 (to_be 2 (unat (cn_view_tag note)))"

definition encode_register_safe_by_node :: "address \<Rightarrow> bytes" where
  "encode_register_safe_by_node safe_addr = static_call (selector FnRegisterSafeByNode) [addr32 safe_addr]"

definition encode_deregister_node_by_safe :: "address \<Rightarrow> bytes" where
  "encode_deregister_node_by_safe node_addr = static_call (selector FnDeregisterNodeBySafe) [addr32 node_addr]"

definition encode_exec_from_module_with_operation :: "address \<Rightarrow> bytes \<Rightarrow> bytes \<Rightarrow> u8 \<Rightarrow> bytes" where
  "encode_exec_from_module_with_operation to v calldata operation =
     (let offset = 4 * 32;
          tail = abi_dyn_tail calldata
      in selector FnExecTransactionFromModule @ addr32 to @ v @ word_usize offset @ right_align32 [operation] @ tail)"

definition encode_exec_from_module :: "address \<Rightarrow> bytes \<Rightarrow> bytes \<Rightarrow> bytes" where
  "encode_exec_from_module to v calldata = encode_exec_from_module_with_operation to v calldata 0"

definition encode_service_write :: "bytes \<Rightarrow> service_type \<Rightarrow> address \<Rightarrow> bytes \<Rightarrow> bytes" where
  "encode_service_write sel service_ty node metadata =
     call_with_bytes sel [service_type_as_encoded service_ty, addr32 node] metadata"

definition encode_service_deregister :: "service_type \<Rightarrow> address \<Rightarrow> bytes" where
  "encode_service_deregister service_ty node =
     static_call (selector FnSelfDeregister) [service_type_as_encoded service_ty, addr32 node]"

definition encode_multi_send_transaction :: "address \<Rightarrow> bytes \<Rightarrow> bytes" where
  "encode_multi_send_transaction to data =
     [0] @ address_bytes to @ zero_word @ word_usize (length data) @ data"

definition SAFE_MULTI_SEND_ADDRESS :: address where
  "SAFE_MULTI_SEND_ADDRESS = Address
     [0x38, 0x86, 0x9b, 0xf6, 0x6a, 0x61, 0xcf, 0x6b, 0xdb, 0x99, 0x6a, 0x6a, 0xe4, 0x0d, 0x58, 0x53, 0xfd, 0x43, 0xb5, 0x26]"

definition paid_service_registry_payload :: "address \<Rightarrow> address \<Rightarrow> bytes \<Rightarrow> hopr_balance \<Rightarrow> bytes" where
  "paid_service_registry_payload token registry registry_call burn =
     (let transactions = [];
          transactions = (if \<not> balance_is_zero burn then
              transactions @ encode_multi_send_transaction token
                (encode_approve registry (u256_to_be_bytes (balance_amount burn)))
            else transactions);
          transactions = transactions @ encode_multi_send_transaction registry registry_call;
          multi_send = call_with_bytes (selector FnMultiSend) [] transactions
      in encode_exec_from_module_with_operation SAFE_MULTI_SEND_ADDRESS zero_word multi_send 1)"

definition encode_fund_channel :: "address \<Rightarrow> bytes \<Rightarrow> bytes" where
  "encode_fund_channel account amount_word = static_call (selector FnFundChannel) [addr32 account, amount_word]"

definition encode_fund_channel_safe :: "address \<Rightarrow> address \<Rightarrow> bytes \<Rightarrow> bytes" where
  "encode_fund_channel_safe self_addr account amount_word =
     static_call (selector FnFundChannelSafe) [addr32 self_addr, addr32 account, amount_word]"

definition encode_close_incoming_channel :: "address \<Rightarrow> bytes" where
  "encode_close_incoming_channel source = static_call (selector FnCloseIncomingChannel) [addr32 source]"

definition encode_close_incoming_channel_safe :: "address \<Rightarrow> address \<Rightarrow> bytes" where
  "encode_close_incoming_channel_safe self_addr source =
     static_call (selector FnCloseIncomingChannelSafe) [addr32 self_addr, addr32 source]"

definition encode_initiate_outgoing_channel_closure :: "address \<Rightarrow> bytes" where
  "encode_initiate_outgoing_channel_closure destination =
     static_call (selector FnInitiateOutgoingChannelClosure) [addr32 destination]"

definition encode_initiate_outgoing_channel_closure_safe :: "address \<Rightarrow> address \<Rightarrow> bytes" where
  "encode_initiate_outgoing_channel_closure_safe self_addr destination =
     static_call (selector FnInitiateOutgoingChannelClosureSafe) [addr32 self_addr, addr32 destination]"

definition encode_finalize_outgoing_channel_closure :: "address \<Rightarrow> bytes" where
  "encode_finalize_outgoing_channel_closure destination =
     static_call (selector FnFinalizeOutgoingChannelClosure) [addr32 destination]"

definition encode_finalize_outgoing_channel_closure_safe :: "address \<Rightarrow> address \<Rightarrow> bytes" where
  "encode_finalize_outgoing_channel_closure_safe self_addr destination =
     static_call (selector FnFinalizeOutgoingChannelClosureSafe) [addr32 self_addr, addr32 destination]"

section \<open>Redemption\<close>

definition redeemable_ticket_words :: "'p redeemable_ticket \<Rightarrow> (bytes list, chain_types_error) res" where
  "redeemable_ticket_words r =
     and_then (ok_or (InvalidArguments ''Acknowledged ticket must be signed'') (ticket_signature (vt_ticket (rt_ticket r)))) (\<lambda>sig.
     and_then (try_into_array 32 (InvalidArguments ''channel_id length'') (hash_bytes (vt_channel_id (rt_ticket r)))) (\<lambda>channel_id.
     let t = vt_ticket (rt_ticket r);
         amount_word = truncated_word (u256_to_be_bytes (balance_amount (ticket_amount t))) 12;
         index_word = truncated_word (to_be 8 (unat (ticket_index t))) 6;
         epoch_word = truncated_word (to_be 4 (unat (ticket_epoch t))) 3;
         win_prob_word = right_align32 (encoded_win_prob t)
     in and_then (expect (split64 (signature_bytes sig))) (\<lambda>(rw, vs).
        let por_secret = right_align32 (response_bytes (rt_response r))
        in Ok [channel_id, amount_word, index_word, epoch_word, win_prob_word, rw, vs, por_secret])))"

definition vrf_parameters_words ::
  "'p secp \<Rightarrow> 'p vrflib \<Rightarrow> 'p redeemable_ticket \<Rightarrow> address \<Rightarrow> (bytes list, chain_types_error) res" where
  "vrf_parameters_words L W r me =
     (let vp = rt_vrf_params r in
     and_then (expect (point_xy_words (get_v_encoded_point L vp))) (\<lambda>(vx, vy).
     and_then (try_into_array 32 (InvalidArguments ''ticket hash length'') (hash_bytes (vt_hash (rt_ticket r)))) (\<lambda>h.
     and_then (map_err (\<lambda>_. InvalidArguments ''VRF s_b witness computation failed'')
        (get_s_b_witness L W vp me h (hash_bytes (rt_channel_dst r)))) (\<lambda>s_b.
     and_then (expect (point_xy_words s_b)) (\<lambda>(sbx, sby).
     and_then (expect (point_xy_words (get_h_v_witness L W vp))) (\<lambda>(hvx, hvy).
     and_then (expect (point_xy_words (get_a_encoded_point L vp))) (\<lambda>(ax, ay).
     and_then (expect (point_xy_words (get_s_g_witness L vp))) (\<lambda>(sgx, sgy).
     and_then (expect (point_xy_words (get_h_a_witness L W vp))) (\<lambda>(hax, hay).
     let s_w = right_align32 (secp_scalar_bytes L (vrf_s vp));
         h_w = right_align32 (secp_scalar_bytes L (vrf_h vp))
     in Ok [vx, vy, s_w, h_w, sbx, sby, hvx, hvy, ax, ay, sgx, sgy, hax, hay])))))))))"

definition redeem_ticket_words ::
  "'p secp \<Rightarrow> 'p vrflib \<Rightarrow> 'p redeemable_ticket \<Rightarrow> address \<Rightarrow> (bytes list, chain_types_error) res" where
  "redeem_ticket_words L W r me =
     and_then (redeemable_ticket_words r) (\<lambda>a. map_ok (\<lambda>b. a @ b) (vrf_parameters_words L W r me))"

definition encode_redeem_ticket ::
  "'p secp \<Rightarrow> 'p vrflib \<Rightarrow> 'p redeemable_ticket \<Rightarrow> address \<Rightarrow> (bytes, chain_types_error) res" where
  "encode_redeem_ticket L W r me = map_ok (static_call (selector FnRedeemTicket)) (redeem_ticket_words L W r me)"

definition encode_redeem_ticket_safe ::
  "'p secp \<Rightarrow> 'p vrflib \<Rightarrow> address \<Rightarrow> 'p redeemable_ticket \<Rightarrow> address \<Rightarrow> (bytes, chain_types_error) res" where
  "encode_redeem_ticket_safe L W self_addr r me =
     map_ok (\<lambda>ws. static_call (selector FnRedeemTicketSafe) (addr32 self_addr # ws)) (redeem_ticket_words L W r me)"

section \<open>Announcements and Safe deployment\<close>

definition encode_key_bind_announce_body :: "address \<Rightarrow> bytes \<Rightarrow> bytes \<Rightarrow> bytes \<Rightarrow> string \<Rightarrow> bytes" where
  "encode_key_bind_announce_body caller_node sig0 sig1 pub_key multiaddress =
     (let ma = ascii_bytes multiaddress;
          offset = 5 * 32;
          tail = abi_dyn_tail ma
      in addr32 caller_node @ sig0 @ sig1 @ pub_key @ word_usize offset @ tail)"

definition encode_user_data_body :: "bytes \<Rightarrow> bytes \<Rightarrow> bytes \<Rightarrow> address list \<Rightarrow> bytes" where
  "encode_user_data_body function_id nonce default_target admins =
     (let offset = 4 * 32
      in function_id @ nonce @ default_target @ word_usize offset @ word_usize (length admins) @ concat (map addr32 admins))"

definition make_default_target :: "address \<Rightarrow> bytes" where
  "make_default_target channels =
     address_bytes channels @ [0x01, 0x01, 0x03, 0x03, 0x03, 0x03, 0x03, 0x03, 0x03, 0x03, 0x03, 0x03]"

definition transfer_tx :: "'c currency \<Rightarrow> address \<Rightarrow> 'c balance \<Rightarrow> (tx_request, chain_types_error) res" where
  "transfer_tx C destination amount =
     (let amount_word = u256_to_be_bytes (balance_amount amount) in
      if currency_is xdai_currency C then Ok (with_value amount_word tx_default)
      else if currency_is wxhopr_currency C then Ok (with_input (encode_transfer destination amount_word) tx_default)
      else Err (InvalidArguments ''invalid currency''))"

definition register_safe_tx :: "address \<Rightarrow> tx_request" where
  "register_safe_tx safe_addr = with_input (encode_register_safe_by_node safe_addr) tx_default"

definition announced_multiaddr :: "'m malib \<Rightarrow> 'm announcement_data \<Rightarrow> string" where
  "announced_multiaddr A an = (case an_multiaddress an of Some m \<Rightarrow> ma_display A m | None \<Rightarrow> '''')"

definition announce_call_data ::
  "'m malib \<Rightarrow> address \<Rightarrow> address \<Rightarrow> 'm announcement_data \<Rightarrow> hopr_balance \<Rightarrow> bytes option" where
  "announce_call_data A me announcements an key_binding_fee =
     map_option (\<lambda>(sig0, sig1).
       let pub_key = right_align32 (opk_bytes (kb_packet_key (an_key_binding an)));
           inner = encode_key_bind_announce_body me sig0 sig1 pub_key (announced_multiaddr A an);
           fee_word = u256_to_be_bytes (balance_amount key_binding_fee)
       in encode_send announcements fee_word inner)
     (split64 (offchain_signature_bytes (kb_signature (an_key_binding an))))"

end
