(* ===== verification/Generators.thy ===== *)
theory Generators
  imports Payloads Channels
begin

text \<open>
  The two payload generators of \<open>chain/payload/static_based.rs\<close>: one definition for each method of
  \<open>PayloadGenerator\<close> and each generator, prefixed \<open>basic\<close> and \<open>safe\<close>.
\<close>

definition DEFAULT_TX_GAS :: u64 where
  "DEFAULT_TX_GAS = 400000"

section \<open>The basic generator\<close>

record basic_generator =
  bg_me :: address
  bg_contracts :: contract_addresses

definition basic_new :: "address \<Rightarrow> contract_addresses \<Rightarrow> basic_generator" where
  "basic_new me contract_addrs = \<lparr>bg_me = me, bg_contracts = contract_addrs\<rparr>"

definition basic_approve :: "basic_generator \<Rightarrow> address \<Rightarrow> hopr_balance \<Rightarrow> (tx_request, chain_types_error) res" where
  "basic_approve g spender amount =
     (let amount_word = u256_to_be_bytes (balance_amount amount)
      in Ok (with_to (ca_token (bg_contracts g)) (with_input (encode_approve spender amount_word) tx_default)))"

definition basic_transfer ::
  "'c currency \<Rightarrow> basic_generator \<Rightarrow> address \<Rightarrow> 'c balance \<Rightarrow> (tx_request, chain_types_error) res" where
  "basic_transfer C g destination amount =
     (let to = (if currency_is xdai_currency C then Ok destination
                else if currency_is wxhopr_currency C then Ok (ca_token (bg_contracts g))
                else Err (InvalidArguments ''invalid currency''))
      in and_then to (\<lambda>to. map_ok (with_to to) (transfer_tx C destination amount)))"

definition basic_send_erc777 ::
  "basic_generator \<Rightarrow> address \<Rightarrow> hopr_balance \<Rightarrow> erc777_payload \<Rightarrow> (tx_request, chain_types_error) res" where
  "basic_send_erc777 g recipient amount payload =
     (let amount_word = u256_to_be_bytes (balance_amount amount);
          data = encode_erc777_payload payload
      in Ok (with_to (ca_token (bg_contracts g)) (with_input (encode_send recipient amount_word data) tx_default)))"

definition basic_announce ::
  "'m malib \<Rightarrow> basic_generator \<Rightarrow> 'm announcement_data \<Rightarrow> hopr_balance \<Rightarrow> (tx_request, chain_types_error) res" where
  "basic_announce A g announcement key_binding_fee =
     and_then (expect (announce_call_data A (bg_me g) (ca_announcements (bg_contracts g)) announcement key_binding_fee))
       (\<lambda>calldata. Ok (with_to (ca_token (bg_contracts g)) (with_input calldata tx_default)))"

definition basic_fund_channel :: "basic_generator \<Rightarrow> address \<Rightarrow> hopr_balance \<Rightarrow> (tx_request, chain_types_error) res" where
  "basic_fund_channel g dest amount =
     (if dest = bg_me g then Err (InvalidArguments ''Cannot fund channel to self'')
      else
        let amount_word = truncated_word (u256_to_be_bytes (balance_amount amount)) 12
        in Ok (with_to (ca_channels (bg_contracts g)) (with_input (encode_fund_channel dest amount_word) tx_default)))"

definition basic_close_incoming_channel :: "basic_generator \<Rightarrow> address \<Rightarrow> (tx_request, chain_types_error) res" where
  "basic_close_incoming_channel g source =
     (if source = bg_me g then Err (InvalidArguments ''Cannot close incoming channel from self'')
      else Ok (with_to (ca_channels (bg_contracts g)) (with_input (encode_close_incoming_channel source) tx_default)))"

definition basic_initiate_outgoing_channel_closure ::
  "basic_generator \<Rightarrow> address \<Rightarrow> (tx_request, chain_types_error) res" where
  "basic_initiate_outgoing_channel_closure g destination =
     (if destination = bg_me g then Err (InvalidArguments ''Cannot initiate closure of incoming channel to self'')
      else Ok (with_to (ca_channels (bg_contracts g))
                (with_input (encode_initiate_outgoing_channel_closure destination) tx_default)))"

definition basic_finalize_outgoing_channel_closure ::
  "basic_generator \<Rightarrow> address \<Rightarrow> (tx_request, chain_types_error) res" where
  "basic_finalize_outgoing_channel_closure g destination =
     (if destination = bg_me g then Err (InvalidArguments ''Cannot finalize closure of outgoing channel to self'')
      else Ok (with_to (ca_channels (bg_contracts g))
                (with_input (encode_finalize_outgoing_channel_closure destination) tx_default)))"

definition basic_redeem_ticket ::
  "'p secp \<Rightarrow> 'p vrflib \<Rightarrow> basic_generator \<Rightarrow> 'p redeemable_ticket \<Rightarrow> (tx_request, chain_types_error) res" where
  "basic_redeem_ticket L W g acked_ticket =
     map_ok (\<lambda>i. with_to (ca_channels (bg_contracts g)) (with_input i tx_default))
       (encode_redeem_ticket L W acked_ticket (bg_me g))"

definition basic_register_safe_by_node :: "basic_generator \<Rightarrow> address \<Rightarrow> (tx_request, chain_types_error) res" where
  "basic_register_safe_by_node g safe_addr =
     Ok (with_to (ca_node_safe_registry (bg_contracts g)) (with_input (encode_register_safe_by_node safe_addr) tx_default))"

definition basic_deregister_node_by_safe :: "basic_generator \<Rightarrow> (tx_request, chain_types_error) res" where
  "basic_deregister_node_by_safe g = Err (InvalidState ''Can only deregister an address if Safe is activated'')"

definition basic_register_service ::
  "basic_generator \<Rightarrow> service_type \<Rightarrow> service_metadata \<Rightarrow> hopr_balance \<Rightarrow> (tx_request, chain_types_error) res" where
  "basic_register_service g service_ty metadata registration_burn =
     (if \<not> balance_is_zero registration_burn
      then Err (InvalidState ''paid service writes require a Safe payload generator'')
      else Ok (with_to (ca_service_registry (bg_contracts g))
        (with_input (encode_service_write (selector FnSelfRegister) service_ty (bg_me g) (service_metadata_as_ref metadata))
          tx_default)))"

definition basic_update_service ::
  "basic_generator \<Rightarrow> service_type \<Rightarrow> service_metadata \<Rightarrow> hopr_balance \<Rightarrow> (tx_request, chain_types_error) res" where
  "basic_update_service g service_ty metadata update_burn =
     (if \<not> balance_is_zero update_burn
      then Err (InvalidState ''paid service writes require a Safe payload generator'')
      else Ok (with_to (ca_service_registry (bg_contracts g))
        (with_input (encode_service_write (selector FnSelfUpdate) service_ty (bg_me g) (service_metadata_as_ref metadata))
          tx_default)))"

definition basic_deregister_service :: "basic_generator \<Rightarrow> service_type \<Rightarrow> (tx_request, chain_types_error) res" where
  "basic_deregister_service g service_ty =
     Ok (with_to (ca_service_registry (bg_contracts g))
       (with_input (encode_service_deregister service_ty (bg_me g)) tx_default))"

definition deploy_function_id :: "bool \<Rightarrow> bytes" where
  "deploy_function_id include_node =
     (if include_node then
        [0x01, 0x05, 0xb9, 0x7d, 0xcd, 0xf1, 0x9d, 0x45, 0x4e, 0xbe, 0x36, 0xf9, 0x1e, 0xd5, 0x16, 0xc2,
         0xb9, 0x0e, 0xe7, 0x9f, 0x4a, 0x46, 0xaf, 0x96, 0xa0, 0x13, 0x8c, 0x1f, 0x54, 0x03, 0xc1, 0xcc]
      else
        [0xdd, 0x24, 0xc1, 0x44, 0xdb, 0x91, 0xd1, 0xbc, 0x60, 0x0a, 0xac, 0x99, 0x39, 0x3b, 0xaf, 0x8f,
         0x8c, 0x66, 0x4b, 0xa4, 0x61, 0x18, 0x8f, 0x05, 0x7e, 0x37, 0xf2, 0xc3, 0x7b, 0x96, 0x2b, 0x45])"

definition basic_deploy_safe ::
  "basic_generator \<Rightarrow> hopr_balance \<Rightarrow> address list \<Rightarrow> bool \<Rightarrow> bytes \<Rightarrow> (tx_request, chain_types_error) res" where
  "basic_deploy_safe g bal admins include_node nonce =
     (let function_id = deploy_function_id include_node;
          default_target = make_default_target (ca_channels (bg_contracts g));
          user_data = encode_user_data_body function_id nonce default_target admins;
          balance_word = u256_to_be_bytes (balance_amount bal);
          tx_payload = encode_send (ca_node_stake_factory (bg_contracts g)) balance_word user_data
      in Ok (with_input tx_payload (with_to (ca_token (bg_contracts g)) tx_default)))"

section \<open>The Safe generator\<close>

record safe_generator =
  sg_me :: address
  sg_contracts :: contract_addresses
  sg_module :: address

definition safe_new :: "'p chain_keypair \<Rightarrow> contract_addresses \<Rightarrow> address \<Rightarrow> safe_generator" where
  "safe_new kp contract_addrs module_addr =
     \<lparr>sg_me = chain_keypair_address kp, sg_contracts = contract_addrs, sg_module = module_addr\<rparr>"

definition module_exec_tx :: "safe_generator \<Rightarrow> address \<Rightarrow> bytes \<Rightarrow> bytes \<Rightarrow> tx_request" where
  "module_exec_tx g to v calldata =
     with_gas_limit DEFAULT_TX_GAS
       (with_to (sg_module g) (with_input (encode_exec_from_module to v calldata) tx_default))"

definition safe_approve :: "safe_generator \<Rightarrow> address \<Rightarrow> hopr_balance \<Rightarrow> (tx_request, chain_types_error) res" where
  "safe_approve g spender amount =
     (let amount_word = u256_to_be_bytes (balance_amount amount);
          calldata = encode_approve spender amount_word
      in Ok (module_exec_tx g (ca_token (sg_contracts g)) zero_word calldata))"

definition safe_transfer ::
  "'c currency \<Rightarrow> safe_generator \<Rightarrow> address \<Rightarrow> 'c balance \<Rightarrow> (tx_request, chain_types_error) res" where
  "safe_transfer C g destination amount =
     (let amount_word = u256_to_be_bytes (balance_amount amount) in
      if currency_is xdai_currency C then Ok (module_exec_tx g destination amount_word [])
      else if currency_is wxhopr_currency C
      then Ok (module_exec_tx g (ca_token (sg_contracts g)) zero_word (encode_transfer destination amount_word))
      else Err (InvalidArguments ''invalid currency''))"

definition safe_send_erc777 ::
  "safe_generator \<Rightarrow> address \<Rightarrow> hopr_balance \<Rightarrow> erc777_payload \<Rightarrow> (tx_request, chain_types_error) res" where
  "safe_send_erc777 g recipient amount payload =
     (let amount_word = u256_to_be_bytes (balance_amount amount);
          data = encode_erc777_payload payload;
          calldata = encode_send recipient amount_word data
      in Ok (module_exec_tx g (ca_token (sg_contracts g)) zero_word calldata))"

definition safe_announce ::
  "'m malib \<Rightarrow> safe_generator \<Rightarrow> 'm announcement_data \<Rightarrow> hopr_balance \<Rightarrow> (tx_request, chain_types_error) res" where
  "safe_announce A g announcement key_binding_fee =
     and_then (expect (announce_call_data A (sg_me g) (ca_announcements (sg_contracts g)) announcement key_binding_fee))
       (\<lambda>calldata. Ok (module_exec_tx g (ca_token (sg_contracts g)) zero_word calldata))"

definition safe_fund_channel :: "safe_generator \<Rightarrow> address \<Rightarrow> hopr_balance \<Rightarrow> (tx_request, chain_types_error) res" where
  "safe_fund_channel g dest amount =
     (if dest = sg_me g then Err (InvalidArguments ''cannot fund channel to self'')
      else if balance_amount amount > of_nat MAX_FUNDING_AMOUNT
      then Err (InvalidArguments ''cannot fund channel with amount larger than MAX_FUNDING_AMOUNT'')
      else
        let amount_word = truncated_word (u256_to_be_bytes (balance_amount amount)) 12;
            calldata = encode_fund_channel_safe (sg_me g) dest amount_word
        in Ok (module_exec_tx g (ca_channels (sg_contracts g)) zero_word calldata))"

definition safe_close_incoming_channel :: "safe_generator \<Rightarrow> address \<Rightarrow> (tx_request, chain_types_error) res" where
  "safe_close_incoming_channel g source =
     (if source = sg_me g then Err (InvalidArguments ''Cannot close incoming channel from self'')
      else Ok (module_exec_tx g (ca_channels (sg_contracts g)) zero_word
                (encode_close_incoming_channel_safe (sg_me g) source)))"

definition safe_initiate_outgoing_channel_closure ::
  "safe_generator \<Rightarrow> address \<Rightarrow> (tx_request, chain_types_error) res" where
  "safe_initiate_outgoing_channel_closure g destination =
     (if destination = sg_me g then Err (InvalidArguments ''Cannot initiate closure of incoming channel to self'')
      else Ok (module_exec_tx g (ca_channels (sg_contracts g)) zero_word
                (encode_initiate_outgoing_channel_closure_safe (sg_me g) destination)))"

definition safe_finalize_outgoing_channel_closure ::
  "safe_generator \<Rightarrow> address \<Rightarrow> (tx_request, chain_types_error) res" where
  "safe_finalize_outgoing_channel_closure g destination =
     (if destination = sg_me g then Err (InvalidArguments ''Cannot finalize closure of outgoing channel to self'')
      else Ok (module_exec_tx g (ca_channels (sg_contracts g)) zero_word
                (encode_finalize_outgoing_channel_closure_safe (sg_me g) destination)))"

definition safe_redeem_ticket ::
  "'p secp \<Rightarrow> 'p vrflib \<Rightarrow> safe_generator \<Rightarrow> 'p redeemable_ticket \<Rightarrow> (tx_request, chain_types_error) res" where
  "safe_redeem_ticket L W g acked_ticket =
     map_ok (module_exec_tx g (ca_channels (sg_contracts g)) zero_word)
       (encode_redeem_ticket_safe L W (sg_me g) acked_ticket (sg_me g))"

definition safe_register_safe_by_node :: "safe_generator \<Rightarrow> address \<Rightarrow> (tx_request, chain_types_error) res" where
  "safe_register_safe_by_node g safe_addr =
     Ok (with_gas_limit DEFAULT_TX_GAS (with_to (ca_node_safe_registry (sg_contracts g)) (register_safe_tx safe_addr)))"

definition safe_deregister_node_by_safe :: "safe_generator \<Rightarrow> (tx_request, chain_types_error) res" where
  "safe_deregister_node_by_safe g =
     Ok (with_gas_limit DEFAULT_TX_GAS
       (with_to (sg_module g) (with_input (encode_deregister_node_by_safe (sg_me g)) tx_default)))"

definition safe_register_service ::
  "safe_generator \<Rightarrow> service_type \<Rightarrow> service_metadata \<Rightarrow> hopr_balance \<Rightarrow> (tx_request, chain_types_error) res" where
  "safe_register_service g service_ty metadata registration_burn =
     (let calldata = encode_service_write (selector FnSelfRegister) service_ty (sg_me g) (service_metadata_as_ref metadata)
      in Ok (with_gas_limit DEFAULT_TX_GAS (with_to (sg_module g)
        (with_input (paid_service_registry_payload (ca_token (sg_contracts g)) (ca_service_registry (sg_contracts g))
           calldata registration_burn) tx_default))))"

definition safe_update_service ::
  "safe_generator \<Rightarrow> service_type \<Rightarrow> service_metadata \<Rightarrow> hopr_balance \<Rightarrow> (tx_request, chain_types_error) res" where
  "safe_update_service g service_ty metadata update_burn =
     (let calldata = encode_service_write (selector FnSelfUpdate) service_ty (sg_me g) (service_metadata_as_ref metadata)
      in Ok (with_gas_limit DEFAULT_TX_GAS (with_to (sg_module g)
        (with_input (paid_service_registry_payload (ca_token (sg_contracts g)) (ca_service_registry (sg_contracts g))
           calldata update_burn) tx_default))))"

definition safe_deregister_service :: "safe_generator \<Rightarrow> service_type \<Rightarrow> (tx_request, chain_types_error) res" where
  "safe_deregister_service g service_ty =
     (let calldata = encode_service_deregister service_ty (sg_me g)
      in Ok (module_exec_tx g (ca_service_registry (sg_contracts g)) zero_word calldata))"

definition safe_deploy_safe ::
  "safe_generator \<Rightarrow> hopr_balance \<Rightarrow> address list \<Rightarrow> bool \<Rightarrow> bytes \<Rightarrow> (tx_request, chain_types_error) res" where
  "safe_deploy_safe g bal admins include_node nonce = Err (InvalidState ''cannot deploy Safe from SafePayloadGenerator'')"

end
