(* ===== verification/Payload_Spec.thy ===== *)
theory Payload_Spec
  imports Generators
begin

text \<open>
  What the payload generators promise. Every encoder computes the reference encoding of its call
  (the lemmas of the collection \<open>encoders\<close>); a request of the Safe generator is the module's execution
  of the call the basic generator makes.
\<close>

section \<open>Every encoder computes the ABI encoding\<close>

named_theorems encoders \<open>the hand-written encoders as reference encodings\<close>

lemma encode_static [encoders]:
  "encode_approve a w = call_data FnApprove [AWord (addr32 a), AWord w]"
  "encode_transfer a w = call_data FnTransfer [AWord (addr32 a), AWord w]"
  "encode_register_safe_by_node a = call_data FnRegisterSafeByNode [AWord (addr32 a)]"
  "encode_deregister_node_by_safe a = call_data FnDeregisterNodeBySafe [AWord (addr32 a)]"
  "encode_service_deregister t a = call_data FnSelfDeregister [AWord (service_type_bytes t), AWord (addr32 a)]"
  "encode_fund_channel a w = call_data FnFundChannel [AWord (addr32 a), AWord w]"
  "encode_fund_channel_safe m a w = call_data FnFundChannelSafe [AWord (addr32 m), AWord (addr32 a), AWord w]"
  "encode_close_incoming_channel a = call_data FnCloseIncomingChannel [AWord (addr32 a)]"
  "encode_close_incoming_channel_safe m a = call_data FnCloseIncomingChannelSafe [AWord (addr32 m), AWord (addr32 a)]"
  "encode_initiate_outgoing_channel_closure a = call_data FnInitiateOutgoingChannelClosure [AWord (addr32 a)]"
  "encode_initiate_outgoing_channel_closure_safe m a =
     call_data FnInitiateOutgoingChannelClosureSafe [AWord (addr32 m), AWord (addr32 a)]"
  "encode_finalize_outgoing_channel_closure a = call_data FnFinalizeOutgoingChannelClosure [AWord (addr32 a)]"
  "encode_finalize_outgoing_channel_closure_safe m a =
     call_data FnFinalizeOutgoingChannelClosureSafe [AWord (addr32 m), AWord (addr32 a)]"
  by (simp_all only: encode_approve_def encode_transfer_def encode_register_safe_by_node_def
      encode_deregister_node_by_safe_def encode_service_deregister_def service_type_as_encoded_def
      encode_fund_channel_def encode_fund_channel_safe_def encode_close_incoming_channel_def
      encode_close_incoming_channel_safe_def encode_initiate_outgoing_channel_closure_def
      encode_initiate_outgoing_channel_closure_safe_def encode_finalize_outgoing_channel_closure_def
      encode_finalize_outgoing_channel_closure_safe_def static_call_eq list.map)

lemma encode_redeem [encoders]:
  "encode_redeem_ticket L W r me = map_ok (\<lambda>ws. call_data FnRedeemTicket (map AWord ws)) (redeem_ticket_words L W r me)"
  "encode_redeem_ticket_safe L W self_addr r me =
     map_ok (\<lambda>ws. call_data FnRedeemTicketSafe (AWord (addr32 self_addr) # map AWord ws)) (redeem_ticket_words L W r me)"
proof -
  have f: "static_call (selector f) = (\<lambda>ws. call_data f (map AWord ws))" for f
    by (rule ext) (rule static_call_eq)
  show "encode_redeem_ticket L W r me =
      map_ok (\<lambda>ws. call_data FnRedeemTicket (map AWord ws)) (redeem_ticket_words L W r me)"
    "encode_redeem_ticket_safe L W self_addr r me =
      map_ok (\<lambda>ws. call_data FnRedeemTicketSafe (AWord (addr32 self_addr) # map AWord ws)) (redeem_ticket_words L W r me)"
    by (simp_all only: encode_redeem_ticket_def encode_redeem_ticket_safe_def f list.map)
qed

lemma encode_send_eq [encoders]:
  "length d < 2 ^ 63 \<Longrightarrow> encode_send a w d = call_data FnSend [AWord (addr32 a), AWord w, ABytes d]"
  using call_with_bytes_eq [of d "[addr32 a, w]" FnSend] by (simp add: encode_send_def)

lemma encode_service_write_eq [encoders]:
  "length d < 2 ^ 63 \<Longrightarrow> encode_service_write (selector f) t a d =
     call_data f [AWord (service_type_bytes t), AWord (addr32 a), ABytes d]"
  using call_with_bytes_eq [of d "[service_type_bytes t, addr32 a]" f]
  by (simp add: encode_service_write_def service_type_as_encoded_def)

lemma multi_send_eq [encoders]:
  "length d < 2 ^ 63 \<Longrightarrow> call_with_bytes (selector FnMultiSend) [] d = call_data FnMultiSend [ABytes d]"
  using call_with_bytes_eq [of d "[]" FnMultiSend] by simp

lemma to_be_zero: "to_be n 0 = replicate n 0"
  by (induction n) (simp_all add: replicate_append_same)

lemma be32_zero: "be32 0 = zero_word"
  by (simp add: be32_def zero_word_def to_be_zero)

lemma encode_exec_eq [encoders]:
  assumes "length d < 2 ^ 63"
  shows "encode_exec_from_module_with_operation a v d oper =
      call_data FnExecTransactionFromModule [AWord (addr32 a), AWord v, ABytes d, AWord (be32 (unat oper))]"
    "encode_exec_from_module a v d =
      call_data FnExecTransactionFromModule [AWord (addr32 a), AWord v, ABytes d, AWord zero_word]"
proof -
  have r: "right_align32 [oper] = be32 (unat oper)" for oper :: u8
    by (simp add: right_align32_eq from_be_def)
  show e: "encode_exec_from_module_with_operation a v d oper =
      call_data FnExecTransactionFromModule [AWord (addr32 a), AWord v, ABytes d, AWord (be32 (unat oper))]" for oper
    using assms by (simp add: encode_exec_from_module_with_operation_def call_data_def abi_encode_def r
        abi_dyn_tail_eq word_usize_eq)
  from e [of 0] show "encode_exec_from_module a v d =
      call_data FnExecTransactionFromModule [AWord (addr32 a), AWord v, ABytes d, AWord zero_word]"
    by (simp add: encode_exec_from_module_def be32_zero)
qed

lemma encode_bodies [encoders]:
  "length ma < 2 ^ 63 \<Longrightarrow> encode_key_bind_announce_body a s0 s1 k ma =
     abi_encode [AWord (addr32 a), AWord s0, AWord s1, AWord k, ABytes (ascii_bytes ma)]"
  "length admins < 2 ^ 58 \<Longrightarrow> encode_user_data_body fid nonce tgt admins =
     abi_encode [AWord fid, AWord nonce, AWord tgt, AWords (map addr32 admins)]"
  by (simp_all add: encode_key_bind_announce_body_def encode_user_data_body_def abi_encode_def abi_dyn_tail_eq
      word_usize_eq ascii_bytes_def)

section \<open>Sizes\<close>

lemma length_right_align32 [simp]: "length (right_align32 bs) \<le> 32"
  by (simp add: right_align32_def split: option.splits)

lemma length_addr32 [simp]: "length (addr32 a) \<le> 32"
  by (simp add: addr32_def)

lemma length_zero_word [simp]: "length zero_word = 32"
  by (simp add: zero_word_def)

definition words_le :: "abi_value list \<Rightarrow> bool" where
  "words_le vs \<longleftrightarrow> (\<forall>w. AWord w \<in> set vs \<longrightarrow> length w \<le> 32)"

lemma words_le_simps [simp]:
  "words_le []" "words_le (AWord w # vs) \<longleftrightarrow> length w \<le> 32 \<and> words_le vs"
  "words_le (ABytes d # vs) \<longleftrightarrow> words_le vs" "words_le (AWords ws # vs) \<longleftrightarrow> words_le vs"
  by (auto simp: words_le_def)

lemma words_le_map: "words_le (map AWord ws) \<longleftrightarrow> (\<forall>w \<in> set ws. length w \<le> 32)"
  by (auto simp: words_le_def)

lemma length_parts:
  "words_le vs \<Longrightarrow> length (fst (abi_parts off vs)) + length (snd (abi_parts off vs))
     \<le> 32 * length vs + sum_list (map (length \<circ> abi_tail) vs)"
proof (induction vs arbitrary: off)
  case (Cons v vs)
  have "length (case v of AWord w \<Rightarrow> w | _ \<Rightarrow> be32 off) \<le> 32" using Cons.prems by (cases v) auto
  moreover have "words_le vs" using Cons.prems by (auto simp: words_le_def)
  ultimately show ?case using Cons.IH [of "off + length (abi_tail v)"] by (simp add: split_beta)
qed simp

lemma length_call_data:
  "words_le vs \<Longrightarrow> length (call_data f vs) \<le> 4 + 32 * length vs + sum_list (map (length \<circ> abi_tail) vs)"
  using length_parts [of vs "32 * length vs"] by (simp add: call_data_def abi_encode_def split_beta)

lemma length_tail_le: "length (abi_tail (ABytes d)) \<le> length d + 63"
  using length_zero_pad [of "length d"] by simp

lemma length_call_words: "\<forall>w \<in> set ws. length w \<le> 32 \<Longrightarrow> length (call_data f (map AWord ws)) \<le> 4 + 32 * length ws"
  using length_call_data [of "map AWord ws" f] by (simp add: words_le_map comp_def)

lemma length_encode_send:
  assumes "length d < 2 ^ 62" "length w = 32"
  shows "length (encode_send a w d) < 2 ^ 63"
proof -
  have "length (encode_send a w d) \<le> 100 + length (abi_tail (ABytes d))"
    using assms length_call_data [of "[AWord (addr32 a), AWord w, ABytes d]" FnSend] by (simp add: encode_send_eq)
  moreover have "(2 :: nat) ^ 62 + 163 \<le> 2 ^ 63" by simp
  ultimately show ?thesis using assms(1) length_tail_le [of d] by linarith
qed

lemma redeem_words:
  assumes "redeem_ticket_words L W r me = Ok ws"
  shows "length ws = 22" "\<forall>w \<in> set ws. length w \<le> 32"
proof -
  obtain a b where ab: "redeemable_ticket_words r = Ok a" "vrf_parameters_words L W r me = Ok b" "ws = a @ b"
    using assms by (auto simp: redeem_ticket_words_def)
  have p: "length x \<le> 32 \<and> length y \<le> 32" if "point_xy_words q = Some (x, y)" for x y q
    using that by (auto simp: point_xy_words_def split: if_splits)
  have e: "expect x = Ok y \<longleftrightarrow> x = Some y" for x and y :: "bytes \<times> bytes" by (cases x) simp_all
  have t: "try_into_array 32 er bs = Ok c \<Longrightarrow> length c = 32" for er bs and c :: bytes
    by (simp add: try_into_array_def split: if_splits)
  have "length a = 8 \<and> (\<forall>w \<in> set a. length w \<le> 32)"
    using ab(1) t by (auto simp: redeemable_ticket_words_def Let_def e truncated_word_def split64_def split: if_splits)
  moreover have "length b = 14 \<and> (\<forall>w \<in> set b. length w \<le> 32)"
    using ab(2) by (auto simp: vrf_parameters_words_def Let_def e dest!: p)
  ultimately show "length ws = 22" "\<forall>w \<in> set ws. length w \<le> 32" using ab(3) by auto
qed

section \<open>The Safe generator executes the calls of the basic one\<close>

text \<open>The request for the module to execute a call, and the call with the caller put in front.\<close>

definition module_execution :: "safe_generator \<Rightarrow> address \<Rightarrow> bytes \<Rightarrow> bytes \<Rightarrow> tx_request" where
  "module_execution g to v data = \<lparr>tx_to = Some (sg_module g),
     tx_input = call_data FnExecTransactionFromModule [AWord (addr32 to), AWord v, ABytes data, AWord zero_word],
     tx_value = zero_word, tx_gas_limit = Some DEFAULT_TX_GAS\<rparr>"

definition executed :: "safe_generator \<Rightarrow> tx_request \<Rightarrow> tx_request" where
  "executed g t = module_execution g (the (tx_to t)) (tx_value t) (tx_input t)"

definition on_behalf :: "safe_generator \<Rightarrow> contract_fn \<Rightarrow> tx_request \<Rightarrow> tx_request" where
  "on_behalf g f t = executed g (t\<lparr>tx_input := selector f @ addr32 (sg_me g) @ drop 4 (tx_input t)\<rparr>)"

lemma module_exec_tx_eq: "length d < 2 ^ 63 \<Longrightarrow> module_exec_tx g to v d = module_execution g to v d"
  by (simp add: module_exec_tx_def module_execution_def encoders with_gas_limit_def with_to_def with_input_def tx_default_def)

lemma request_simps:
  "tx_to (with_to a t) = Some a" "tx_input (with_to a t) = tx_input t" "tx_value (with_to a t) = tx_value t"
  "tx_to (with_input i t) = tx_to t" "tx_input (with_input i t) = i" "tx_value (with_input i t) = tx_value t"
  "tx_to (with_value v t) = tx_to t" "tx_input (with_value v t) = tx_input t" "tx_value (with_value v t) = v"
  "tx_input tx_default = []" "tx_value tx_default = zero_word"
  by (simp_all add: with_to_def with_input_def with_value_def tx_default_def)

lemma words_call_short: "\<forall>w \<in> set ws. length w \<le> 32 \<Longrightarrow> length ws \<le> 30 \<Longrightarrow> length (call_data f (map AWord ws)) < 2 ^ 63"
  using length_call_words [of ws f] by simp

lemmas short_calls =
  words_call_short [of "[a]", simplified] words_call_short [of "[a, b]", simplified]
  words_call_short [of "[a, b, c]", simplified] for a b c

lemma prefixed_words:
  "selector f' @ addr32 m @ abi_encode (map AWord ws) = call_data f' (AWord (addr32 m) # map AWord ws)"
  by (simp add: call_data_def abi_encode_def abi_parts_words)

lemmas prefixed_calls = prefixed_words [of f' m "[a]", simplified] prefixed_words [of f' m "[a, b]", simplified]
  for f' m a b

lemma length_erc777 [simp]: "length (encode_erc777_payload payload) \<le> 224"
proof (cases payload)
  case (Curvy p)
  show ?thesis
    by (cases p) (simp add: Curvy add_le_mono [of "length (addr32 x)" 32 "length (right_align32 y)" 32 for x y, simplified])
qed

lemma send_short: "length d < 2 ^ 62 \<Longrightarrow> length (encode_send a (u256_to_be_bytes v) d) < 2 ^ 63"
  by (rule length_encode_send) simp_all

lemma announce_body_short:
  assumes "length s0 \<le> 32" "length s1 \<le> 32" "length k \<le> 32" "length ma < 2 ^ 32"
  shows "length (abi_encode [AWord (addr32 me), AWord s0, AWord s1, AWord k, ABytes (ascii_bytes ma)]) < 2 ^ 62"
proof -
  let ?m = "ascii_bytes ma"
  let ?vs = "[AWord (addr32 me), AWord s0, AWord s1, AWord k, ABytes ?m]"
  have "length (abi_encode ?vs) \<le> 160 + length (abi_tail (ABytes ?m))"
    using length_parts [of ?vs "32 * length ?vs"] assms by (simp add: abi_encode_def split_beta)
  moreover have "length ?m < 2 ^ 32" using assms(4) by (simp add: ascii_bytes_def)
  moreover have "(2 :: nat) ^ 32 + 300 \<le> 2 ^ 62" by simp
  ultimately show ?thesis using length_tail_le [of ?m] by linarith
qed

lemma announce_short:
  assumes "length (announced_multiaddr A an) < 2 ^ 32" "announce_call_data A me ann an fee = Some d"
  shows "length d < 2 ^ 63"
proof -
  obtain s0 s1 where s: "split64 (offchain_signature_bytes (kb_signature (an_key_binding an))) = Some (s0, s1)"
    "d = encode_send ann (u256_to_be_bytes (balance_amount fee)) (encode_key_bind_announce_body me s0 s1
      (right_align32 (opk_bytes (kb_packet_key (an_key_binding an)))) (announced_multiaddr A an))"
    using assms(2) by (auto simp: announce_call_data_def Let_def)
  have h: "length s0 \<le> 32" "length s1 \<le> 32" using s(1) by (auto simp: split64_def split: if_splits)
  have "length (announced_multiaddr A an) < 2 ^ 63" using assms(1) by simp
  then show ?thesis
    unfolding s(2) using announce_body_short [OF h length_right_align32 assms(1)] by (intro send_short) (simp only: encode_bodies)
qed

lemmas request_defs = executed_def on_behalf_def request_simps option.sel tx_request.simps Let_def

lemma safe_calls:
  fixes g defines "b \<equiv> basic_new (sg_me g) (sg_contracts g)"
  shows "safe_approve g a amount = map_ok (executed g) (basic_approve b a amount)"
    "safe_transfer C g a bal = map_ok (executed g) (basic_transfer C b a bal)"
    "safe_send_erc777 g a amount payload = map_ok (executed g) (basic_send_erc777 b a amount payload)"
    "wf_service_type st \<Longrightarrow> safe_deregister_service g st = map_ok (executed g) (basic_deregister_service b st)"
proof -
  have b: "bg_me b = sg_me g" "bg_contracts b = sg_contracts g" by (simp_all add: b_def basic_new_def)
  show "safe_approve g a amount = map_ok (executed g) (basic_approve b a amount)"
    by (simp add: safe_approve_def basic_approve_def request_defs b module_exec_tx_eq encoders short_calls)
  show "safe_transfer C g a bal = map_ok (executed g) (basic_transfer C b a bal)"
    by (simp add: safe_transfer_def basic_transfer_def transfer_tx_def request_defs b module_exec_tx_eq encoders short_calls)
  show "safe_send_erc777 g a amount payload = map_ok (executed g) (basic_send_erc777 b a amount payload)"
    using send_short [of "encode_erc777_payload payload" a] le_less_trans [OF length_erc777]
    by (simp add: safe_send_erc777_def basic_send_erc777_def request_defs b module_exec_tx_eq)
  show "safe_deregister_service g st = map_ok (executed g) (basic_deregister_service b st)" if "wf_service_type st"
    using that by (simp add: safe_deregister_service_def basic_deregister_service_def request_defs b module_exec_tx_eq
        encoders short_calls wf_service_type_def SERVICE_TYPE_SIZE_def)
qed

lemma safe_channel_calls:
  fixes g defines "b \<equiv> basic_new (sg_me g) (sg_contracts g)"
  shows "safe_close_incoming_channel g a = map_ok (on_behalf g FnCloseIncomingChannelSafe) (basic_close_incoming_channel b a)"
    "safe_initiate_outgoing_channel_closure g a
        = map_ok (on_behalf g FnInitiateOutgoingChannelClosureSafe) (basic_initiate_outgoing_channel_closure b a)"
    "safe_finalize_outgoing_channel_closure g a
        = map_ok (on_behalf g FnFinalizeOutgoingChannelClosureSafe) (basic_finalize_outgoing_channel_closure b a)"
    "ok (safe_fund_channel g a amount) =
        (if unat (balance_amount amount) \<le> MAX_FUNDING_AMOUNT
         then map_option (on_behalf g FnFundChannelSafe) (ok (basic_fund_channel b a amount)) else None)"
proof -
  have b: "bg_me b = sg_me g" "bg_contracts b = sg_contracts g" by (simp_all add: b_def basic_new_def)
  note simps = request_defs b module_exec_tx_eq encoders short_calls prefixed_calls
  show "safe_close_incoming_channel g a = map_ok (on_behalf g FnCloseIncomingChannelSafe) (basic_close_incoming_channel b a)"
    by (simp add: safe_close_incoming_channel_def basic_close_incoming_channel_def simps)
  show "safe_initiate_outgoing_channel_closure g a
        = map_ok (on_behalf g FnInitiateOutgoingChannelClosureSafe) (basic_initiate_outgoing_channel_closure b a)"
    by (simp add: safe_initiate_outgoing_channel_closure_def basic_initiate_outgoing_channel_closure_def simps)
  show "safe_finalize_outgoing_channel_closure g a
        = map_ok (on_behalf g FnFinalizeOutgoingChannelClosureSafe) (basic_finalize_outgoing_channel_closure b a)"
    by (simp add: safe_finalize_outgoing_channel_closure_def basic_finalize_outgoing_channel_closure_def simps)
  have m: "of_nat MAX_FUNDING_AMOUNT < balance_amount amount \<longleftrightarrow> \<not> unat (balance_amount amount) \<le> MAX_FUNDING_AMOUNT"
    by (simp add: word_less_nat_alt unat_of_nat_less MAX_FUNDING_AMOUNT_def not_le)
  show "ok (safe_fund_channel g a amount) =
        (if unat (balance_amount amount) \<le> MAX_FUNDING_AMOUNT
         then map_option (on_behalf g FnFundChannelSafe) (ok (basic_fund_channel b a amount)) else None)"
    by (simp add: safe_fund_channel_def basic_fund_channel_def simps truncated_word_def m)
qed

lemma safe_redeem_call:
  "safe_redeem_ticket L W g r =
    map_ok (on_behalf g FnRedeemTicketSafe) (basic_redeem_ticket L W (basic_new (sg_me g) (sg_contracts g)) r)"
proof (cases "redeem_ticket_words L W r (sg_me g)")
  case (Ok ws)
  note w = redeem_words [OF Ok]
  have "length (call_data FnRedeemTicketSafe (map AWord (addr32 (sg_me g) # ws))) < 2 ^ 63"
    by (rule words_call_short) (use w in auto)
  then show ?thesis
    by (simp add: safe_redeem_ticket_def basic_redeem_ticket_def encoders basic_new_def Ok request_defs module_exec_tx_eq
        prefixed_words)
qed (simp_all add: safe_redeem_ticket_def basic_redeem_ticket_def encoders basic_new_def)


section \<open>Paid service writes\<close>

text \<open>
  The transactions of a Safe \<open>MultiSend\<close>: an operation byte, 20 bytes of address, 32 of value, 32 of
  length and the data, one after the other; \<open>unpack_transactions\<close> reads them back.
\<close>

function unpack_transactions :: "bytes \<Rightarrow> (address \<times> bytes \<times> bytes) list option" where
  "unpack_transactions bs =
     (if bs = [] then Some []
      else if length bs < 85 \<or> hd bs \<noteq> 0 then None
      else let len = from_be (slice_of 53 32 bs) in
        if length bs < 85 + len then None
        else map_option ((#) (Address (slice_of 1 20 bs), slice_of 21 32 bs, slice_of 85 len bs))
               (unpack_transactions (drop (85 + len) bs)))"
  by pat_completeness auto
termination by (relation "measure length") auto

declare unpack_transactions.simps [simp del]

lemma unpack_packed:
  assumes "wf_address to" "length data < 2 ^ 63"
  shows "unpack_transactions (encode_multi_send_transaction to data @ rest) =
    map_option ((#) (to, zero_word, data)) (unpack_transactions rest)"
proof -
  have l: "length (address_bytes to) = 20" using assms(1) by (simp add: wf_address_def ADDRESS_SIZE_def)
  have w: "word_usize (length data) = be32 (length data)" using assms(2) by (simp add: word_usize_eq)
  let ?p = "encode_multi_send_transaction to data @ rest"
  have p: "?p = 0 # address_bytes to @ zero_word @ be32 (length data) @ data @ rest"
    by (simp add: encode_multi_send_transaction_def w)
  have s: "slice_of 1 20 ?p = address_bytes to" "slice_of 21 32 ?p = zero_word" "slice_of 53 32 ?p = be32 (length data)"
    "slice_of 85 (length data) ?p = data" "drop (85 + length data) ?p = rest"
    unfolding p by (simp_all add: slice_of_def l drop_Cons')
  have f: "from_be (be32 (length data)) = length data" using assms(2) by (intro from_be_be32) simp
  have c: "?p \<noteq> []" "hd ?p = 0" "length ?p = 85 + length data + length rest"
    unfolding p by (simp_all add: l)
  then have "\<not> (length ?p < 85 \<or> hd ?p \<noteq> 0)" "\<not> length ?p < 85 + length data" by simp_all
  then show ?thesis
    using c(1) unfolding unpack_transactions.simps [of ?p] Let_def s f by (simp only: if_False address.collapse)
qed

lemma length_multi_send_transaction:
  "length (encode_multi_send_transaction a d) \<le> 65 + length (address_bytes a) + length d"
  using length_right_align32 [of "to_be 8 (length d)"] by (simp add: encode_multi_send_transaction_def word_usize_def)

lemma multi_send_short:
  assumes "length packed < 2 ^ 33"
  shows "length (call_data FnMultiSend [ABytes packed]) < 2 ^ 63"
proof -
  have "length (call_data FnMultiSend [ABytes packed]) \<le> 36 + length (abi_tail (ABytes packed))"
    using length_call_data [of "[ABytes packed]" FnMultiSend] by simp
  moreover have "(2 :: nat) ^ 33 + 163 \<le> 2 ^ 63" by simp
  ultimately show ?thesis using assms length_tail_le [of packed] by linarith
qed

lemma paid_payload:
  assumes "wf_address token" "wf_address registry" "length calldata < 2 ^ 32"
  shows "\<exists>packed. paid_service_registry_payload token registry calldata burn =
      call_data FnExecTransactionFromModule [AWord (addr32 SAFE_MULTI_SEND_ADDRESS), AWord zero_word,
        ABytes (call_data FnMultiSend [ABytes packed]), AWord (be32 1)]
    \<and> unpack_transactions packed = Some
      ((if balance_is_zero burn then []
        else [(token, zero_word, call_data FnApprove [AWord (addr32 registry), AWord (u256_to_be_bytes (balance_amount burn))])])
       @ [(registry, zero_word, calldata)])"
proof -
  let ?ap = "call_data FnApprove [AWord (addr32 registry), AWord (u256_to_be_bytes (balance_amount burn))]"
  define packed where "packed = (if \<not> balance_is_zero burn then encode_multi_send_transaction token ?ap else [])
      @ encode_multi_send_transaction registry calldata"
  have ap: "length ?ap < 2 ^ 8"
    using length_call_words [of "[addr32 registry, u256_to_be_bytes (balance_amount burn)]" FnApprove] by simp
  have l: "length (address_bytes token) = 20" "length (address_bytes registry) = 20"
    using assms(1,2) by (simp_all add: wf_address_def ADDRESS_SIZE_def)
  have pl: "length packed < 2 ^ 33"
    using length_multi_send_transaction [of token ?ap] length_multi_send_transaction [of registry calldata] ap assms(3) l
    by (auto simp: packed_def)
  note ms = multi_send_short [OF pl]
  have u: "unpack_transactions [] = Some []" by (simp add: unpack_transactions.simps)
  have "unpack_transactions packed = Some
      ((if balance_is_zero burn then [] else [(token, zero_word, ?ap)]) @ [(registry, zero_word, calldata)])"
    using unpack_packed [OF assms(1), of ?ap] unpack_packed [OF assms(2), of calldata "[]"] ap assms(3) u
    by (simp add: packed_def)
  moreover have "paid_service_registry_payload token registry calldata burn =
      call_data FnExecTransactionFromModule [AWord (addr32 SAFE_MULTI_SEND_ADDRESS), AWord zero_word,
        ABytes (call_data FnMultiSend [ABytes packed]), AWord (be32 1)]"
  proof -
    have "(let transactions = [];
          transactions = (if \<not> balance_is_zero burn then
              transactions @ encode_multi_send_transaction token
                (encode_approve registry (u256_to_be_bytes (balance_amount burn)))
            else transactions)
          in transactions @ encode_multi_send_transaction registry calldata) = packed"
      by (simp add: packed_def encode_static(1))
    then have "paid_service_registry_payload token registry calldata burn =
        encode_exec_from_module_with_operation SAFE_MULTI_SEND_ADDRESS zero_word
          (call_with_bytes (selector FnMultiSend) [] packed) 1"
      by (simp only: paid_service_registry_payload_def Let_def)
    then show ?thesis using ms pl by (simp add: multi_send_eq encode_exec_eq(1))
  qed
  ultimately show ?thesis by blast
qed

lemma service_write_short:
  assumes "wf_service_type st" "length (service_metadata_as_ref m) \<le> METADATA_MAX_LENGTH"
  shows "length (encode_service_write (selector f) st a (service_metadata_as_ref m)) < 2 ^ 32"
proof -
  let ?m = "service_metadata_as_ref m"
  have lm: "length ?m < 2 ^ 12" "length ?m < 2 ^ 63" using assms(2) by (simp_all add: METADATA_MAX_LENGTH_def)
  have "length (call_data f [AWord (service_type_bytes st), AWord (addr32 a), ABytes ?m]) \<le> 100 + length (abi_tail (ABytes ?m))"
    using length_call_data [of "[AWord (service_type_bytes st), AWord (addr32 a), ABytes ?m]" f] assms(1)
    by (simp add: wf_service_type_def SERVICE_TYPE_SIZE_def)
  moreover have "(2 :: nat) ^ 12 + 200 \<le> 2 ^ 32" by simp
  ultimately have "length (call_data f [AWord (service_type_bytes st), AWord (addr32 a), ABytes ?m]) < 2 ^ 32"
    using lm(1) length_tail_le [of ?m] by linarith
  then show ?thesis using lm(2) by (simp only: encode_service_write_eq)
qed

text \<open>Paid service writes: the request the Safe generator makes for a registration or an update is a
  delegate call of the module to the fixed \<open>MultiSend\<close> contract, whose packed transactions, read
  back, are an approval of exactly the burn to the registry (left out when the burn is zero)
  followed by the registry call with the type, the node and the metadata, both without value, in
  this order. The basic generator makes the registry call itself when the burn is zero and refuses
  otherwise.\<close>

theorem service_writes_bundled:
  assumes "wf_contracts (sg_contracts g)" "length (service_metadata_as_ref m) \<le> METADATA_MAX_LENGTH" "wf_service_type st"
    and "regcall = call_data (if update then FnSelfUpdate else FnSelfRegister)
           [AWord (service_type_bytes st), AWord (addr32 (sg_me g)), ABytes (service_metadata_as_ref m)]"
  shows "(\<exists>packed. (if update then safe_update_service g st m burn else safe_register_service g st m burn) =
        Ok \<lparr>tx_to = Some (sg_module g),
            tx_input = call_data FnExecTransactionFromModule [AWord (addr32 SAFE_MULTI_SEND_ADDRESS), AWord zero_word,
              ABytes (call_data FnMultiSend [ABytes packed]), AWord (be32 1)],
            tx_value = zero_word, tx_gas_limit = Some DEFAULT_TX_GAS\<rparr>
      \<and> unpack_transactions packed = Some
        ((if balance_is_zero burn then []
          else [(ca_token (sg_contracts g), zero_word, call_data FnApprove
                  [AWord (addr32 (ca_service_registry (sg_contracts g))), AWord (u256_to_be_bytes (balance_amount burn))])])
         @ [(ca_service_registry (sg_contracts g), zero_word, regcall)]))
    \<and> ok (if update then basic_update_service (basic_new (sg_me g) (sg_contracts g)) st m burn
          else basic_register_service (basic_new (sg_me g) (sg_contracts g)) st m burn) =
        (if balance_is_zero burn then Some \<lparr>tx_to = Some (ca_service_registry (sg_contracts g)), tx_input = regcall,
            tx_value = zero_word, tx_gas_limit = None\<rparr> else None)"
proof
  let ?m = "service_metadata_as_ref m"
  have lm: "length ?m < 2 ^ 12" "length ?m < 2 ^ 63" using assms(2) by (simp_all add: METADATA_MAX_LENGTH_def)
  have lr: "length regcall < 2 ^ 32"
    using service_write_short [OF assms(3,2), of "if update then FnSelfUpdate else FnSelfRegister" "sg_me g"] lm(2)
    by (simp only: assms(4) encode_service_write_eq)
  have w: "wf_address (ca_token (sg_contracts g))" "wf_address (ca_service_registry (sg_contracts g))"
    using assms(1) by (simp_all add: wf_contracts_def contract_list_def)
  have reg: "encode_service_write (selector (if update then FnSelfUpdate else FnSelfRegister)) st (sg_me g) ?m = regcall"
    using lm(2) by (simp only: assms(4) encode_service_write_eq)
  note paid = paid_payload [OF w lr, of burn]
  show "\<exists>packed. (if update then safe_update_service g st m burn else safe_register_service g st m burn) =
        Ok \<lparr>tx_to = Some (sg_module g),
            tx_input = call_data FnExecTransactionFromModule [AWord (addr32 SAFE_MULTI_SEND_ADDRESS), AWord zero_word,
              ABytes (call_data FnMultiSend [ABytes packed]), AWord (be32 1)],
            tx_value = zero_word, tx_gas_limit = Some DEFAULT_TX_GAS\<rparr>
      \<and> unpack_transactions packed = Some
        ((if balance_is_zero burn then []
          else [(ca_token (sg_contracts g), zero_word, call_data FnApprove
                  [AWord (addr32 (ca_service_registry (sg_contracts g))), AWord (u256_to_be_bytes (balance_amount burn))])])
         @ [(ca_service_registry (sg_contracts g), zero_word, regcall)])"
    using paid reg
    by (cases update) (auto simp: safe_update_service_def safe_register_service_def Let_def with_gas_limit_def with_to_def
        with_input_def tx_default_def)
  show "ok (if update then basic_update_service (basic_new (sg_me g) (sg_contracts g)) st m burn
          else basic_register_service (basic_new (sg_me g) (sg_contracts g)) st m burn) =
        (if balance_is_zero burn then Some \<lparr>tx_to = Some (ca_service_registry (sg_contracts g)), tx_input = regcall,
            tx_value = zero_word, tx_gas_limit = None\<rparr> else None)"
    using reg by (cases update) (simp_all add: basic_update_service_def basic_register_service_def basic_new_def with_to_def
        with_input_def tx_default_def)
qed

section \<open>Funding\<close>

lemma truncated_amount: "truncated_word (u256_to_be_bytes v) 12 = be32 (unat v mod 2 ^ 96)"
  using truncated_word_eq [of 12 32 "unat v"] by (simp add: u256_to_be_bytes_def)

text \<open>Funding a channel: the request of either generator carries the amount modulo \<open>2 ^ 96\<close>, the
  width of the contract's argument. The Safe generator refuses amounts above the funding limit, so
  what it carries is the amount; the basic generator has no such check, and carries the amount
  exactly if it is below \<open>2 ^ 96\<close>. Both refuse to fund a channel to the node itself.\<close>

theorem fund_channel_amount:
  "basic_fund_channel b dest amount =
      (if dest = bg_me b then Err (InvalidArguments ''Cannot fund channel to self'')
       else Ok \<lparr>tx_to = Some (ca_channels (bg_contracts b)),
         tx_input = call_data FnFundChannel [AWord (addr32 dest), AWord (be32 (unat (balance_amount amount) mod 2 ^ 96))],
         tx_value = zero_word, tx_gas_limit = None\<rparr>)
    \<and> safe_fund_channel g dest amount =
      (if dest = sg_me g then Err (InvalidArguments ''cannot fund channel to self'')
       else if MAX_FUNDING_AMOUNT < unat (balance_amount amount)
       then Err (InvalidArguments ''cannot fund channel with amount larger than MAX_FUNDING_AMOUNT'')
       else Ok (module_execution g (ca_channels (sg_contracts g)) zero_word
         (call_data FnFundChannelSafe [AWord (addr32 (sg_me g)), AWord (addr32 dest), AWord (be32 (unat (balance_amount amount)))])))
    \<and> (from_be (be32 (unat (balance_amount amount) mod 2 ^ 96)) = unat (balance_amount amount)
        \<longleftrightarrow> unat (balance_amount amount) < 2 ^ 96)"
proof (intro conjI)
  let ?a = "unat (balance_amount amount)"
  have m: "of_nat MAX_FUNDING_AMOUNT < balance_amount amount \<longleftrightarrow> MAX_FUNDING_AMOUNT < ?a"
    by (simp add: word_less_nat_alt unat_of_nat_less MAX_FUNDING_AMOUNT_def)
  have s: "?a mod 2 ^ 96 = ?a" if "\<not> MAX_FUNDING_AMOUNT < ?a"
    using that by (simp add: MAX_FUNDING_AMOUNT_def)
  show "basic_fund_channel b dest amount =
      (if dest = bg_me b then Err (InvalidArguments ''Cannot fund channel to self'')
       else Ok \<lparr>tx_to = Some (ca_channels (bg_contracts b)),
         tx_input = call_data FnFundChannel [AWord (addr32 dest), AWord (be32 (?a mod 2 ^ 96))],
         tx_value = zero_word, tx_gas_limit = None\<rparr>)"
    by (simp add: basic_fund_channel_def truncated_amount encoders with_to_def with_input_def tx_default_def)
  show "safe_fund_channel g dest amount =
      (if dest = sg_me g then Err (InvalidArguments ''cannot fund channel to self'')
       else if MAX_FUNDING_AMOUNT < ?a
       then Err (InvalidArguments ''cannot fund channel with amount larger than MAX_FUNDING_AMOUNT'')
       else Ok (module_execution g (ca_channels (sg_contracts g)) zero_word
         (call_data FnFundChannelSafe [AWord (addr32 (sg_me g)), AWord (addr32 dest), AWord (be32 ?a)])))"
    using s by (simp add: safe_fund_channel_def m truncated_amount module_exec_tx_eq encoders short_calls)
  have "from_be (be32 (?a mod 2 ^ 96)) = ?a mod 2 ^ 96"
    by (rule from_be_be32) (rule less_trans [of _ "2 ^ 96"], simp_all)
  then show "from_be (be32 (?a mod 2 ^ 96)) = ?a \<longleftrightarrow> ?a < 2 ^ 96"
    by (metis mod_less mod_less_divisor pos2 zero_less_power)
qed

section \<open>Concrete requests\<close>

definition contracts_example :: contract_addresses where
  "contracts_example = \<lparr>ca_token = Address (replicate 20 1), ca_channels = Address (replicate 20 2),
     ca_announcements = Address (replicate 20 3), ca_node_safe_registry = Address (replicate 20 4),
     ca_service_registry = Address (replicate 20 5), ca_ticket_price_oracle = Address (replicate 20 6),
     ca_winning_probability_oracle = Address (replicate 20 7), ca_node_safe_migration = Address (replicate 20 8),
     ca_node_stake_factory = Address (replicate 20 9), ca_module_implementation = Address (replicate 20 10)\<rparr>"

definition safe_example :: safe_generator where
  "safe_example = \<lparr>sg_me = Address (replicate 20 11), sg_contracts = contracts_example, sg_module = Address (replicate 20 12)\<rparr>"

lemma wf_contracts_example: "wf_contracts contracts_example"
  by (simp add: wf_contracts_def contract_list_def contracts_example_def wf_address_def ADDRESS_SIZE_def)

lemma wf_service_type_example: "wf_service_type (ServiceType (replicate 32 1))"
  by (simp add: wf_service_type_def SERVICE_TYPE_SIZE_def)


theorem service_writes_bundled_witness:
  "\<exists>tx. safe_register_service safe_example (ServiceType (replicate 32 1)) (ServiceMetadata (BoundedVec [7])) (Balance 5 WxHOPR)
     = Ok tx \<and> tx_to tx = Some (Address (replicate 20 12))"
proof -
  have c: "wf_contracts (sg_contracts safe_example)" by (simp add: safe_example_def wf_contracts_example)
  have m: "length (service_metadata_as_ref (ServiceMetadata (BoundedVec [7]))) \<le> METADATA_MAX_LENGTH"
    by (simp add: service_metadata_as_ref_def bvec_as_ref_def METADATA_MAX_LENGTH_def)
  show ?thesis
    using service_writes_bundled [OF c m wf_service_type_example refl, of False "Balance 5 WxHOPR"]
    by (auto simp: safe_example_def)
qed

end
