(* ===== verification/Eip1559.thy ===== *)
theory Eip1559
  imports Payload_Spec
begin

text \<open>
  Signing of a request (\<open>sign_and_encode_to_eip2718\<close> of \<open>chain/payload/static_based.rs\<close>): an EIP-1559
  transaction is the byte 2 and an RLP list. RLP is written out as the reference; the package \<open>rlp\<close>
  is the record \<open>rlplib\<close>, and \<open>rlp_ok\<close> states that its stream writes the reference encoding.
\<close>

section \<open>RLP\<close>

definition trim_be :: "bytes \<Rightarrow> bytes" where
  "trim_be bs = dropWhile (\<lambda>b. b = 0) bs"

text \<open>A number below \<open>2 ^ 256\<close> without leading zeros.\<close>

definition min_be :: "nat \<Rightarrow> bytes" where
  "min_be n = trim_be (to_be 32 n)"

definition rlp_header :: "nat \<Rightarrow> nat \<Rightarrow> bytes" where
  "rlp_header base n =
     (if n \<le> 55 then [of_nat (base + n)] else of_nat (base + 55 + length (min_be n)) # min_be n)"

definition ref_rlp_bytes :: "bytes \<Rightarrow> bytes" where
  "ref_rlp_bytes bs = (if length bs = 1 \<and> unat (hd bs) < 128 then bs else rlp_header 128 (length bs) @ bs)"

definition ref_rlp_uint :: "nat \<Rightarrow> bytes" where
  "ref_rlp_uint n = ref_rlp_bytes (min_be n)"

definition ref_rlp_list :: "bytes list \<Rightarrow> bytes" where
  "ref_rlp_list items = rlp_header 192 (length (concat items)) @ concat items"

text \<open>The stream of the package: what \<open>append\<close> writes for a number and for a slice, and a whole list.\<close>

record rlplib =
  rlp_append_uint :: "nat \<Rightarrow> bytes"
  rlp_append_slice :: "bytes \<Rightarrow> bytes"
  rlp_out_list :: "bytes list \<Rightarrow> bytes"

definition rlp_ok :: "rlplib \<Rightarrow> bool" where
  "rlp_ok R \<longleftrightarrow> (\<forall>n < 2 ^ 256. rlp_append_uint R n = ref_rlp_uint n) \<and> rlp_append_slice R = ref_rlp_bytes
     \<and> rlp_out_list R = ref_rlp_list"

definition rlp_std :: rlplib where
  "rlp_std = \<lparr>rlp_append_uint = ref_rlp_uint, rlp_append_slice = ref_rlp_bytes, rlp_out_list = ref_rlp_list\<rparr>"

lemma rlp_ok_std: "rlp_ok rlp_std"
  by (simp add: rlp_ok_def rlp_std_def)

section \<open>Signing\<close>

text \<open>The items of the stream: nine fields, and with a signature the parity and the two halves.\<close>

definition to_bytes :: "address option \<Rightarrow> bytes" where
  "to_bytes to = (case to of Some addr \<Rightarrow> address_bytes addr | None \<Rightarrow> [])"

definition build_stream ::
  "rlplib \<Rightarrow> tx_request \<Rightarrow> u64 \<Rightarrow> u64 \<Rightarrow> gas_estimation \<Rightarrow> (nat \<times> bytes \<times> bytes) option \<Rightarrow> bytes" where
  "build_stream R t nonce chain_id max_gas sig =
     rlp_out_list R
      ([rlp_append_uint R (unat chain_id), rlp_append_uint R (unat nonce),
        rlp_append_uint R (unat (ge_max_priority_fee_per_gas max_gas)),
        rlp_append_uint R (unat (ge_max_fee_per_gas max_gas)), rlp_append_uint R (unat (ge_gas_limit max_gas)),
        rlp_append_slice R (to_bytes (tx_to t)), rlp_append_slice R (trim_be (tx_value t)),
        rlp_append_slice R (tx_input t), rlp_out_list R []]
       @ (case sig of None \<Rightarrow> []
          | Some (y, r, s) \<Rightarrow> [rlp_append_uint R y, rlp_append_slice R r, rlp_append_slice R s]))"

definition sign_and_encode_to_eip2718 ::
  "'p secp \<Rightarrow> 'p ecdsalib \<Rightarrow> rlplib \<Rightarrow> tx_request \<Rightarrow> u64 \<Rightarrow> u64 \<Rightarrow> gas_estimation option \<Rightarrow> 'p chain_keypair
    \<Rightarrow> (bytes, chain_types_error) res" where
  "sign_and_encode_to_eip2718 L X R t nonce chain_id max_gas kp =
     (let max_gas = (case max_gas of Some g \<Rightarrow> g | None \<Rightarrow> gas_estimation_default);
          to_sign = 0x02 # build_stream R t nonce chain_id max_gas None;
          tx_hash = keccak256 L to_sign
      in and_then (ok_or (SigningError ''signature error'') (k256_sign X (secret_bytes (ckp_secret kp)) tx_hash)) (\<lambda>(sig_bytes, rec_id).
         let y_parity = unat rec_id; rs = take 32 sig_bytes; ss = drop 32 sig_bytes
         in Ok (0x02 # build_stream R t nonce chain_id max_gas (Some (y_parity, rs, ss)))))"

section \<open>The canonical transaction\<close>

text \<open>The EIP-1559 transaction: every number, the halves of the signature included, as an RLP number.\<close>

definition eip1559_fields :: "tx_request \<Rightarrow> u64 \<Rightarrow> u64 \<Rightarrow> gas_estimation \<Rightarrow> bytes list" where
  "eip1559_fields t nonce chain_id g =
     [ref_rlp_uint (unat chain_id), ref_rlp_uint (unat nonce), ref_rlp_uint (unat (ge_max_priority_fee_per_gas g)),
      ref_rlp_uint (unat (ge_max_fee_per_gas g)), ref_rlp_uint (unat (ge_gas_limit g)),
      ref_rlp_bytes (to_bytes (tx_to t)), ref_rlp_uint (from_be (tx_value t)), ref_rlp_bytes (tx_input t), ref_rlp_list []]"

definition eip1559_unsigned :: "tx_request \<Rightarrow> u64 \<Rightarrow> u64 \<Rightarrow> gas_estimation \<Rightarrow> bytes" where
  "eip1559_unsigned t nonce chain_id g = 0x02 # ref_rlp_list (eip1559_fields t nonce chain_id g)"

definition eip1559_signed :: "tx_request \<Rightarrow> u64 \<Rightarrow> u64 \<Rightarrow> gas_estimation \<Rightarrow> nat \<Rightarrow> nat \<Rightarrow> nat \<Rightarrow> bytes" where
  "eip1559_signed t nonce chain_id g y r s =
     0x02 # ref_rlp_list (eip1559_fields t nonce chain_id g @ [ref_rlp_uint y, ref_rlp_uint r, ref_rlp_uint s])"

lemma trim_be_word: "length w = 32 \<Longrightarrow> trim_be w = min_be (from_be w)"
  by (simp add: min_be_def to_be_from_be_len)

lemma length_trim_be: "length (trim_be bs) \<le> length bs"
  by (simp add: trim_be_def length_dropWhile_le)

lemma length_header_short: "n \<le> 55 \<Longrightarrow> length (rlp_header b n) = 1"
  by (simp add: rlp_header_def)

text \<open>A word of 32 bytes is written as the number it denotes exactly if its first byte is not zero.\<close>

lemma rlp_word_length:
  assumes "length w = 32"
  shows "length (ref_rlp_bytes w) = 33"
    "length (ref_rlp_uint (from_be w)) \<le> 33"
    "hd w \<noteq> 0 \<Longrightarrow> ref_rlp_uint (from_be w) = ref_rlp_bytes w"
    "hd w = 0 \<Longrightarrow> length (ref_rlp_uint (from_be w)) < 33"
proof -
  have l: "length (trim_be w) \<le> 32" using length_trim_be [of w] assms by simp
  show "length (ref_rlp_bytes w) = 33" using assms by (simp add: ref_rlp_bytes_def length_header_short)
  have b: "length (ref_rlp_uint (from_be w)) \<le> Suc (length (trim_be w))"
    using l by (simp add: ref_rlp_uint_def trim_be_word [OF assms, symmetric] ref_rlp_bytes_def length_header_short)
  then show "length (ref_rlp_uint (from_be w)) \<le> 33" using l by simp
  obtain a v where w: "w = a # v" using assms by (cases w) auto
  show "ref_rlp_uint (from_be w) = ref_rlp_bytes w" if "hd w \<noteq> 0"
    using that by (simp add: ref_rlp_uint_def trim_be_word [OF assms, symmetric]) (simp add: trim_be_def w)
  show "length (ref_rlp_uint (from_be w)) < 33" if "hd w = 0"
  proof -
    have "trim_be w = trim_be v" using that by (simp add: trim_be_def w)
    then have "length (trim_be w) \<le> 31" using length_trim_be [of v] assms w by simp
    then show ?thesis using b by simp
  qed
qed

lemma from_be_trim: "from_be (trim_be bs) = from_be bs"
  by (induction bs) (simp_all add: trim_be_def from_be_Cons)

lemma length_min_be:
  assumes "n < 2 ^ 256" "k \<le> 32"
  shows "length (min_be n) \<le> k \<longleftrightarrow> n < 256 ^ k"
proof
  have "from_be (min_be n) = n"
    using assms(1) by (simp add: min_be_def from_be_trim from_be_to_be)
  then have "n < 256 ^ length (min_be n)" using from_be_less [of "min_be n"] by simp
  also assume "length (min_be n) \<le> k"
  then have "(256 :: nat) ^ length (min_be n) \<le> 256 ^ k" by (rule power_increasing) simp
  finally show "n < 256 ^ k" .
next
  assume "n < 256 ^ k"
  then have "to_be (32 - k + k) n = replicate (32 - k) 0 @ to_be k n" by (rule to_be_pad)
  then have "min_be n = trim_be (to_be k n)"
    using assms(2) by (simp add: min_be_def trim_be_def dropWhile_replicate_zero)
  then show "length (min_be n) \<le> k" using length_trim_be [of "to_be k n"] by simp
qed

lemma length_header_mono:
  assumes "m \<le> n" "n < 2 ^ 256"
  shows "length (rlp_header b m) \<le> length (rlp_header b n)"
proof -
  have l: "length (min_be n) \<le> 32" using length_trim_be [of "to_be 32 n"] by (simp add: min_be_def)
  have "n < 256 ^ length (min_be n)" using length_min_be [OF assms(2) l] by simp
  then have "length (min_be m) \<le> length (min_be n)"
    using assms length_min_be [of m, OF _ l] by (meson le_less_trans)
  then show ?thesis using assms(1) by (simp add: rlp_header_def)
qed

lemma rlp_list_longer:
  assumes "length (concat xs) < length (concat ys)" "length (concat ys) < 2 ^ 256"
  shows "ref_rlp_list xs \<noteq> ref_rlp_list ys"
proof
  assume "ref_rlp_list xs = ref_rlp_list ys"
  then have "length (ref_rlp_list xs) = length (ref_rlp_list ys)" by simp
  then show False
    using length_header_mono [of "length (concat xs)" "length (concat ys)" 192] assms by (simp add: ref_rlp_list_def)
qed

lemma length_header_le: "length (rlp_header b n) \<le> 33"
  using length_trim_be [of "to_be 32 n"] by (simp add: rlp_header_def min_be_def)

lemma length_rlp_items:
  "length (ref_rlp_bytes bs) \<le> length bs + 33" "length (ref_rlp_uint n) \<le> 65"
proof -
  show b: "length (ref_rlp_bytes bs) \<le> length bs + 33" for bs
    using length_header_le [of 128 "length bs"] by (simp add: ref_rlp_bytes_def)
  show "length (ref_rlp_uint n) \<le> 65"
    using b [of "min_be n"] length_trim_be [of "to_be 32 n"] by (simp add: ref_rlp_uint_def min_be_def)
qed

lemma length_fields:
  assumes "length (to_bytes (tx_to t)) \<le> 20" "length (tx_input t) < 2 ^ 63"
  shows "length (concat (eip1559_fields t nonce chain_id g)) < 2 ^ 64"
proof -
  have e: "length (ref_rlp_list []) = 1" by (simp add: ref_rlp_list_def length_header_short)
  show ?thesis
    using length_rlp_items(1) [of "to_bytes (tx_to t)"] length_rlp_items(1) [of "tx_input t"] assms
      length_rlp_items(2) [of "unat chain_id"] length_rlp_items(2) [of "unat nonce"]
      length_rlp_items(2) [of "unat (ge_max_priority_fee_per_gas g)"] length_rlp_items(2) [of "unat (ge_max_fee_per_gas g)"]
      length_rlp_items(2) [of "unat (ge_gas_limit g)"] length_rlp_items(2) [of "from_be (tx_value t)"]
    by (simp add: eip1559_fields_def e)
qed

section \<open>The signed transaction\<close>

lemma build_stream_eq:
  assumes "rlp_ok R" "length (tx_value t) = 32"
  shows "0x02 # build_stream R t nonce chain_id g None = eip1559_unsigned t nonce chain_id g"
    "y < 256 \<Longrightarrow> build_stream R t nonce chain_id g (Some (y, rs, ss)) =
       ref_rlp_list (eip1559_fields t nonce chain_id g @ [ref_rlp_uint y, ref_rlp_bytes rs, ref_rlp_bytes ss])"
proof -
  have u: "rlp_append_uint R n = ref_rlp_uint n" if "n < 2 ^ 256" for n
    using assms(1) that by (simp add: rlp_ok_def)
  have s: "rlp_append_slice R = ref_rlp_bytes" "rlp_out_list R = ref_rlp_list" using assms(1) by (simp_all add: rlp_ok_def)
  have v: "ref_rlp_bytes (trim_be (tx_value t)) = ref_rlp_uint (from_be (tx_value t))"
    using assms(2) by (simp add: trim_be_word ref_rlp_uint_def)
  have w64: "rlp_append_uint R (unat x) = ref_rlp_uint (unat x)" for x :: u64
    by (rule u) (rule less_trans [OF unat_less_2p], simp)
  have w128: "rlp_append_uint R (unat x) = ref_rlp_uint (unat x)" for x :: "128 word"
    by (rule u) (rule less_trans [OF unat_less_2p], simp)
  show "0x02 # build_stream R t nonce chain_id g None = eip1559_unsigned t nonce chain_id g"
    by (simp add: build_stream_def eip1559_unsigned_def eip1559_fields_def s v w64 w128)
  show "build_stream R t nonce chain_id g (Some (y, rs, ss)) =
       ref_rlp_list (eip1559_fields t nonce chain_id g @ [ref_rlp_uint y, ref_rlp_bytes rs, ref_rlp_bytes ss])" if "y < 256"
  proof -
    have "rlp_append_uint R y = ref_rlp_uint y" by (rule u) (rule less_trans [OF that], simp)
    then show ?thesis by (simp add: build_stream_def eip1559_fields_def s v w64 w128)
  qed
qed

text \<open>C35. Signing a request: with a valid key pair it succeeds, the signature is over the hash of the
  canonical unsigned EIP-1559 transaction (chain, nonce, fees, gas limit of the estimation or its
  default, recipient, value without leading zeros, input, empty access list), verifies and recovers
  the signer's public key. The bytes returned are the canonical signed transaction exactly if
  neither half of the signature begins with a zero byte: the halves are appended as byte strings,
  so a leading zero is kept, which RLP numbers must not have.\<close>

theorem signed_transaction_canonical:
  assumes "rlp_ok R" "ecdsalib_ok L X" "wf_chain_keypair L kp"
    and "length (tx_value t) = 32" "length (tx_input t) < 2 ^ 63" "length (to_bytes (tx_to t)) \<le> 20"
    and g: "g = (case max_gas of Some g \<Rightarrow> g | None \<Rightarrow> gas_estimation_default)"
  shows "\<exists>sig rec h. h = keccak256 L (eip1559_unsigned t nonce chain_id g)
    \<and> k256_sign X (secret_bytes (ckp_secret kp)) h = Some (sig, rec)
    \<and> k256_recover X h sig rec = Some (pk_point (ckp_public kp))
    \<and> (sign_and_encode_to_eip2718 L X R t nonce chain_id max_gas kp
         = Ok (eip1559_signed t nonce chain_id g (unat rec) (from_be (take 32 sig)) (from_be (drop 32 sig)))
       \<longleftrightarrow> hd (take 32 sig) \<noteq> 0 \<and> hd (drop 32 sig) \<noteq> 0)
    \<and> sign_and_encode_to_eip2718 L X R t nonce chain_id max_gas kp
         = Ok (0x02 # ref_rlp_list (eip1559_fields t nonce chain_id g
             @ [ref_rlp_uint (unat rec), ref_rlp_bytes (take 32 sig), ref_rlp_bytes (drop 32 sig)]))"
proof -
  define h where "h = keccak256 L (eip1559_unsigned t nonce chain_id g)"
  have "length h = 32" using assms(2) secp_okD(11) by (auto simp: h_def ecdsalib_ok_def)
  with assms(2,3) obtain sig rec where s: "k256_sign X (secret_bytes (ckp_secret kp)) h = Some (sig, rec)"
    "length sig = 64" "k256_recover X h sig rec = Some (pk_point (ckp_public kp))"
    unfolding ecdsalib_ok_def Let_def by metis
  note st = build_stream_eq [OF assms(1,4)]
  let ?f = "eip1559_fields t nonce chain_id g @ [ref_rlp_uint (unat rec)]"
  let ?r = "take 32 sig" and ?s = "drop 32 sig"
  have out: "sign_and_encode_to_eip2718 L X R t nonce chain_id max_gas kp =
      Ok (0x02 # ref_rlp_list (?f @ [ref_rlp_bytes ?r, ref_rlp_bytes ?s]))"
    using s(1) unat_byte_less [of rec]
    by (simp add: sign_and_encode_to_eip2718_def g [symmetric] st h_def [symmetric])
  have l: "length ?r = 32" "length ?s = 32" using s(2) by simp_all
  note w = rlp_word_length [OF l(1)] rlp_word_length [OF l(2)]
  have canon: "0x02 # ref_rlp_list (?f @ [ref_rlp_bytes ?r, ref_rlp_bytes ?s]) =
      eip1559_signed t nonce chain_id g (unat rec) (from_be ?r) (from_be ?s) \<longleftrightarrow> hd ?r \<noteq> 0 \<and> hd ?s \<noteq> 0" (is "?l \<longleftrightarrow> ?n")
  proof
    show ?l if ?n using that w(3,7) by (simp add: eip1559_signed_def)
    show ?n if ?l
    proof (rule ccontr)
      assume "\<not> ?n"
      then have "length (ref_rlp_uint (from_be ?r)) + length (ref_rlp_uint (from_be ?s)) < 66"
        using w(2,4,6,8) by fastforce
      then have lt: "length (concat (?f @ [ref_rlp_uint (from_be ?r), ref_rlp_uint (from_be ?s)]))
          < length (concat (?f @ [ref_rlp_bytes ?r, ref_rlp_bytes ?s]))"
        using w(1,5) by simp
      have "length (concat (?f @ [ref_rlp_bytes ?r, ref_rlp_bytes ?s])) < 2 ^ 256"
        using length_fields [OF assms(6,5), of nonce chain_id g] length_rlp_items(2) [of "unat rec"] w(1,5)
        by simp
      from rlp_list_longer [OF lt this] \<open>?l\<close> show False
        by (simp only: eip1559_signed_def list.inject append_assoc append.simps) simp
    qed
  qed
  show ?thesis
  proof (intro exI conjI)
    show "h = keccak256 L (eip1559_unsigned t nonce chain_id g)" by (rule h_def)
    show "sign_and_encode_to_eip2718 L X R t nonce chain_id max_gas kp =
        Ok (eip1559_signed t nonce chain_id g (unat rec) (from_be ?r) (from_be ?s))
      \<longleftrightarrow> hd ?r \<noteq> 0 \<and> hd ?s \<noteq> 0"
      unfolding out res.inject by (rule canon)
    show "sign_and_encode_to_eip2718 L X R t nonce chain_id max_gas kp = Ok (0x02 # ref_rlp_list
        (eip1559_fields t nonce chain_id g @ [ref_rlp_uint (unat rec), ref_rlp_bytes ?r, ref_rlp_bytes ?s]))"
      using out by simp
  qed (rule s)+
qed

text \<open>The toy signature of the secret three begins with a zero byte: the result is not canonical.\<close>

theorem signed_transaction_canonical_witness:
  "\<exists>h. sign_and_encode_to_eip2718 secp_toy ecdsa_toy rlp_std tx_default 1 1 None keypair_toy
     \<noteq> Ok (eip1559_signed tx_default 1 1 gas_estimation_default 0 0 3)
   \<and> k256_sign ecdsa_toy (to_be 32 3) h = Some (to_be 64 3, 0)"
proof -
  have v: "length (tx_value tx_default) = 32" "length (tx_input tx_default) < 2 ^ 63" "length (to_bytes (tx_to tx_default)) \<le> 20"
    by (simp_all add: tx_default_def to_bytes_def zero_word_def)
  have s: "take 32 (to_be 64 3) = replicate 32 0" "from_be (drop 32 (to_be 64 3)) = 3" "hd (to_be 64 3) = 0"
    using to_be_pad [of 3 32 32] drop_to_be [of 32 64 3] by (simp_all add: from_be_to_be)
  have r: "from_be (replicate 32 0) = 0" by (simp add: from_be_zeros)
  have k: "k256_sign ecdsa_toy (to_be 32 3) h = Some (to_be 64 3, 0)" for h
    by (simp add: ecdsa_toy_def from_be_to_be)
  show ?thesis
    using signed_transaction_canonical [OF rlp_ok_std ecdsalib_ok_toy keypair_toy(1) v refl, of 1 1 None] k
    by (auto simp: keypair_toy(2) s r)
qed

end
