(* ===== verification/Bindings.thy ===== *)
theory Bindings
  imports Eip1559
begin

text \<open>
  \<open>chain/payload/bindings_based.rs\<close>: the payload generators over the types of \<open>hopr-bindings\<close> and
  \<open>alloy\<close>, which encode calls and structs from the Solidity interface. The two packages are the record
  \<open>alloylib\<close>; \<open>alloy_ok\<close> states that they compute the ABI encoding. The definitions repeat the structure
  of the source; the last section shows both implementations of every method to agree.
\<close>

section \<open>The packages\<close>

text \<open>
  \<open>al_call\<close>, \<open>al_struct\<close>, \<open>al_params\<close>: \<open>abi_encode\<close> of a call and of a struct, \<open>abi_encode_params\<close>;
  \<open>al_address_debug\<close>, \<open>al_uint_from_str\<close>: an address in a format string and the parsing of a number;
  \<open>al_signer\<close>, \<open>al_sign\<close>: a signer from its secret, and the encoding of the request it signs.
\<close>

record al_request =
  ar_to :: "address option"
  ar_input :: "bytes option"
  ar_value :: "nat option"
  ar_gas_limit :: "u64 option"
  ar_nonce :: "u64 option"
  ar_chain_id :: "u64 option"
  ar_max_fee_per_gas :: "128 word option"
  ar_max_priority_fee_per_gas :: "128 word option"

record 'k alloylib =
  al_call :: "contract_fn \<Rightarrow> abi_value list \<Rightarrow> bytes"
  al_struct :: "abi_value list \<Rightarrow> bytes"
  al_params :: "abi_value list \<Rightarrow> bytes"
  al_address_debug :: "address \<Rightarrow> string"
  al_uint_from_str :: "string \<Rightarrow> (nat, string) res"
  al_signer :: "bytes \<Rightarrow> ('k, string) res"
  al_sign :: "al_request \<Rightarrow> 'k \<Rightarrow> (bytes, string) res"

definition DEFAULT_CAPABILITY_PERMISSIONS :: string where
  "DEFAULT_CAPABILITY_PERMISSIONS = ''010103030303030303030303''"

definition alloy_ok :: "'k alloylib \<Rightarrow> bool" where
  "alloy_ok M \<longleftrightarrow>
     (\<forall>f vs. list_all2 has_type vs (fn_types f) \<longrightarrow> al_call M f vs = call_data f vs)
   \<and> (\<forall>vs ts. list_all2 has_type vs ts \<longrightarrow> al_struct M vs = abi_encode_struct vs \<and> al_params M vs = abi_encode vs)
   \<and> (\<forall>a. wf_address a \<longrightarrow> al_uint_from_str M (al_address_debug M a @ DEFAULT_CAPABILITY_PERMISSIONS) =
        Ok (from_be (address_bytes a) * 16 ^ 24 + 0x010103030303030303030303))"

section \<open>Values\<close>

text \<open>
  A number read from at most 32 bytes that fit its type, an address of 20 bytes and a \<open>B256\<close>, as the
  words they are encoded to. A number is held as a \<open>nat\<close>.
\<close>

definition sol_uint :: "nat \<Rightarrow> abi_value" where
  "sol_uint n = AWord (be32 n)"

definition a2al :: "address \<Rightarrow> abi_value" where
  "a2al a = sol_uint (from_be (address_bytes a))"

definition b256 :: "bytes \<Rightarrow> abi_value" where
  "b256 bs = AWord bs"

definition al_default :: al_request where
  "al_default = \<lparr>ar_to = None, ar_input = None, ar_value = None, ar_gas_limit = None, ar_nonce = None,
     ar_chain_id = None, ar_max_fee_per_gas = None, ar_max_priority_fee_per_gas = None\<rparr>"

definition al_with_to :: "address \<Rightarrow> al_request \<Rightarrow> al_request" where
  "al_with_to a t = t\<lparr>ar_to := Some a\<rparr>"

definition al_with_input :: "bytes \<Rightarrow> al_request \<Rightarrow> al_request" where
  "al_with_input i t = t\<lparr>ar_input := Some i\<rparr>"

definition al_with_value :: "nat \<Rightarrow> al_request \<Rightarrow> al_request" where
  "al_with_value v t = t\<lparr>ar_value := Some v\<rparr>"

definition al_with_gas_limit :: "u64 \<Rightarrow> al_request \<Rightarrow> al_request" where
  "al_with_gas_limit g t = t\<lparr>ar_gas_limit := Some g\<rparr>"

datatype operation = OpCall | OpDelegateCall

fun operation_code :: "operation \<Rightarrow> nat" where
  "operation_code OpCall = 0"
| "operation_code OpDelegateCall = 1"

section \<open>Payloads\<close>

fun al_encode_erc777_payload :: "'k alloylib \<Rightarrow> erc777_payload \<Rightarrow> bytes" where
  "al_encode_erc777_payload M (Curvy (DirectShield aggregator note)) =
     (let word = (\<lambda>v. sol_uint (from_be (u256_to_be_bytes v)))
      in al_params M ([a2al aggregator, word (cn_owner_hash note), word (cn_token note), word (cn_amount note),
           word (fst (cn_ephemeral_key note)), word (snd (cn_ephemeral_key note)), sol_uint (unat (cn_view_tag note))]))"

definition al_sign_and_encode_to_eip2718 ::
  "'k alloylib \<Rightarrow> al_request \<Rightarrow> u64 \<Rightarrow> u64 \<Rightarrow> gas_estimation option \<Rightarrow> 'p chain_keypair
    \<Rightarrow> (bytes, chain_types_error) res" where
  "al_sign_and_encode_to_eip2718 M t nonce chain_id max_gas kp =
     (let max_gas = (case max_gas of Some g \<Rightarrow> g | None \<Rightarrow> gas_estimation_default)
      in and_then (map_err SigningError (al_signer M (secret_bytes (ckp_secret kp)))) (\<lambda>signer.
         map_err SigningError (al_sign M
           (t\<lparr>ar_nonce := Some nonce, ar_chain_id := Some chain_id, ar_gas_limit := Some (ge_gas_limit max_gas),
              ar_max_fee_per_gas := Some (ge_max_fee_per_gas max_gas),
              ar_max_priority_fee_per_gas := Some (ge_max_priority_fee_per_gas max_gas)\<rparr>) signer)))"

definition module_payload :: "'k alloylib \<Rightarrow> address \<Rightarrow> nat \<Rightarrow> bytes \<Rightarrow> bytes" where
  "module_payload M target v calldata =
     al_call M FnExecTransactionFromModule [a2al target, sol_uint v, ABytes calldata, sol_uint (operation_code OpCall)]"

definition channels_payload :: "'k alloylib \<Rightarrow> address \<Rightarrow> bytes \<Rightarrow> bytes" where
  "channels_payload M hopr_channels calldata = module_payload M hopr_channels 0 calldata"

text \<open>\<open>U256::from_be_bytes(amount.amount().to_be_bytes())\<close>, and the last 12 bytes as a \<open>U96\<close>.\<close>

definition amount_u256 :: "'c balance \<Rightarrow> nat" where
  "amount_u256 amount = from_be (u256_to_be_bytes (balance_amount amount))"

definition amount_u96 :: "'c balance \<Rightarrow> nat" where
  "amount_u96 amount = from_be (drop (32 - 12) (u256_to_be_bytes (balance_amount amount)))"

definition al_approve_tx :: "'k alloylib \<Rightarrow> address \<Rightarrow> hopr_balance \<Rightarrow> al_request" where
  "al_approve_tx M spender amount =
     al_with_input (al_call M FnApprove [a2al spender, sol_uint (amount_u256 amount)]) al_default"

text \<open>The third branch is \<open>unimplemented!\<close>.\<close>

definition al_transfer_tx ::
  "'k alloylib \<Rightarrow> 'c currency \<Rightarrow> address \<Rightarrow> 'c balance \<Rightarrow> (al_request, chain_types_error) res" where
  "al_transfer_tx M C destination amount =
     (if currency_is wxhopr_currency C
      then Ok (al_with_input (al_call M FnTransfer [a2al destination, sol_uint (amount_u256 amount)]) al_default)
      else if currency_is xdai_currency C then Ok (al_with_value (amount_u256 amount) al_default)
      else Panic)"

definition al_register_safe_tx :: "'k alloylib \<Rightarrow> address \<Rightarrow> al_request" where
  "al_register_safe_tx M safe_addr = al_with_input (al_call M FnRegisterSafeByNode [a2al safe_addr]) al_default"

definition al_encode_multi_send_transaction :: "address \<Rightarrow> bytes \<Rightarrow> bytes" where
  "al_encode_multi_send_transaction to data =
     [of_nat (operation_code OpCall)] @ address_bytes to @ replicate 32 0 @ to_be 32 (length data) @ data"

definition service_registry_call ::
  "'k alloylib \<Rightarrow> service_type \<Rightarrow> address \<Rightarrow> service_metadata option \<Rightarrow> bool \<Rightarrow> bytes" where
  "service_registry_call M service_ty node metadata update =
     (let st = b256 (service_type_as_encoded service_ty); node = a2al node
      in case metadata of
           Some metadata \<Rightarrow>
             if update then al_call M FnSelfUpdate [st, node, ABytes (service_metadata_as_ref metadata)]
             else al_call M FnSelfRegister [st, node, ABytes (service_metadata_as_ref metadata)]
         | None \<Rightarrow> al_call M FnSelfDeregister [st, node])"

definition al_paid_service_registry_payload ::
  "'k alloylib \<Rightarrow> address \<Rightarrow> address \<Rightarrow> bytes \<Rightarrow> hopr_balance \<Rightarrow> bytes" where
  "al_paid_service_registry_payload M token registry registry_call burn =
     (let transactions = [];
          transactions = (if \<not> balance_is_zero burn then
              transactions @ al_encode_multi_send_transaction token
                (al_call M FnApprove [a2al registry, sol_uint (amount_u256 burn)])
            else transactions);
          transactions = transactions @ al_encode_multi_send_transaction registry registry_call;
          multi_send = al_call M FnMultiSend [ABytes transactions]
      in al_call M FnExecTransactionFromModule
           [a2al SAFE_MULTI_SEND_ADDRESS, sol_uint 0, ABytes multi_send, sol_uint (operation_code OpDelegateCall)])"

text \<open>
  The struct of an announcement: the slices of the signature panic when out of range; the encoding
  loses its first word (the slice panics when there is none).
\<close>

definition bytes_slice :: "nat \<Rightarrow> bytes \<Rightarrow> bytes option" where
  "bytes_slice n bs = (if n \<le> length bs then Some (drop n bs) else None)"

definition al_announce_payload ::
  "'k alloylib \<Rightarrow> 'm malib \<Rightarrow> address \<Rightarrow> address \<Rightarrow> 'm announcement_data \<Rightarrow> hopr_balance \<Rightarrow> bytes option" where
  "al_announce_payload M A me announcements an key_binding_fee =
     (let sig = offchain_signature_bytes (kb_signature (an_key_binding an)) in
      if length sig < 64 then None
      else
        let inner_payload = al_struct M [a2al me, b256 (slice_of 0 32 sig), b256 (slice_of 32 32 sig),
              b256 (opk_bytes (kb_packet_key (an_key_binding an))), ABytes (ascii_bytes (announced_multiaddr A an))]
        in map_option (\<lambda>data. al_call M FnSend [a2al announcements, sol_uint (amount_u256 key_binding_fee), ABytes data])
             (bytes_slice 32 inner_payload))"

section \<open>Redemption\<close>

definition point_xy :: "bytes \<Rightarrow> (abi_value \<times> abi_value) option" where
  "point_xy p = (if 65 \<le> length p
     then Some (sol_uint (from_be (slice_of 1 32 p)), sol_uint (from_be (slice_of 33 32 p))) else None)"

text \<open>Every failure here is a panic, the one of the witness computation included.\<close>

definition convert_vrf_parameters ::
  "'p secp \<Rightarrow> 'p vrflib \<Rightarrow> 'p vrf_parameters \<Rightarrow> address \<Rightarrow> hash \<Rightarrow> hash \<Rightarrow> abi_value list option" where
  "convert_vrf_parameters L W off_chain signer ticket_hash domain_separator =
     Option.bind (ok (get_s_b_witness L W off_chain signer (hash_bytes ticket_hash) (hash_bytes domain_separator))) (\<lambda>s_b.
     Option.bind (point_xy (get_v_encoded_point L off_chain)) (\<lambda>(vx, vy).
     Option.bind (point_xy s_b) (\<lambda>(sbx, sby).
     Option.bind (point_xy (get_h_v_witness L W off_chain)) (\<lambda>(hvx, hvy).
     Option.bind (point_xy (get_a_encoded_point L off_chain)) (\<lambda>(ax, ay).
     Option.bind (point_xy (get_s_g_witness L off_chain)) (\<lambda>(sgx, sgy).
     Option.bind (point_xy (get_h_a_witness L W off_chain)) (\<lambda>(hax, hay).
       Some [vx, vy, sol_uint (from_be (secp_scalar_bytes L (vrf_s off_chain))),
         sol_uint (from_be (secp_scalar_bytes L (vrf_h off_chain))),
         sbx, sby, hvx, hvy, ax, ay, sgx, sgy, hax, hay])))))))"

definition convert_acknowledged_ticket :: "'p redeemable_ticket \<Rightarrow> (abi_value list, chain_types_error) res" where
  "convert_acknowledged_ticket off_chain =
     (let t = vt_ticket (rt_ticket off_chain) in
      case ticket_signature t of
        Some signature \<Rightarrow>
          if length (signature_bytes signature) < 64 then Panic
          else Ok [b256 (hash_bytes (vt_channel_id (rt_ticket off_chain))),
            sol_uint (amount_u96 (ticket_amount t)),
            sol_uint (from_be (drop (8 - 6) (to_be 8 (unat (ticket_index t))))),
            sol_uint (from_be (drop (4 - 3) (to_be 4 (unat (ticket_epoch t))))),
            sol_uint (from_be (encoded_win_prob t)),
            b256 (slice_of 0 32 (signature_bytes signature)), b256 (slice_of 32 32 (signature_bytes signature)),
            sol_uint (from_be (response_bytes (rt_response off_chain)))]
      | None \<Rightarrow> Err (InvalidArguments ''Acknowledged ticket must be signed''))"

definition al_redeem_values ::
  "'p secp \<Rightarrow> 'p vrflib \<Rightarrow> 'p redeemable_ticket \<Rightarrow> address \<Rightarrow> (abi_value list, chain_types_error) res" where
  "al_redeem_values L W r me =
     and_then (convert_acknowledged_ticket r) (\<lambda>redeemable.
     map_ok (\<lambda>params. redeemable @ params)
       (expect (convert_vrf_parameters L W (rt_vrf_params r) me (vt_hash (rt_ticket r)) (rt_channel_dst r))))"

section \<open>The basic generator\<close>

text \<open>Both generators hold the same fields as those of the static implementation.\<close>

definition al_basic_new :: "address \<Rightarrow> contract_addresses \<Rightarrow> basic_generator" where
  "al_basic_new me contract_addrs = \<lparr>bg_me = me, bg_contracts = contract_addrs\<rparr>"

definition al_basic_approve ::
  "'k alloylib \<Rightarrow> basic_generator \<Rightarrow> address \<Rightarrow> hopr_balance \<Rightarrow> (al_request, chain_types_error) res" where
  "al_basic_approve M g spender amount = Ok (al_with_to (ca_token (bg_contracts g)) (al_approve_tx M spender amount))"

definition al_basic_transfer ::
  "'k alloylib \<Rightarrow> 'c currency \<Rightarrow> basic_generator \<Rightarrow> address \<Rightarrow> 'c balance \<Rightarrow> (al_request, chain_types_error) res" where
  "al_basic_transfer M C g destination amount =
     (let to = (if currency_is xdai_currency C then Ok destination
                else if currency_is wxhopr_currency C then Ok (ca_token (bg_contracts g))
                else Err (InvalidArguments ''invalid currency''))
      in and_then to (\<lambda>to. map_ok (al_with_to to) (al_transfer_tx M C destination amount)))"

definition al_basic_send_erc777 ::
  "'k alloylib \<Rightarrow> basic_generator \<Rightarrow> address \<Rightarrow> hopr_balance \<Rightarrow> erc777_payload \<Rightarrow> (al_request, chain_types_error) res" where
  "al_basic_send_erc777 M g recipient amount payload =
     (let calldata = al_call M FnSend [a2al recipient, sol_uint (amount_u256 amount), ABytes (al_encode_erc777_payload M payload)]
      in Ok (al_with_to (ca_token (bg_contracts g)) (al_with_input calldata al_default)))"

definition al_basic_announce ::
  "'k alloylib \<Rightarrow> 'm malib \<Rightarrow> basic_generator \<Rightarrow> 'm announcement_data \<Rightarrow> hopr_balance \<Rightarrow> (al_request, chain_types_error) res" where
  "al_basic_announce M A g announcement key_binding_fee =
     and_then (expect (al_announce_payload M A (bg_me g) (ca_announcements (bg_contracts g)) announcement key_binding_fee))
       (\<lambda>calldata. Ok (al_with_to (ca_token (bg_contracts g)) (al_with_input calldata al_default)))"

definition al_basic_fund_channel ::
  "'k alloylib \<Rightarrow> basic_generator \<Rightarrow> address \<Rightarrow> hopr_balance \<Rightarrow> (al_request, chain_types_error) res" where
  "al_basic_fund_channel M g dest amount =
     (if dest = bg_me g then Err (InvalidArguments ''Cannot fund channel to self'')
      else Ok (al_with_to (ca_channels (bg_contracts g))
        (al_with_input (al_call M FnFundChannel [a2al dest, sol_uint (amount_u96 amount)]) al_default)))"

definition al_basic_close_incoming_channel ::
  "'k alloylib \<Rightarrow> basic_generator \<Rightarrow> address \<Rightarrow> (al_request, chain_types_error) res" where
  "al_basic_close_incoming_channel M g source =
     (if source = bg_me g then Err (InvalidArguments ''Cannot close incoming channel from self'')
      else Ok (al_with_to (ca_channels (bg_contracts g))
        (al_with_input (al_call M FnCloseIncomingChannel [a2al source]) al_default)))"

definition al_basic_initiate_outgoing_channel_closure ::
  "'k alloylib \<Rightarrow> basic_generator \<Rightarrow> address \<Rightarrow> (al_request, chain_types_error) res" where
  "al_basic_initiate_outgoing_channel_closure M g destination =
     (if destination = bg_me g then Err (InvalidArguments ''Cannot initiate closure of incoming channel to self'')
      else Ok (al_with_to (ca_channels (bg_contracts g))
        (al_with_input (al_call M FnInitiateOutgoingChannelClosure [a2al destination]) al_default)))"

definition al_basic_finalize_outgoing_channel_closure ::
  "'k alloylib \<Rightarrow> basic_generator \<Rightarrow> address \<Rightarrow> (al_request, chain_types_error) res" where
  "al_basic_finalize_outgoing_channel_closure M g destination =
     (if destination = bg_me g then Err (InvalidArguments ''Cannot initiate closure of incoming channel to self'')
      else Ok (al_with_to (ca_channels (bg_contracts g))
        (al_with_input (al_call M FnFinalizeOutgoingChannelClosure [a2al destination]) al_default)))"

definition al_basic_redeem_ticket ::
  "'k alloylib \<Rightarrow> 'p secp \<Rightarrow> 'p vrflib \<Rightarrow> basic_generator \<Rightarrow> 'p redeemable_ticket \<Rightarrow> (al_request, chain_types_error) res" where
  "al_basic_redeem_ticket M L W g acked_ticket =
     map_ok (\<lambda>vs. al_with_to (ca_channels (bg_contracts g)) (al_with_input (al_call M FnRedeemTicket vs) al_default))
       (al_redeem_values L W acked_ticket (bg_me g))"

definition al_basic_register_safe_by_node ::
  "'k alloylib \<Rightarrow> basic_generator \<Rightarrow> address \<Rightarrow> (al_request, chain_types_error) res" where
  "al_basic_register_safe_by_node M g safe_addr =
     Ok (al_with_to (ca_node_safe_registry (bg_contracts g)) (al_register_safe_tx M safe_addr))"

definition al_basic_deregister_node_by_safe :: "basic_generator \<Rightarrow> (al_request, chain_types_error) res" where
  "al_basic_deregister_node_by_safe g = Err (InvalidState ''Can only deregister an address if Safe is activated'')"

definition al_basic_register_service ::
  "'k alloylib \<Rightarrow> basic_generator \<Rightarrow> service_type \<Rightarrow> service_metadata \<Rightarrow> hopr_balance \<Rightarrow> (al_request, chain_types_error) res" where
  "al_basic_register_service M g service_ty metadata registration_burn =
     (if \<not> balance_is_zero registration_burn
      then Err (InvalidState ''paid service writes require a Safe payload generator'')
      else Ok (al_with_to (ca_service_registry (bg_contracts g))
        (al_with_input (service_registry_call M service_ty (bg_me g) (Some metadata) False) al_default)))"

definition al_basic_update_service ::
  "'k alloylib \<Rightarrow> basic_generator \<Rightarrow> service_type \<Rightarrow> service_metadata \<Rightarrow> hopr_balance \<Rightarrow> (al_request, chain_types_error) res" where
  "al_basic_update_service M g service_ty metadata update_burn =
     (if \<not> balance_is_zero update_burn
      then Err (InvalidState ''paid service writes require a Safe payload generator'')
      else Ok (al_with_to (ca_service_registry (bg_contracts g))
        (al_with_input (service_registry_call M service_ty (bg_me g) (Some metadata) True) al_default)))"

definition al_basic_deregister_service ::
  "'k alloylib \<Rightarrow> basic_generator \<Rightarrow> service_type \<Rightarrow> (al_request, chain_types_error) res" where
  "al_basic_deregister_service M g service_ty =
     Ok (al_with_to (ca_service_registry (bg_contracts g))
       (al_with_input (service_registry_call M service_ty (bg_me g) None False) al_default))"

text \<open>\<open>ParseError\<close> holds the error of the number; only its message is kept here.\<close>

definition al_deploy_function_identifier :: "bool \<Rightarrow> bytes" where
  "al_deploy_function_identifier include_node =
     (if include_node then to_be 32 0x0105b97dcdf19d454ebe36f91ed516c2b90ee79f4a46af96a0138c1f5403c1cc
      else to_be 32 0xdd24c144db91d1bc600aac99393baf8f8c664ba461188f057e37f2c37b962b45)"

definition al_basic_deploy_safe ::
  "'k alloylib \<Rightarrow> basic_generator \<Rightarrow> hopr_balance \<Rightarrow> address list \<Rightarrow> bool \<Rightarrow> bytes \<Rightarrow> (al_request, chain_types_error) res" where
  "al_basic_deploy_safe M g bal admins include_node nonce =
     (let nonce = from_be nonce;
          admins = map (\<lambda>a. be32 (from_be (address_bytes a))) admins
      in and_then (map_err TxParseError (al_uint_from_str M
             (al_address_debug M (ca_channels (bg_contracts g)) @ DEFAULT_CAPABILITY_PERMISSIONS))) (\<lambda>default_target.
         and_then (expect (bytes_slice 32 (al_struct M
             [b256 (al_deploy_function_identifier include_node), sol_uint nonce, sol_uint default_target, AWords admins])))
           (\<lambda>user_data.
             let tx_payload = al_call M FnSend [a2al (ca_node_stake_factory (bg_contracts g)),
                   sol_uint (amount_u256 bal), ABytes user_data]
             in Ok (al_with_input tx_payload (al_with_to (ca_token (bg_contracts g)) al_default)))))"

section \<open>The Safe generator\<close>

definition al_safe_new :: "'p chain_keypair \<Rightarrow> contract_addresses \<Rightarrow> address \<Rightarrow> safe_generator" where
  "al_safe_new kp contract_addrs module_addr =
     \<lparr>sg_me = chain_keypair_address kp, sg_contracts = contract_addrs, sg_module = module_addr\<rparr>"

text \<open>\<open>default().with_input(_).with_to(self.module).with_gas_limit(_)\<close>, the end of most methods.\<close>

definition al_module_tx :: "safe_generator \<Rightarrow> bytes \<Rightarrow> al_request" where
  "al_module_tx g input = al_with_gas_limit DEFAULT_TX_GAS (al_with_to (sg_module g) (al_with_input input al_default))"

definition al_safe_approve ::
  "'k alloylib \<Rightarrow> safe_generator \<Rightarrow> address \<Rightarrow> hopr_balance \<Rightarrow> (al_request, chain_types_error) res" where
  "al_safe_approve M g spender amount =
     (let inner_payload = al_call M FnApprove [a2al spender, sol_uint (amount_u256 amount)]
      in Ok (al_module_tx g (module_payload M (ca_token (sg_contracts g)) 0 inner_payload)))"

definition al_safe_transfer ::
  "'k alloylib \<Rightarrow> 'c currency \<Rightarrow> safe_generator \<Rightarrow> address \<Rightarrow> 'c balance \<Rightarrow> (al_request, chain_types_error) res" where
  "al_safe_transfer M C g destination amount =
     (let to = (if currency_is xdai_currency C then Ok destination
                else if currency_is wxhopr_currency C then Ok (ca_token (sg_contracts g))
                else Err (InvalidArguments ''invalid currency''))
      in and_then to (\<lambda>to.
           let v = (if currency_is xdai_currency C then amount_u256 amount else 0);
               inner_payload = (if currency_is wxhopr_currency C
                 then al_call M FnTransfer [a2al destination, sol_uint (amount_u256 amount)] else [])
           in Ok (al_module_tx g (module_payload M to v inner_payload))))"

definition al_safe_send_erc777 ::
  "'k alloylib \<Rightarrow> safe_generator \<Rightarrow> address \<Rightarrow> hopr_balance \<Rightarrow> erc777_payload \<Rightarrow> (al_request, chain_types_error) res" where
  "al_safe_send_erc777 M g recipient amount payload =
     (let calldata = al_call M FnSend [a2al recipient, sol_uint (amount_u256 amount), ABytes (al_encode_erc777_payload M payload)]
      in Ok (al_module_tx g (module_payload M (ca_token (sg_contracts g)) 0 calldata)))"

definition al_safe_announce ::
  "'k alloylib \<Rightarrow> 'm malib \<Rightarrow> safe_generator \<Rightarrow> 'm announcement_data \<Rightarrow> hopr_balance \<Rightarrow> (al_request, chain_types_error) res" where
  "al_safe_announce M A g announcement key_binding_fee =
     and_then (expect (al_announce_payload M A (sg_me g) (ca_announcements (sg_contracts g)) announcement key_binding_fee))
       (\<lambda>calldata. Ok (al_module_tx g (module_payload M (ca_token (sg_contracts g)) 0 calldata)))"

definition al_safe_fund_channel ::
  "'k alloylib \<Rightarrow> safe_generator \<Rightarrow> address \<Rightarrow> hopr_balance \<Rightarrow> (al_request, chain_types_error) res" where
  "al_safe_fund_channel M g dest amount =
     (if dest = sg_me g then Err (InvalidArguments ''cannot fund channel to self'')
      else if balance_amount amount > of_nat MAX_FUNDING_AMOUNT
      then Err (InvalidArguments ''cannot fund channel with amount larger than MAX_FUNDING_AMOUNT'')
      else
        let calldata = al_call M FnFundChannelSafe [a2al (sg_me g), a2al dest, sol_uint (amount_u96 amount)]
        in Ok (al_module_tx g (channels_payload M (ca_channels (sg_contracts g)) calldata)))"

definition al_safe_close_incoming_channel ::
  "'k alloylib \<Rightarrow> safe_generator \<Rightarrow> address \<Rightarrow> (al_request, chain_types_error) res" where
  "al_safe_close_incoming_channel M g source =
     (if source = sg_me g then Err (InvalidArguments ''Cannot close incoming channel from self'')
      else Ok (al_module_tx g (channels_payload M (ca_channels (sg_contracts g))
        (al_call M FnCloseIncomingChannelSafe [a2al (sg_me g), a2al source]))))"

definition al_safe_initiate_outgoing_channel_closure ::
  "'k alloylib \<Rightarrow> safe_generator \<Rightarrow> address \<Rightarrow> (al_request, chain_types_error) res" where
  "al_safe_initiate_outgoing_channel_closure M g destination =
     (if destination = sg_me g then Err (InvalidArguments ''Cannot initiate closure of incoming channel to self'')
      else Ok (al_module_tx g (channels_payload M (ca_channels (sg_contracts g))
        (al_call M FnInitiateOutgoingChannelClosureSafe [a2al (sg_me g), a2al destination]))))"

definition al_safe_finalize_outgoing_channel_closure ::
  "'k alloylib \<Rightarrow> safe_generator \<Rightarrow> address \<Rightarrow> (al_request, chain_types_error) res" where
  "al_safe_finalize_outgoing_channel_closure M g destination =
     (if destination = sg_me g then Err (InvalidArguments ''Cannot initiate closure of incoming channel to self'')
      else Ok (al_module_tx g (channels_payload M (ca_channels (sg_contracts g))
        (al_call M FnFinalizeOutgoingChannelClosureSafe [a2al (sg_me g), a2al destination]))))"

definition al_safe_redeem_ticket ::
  "'k alloylib \<Rightarrow> 'p secp \<Rightarrow> 'p vrflib \<Rightarrow> safe_generator \<Rightarrow> 'p redeemable_ticket \<Rightarrow> (al_request, chain_types_error) res" where
  "al_safe_redeem_ticket M L W g acked_ticket =
     map_ok (\<lambda>vs. al_module_tx g (channels_payload M (ca_channels (sg_contracts g))
         (al_call M FnRedeemTicketSafe (a2al (sg_me g) # vs))))
       (al_redeem_values L W acked_ticket (sg_me g))"

definition al_safe_register_safe_by_node ::
  "'k alloylib \<Rightarrow> safe_generator \<Rightarrow> address \<Rightarrow> (al_request, chain_types_error) res" where
  "al_safe_register_safe_by_node M g safe_addr =
     Ok (al_with_gas_limit DEFAULT_TX_GAS
       (al_with_to (ca_node_safe_registry (sg_contracts g)) (al_register_safe_tx M safe_addr)))"

definition al_safe_deregister_node_by_safe ::
  "'k alloylib \<Rightarrow> safe_generator \<Rightarrow> (al_request, chain_types_error) res" where
  "al_safe_deregister_node_by_safe M g = Ok (al_module_tx g (al_call M FnDeregisterNodeBySafe [a2al (sg_me g)]))"

definition al_safe_register_service ::
  "'k alloylib \<Rightarrow> safe_generator \<Rightarrow> service_type \<Rightarrow> service_metadata \<Rightarrow> hopr_balance \<Rightarrow> (al_request, chain_types_error) res" where
  "al_safe_register_service M g service_ty metadata registration_burn =
     (let call = service_registry_call M service_ty (sg_me g) (Some metadata) False
      in Ok (al_module_tx g (al_paid_service_registry_payload M (ca_token (sg_contracts g))
           (ca_service_registry (sg_contracts g)) call registration_burn)))"

definition al_safe_update_service ::
  "'k alloylib \<Rightarrow> safe_generator \<Rightarrow> service_type \<Rightarrow> service_metadata \<Rightarrow> hopr_balance \<Rightarrow> (al_request, chain_types_error) res" where
  "al_safe_update_service M g service_ty metadata update_burn =
     (let call = service_registry_call M service_ty (sg_me g) (Some metadata) True
      in Ok (al_module_tx g (al_paid_service_registry_payload M (ca_token (sg_contracts g))
           (ca_service_registry (sg_contracts g)) call update_burn)))"

definition al_safe_deregister_service ::
  "'k alloylib \<Rightarrow> safe_generator \<Rightarrow> service_type \<Rightarrow> (al_request, chain_types_error) res" where
  "al_safe_deregister_service M g service_ty =
     (let call = service_registry_call M service_ty (sg_me g) None False
      in Ok (al_module_tx g (al_call M FnExecTransactionFromModule
           [a2al (ca_service_registry (sg_contracts g)), sol_uint 0, ABytes call, sol_uint (operation_code OpCall)])))"

definition al_safe_deploy_safe ::
  "safe_generator \<Rightarrow> hopr_balance \<Rightarrow> address list \<Rightarrow> bool \<Rightarrow> bytes \<Rightarrow> (al_request, chain_types_error) res" where
  "al_safe_deploy_safe g bal admins include_node nonce = Err (InvalidState ''cannot deploy Safe from SafePayloadGenerator'')"

end
