(* ===== verification/Bindings_Spec.thy ===== *)
theory Bindings_Spec
  imports Bindings
begin

text \<open>
  Both payload implementations make the same requests: what the generators over the bindings return,
  read as a request of the static implementation (\<open>request_of\<close>), is what the static generators
  return, under the contract \<open>alloy_ok\<close> of the packages.
\<close>

definition request_of :: "al_request \<Rightarrow> tx_request" where
  "request_of t = \<lparr>tx_to = ar_to t, tx_input = (case ar_input t of None \<Rightarrow> [] | Some i \<Rightarrow> i),
     tx_value = be32 (case ar_value t of None \<Rightarrow> 0 | Some v \<Rightarrow> v), tx_gas_limit = ar_gas_limit t\<rparr>"

definition wf_basic :: "basic_generator \<Rightarrow> bool" where
  "wf_basic g \<longleftrightarrow> wf_address (bg_me g) \<and> wf_contracts (bg_contracts g)"

definition wf_safe :: "safe_generator \<Rightarrow> bool" where
  "wf_safe g \<longleftrightarrow> wf_address (sg_me g) \<and> wf_contracts (sg_contracts g) \<and> wf_address (sg_module g)"

section \<open>Values\<close>

lemma a2al_eq: "wf_address a \<Longrightarrow> a2al a = AWord (addr32 a)"
  by (simp add: a2al_def sol_uint_def addr32_eq)

lemma be32_amount [simp]: "be32 (amount_u256 b) = u256_to_be_bytes (balance_amount b)"
  by (simp add: amount_u256_def be32_from_be)

lemma amount_u96_eq: "be32 (amount_u96 b) = truncated_word (u256_to_be_bytes (balance_amount b)) 12"
  by (simp add: amount_u96_def truncated_word_def right_align32_eq)

lemma sol_uint_eqs:
  "sol_uint (amount_u256 b) = AWord (u256_to_be_bytes (balance_amount b))"
  "sol_uint (amount_u96 b) = AWord (truncated_word (u256_to_be_bytes (balance_amount b)) 12)"
  "sol_uint 0 = AWord zero_word"
  by (simp_all add: sol_uint_def amount_u96_eq be32_zero)

lemma amount_type: "from_be (u256_to_be_bytes v) < 2 ^ 256"
  using from_be_less [of "u256_to_be_bytes v"] by simp

lemma funding_type:
  "length (truncated_word (u256_to_be_bytes v) 12) = 32" "from_be (truncated_word (u256_to_be_bytes v) 12) < 2 ^ 96"
proof -
  have m: "unat v mod 2 ^ 96 < 2 ^ 96" by simp
  then have "unat v mod 2 ^ 96 < 2 ^ 256" by (rule less_trans) simp
  then show "length (truncated_word (u256_to_be_bytes v) 12) = 32" "from_be (truncated_word (u256_to_be_bytes v) 12) < 2 ^ 96"
    using m by (simp_all add: truncated_amount from_be_be32)
qed

lemma zero_word_type: "from_be zero_word = 0"
  by (simp add: be32_zero [symmetric] from_be_be32)

lemma one_word_type: "from_be (be32 1) = 1"
  by (simp add: from_be_be32)

lemma word_type: "length w = 32 \<Longrightarrow> from_be w < 2 ^ 256"
  using from_be_less [of w] by simp

lemma wf_contracts_members:
  "wf_contracts c \<Longrightarrow> wf_address (ca_token c)" "wf_contracts c \<Longrightarrow> wf_address (ca_channels c)"
  "wf_contracts c \<Longrightarrow> wf_address (ca_announcements c)" "wf_contracts c \<Longrightarrow> wf_address (ca_node_safe_registry c)"
  "wf_contracts c \<Longrightarrow> wf_address (ca_service_registry c)" "wf_contracts c \<Longrightarrow> wf_address (ca_node_stake_factory c)"
  by (simp_all add: wf_contracts_def contract_list_def)

lemma wf_generators:
  "wf_basic g \<Longrightarrow> wf_address (bg_me g)" "wf_basic g \<Longrightarrow> wf_contracts (bg_contracts g)"
  "wf_safe s \<Longrightarrow> wf_address (sg_me s)" "wf_safe s \<Longrightarrow> wf_contracts (sg_contracts s)" "wf_safe s \<Longrightarrow> wf_address (sg_module s)"
  by (simp_all add: wf_basic_def wf_safe_def)

lemmas wf_members = wf_contracts_members wf_generators

section \<open>Calls\<close>

lemma al_call_eq: "alloy_ok M \<Longrightarrow> list_all2 has_type vs (fn_types f) \<Longrightarrow> al_call M f vs = call_data f vs"
  by (simp add: alloy_ok_def)

lemma al_struct_eq:
  assumes "alloy_ok M" "list_all2 has_type vs ts"
  shows "al_struct M vs = abi_encode_struct vs" "al_params M vs = abi_encode vs"
  using assms by (auto simp: alloy_ok_def)

lemma value_types:
  "wf_address a \<Longrightarrow> has_type (AWord (addr32 a)) (TWord 160)"
  "has_type (AWord (u256_to_be_bytes v)) (TWord 256)"
  "has_type (AWord (truncated_word (u256_to_be_bytes v) 12)) (TWord 96)"
  "has_type (AWord zero_word) (TWord n)"
  "has_type (AWord (be32 1)) (TWord 8)"
  "length w = 32 \<Longrightarrow> has_type (AWord w) (TWord 256)"
  "has_type (ABytes d) TBytes"
  by (simp_all only: has_type.simps addr32_word amount_type funding_type zero_word_type one_word_type word_type
      length_u256_to_be length_zero_word length_be32 simp_thms) simp_all

declare has_type.simps [simp del]

text \<open>Calls of words, and calls that end with bytes.\<close>

lemma al_calls:
  assumes "alloy_ok M" "wf_address a"
  shows "al_call M FnApprove [a2al a, sol_uint (amount_u256 b)] = encode_approve a (u256_to_be_bytes (balance_amount b))"
    "al_call M FnTransfer [a2al a, sol_uint (amount_u256 c)] = encode_transfer a (u256_to_be_bytes (balance_amount c))"
    "al_call M FnRegisterSafeByNode [a2al a] = encode_register_safe_by_node a"
    "al_call M FnDeregisterNodeBySafe [a2al a] = encode_deregister_node_by_safe a"
    "al_call M FnFundChannel [a2al a, sol_uint (amount_u96 b)] =
       encode_fund_channel a (truncated_word (u256_to_be_bytes (balance_amount b)) 12)"
    "al_call M FnCloseIncomingChannel [a2al a] = encode_close_incoming_channel a"
    "al_call M FnInitiateOutgoingChannelClosure [a2al a] = encode_initiate_outgoing_channel_closure a"
    "al_call M FnFinalizeOutgoingChannelClosure [a2al a] = encode_finalize_outgoing_channel_closure a"
  using assms by (simp_all add: a2al_eq sol_uint_eqs al_call_eq value_types encode_static)

lemma al_safe_calls:
  assumes "alloy_ok M" "wf_address m" "wf_address a"
  shows "al_call M FnFundChannelSafe [a2al m, a2al a, sol_uint (amount_u96 b)] =
       encode_fund_channel_safe m a (truncated_word (u256_to_be_bytes (balance_amount b)) 12)"
    "al_call M FnCloseIncomingChannelSafe [a2al m, a2al a] = encode_close_incoming_channel_safe m a"
    "al_call M FnInitiateOutgoingChannelClosureSafe [a2al m, a2al a] = encode_initiate_outgoing_channel_closure_safe m a"
    "al_call M FnFinalizeOutgoingChannelClosureSafe [a2al m, a2al a] = encode_finalize_outgoing_channel_closure_safe m a"
  using assms by (simp_all add: a2al_eq sol_uint_eqs al_call_eq value_types encode_static)

lemma al_send_eq:
  assumes "alloy_ok M" "wf_address a" "length d < 2 ^ 63"
  shows "al_call M FnSend [a2al a, sol_uint (amount_u256 b), ABytes d] = encode_send a (u256_to_be_bytes (balance_amount b)) d"
  using assms by (simp add: a2al_eq sol_uint_eqs al_call_eq value_types encode_send_eq)

lemma module_payload_eq:
  assumes "alloy_ok M" "wf_address a" "length d < 2 ^ 63"
  shows "module_payload M a 0 d = encode_exec_from_module a zero_word d"
    "module_payload M a (amount_u256 b) d = encode_exec_from_module a (u256_to_be_bytes (balance_amount b)) d"
    "channels_payload M a d = encode_exec_from_module a zero_word d"
    "al_call M FnExecTransactionFromModule [a2al a, sol_uint 0, ABytes d, sol_uint 0] = encode_exec_from_module a zero_word d"
proof -
  have z: "sol_uint (operation_code OpCall) = AWord zero_word" by (simp add: sol_uint_eqs)
  show p: "module_payload M a 0 d = encode_exec_from_module a zero_word d"
    using assms by (simp add: module_payload_def a2al_eq z sol_uint_eqs(3) al_call_eq value_types encode_exec_eq)
  show "module_payload M a (amount_u256 b) d = encode_exec_from_module a (u256_to_be_bytes (balance_amount b)) d"
    using assms by (simp add: module_payload_def a2al_eq z sol_uint_eqs(1,3) al_call_eq value_types encode_exec_eq)
  show "channels_payload M a d = encode_exec_from_module a zero_word d" by (simp add: channels_payload_def p)
  show "al_call M FnExecTransactionFromModule [a2al a, sol_uint 0, ABytes d, sol_uint 0] = encode_exec_from_module a zero_word d"
    using p by (simp add: module_payload_def)
qed

lemma al_erc777_eq:
  assumes "alloy_ok M" "wf_address (ds_aggregator p)"
  shows "al_encode_erc777_payload M (Curvy p) = encode_erc777_payload (Curvy p)"
proof (cases p)
  case (DirectShield a n)
  let ?u = "\<lambda>v. AWord (u256_to_be_bytes v)"
  have u: "sol_uint (from_be (u256_to_be_bytes v)) = ?u v" for v
    by (simp add: sol_uint_def be32_from_be)
  have tag: "right_align32 (to_be 2 (unat (cn_view_tag n))) = be32 (unat (cn_view_tag n))"
    using unat_less_2p [of "cn_view_tag n"] by (simp add: right_align32_eq from_be_to_be)
  have tl: "unat (cn_view_tag n) < 2 ^ 16" using unat_less_2p [of "cn_view_tag n"] by simp
  have ty: "has_type (AWord (be32 (unat (cn_view_tag n)))) (TWord 16)"
    using tl by (simp add: has_type.simps from_be_be32)
  let ?vs = "[AWord (addr32 a), ?u (cn_owner_hash n), ?u (cn_token n), ?u (cn_amount n),
     ?u (fst (cn_ephemeral_key n)), ?u (snd (cn_ephemeral_key n)), AWord (be32 (unat (cn_view_tag n)))]"
  have "list_all2 has_type ?vs [TWord 160, TWord 256, TWord 256, TWord 256, TWord 256, TWord 256, TWord 16]"
    using assms(2) ty by (simp add: DirectShield value_types)
  then have "al_params M ?vs = abi_encode ?vs" by (rule al_struct_eq(2) [OF assms(1)])
  then show ?thesis
    using assms(2) by (simp add: DirectShield a2al_eq u tag) (simp add: sol_uint_def abi_encode_def)
qed

lemma abi_struct_slice:
  assumes "alloy_ok M" "list_all2 has_type vs ts" "list_ex is_dynamic vs"
  shows "bytes_slice 32 (al_struct M vs) = Some (abi_encode vs)"
  using assms by (simp add: al_struct_eq abi_encode_struct_def bytes_slice_def)

lemma al_announce_eq:
  assumes "alloy_ok M" "wf_address me" "wf_address ann" "length (announced_multiaddr A an) < 2 ^ 32"
    and "wf_offchain_signature (kb_signature (an_key_binding an))" "wf_opk (kb_packet_key (an_key_binding an))"
  shows "al_announce_payload M A me ann an fee = announce_call_data A me ann an fee"
proof -
  let ?s = "offchain_signature_bytes (kb_signature (an_key_binding an))"
  let ?k = "opk_bytes (kb_packet_key (an_key_binding an))"
  let ?ma = "announced_multiaddr A an"
  let ?vs = "[AWord (addr32 me), AWord (slice_of 0 32 ?s), AWord (slice_of 32 32 ?s), AWord ?k, ABytes (ascii_bytes ?ma)]"
  have l: "length ?s = 64" "length ?k = 32" using assms(5,6) by (simp_all add: wf_offchain_signature_def wf_opk_def OFFCHAIN_SIGNATURE_SIZE_def OPK_SIZE_def)
  have h: "length (slice_of 0 32 ?s) = 32" "length (slice_of 32 32 ?s) = 32" using l by simp_all
  have ty: "list_all2 has_type ?vs [TWord 160, TWord 256, TWord 256, TWord 256, TBytes]"
    using assms(2) h l(2) by (simp add: value_types)
  have sl: "bytes_slice 32 (al_struct M ?vs) = Some (abi_encode ?vs)"
    by (rule abi_struct_slice [OF assms(1) ty]) simp
  have short: "length (abi_encode ?vs) < 2 ^ 63"
    using announce_body_short [of "slice_of 0 32 ?s" "slice_of 32 32 ?s" ?k ?ma me] h l(2) assms(4) by simp
  have m: "length ?ma < 2 ^ 63" using assms(4) by simp
  have "al_announce_payload M A me ann an fee = Some (encode_send ann (u256_to_be_bytes (balance_amount fee)) (abi_encode ?vs))"
    using sl al_send_eq [OF assms(1,3) short] l(1) assms(2) by (simp add: al_announce_payload_def a2al_eq b256_def Let_def)
  also have "\<dots> = announce_call_data A me ann an fee"
    using h l m by (simp add: announce_call_data_def split64_def encode_bodies)
  finally show ?thesis .
qed

lemma service_call_eq:
  assumes "alloy_ok M" "wf_address a" "wf_service_type st" "length (service_metadata_as_ref m) < 2 ^ 63"
  shows "service_registry_call M st a (Some m) u =
      encode_service_write (selector (if u then FnSelfUpdate else FnSelfRegister)) st a (service_metadata_as_ref m)"
    "service_registry_call M st a None u = encode_service_deregister st a"
proof -
  have w: "has_type (AWord (service_type_bytes st)) (TWord 256)"
    using assms(3) by (simp add: value_types wf_service_type_def SERVICE_TYPE_SIZE_def)
  have "al_call M f [AWord (service_type_bytes st), AWord (addr32 a), ABytes d] =
      call_data f [AWord (service_type_bytes st), AWord (addr32 a), ABytes d]" if "f = FnSelfUpdate \<or> f = FnSelfRegister" for f d
    using assms(1,2) w that by (auto intro!: al_call_eq simp: value_types)
  then show "service_registry_call M st a (Some m) u =
      encode_service_write (selector (if u then FnSelfUpdate else FnSelfRegister)) st a (service_metadata_as_ref m)"
    using assms(2,4) by (simp add: service_registry_call_def a2al_eq b256_def service_type_as_encoded_def encode_service_write_eq)
  show "service_registry_call M st a None u = encode_service_deregister st a"
    using assms(1,2) w
    by (simp add: service_registry_call_def a2al_eq b256_def service_type_as_encoded_def encode_static al_call_eq value_types)
qed

lemma al_multi_send_eq: "length d < 2 ^ 63 \<Longrightarrow> al_encode_multi_send_transaction a d = encode_multi_send_transaction a d"
  by (simp add: al_encode_multi_send_transaction_def encode_multi_send_transaction_def zero_word_def word_usize_eq be32_def)

lemma al_paid_eq:
  assumes "alloy_ok M" "wf_address token" "wf_address registry" "length calldata < 2 ^ 32"
  shows "al_paid_service_registry_payload M token registry calldata burn = paid_service_registry_payload token registry calldata burn"
proof -
  let ?ap = "encode_approve registry (u256_to_be_bytes (balance_amount burn))"
  let ?packed = "(if \<not> balance_is_zero burn then encode_multi_send_transaction token ?ap else [])
      @ encode_multi_send_transaction registry calldata"
  have ap: "length ?ap < 2 ^ 8"
    using length_call_words [of "[addr32 registry, u256_to_be_bytes (balance_amount burn)]" FnApprove]
    by (simp add: encode_static)
  have l: "length (address_bytes token) = 20" "length (address_bytes registry) = 20"
    using assms(2,3) by (simp_all add: wf_address_def ADDRESS_SIZE_def)
  have pl: "length ?packed < 2 ^ 33"
    using length_multi_send_transaction [of token ?ap] length_multi_send_transaction [of registry calldata] ap assms(4) l by auto
  have pk: "(let transactions = [];
          transactions = (if \<not> balance_is_zero burn then
              transactions @ al_encode_multi_send_transaction token (al_call M FnApprove [a2al registry, sol_uint (amount_u256 burn)])
            else transactions)
      in transactions @ al_encode_multi_send_transaction registry calldata) = ?packed"
    using ap assms(4) by (simp add: al_calls(1) [OF assms(1,3)] al_multi_send_eq)
  have pk': "(let transactions = [];
          transactions = (if \<not> balance_is_zero burn then transactions @ encode_multi_send_transaction token ?ap else transactions)
      in transactions @ encode_multi_send_transaction registry calldata) = ?packed"
    by simp
  have w: "wf_address SAFE_MULTI_SEND_ADDRESS" by (simp add: wf_address_def ADDRESS_SIZE_def SAFE_MULTI_SEND_ADDRESS_def)
  have ms: "al_call M FnMultiSend [ABytes ?packed] = call_data FnMultiSend [ABytes ?packed]"
    by (rule al_call_eq [OF assms(1)]) (simp add: value_types)
  let ?vs = "[AWord (addr32 SAFE_MULTI_SEND_ADDRESS), AWord zero_word, ABytes (call_data FnMultiSend [ABytes ?packed]), AWord (be32 1)]"
  have "list_all2 has_type ?vs (fn_types FnExecTransactionFromModule)"
    using w value_types(4) [of 256] by (simp add: value_types del: One_nat_def)
  note exec = al_call_eq [OF assms(1) this]
  have "al_paid_service_registry_payload M token registry calldata burn = call_data FnExecTransactionFromModule ?vs"
    unfolding al_paid_service_registry_payload_def Let_def pk [unfolded Let_def] ms exec [symmetric]
    by (simp add: a2al_eq w sol_uint_def be32_zero)
  also have "\<dots> = paid_service_registry_payload token registry calldata burn"
    unfolding paid_service_registry_payload_def Let_def pk' [unfolded Let_def]
    using multi_send_short [OF pl] pl by (simp add: multi_send_eq encode_exec_eq)
  finally show ?thesis .
qed

section \<open>Safe deployment and redemption\<close>

lemma default_target_eq:
  assumes "wf_address a"
  shows "be32 (from_be (address_bytes a) * 16 ^ 24 + 0x010103030303030303030303) = make_default_target a"
    "length (make_default_target a) = 32"
proof -
  let ?p = "[0x01, 0x01, 0x03, 0x03, 0x03, 0x03, 0x03, 0x03, 0x03, 0x03, 0x03, 0x03] :: bytes"
  have p: "from_be ?p = 0x010103030303030303030303" by (simp add: from_be_def)
  show l: "length (make_default_target a) = 32"
    using assms by (simp add: make_default_target_def wf_address_def ADDRESS_SIZE_def)
  have "from_be (make_default_target a) = from_be (address_bytes a) * 256 ^ 12 + from_be ?p"
    unfolding make_default_target_def by (subst from_be_append) simp
  then have "from_be (make_default_target a) = from_be (address_bytes a) * 16 ^ 24 + 0x010103030303030303030303"
    unfolding p by simp
  then show "be32 (from_be (address_bytes a) * 16 ^ 24 + 0x010103030303030303030303) = make_default_target a"
    using be32_from_be [OF l] by simp
qed

lemma deploy_function_eq:
  "al_deploy_function_identifier b = deploy_function_id b" "length (deploy_function_id b) = 32"
proof -
  show l: "length (deploy_function_id b) = 32" for b by (simp add: deploy_function_id_def)
  have "from_be (deploy_function_id True) = 0x0105b97dcdf19d454ebe36f91ed516c2b90ee79f4a46af96a0138c1f5403c1cc"
    "from_be (deploy_function_id False) = 0xdd24c144db91d1bc600aac99393baf8f8c664ba461188f057e37f2c37b962b45"
    by (simp_all add: deploy_function_id_def from_be_def)
  with to_be_from_be_len [OF l, of True] to_be_from_be_len [OF l, of False]
  show "al_deploy_function_identifier b = deploy_function_id b"
    by (cases b) (simp_all only: al_deploy_function_identifier_def if_True if_False)
qed

lemma al_deploy_eq:
  assumes "alloy_ok M" "wf_basic g" "length nonce = 32" "list_all wf_address admins" "length admins < 2 ^ 57"
  shows "map_ok request_of (al_basic_deploy_safe M g bal admins include_node nonce) =
    basic_deploy_safe g bal admins include_node nonce"
proof -
  note c = wf_contracts_members [OF wf_generators(2) [OF assms(2)]]
  let ?fid = "deploy_function_id include_node" and ?tgt = "make_default_target (ca_channels (bg_contracts g))"
  let ?vs = "[AWord ?fid, AWord nonce, AWord ?tgt, AWords (map addr32 admins)]"
  have ad: "map (\<lambda>a. be32 (from_be (address_bytes a))) admins = map addr32 admins"
    using assms(4) by (auto simp: addr32_eq list_all_iff)
  have tgt: "al_uint_from_str M (al_address_debug M (ca_channels (bg_contracts g)) @ DEFAULT_CAPABILITY_PERMISSIONS) =
      Ok (from_be (address_bytes (ca_channels (bg_contracts g))) * 16 ^ 24 + 0x010103030303030303030303)"
    using assms(1) c(2) by (simp add: alloy_ok_def)
  have "list_all (\<lambda>w. length w = 32 \<and> from_be w < 2 ^ 160) (map addr32 admins)"
    using assms(4) addr32_word(1,2) by (auto simp only: list_all_iff list.set_map)
  then have ty: "list_all2 has_type ?vs [TWord 256, TWord 256, TWord 256, TWords 160]"
    using assms(3) default_target_eq(2) [OF c(2)] deploy_function_eq(2)
    by (simp only: list_all2_Cons list_all2_Nil value_types has_type.simps(3) simp_thms)
  have sl: "bytes_slice 32 (al_struct M ?vs) = Some (abi_encode ?vs)"
    by (rule abi_struct_slice [OF assms(1) ty]) simp
  have wl: "\<forall>w \<in> set (map addr32 admins). length w = 32" using assms(4) by (auto simp: list_all_iff addr32_word)
  have "length (abi_encode ?vs) \<le> 160 + 32 * length admins"
    using length_parts [of ?vs "32 * length ?vs"] concat_words_length [OF wl] assms(3) default_target_eq(2) [OF c(2)]
      deploy_function_eq(2)
    by (simp add: abi_encode_def split_beta)
  then have short: "length (abi_encode ?vs) < 2 ^ 63" using assms(5) by simp
  have n: "sol_uint (from_be nonce) = AWord nonce" using assms(3) by (simp add: sol_uint_def be32_from_be)
  have t: "sol_uint (from_be (address_bytes (ca_channels (bg_contracts g))) * 16 ^ 24 + 0x010103030303030303030303) = AWord ?tgt"
    unfolding sol_uint_def default_target_eq(1) [OF c(2)] ..
  have body: "encode_user_data_body ?fid nonce ?tgt admins = abi_encode ?vs"
    by (rule encode_bodies(2)) (use assms(5) in simp)
  show ?thesis
    unfolding al_basic_deploy_safe_def basic_deploy_safe_def Let_def tgt body ad n deploy_function_eq(1) map_err.simps
      and_then.simps t b256_def sl expect_simps al_send_eq [OF assms(1) c(6) short]
    by (simp add: request_of_def al_with_to_def al_with_input_def al_default_def with_to_def with_input_def tx_default_def be32_zero)
qed

lemma right_align32_type:
  assumes "length bs \<le> 32"
  shows "has_type (AWord (right_align32 bs)) (TWord (8 * length bs))" "length (right_align32 bs) = 32"
proof -
  have b: "from_be bs < 2 ^ (8 * length bs)" using from_be_less [of bs] by (simp add: power_mult)
  also have "(2 :: nat) ^ (8 * length bs) \<le> 2 ^ 256" using assms by (intro power_increasing) simp_all
  finally have "from_be (be32 (from_be bs)) = from_be bs" by (rule from_be_be32)
  with b show "has_type (AWord (right_align32 bs)) (TWord (8 * length bs))"
    using assms by (simp add: has_type.simps right_align32_eq)
  show "length (right_align32 bs) = 32" using assms by (simp add: right_align32_eq)
qed

definition wf_redeemable :: "'p redeemable_ticket \<Rightarrow> bool" where
  "wf_redeemable r \<longleftrightarrow> wf_hash (vt_channel_id (rt_ticket r)) \<and> wf_hash (vt_hash (rt_ticket r)) \<and> wf_response (rt_response r)
     \<and> pred_option wf_signature (ticket_signature (vt_ticket (rt_ticket r))) \<and> wf_wp (ticket_win_prob (vt_ticket (rt_ticket r)))"

lemma point_words_eq:
  "point_xy p = map_option (\<lambda>(x, y). (AWord x, AWord y)) (point_xy_words p)"
  "point_xy_words p = Some (x, y) \<Longrightarrow> has_type (AWord x) (TWord 256) \<and> has_type (AWord y) (TWord 256)"
proof -
  show "point_xy p = map_option (\<lambda>(x, y). (AWord x, AWord y)) (point_xy_words p)"
    by (simp add: point_xy_def point_xy_words_def sol_uint_def right_align32_eq be32_from_be)
  show "has_type (AWord x) (TWord 256) \<and> has_type (AWord y) (TWord 256)" if "point_xy_words p = Some (x, y)"
    using that by (auto simp: point_xy_words_def value_types split: if_splits)
qed

lemma slice_words [simp]:
  "length bs = 64 \<Longrightarrow> split64 bs = Some (slice_of 0 32 bs, slice_of 32 32 bs)"
  by (simp add: split64_def)

text \<open>The two orders of the steps fail alike, but for the computation of the witness.\<close>

lemma convert_ticket_eq:
  assumes "wf_redeemable r"
  shows "convert_acknowledged_ticket r = map_ok (map AWord) (redeemable_ticket_words r)"
    "redeemable_ticket_words r = Ok ws \<Longrightarrow>
       list_all2 has_type (map AWord ws) [TWord 256, TWord 96, TWord 48, TWord 24, TWord 56, TWord 256, TWord 256, TWord 256]"
proof -
  let ?t = "vt_ticket (rt_ticket r)"
  note wf = assms [unfolded wf_redeemable_def wf_hash_def HASH_BASE_SIZE_def wf_response_def RESPONSE_SIZE_def wf_wp_def
    ENCODED_WIN_PROB_LENGTH_def ticket_win_prob_def, simplified]
  have u: "sol_uint (from_be bs) = AWord (right_align32 bs)" if "length bs \<le> 32" for bs
    using that by (simp add: sol_uint_def right_align32_eq)
  have a: "sol_uint (amount_u96 (ticket_amount ?t)) = AWord (truncated_word (u256_to_be_bytes (balance_amount (ticket_amount ?t))) 12)"
    by (rule sol_uint_eqs(2))
  have i: "truncated_word (to_be 8 x) 6 = right_align32 (drop 2 (to_be 8 x))"
    "truncated_word (to_be 4 x) 3 = right_align32 (drop 1 (to_be 4 x))" for x
    by (simp_all add: truncated_word_def)
  have ty: "has_type (AWord (right_align32 (drop 2 (to_be 8 x)))) (TWord 48)"
    "has_type (AWord (right_align32 (drop 1 (to_be 4 x)))) (TWord 24)" for x
    using right_align32_type(1) [of "drop 2 (to_be 8 x)"] right_align32_type(1) [of "drop 1 (to_be 4 x)"] by simp_all
  have wp: "has_type (AWord (right_align32 (encoded_win_prob ?t))) (TWord 56)"
    using right_align32_type(1) [of "encoded_win_prob ?t"] wf by simp
  have sg: "length (signature_bytes sig) = 64" if "ticket_signature ?t = Some sig" for sig
    using wf that by (simp add: wf_signature_def ECDSA_SIGNATURE_SIZE_def)
  show "convert_acknowledged_ticket r = map_ok (map AWord) (redeemable_ticket_words r)"
    using wf sg by (auto simp: convert_acknowledged_ticket_def redeemable_ticket_words_def Let_def a i u b256_def
        try_into_array_def split: option.splits)
  show "list_all2 has_type (map AWord ws) [TWord 256, TWord 96, TWord 48, TWord 24, TWord 56, TWord 256, TWord 256, TWord 256]"
    if "redeemable_ticket_words r = Ok ws"
    using that wf sg by (auto simp: redeemable_ticket_words_def Let_def i ty wp value_types simp del: One_nat_def)
qed

lemma convert_vrf_eq:
  assumes "secp_ok L" "wf_hash (vt_hash (rt_ticket r))"
  shows "convert_vrf_parameters L W (rt_vrf_params r) me (vt_hash (rt_ticket r)) (rt_channel_dst r) =
      map_option (map AWord) (ok (vrf_parameters_words L W r me))"
    "vrf_parameters_words L W r me = Ok ws \<Longrightarrow> list_all2 has_type (map AWord ws) (replicate 14 (TWord 256))"
    "vrf_parameters_words L W r me = Err e \<Longrightarrow> e = InvalidArguments ''VRF s_b witness computation failed''"
proof -
  have h: "length (hash_bytes (vt_hash (rt_ticket r))) = 32" using assms(2) by (simp add: wf_hash_def HASH_BASE_SIZE_def)
  have sc: "sol_uint (from_be (secp_scalar_bytes L n)) = AWord (right_align32 (secp_scalar_bytes L n))"
    "length (right_align32 (secp_scalar_bytes L n)) = 32" for n
  proof -
    have "secp_scalar_bytes L n = to_be 32 n" using assms(1) unfolding secp_ok_def by blast
    then show "sol_uint (from_be (secp_scalar_bytes L n)) = AWord (right_align32 (secp_scalar_bytes L n))"
      "length (right_align32 (secp_scalar_bytes L n)) = 32"
      by (simp_all add: sol_uint_def be32_from_be)
  qed
  have e: "expect x = Ok y \<longleftrightarrow> x = Some y" "expect x \<noteq> Err d" for x :: "'z option" and y and d :: 'w by (cases x; simp)+
  show "list_all2 has_type (map AWord ws) (replicate 14 (TWord 256))" if "vrf_parameters_words L W r me = Ok ws"
  proof -
    have "replicate 14 t = [t, t, t, t, t, t, t, t, t, t, t, t, t, t]" for t :: abi_type
      by (simp add: numeral_eq_Suc)
    with that show ?thesis
      by (auto simp: vrf_parameters_words_def Let_def e sc value_types dest!: point_words_eq(2))
  qed
  show "e = InvalidArguments ''VRF s_b witness computation failed''" if "vrf_parameters_words L W r me = Err e"
    using that h by (auto simp: vrf_parameters_words_def Let_def e and_then_eq_Err)
  show "convert_vrf_parameters L W (rt_vrf_params r) me (vt_hash (rt_ticket r)) (rt_channel_dst r) =
      map_option (map AWord) (ok (vrf_parameters_words L W r me))"
    by (cases "get_s_b_witness L W (rt_vrf_params r) me (hash_bytes (vt_hash (rt_ticket r))) (hash_bytes (rt_channel_dst r))")
      (auto simp: convert_vrf_parameters_def vrf_parameters_words_def Let_def point_words_eq(1) sc h expect_def
        try_into_array_def split: option.splits)
qed

text \<open>The bindings implementation panics where the static one reports a failed witness.\<close>

definition panic_on_witness :: "('a, chain_types_error) res \<Rightarrow> ('a, chain_types_error) res" where
  "panic_on_witness r = (if r = Err (InvalidArguments ''VRF s_b witness computation failed'') then Panic else r)"

lemma al_redeem_eq:
  assumes "secp_ok L" "wf_redeemable r"
  shows "al_redeem_values L W r me = map_ok (map AWord) (panic_on_witness (redeem_ticket_words L W r me))"
    "redeem_ticket_words L W r me = Ok ws \<Longrightarrow> list_all2 has_type (map AWord ws) redeem_types"
proof -
  have h: "wf_hash (vt_hash (rt_ticket r))" using assms(2) by (simp add: wf_redeemable_def)
  note V = convert_vrf_eq [OF assms(1) h] and T = convert_ticket_eq [OF assms(2)]
  have e: "redeemable_ticket_words r \<noteq> Err (InvalidArguments ''VRF s_b witness computation failed'')"
    using assms(2) by (auto simp: redeemable_ticket_words_def Let_def and_then_eq_Err wf_redeemable_def wf_hash_def
        HASH_BASE_SIZE_def ok_or_def expect_def split: option.splits)
  show "al_redeem_values L W r me = map_ok (map AWord) (panic_on_witness (redeem_ticket_words L W r me))"
  proof (cases "redeemable_ticket_words r")
    case (Ok a)
    then show ?thesis using V(3)
      by (cases "vrf_parameters_words L W r me")
        (auto simp: al_redeem_values_def redeem_ticket_words_def T(1) V(1) panic_on_witness_def)
  next
    case (Err d)
    then show ?thesis using e by (simp add: al_redeem_values_def redeem_ticket_words_def T(1) panic_on_witness_def)
  qed (simp add: al_redeem_values_def redeem_ticket_words_def T(1) panic_on_witness_def)
  show "list_all2 has_type (map AWord ws) redeem_types" if ws: "redeem_ticket_words L W r me = Ok ws"
  proof -
    obtain a b where "redeemable_ticket_words r = Ok a" "vrf_parameters_words L W r me = Ok b" "ws = a @ b"
      using ws by (auto simp: redeem_ticket_words_def)
    then show ?thesis
      unfolding redeem_types_def \<open>ws = a @ b\<close> map_append by (intro list_all2_appendI T(2) V(2))
  qed
qed

section \<open>Both implementations agree\<close>

lemmas al_request_defs = request_of_def al_with_to_def al_with_input_def al_with_value_def al_with_gas_limit_def
  al_default_def with_to_def with_input_def with_value_def with_gas_limit_def tx_default_def al_module_tx_def
  module_exec_tx_def be32_zero Let_def

lemma currencies_differ: "currency_is xdai_currency C \<Longrightarrow> \<not> currency_is wxhopr_currency C"
  unfolding currency_is_def by (drule sym) (simp add: xdai_currency_def wxhopr_currency_def)

lemma al_basic_account_eq:
  assumes "alloy_ok M" "wf_basic g" "wf_address a"
  shows "map_ok request_of (al_basic_approve M g a amount) = basic_approve g a amount"
    "map_ok request_of (al_basic_transfer M C g a bal) = basic_transfer C g a bal"
    "map_ok request_of (al_basic_fund_channel M g a amount) = basic_fund_channel g a amount"
    "map_ok request_of (al_basic_close_incoming_channel M g a) = basic_close_incoming_channel g a"
    "map_ok request_of (al_basic_initiate_outgoing_channel_closure M g a) = basic_initiate_outgoing_channel_closure g a"
    "map_ok request_of (al_basic_finalize_outgoing_channel_closure M g a) =
        (if a = bg_me g then Err (InvalidArguments ''Cannot initiate closure of incoming channel to self'')
         else basic_finalize_outgoing_channel_closure g a)"
    "map_ok request_of (al_basic_register_safe_by_node M g a) = basic_register_safe_by_node g a"
proof -
  note calls = al_calls [OF assms(1,3)]
  show "map_ok request_of (al_basic_approve M g a amount) = basic_approve g a amount"
    by (simp add: al_basic_approve_def al_approve_tx_def basic_approve_def calls al_request_defs)
  show "map_ok request_of (al_basic_transfer M C g a bal) = basic_transfer C g a bal"
    using currencies_differ [of C]
    by (simp add: al_basic_transfer_def al_transfer_tx_def basic_transfer_def transfer_tx_def calls al_request_defs)
  show "map_ok request_of (al_basic_fund_channel M g a amount) = basic_fund_channel g a amount"
    by (simp add: al_basic_fund_channel_def basic_fund_channel_def calls al_request_defs)
  show "map_ok request_of (al_basic_close_incoming_channel M g a) = basic_close_incoming_channel g a"
    by (simp add: al_basic_close_incoming_channel_def basic_close_incoming_channel_def calls al_request_defs)
  show "map_ok request_of (al_basic_initiate_outgoing_channel_closure M g a) = basic_initiate_outgoing_channel_closure g a"
    by (simp add: al_basic_initiate_outgoing_channel_closure_def basic_initiate_outgoing_channel_closure_def calls al_request_defs)
  show "map_ok request_of (al_basic_finalize_outgoing_channel_closure M g a) =
        (if a = bg_me g then Err (InvalidArguments ''Cannot initiate closure of incoming channel to self'')
         else basic_finalize_outgoing_channel_closure g a)"
    by (simp add: al_basic_finalize_outgoing_channel_closure_def basic_finalize_outgoing_channel_closure_def calls al_request_defs)
  show "map_ok request_of (al_basic_register_safe_by_node M g a) = basic_register_safe_by_node g a"
    by (simp add: al_basic_register_safe_by_node_def al_register_safe_tx_def basic_register_safe_by_node_def calls al_request_defs)
qed

lemma al_basic_send_erc777_eq:
  assumes "alloy_ok M" "wf_basic g" "wf_address a" "wf_address (ds_aggregator p)"
  shows "map_ok request_of (al_basic_send_erc777 M g a amount (Curvy p)) = basic_send_erc777 g a amount (Curvy p)"
  using le_less_trans [OF length_erc777 [of "Curvy p"], of "2 ^ 63"]
  by (simp add: al_basic_send_erc777_def basic_send_erc777_def al_erc777_eq [OF assms(1,4)] al_send_eq [OF assms(1,3)] al_request_defs)

lemma al_basic_announce_eq:
  assumes "alloy_ok M" "wf_basic g" "length (announced_multiaddr A an) < 2 ^ 32"
    and "wf_offchain_signature (kb_signature (an_key_binding an))" "wf_opk (kb_packet_key (an_key_binding an))"
  shows "map_ok request_of (al_basic_announce M A g an amount) = basic_announce A g an amount"
proof -
  note c = wf_contracts_members [OF wf_generators(2) [OF assms(2)]] and me = wf_generators(1) [OF assms(2)]
  show ?thesis
    by (cases "announce_call_data A (bg_me g) (ca_announcements (bg_contracts g)) an amount")
      (simp_all add: al_basic_announce_def basic_announce_def al_announce_eq [OF assms(1) me c(3) assms(3,4,5)] al_request_defs)
qed

lemma al_basic_redeem_request_eq:
  assumes "alloy_ok M" "wf_basic g" "secp_ok L" "wf_redeemable r"
  shows "map_ok request_of (al_basic_redeem_ticket M L W g r) = panic_on_witness (basic_redeem_ticket L W g r)"
  using al_redeem_eq(2) [OF assms(3,4), of W "bg_me g"]
  by (cases "redeem_ticket_words L W r (bg_me g)")
    (simp_all add: al_basic_redeem_ticket_def basic_redeem_ticket_def al_redeem_eq(1) [OF assms(3,4)] encode_redeem
      panic_on_witness_def al_call_eq [OF assms(1)] al_request_defs)

text \<open>C36. The two implementations of the basic generator agree: for an encoder that follows the ABI, and
  values of the sizes their types have, every method of the generator over the bindings returns the
  request of the static one, or its error. They differ in two places only: refusing to finalize the
  closure of a channel to itself, the bindings generator names another operation; and where the
  witness of a redemption cannot be computed, the static generator returns an error and the bindings
  one panics.\<close>

theorem bindings_basic_agree:
  assumes "alloy_ok M" "wf_basic g" "wf_address a" "wf_address (ds_aggregator p)" "secp_ok L" "wf_redeemable r"
    and "length (announced_multiaddr A an) < 2 ^ 32" "wf_offchain_signature (kb_signature (an_key_binding an))"
    and "wf_opk (kb_packet_key (an_key_binding an))" "wf_service_type st" "length (service_metadata_as_ref m) < 2 ^ 63"
    and "length nonce = 32" "list_all wf_address admins" "length admins < 2 ^ 57"
  shows "map_ok request_of (al_basic_approve M g a amount) = basic_approve g a amount
    \<and> map_ok request_of (al_basic_transfer M C g a bal) = basic_transfer C g a bal
    \<and> map_ok request_of (al_basic_send_erc777 M g a amount (Curvy p)) = basic_send_erc777 g a amount (Curvy p)
    \<and> map_ok request_of (al_basic_announce M A g an amount) = basic_announce A g an amount
    \<and> map_ok request_of (al_basic_fund_channel M g a amount) = basic_fund_channel g a amount
    \<and> map_ok request_of (al_basic_close_incoming_channel M g a) = basic_close_incoming_channel g a
    \<and> map_ok request_of (al_basic_initiate_outgoing_channel_closure M g a) = basic_initiate_outgoing_channel_closure g a
    \<and> map_ok request_of (al_basic_finalize_outgoing_channel_closure M g a) =
        (if a = bg_me g then Err (InvalidArguments ''Cannot initiate closure of incoming channel to self'')
         else basic_finalize_outgoing_channel_closure g a)
    \<and> map_ok request_of (al_basic_redeem_ticket M L W g r) = panic_on_witness (basic_redeem_ticket L W g r)
    \<and> map_ok request_of (al_basic_register_safe_by_node M g a) = basic_register_safe_by_node g a
    \<and> map_ok request_of (al_basic_deregister_node_by_safe g) = basic_deregister_node_by_safe g
    \<and> map_ok request_of (al_basic_register_service M g st m amount) = basic_register_service g st m amount
    \<and> map_ok request_of (al_basic_update_service M g st m amount) = basic_update_service g st m amount
    \<and> map_ok request_of (al_basic_deregister_service M g st) = basic_deregister_service g st
    \<and> map_ok request_of (al_basic_deploy_safe M g amount admins include_node nonce) =
        basic_deploy_safe g amount admins include_node nonce"
proof (intro conjI)
  note c = wf_contracts_members [OF wf_generators(2) [OF assms(2)]] and me = wf_generators(1) [OF assms(2)]
  note sv = service_call_eq [OF assms(1) me assms(10,11)]
  show "map_ok request_of (al_basic_deregister_node_by_safe g) = basic_deregister_node_by_safe g"
    by (simp add: al_basic_deregister_node_by_safe_def basic_deregister_node_by_safe_def)
  show "map_ok request_of (al_basic_register_service M g st m amount) = basic_register_service g st m amount"
    by (simp add: al_basic_register_service_def basic_register_service_def sv al_request_defs)
  show "map_ok request_of (al_basic_update_service M g st m amount) = basic_update_service g st m amount"
    by (simp add: al_basic_update_service_def basic_update_service_def sv al_request_defs)
  show "map_ok request_of (al_basic_deregister_service M g st) = basic_deregister_service g st"
    by (simp add: al_basic_deregister_service_def basic_deregister_service_def sv al_request_defs)
  show "map_ok request_of (al_basic_deploy_safe M g amount admins include_node nonce) =
        basic_deploy_safe g amount admins include_node nonce"
    by (rule al_deploy_eq [OF assms(1,2,12,13,14)])
qed (rule al_basic_account_eq [OF assms(1-3)] al_basic_send_erc777_eq [OF assms(1-4)] al_basic_announce_eq [OF assms(1,2,7-9)]
    al_basic_redeem_request_eq [OF assms(1,2,5,6)])+

lemma safe_calls_short:
  assumes "length w \<le> 32"
  shows "length (encode_approve a w) < 2 ^ 63" "length (encode_transfer a w) < 2 ^ 63" "length (encode_fund_channel_safe m a w) < 2 ^ 63"
    "length (encode_close_incoming_channel_safe m a) < 2 ^ 63" "length (encode_initiate_outgoing_channel_closure_safe m a) < 2 ^ 63"
    "length (encode_finalize_outgoing_channel_closure_safe m a) < 2 ^ 63"
  using assms by (simp_all add: encode_static short_calls)

lemmas amount_calls_short = safe_calls_short [OF eq_imp_le [OF length_u256_to_be]] safe_calls_short(3) [OF eq_imp_le [OF funding_type(1)]]

lemma al_safe_account_eq:
  assumes "alloy_ok M" "wf_safe g" "wf_address a"
  shows "map_ok request_of (al_safe_approve M g a amount) = safe_approve g a amount"
    "map_ok request_of (al_safe_transfer M C g a bal) = safe_transfer C g a bal"
    "map_ok request_of (al_safe_fund_channel M g a amount) = safe_fund_channel g a amount"
    "map_ok request_of (al_safe_close_incoming_channel M g a) = safe_close_incoming_channel g a"
    "map_ok request_of (al_safe_initiate_outgoing_channel_closure M g a) = safe_initiate_outgoing_channel_closure g a"
    "map_ok request_of (al_safe_finalize_outgoing_channel_closure M g a) =
        (if a = sg_me g then Err (InvalidArguments ''Cannot initiate closure of incoming channel to self'')
         else safe_finalize_outgoing_channel_closure g a)"
    "map_ok request_of (al_safe_register_safe_by_node M g a) = safe_register_safe_by_node g a"
proof -
  note c = wf_contracts_members [OF wf_generators(4) [OF assms(2)]] and me = wf_generators(3) [OF assms(2)]
  note calls = al_calls [OF assms(1,3)] al_calls [OF assms(1) me] al_safe_calls [OF assms(1) me assms(3)]
    and mods = module_payload_eq [OF assms(1) c(1)] module_payload_eq [OF assms(1) c(2)] module_payload_eq [OF assms(1,3)]
  note shorts = amount_calls_short
  show "map_ok request_of (al_safe_approve M g a amount) = safe_approve g a amount"
    using shorts by (simp add: al_safe_approve_def safe_approve_def calls mods al_request_defs)
  show "map_ok request_of (al_safe_transfer M C g a bal) = safe_transfer C g a bal"
    using shorts currencies_differ [of C] by (simp add: al_safe_transfer_def safe_transfer_def calls mods al_request_defs)
  show "map_ok request_of (al_safe_fund_channel M g a amount) = safe_fund_channel g a amount"
    using shorts by (simp add: al_safe_fund_channel_def safe_fund_channel_def calls mods al_request_defs)
  show "map_ok request_of (al_safe_close_incoming_channel M g a) = safe_close_incoming_channel g a"
    using shorts by (simp add: al_safe_close_incoming_channel_def safe_close_incoming_channel_def calls mods al_request_defs)
  show "map_ok request_of (al_safe_initiate_outgoing_channel_closure M g a) = safe_initiate_outgoing_channel_closure g a"
    using shorts by (simp add: al_safe_initiate_outgoing_channel_closure_def safe_initiate_outgoing_channel_closure_def
        calls mods al_request_defs)
  show "map_ok request_of (al_safe_finalize_outgoing_channel_closure M g a) =
        (if a = sg_me g then Err (InvalidArguments ''Cannot initiate closure of incoming channel to self'')
         else safe_finalize_outgoing_channel_closure g a)"
    using shorts by (simp add: al_safe_finalize_outgoing_channel_closure_def safe_finalize_outgoing_channel_closure_def
        calls mods al_request_defs)
  show "map_ok request_of (al_safe_register_safe_by_node M g a) = safe_register_safe_by_node g a"
    by (simp add: al_safe_register_safe_by_node_def al_register_safe_tx_def safe_register_safe_by_node_def register_safe_tx_def
        calls al_request_defs)
qed

lemma al_safe_send_erc777_eq:
  assumes "alloy_ok M" "wf_safe g" "wf_address a" "wf_address (ds_aggregator p)"
  shows "map_ok request_of (al_safe_send_erc777 M g a amount (Curvy p)) = safe_send_erc777 g a amount (Curvy p)"
proof -
  note c = wf_contracts_members [OF wf_generators(4) [OF assms(2)]] and me = wf_generators(3) [OF assms(2)]
  note mods = module_payload_eq [OF assms(1) c(1)] module_payload_eq [OF assms(1) c(2)]
  show ?thesis
    using le_less_trans [OF length_erc777 [of "Curvy p"], of "2 ^ 62"] send_short [of "encode_erc777_payload (Curvy p)" a]
    by (simp add: al_safe_send_erc777_def safe_send_erc777_def al_erc777_eq [OF assms(1,4)] al_send_eq [OF assms(1,3)]
        mods al_request_defs)
qed

lemma al_safe_announce_eq:
  assumes "alloy_ok M" "wf_safe g" "length (announced_multiaddr A an) < 2 ^ 32"
    and "wf_offchain_signature (kb_signature (an_key_binding an))" "wf_opk (kb_packet_key (an_key_binding an))"
  shows "map_ok request_of (al_safe_announce M A g an amount) = safe_announce A g an amount"
proof -
  note c = wf_contracts_members [OF wf_generators(4) [OF assms(2)]] and me = wf_generators(3) [OF assms(2)]
  note mods = module_payload_eq [OF assms(1) c(1)] module_payload_eq [OF assms(1) c(2)]
  show ?thesis
    using announce_short [OF assms(3), of "sg_me g" "ca_announcements (sg_contracts g)" amount]
    by (cases "announce_call_data A (sg_me g) (ca_announcements (sg_contracts g)) an amount")
      (simp_all add: al_safe_announce_def safe_announce_def al_announce_eq [OF assms(1) me c(3) assms(3,4,5)] mods al_request_defs)
qed

lemma al_safe_redeem_request_eq:
  assumes "alloy_ok M" "wf_safe g" "secp_ok L" "wf_redeemable r"
  shows "map_ok request_of (al_safe_redeem_ticket M L W g r) = panic_on_witness (safe_redeem_ticket L W g r)"
proof -
  note c = wf_contracts_members [OF wf_generators(4) [OF assms(2)]] and me = wf_generators(3) [OF assms(2)]
  note mods = module_payload_eq [OF assms(1) c(1)] module_payload_eq [OF assms(1) c(2)]
  show ?thesis
  proof (cases "redeem_ticket_words L W r (sg_me g)")
    case (Ok ws)
    let ?vs = "AWord (addr32 (sg_me g)) # map AWord ws"
    have "length (call_data FnRedeemTicketSafe (map AWord (addr32 (sg_me g) # ws))) < 2 ^ 63"
      by (rule words_call_short) (use redeem_words [OF Ok] in auto)
    moreover have "al_call M FnRedeemTicketSafe ?vs = call_data FnRedeemTicketSafe ?vs"
      by (rule al_call_eq [OF assms(1)]) (use al_redeem_eq(2) [OF assms(3,4) Ok] me in \<open>simp add: value_types\<close>)
    ultimately show ?thesis
      by (simp add: Ok al_safe_redeem_ticket_def safe_redeem_ticket_def al_redeem_eq(1) [OF assms(3,4)] encode_redeem
          panic_on_witness_def a2al_eq me mods al_request_defs)
  qed (simp_all add: al_safe_redeem_ticket_def safe_redeem_ticket_def al_redeem_eq(1) [OF assms(3,4)] encode_redeem
      panic_on_witness_def)
qed

text \<open>C37. The two implementations of the Safe generator agree in the same sense: every request over the
  bindings, the wrapped call and the packed transactions of paid service writes included, is the one
  the static generator encodes by hand, and every refusal is the same, but for the message of a
  refused finalization and the panic of a failed witness.\<close>

theorem bindings_safe_agree:
  assumes "alloy_ok M" "wf_safe g" "wf_address a" "wf_address (ds_aggregator p)" "secp_ok L" "wf_redeemable r"
    and "length (announced_multiaddr A an) < 2 ^ 32" "wf_offchain_signature (kb_signature (an_key_binding an))"
    and "wf_opk (kb_packet_key (an_key_binding an))" "wf_service_type st"
    and "length (service_metadata_as_ref m) \<le> METADATA_MAX_LENGTH"
  shows "map_ok request_of (al_safe_approve M g a amount) = safe_approve g a amount
    \<and> map_ok request_of (al_safe_transfer M C g a bal) = safe_transfer C g a bal
    \<and> map_ok request_of (al_safe_send_erc777 M g a amount (Curvy p)) = safe_send_erc777 g a amount (Curvy p)
    \<and> map_ok request_of (al_safe_announce M A g an amount) = safe_announce A g an amount
    \<and> map_ok request_of (al_safe_fund_channel M g a amount) = safe_fund_channel g a amount
    \<and> map_ok request_of (al_safe_close_incoming_channel M g a) = safe_close_incoming_channel g a
    \<and> map_ok request_of (al_safe_initiate_outgoing_channel_closure M g a) = safe_initiate_outgoing_channel_closure g a
    \<and> map_ok request_of (al_safe_finalize_outgoing_channel_closure M g a) =
        (if a = sg_me g then Err (InvalidArguments ''Cannot initiate closure of incoming channel to self'')
         else safe_finalize_outgoing_channel_closure g a)
    \<and> map_ok request_of (al_safe_redeem_ticket M L W g r) = panic_on_witness (safe_redeem_ticket L W g r)
    \<and> map_ok request_of (al_safe_register_safe_by_node M g a) = safe_register_safe_by_node g a
    \<and> map_ok request_of (al_safe_deregister_node_by_safe M g) = safe_deregister_node_by_safe g
    \<and> map_ok request_of (al_safe_register_service M g st m amount) = safe_register_service g st m amount
    \<and> map_ok request_of (al_safe_update_service M g st m amount) = safe_update_service g st m amount
    \<and> map_ok request_of (al_safe_deregister_service M g st) = safe_deregister_service g st
    \<and> map_ok request_of (al_safe_deploy_safe g amount admins include_node nonce) =
        safe_deploy_safe g amount admins include_node nonce"
proof (intro conjI)
  note c = wf_contracts_members [OF wf_generators(4) [OF assms(2)]] and me = wf_generators(3) [OF assms(2)]
  have m: "length (service_metadata_as_ref m) < 2 ^ 63" using assms(11) by (simp add: METADATA_MAX_LENGTH_def)
  note sv = service_call_eq [OF assms(1) me assms(10) m] and calls = al_calls [OF assms(1) me]
    and mods = module_payload_eq [OF assms(1) c(5)]
  have shorts: "length (encode_service_deregister st (sg_me g)) < 2 ^ 63"
    using assms(10) by (simp add: encode_static short_calls wf_service_type_def SERVICE_TYPE_SIZE_def)
  show "map_ok request_of (al_safe_deregister_node_by_safe M g) = safe_deregister_node_by_safe g"
    by (simp add: al_safe_deregister_node_by_safe_def safe_deregister_node_by_safe_def calls al_request_defs)
  have w: "length (encode_service_write (selector f) st (sg_me g) (service_metadata_as_ref m)) < 2 ^ 32" for f
    by (rule service_write_short) (use assms(10,11) in auto)
  show "map_ok request_of (al_safe_register_service M g st m amount) = safe_register_service g st m amount"
    by (simp add: al_safe_register_service_def safe_register_service_def sv al_paid_eq [OF assms(1) c(1,5) w] al_request_defs)
  show "map_ok request_of (al_safe_update_service M g st m amount) = safe_update_service g st m amount"
    by (simp add: al_safe_update_service_def safe_update_service_def sv al_paid_eq [OF assms(1) c(1,5) w] al_request_defs)
  show "map_ok request_of (al_safe_deregister_service M g st) = safe_deregister_service g st"
    using shorts by (simp add: al_safe_deregister_service_def safe_deregister_service_def sv mods al_request_defs)
  show "map_ok request_of (al_safe_deploy_safe g amount admins include_node nonce) =
        safe_deploy_safe g amount admins include_node nonce"
    by (simp add: al_safe_deploy_safe_def safe_deploy_safe_def)
qed (rule al_safe_account_eq [OF assms(1-3)] al_safe_send_erc777_eq [OF assms(1-4)] al_safe_announce_eq [OF assms(1,2,7-9)]
    al_safe_redeem_request_eq [OF assms(1,2,5,6)])+

section \<open>Concrete packages and values\<close>

definition alloy_std :: "unit alloylib" where
  "alloy_std = \<lparr>al_call = call_data, al_struct = abi_encode_struct, al_params = abi_encode,
     al_address_debug = (\<lambda>a. ''0x'' @ std_encode (address_bytes a)),
     al_uint_from_str = (\<lambda>s. map_ok from_be (std_decode s)),
     al_signer = (\<lambda>_. Ok ()), al_sign = (\<lambda>t _. Ok (case ar_input t of None \<Rightarrow> [] | Some i \<Rightarrow> i))\<rparr>"

lemma std_encode_append: "std_encode (xs @ ys) = std_encode xs @ std_encode ys"
  by (induction xs) simp_all

lemma alloy_ok_std: "alloy_ok alloy_std"
proof -
  let ?p = "[0x01, 0x01, 0x03, 0x03, 0x03, 0x03, 0x03, 0x03, 0x03, 0x03, 0x03, 0x03] :: bytes"
  have e: "std_encode ?p = DEFAULT_CAPABILITY_PERMISSIONS" unfolding DEFAULT_CAPABILITY_PERMISSIONS_def by code_simp
  have v: "from_be ?p = 0x010103030303030303030303" by (simp add: from_be_def)
  have d: "std_decode (''0x'' @ std_encode bs) = Ok bs" for bs
    by (simp add: std_decode_def std_pairs_encode)
  have "std_decode (''0x'' @ std_encode (address_bytes a) @ DEFAULT_CAPABILITY_PERMISSIONS) = Ok (address_bytes a @ ?p)" for a
    using d [of "address_bytes a @ ?p"] by (simp only: std_encode_append e)
  moreover have "from_be (address_bytes a @ ?p) = from_be (address_bytes a) * 16 ^ 24 + 0x010103030303030303030303" for a
    by (subst from_be_append) (simp add: v)
  ultimately show ?thesis
    by (simp add: alloy_ok_def alloy_std_def)
qed

definition redeemable_example :: "u32 redeemable_ticket" where
  "redeemable_example = \<lparr>rt_ticket = \<lparr>vt_ticket = ticket_example, vt_hash = hash_default, vt_issuer = Address (replicate 20 1),
     vt_channel_id = hash_default\<rparr>, rt_response = Response (replicate 32 1),
     rt_vrf_params = \<lparr>vrf_V = 1, vrf_h = 2, vrf_s = 3, vrf_A = 4\<rparr>, rt_channel_dst = hash_default\<rparr>"

lemma wf_redeemable_example: "wf_redeemable redeemable_example"
  by (simp add: wf_redeemable_def redeemable_example_def wf_hash_def hash_default_def HASH_BASE_SIZE_def wf_response_def
      RESPONSE_SIZE_def ticket_example_def wf_wp_def ticket_win_prob_def ENCODED_WIN_PROB_LENGTH_def)

definition announcement_example :: "ma_protocol list announcement_data" where
  "announcement_example = \<lparr>an_multiaddress = None, an_key_binding = \<lparr>kb_chain_key = Address (replicate 20 1),
     kb_packet_key = OffchainPublicKey (replicate 32 2), kb_signature = OffchainSignature (replicate 64 3)\<rparr>\<rparr>"

lemma announcement_example:
  "length (announced_multiaddr A announcement_example) < 2 ^ 32"
  "wf_offchain_signature (kb_signature (an_key_binding announcement_example))"
  "wf_opk (kb_packet_key (an_key_binding announcement_example))"
  by (simp_all add: announcement_example_def announced_multiaddr_def wf_offchain_signature_def OFFCHAIN_SIGNATURE_SIZE_def
      wf_opk_def OPK_SIZE_def)

lemma wf_address_20: "wf_address (Address (replicate 20 b))"
  by (simp add: wf_address_def ADDRESS_SIZE_def)

lemma generator_examples: "wf_basic (basic_new (Address (replicate 20 b)) contracts_example)" "wf_safe safe_example"
  by (simp_all add: wf_basic_def basic_new_def wf_contracts_example wf_safe_def safe_example_def wf_address_20)

theorem bindings_basic_agree_witness:
  "map_ok request_of (al_basic_fund_channel alloy_std (basic_new (Address (replicate 20 11)) contracts_example)
       (Address (replicate 20 13)) (Balance 5 WxHOPR)) =
     basic_fund_channel (basic_new (Address (replicate 20 11)) contracts_example) (Address (replicate 20 13)) (Balance 5 WxHOPR)"
proof -
  have p: "wf_address (ds_aggregator (DirectShield (Address (replicate 20 7)) n))" for n by (simp add: wf_address_20)
  have m: "length (service_metadata_as_ref (ServiceMetadata (BoundedVec [7]))) < 2 ^ 63" by (simp add: service_metadata_as_ref_def bvec_as_ref_def METADATA_MAX_LENGTH_def)
  have n: "length (replicate 32 0 :: bytes) = 32" "list_all wf_address [Address (replicate 20 1)]"
    "length [Address (replicate 20 1)] < 2 ^ 57"
    by (simp_all add: wf_address_20)
  from bindings_basic_agree [OF alloy_ok_std generator_examples(1) wf_address_20 p secp_ok_toy wf_redeemable_example
      announcement_example wf_service_type_example m n]
  show ?thesis by blast
qed

theorem bindings_safe_agree_witness:
  "map_ok request_of (al_safe_fund_channel alloy_std safe_example (Address (replicate 20 13)) (Balance 5 WxHOPR)) =
     safe_fund_channel safe_example (Address (replicate 20 13)) (Balance 5 WxHOPR)"
proof -
  have p: "wf_address (ds_aggregator (DirectShield (Address (replicate 20 7)) n))" for n by (simp add: wf_address_20)
  have m: "length (service_metadata_as_ref (ServiceMetadata (BoundedVec [7]))) \<le> METADATA_MAX_LENGTH" by (simp add: service_metadata_as_ref_def bvec_as_ref_def METADATA_MAX_LENGTH_def)
  from bindings_safe_agree [OF alloy_ok_std generator_examples(2) wf_address_20 p secp_ok_toy wf_redeemable_example
      announcement_example wf_service_type_example m]
  show ?thesis by blast
qed

end
