(* ===== verification/Chain_Parser.thy ===== *)
theory Chain_Parser
  imports Bindings_Spec
begin

text \<open>
  \<open>chain/parser.rs\<close>: reading an action back from a signed transaction. The packages are the record
  \<open>parselib\<close>: the decoding of a transaction and the recovery of its signer, the ABI decoders of calls
  and of the announcement struct, and the parsing of a multiaddress.
\<close>

section \<open>Actions\<close>

datatype payer = EoaPays | SafePays

datatype 'm parsed_action =
    RegisterSafeAddress address
  | Announce (announced_key: offchain_public_key) (announced_address: "'m option")
  | WithdrawNative address xdai_balance payer
  | WithdrawToken address hopr_balance payer
  | Approve address hopr_balance payer
  | FundChannel address hopr_balance
  | InitializeChannelClosure channel_id
  | FinalizeChannelClosure channel_id
  | IncomingChannelClosure channel_id
  | RedeemTicket (redeemed_channel: channel_id) (redeemed_index: u64) (redeemed_amount: hopr_balance)

section \<open>The packages\<close>

record decoded_tx =
  dt_signer :: "(address, string) res"
  dt_to :: "address option"
  dt_input :: bytes
  dt_value :: nat

record 'm parselib =
  pl_decode :: "bytes \<Rightarrow> (decoded_tx, string) res"
  pl_call :: "contract_fn \<Rightarrow> bytes \<Rightarrow> (abi_value list, string) res"
  pl_announce :: "bytes \<Rightarrow> (abi_value list, string) res"
  pl_multiaddr :: "string \<Rightarrow> 'm option"

text \<open>
  The documentation of the decoders: a call is decoded from its encoding, refused when another
  selector stands in front; the values have the types of the signature. The struct of an announcement
  is decoded from its encoding when its last field is the text of a multiaddress, or empty. A
  multiaddress that is not empty is parsed from its text, which is not empty.
\<close>

definition announce_types :: "abi_type list" where
  "announce_types = [TWord 160, TWord 256, TWord 256, TWord 256, TBytes]"

definition parselib_ok :: "'m malib \<Rightarrow> 'm parselib \<Rightarrow> bool" where
  "parselib_ok A P \<longleftrightarrow>
     (\<forall>f vs. list_all2 has_type vs (fn_types f) \<longrightarrow> length (abi_encode vs) < 2 ^ 64 \<longrightarrow> pl_call P f (call_data f vs) = Ok vs)
   \<and> (\<forall>f input. take 4 input \<noteq> selector f \<longrightarrow> (\<exists>e. pl_call P f input = Err e))
   \<and> (\<forall>ws ma. ma = [] \<or> (\<exists>m. ma = ma_display A m) \<longrightarrow>
        list_all2 has_type (ws @ [ABytes (ascii_bytes ma)]) announce_types \<longrightarrow>
        length (abi_encode (ws @ [ABytes (ascii_bytes ma)])) < 2 ^ 63 \<longrightarrow>
        pl_announce P (be32 32 @ abi_encode (ws @ [ABytes (ascii_bytes ma)])) = Ok (ws @ [ABytes (ascii_bytes ma)]))
   \<and> (\<forall>m. \<not> ma_is_empty A m \<longrightarrow> pl_multiaddr P (ma_display A m) = Some m \<and> ma_display A m \<noteq> [])"

section \<open>Reading values\<close>

text \<open>An address, a number and an amount of \<open>n\<close> bytes from the word that holds it (\<open>n \<le> 32\<close>).\<close>

definition word_address :: "bytes \<Rightarrow> address" where
  "word_address w = Address (drop 12 w)"

definition word_be :: "nat \<Rightarrow> bytes \<Rightarrow> bytes" where
  "word_be n w = to_be n (from_be w)"

definition word_balance :: "'c currency \<Rightarrow> nat \<Rightarrow> bytes \<Rightarrow> 'c balance" where
  "word_balance C n w = (case balance_from_be_bytes C (word_be n w) of Some b \<Rightarrow> b | None \<Rightarrow> balance_zero C)"

definition bytes_string :: "bytes \<Rightarrow> string" where
  "bytes_string bs = map (\<lambda>b. char_of (unat b)) bs"

text \<open>
  The decoders return the values of the signature they are given, so the branches for other shapes,
  with an empty message here, do not occur. The words of a call without dynamic arguments, or that it cannot be decoded.\<close>

fun words_of :: "abi_value list \<Rightarrow> bytes list option" where
  "words_of [] = Some []"
| "words_of (AWord w # vs) = map_option ((#) w) (words_of vs)"
| "words_of (_ # vs) = None"

fun send_fields :: "abi_value list \<Rightarrow> (bytes \<times> bytes \<times> bytes) option" where
  "send_fields [AWord recipient, AWord amount, ABytes payload] = Some (recipient, amount, payload)"
| "send_fields _ = None"

fun exec_fields :: "abi_value list \<Rightarrow> (bytes \<times> bytes \<times> bytes) option" where
  "exec_fields [AWord to, AWord v, ABytes payload, AWord oper] = Some (to, v, payload)"
| "exec_fields _ = None"

fun announce_fields :: "abi_value list \<Rightarrow> (bytes \<times> bytes) option" where
  "announce_fields [AWord caller, AWord sig0, AWord sig1, AWord pub_key, ABytes ma] = Some (pub_key, ma)"
| "announce_fields _ = None"

definition call_words :: "'m parselib \<Rightarrow> contract_fn \<Rightarrow> bytes \<Rightarrow> bytes list option" where
  "call_words P f input = Option.bind (ok (pl_call P f input)) words_of"

text \<open>A chain of \<open>if let Ok(_) = _ { return _ }\<close>.\<close>

fun first_some :: "'a option list \<Rightarrow> 'a option" where
  "first_some [] = None"
| "first_some (x # xs) = (case x of Some a \<Rightarrow> Some a | None \<Rightarrow> first_some xs)"

section \<open>Calls of a contract\<close>

definition redeem_action :: "bytes list \<Rightarrow> 'm parsed_action" where
  "redeem_action ws = RedeemTicket (Hash (ws ! 0)) (of_nat (from_be (word_be 6 (ws ! 2)))) (word_balance wxhopr_currency 12 (ws ! 1))"

definition parse_channels_module :: "'m parselib \<Rightarrow> (bytes \<Rightarrow> bytes) \<Rightarrow> address \<Rightarrow> bytes \<Rightarrow> ('m parsed_action, chain_types_error) res" where
  "parse_channels_module P keccak signer input =
     ok_or (TxParseError ''channel transaction has invalid type'')
      (first_some
        [map_option (\<lambda>ws. FundChannel (word_address (ws ! 1)) (word_balance wxhopr_currency 12 (ws ! 2)))
           (call_words P FnFundChannelSafe input),
         map_option (\<lambda>ws. InitializeChannelClosure (generate_channel_id keccak signer (word_address (ws ! 1))))
           (call_words P FnInitiateOutgoingChannelClosureSafe input),
         map_option (\<lambda>ws. FinalizeChannelClosure (generate_channel_id keccak signer (word_address (ws ! 1))))
           (call_words P FnFinalizeOutgoingChannelClosureSafe input),
         map_option (\<lambda>ws. IncomingChannelClosure (generate_channel_id keccak (word_address (ws ! 1)) signer))
           (call_words P FnCloseIncomingChannelSafe input),
         map_option (\<lambda>ws. redeem_action (tl ws)) (call_words P FnRedeemTicketSafe input)])"

definition parse_channels_direct :: "'m parselib \<Rightarrow> (bytes \<Rightarrow> bytes) \<Rightarrow> address \<Rightarrow> bytes \<Rightarrow> ('m parsed_action, chain_types_error) res" where
  "parse_channels_direct P keccak signer input =
     ok_or (TxParseError ''channel transaction has invalid type'')
      (first_some
        [map_option (\<lambda>ws. FundChannel (word_address (ws ! 0)) (word_balance wxhopr_currency 12 (ws ! 1)))
           (call_words P FnFundChannel input),
         map_option (\<lambda>ws. InitializeChannelClosure (generate_channel_id keccak signer (word_address (ws ! 0))))
           (call_words P FnInitiateOutgoingChannelClosure input),
         map_option (\<lambda>ws. FinalizeChannelClosure (generate_channel_id keccak signer (word_address (ws ! 0))))
           (call_words P FnFinalizeOutgoingChannelClosure input),
         map_option (\<lambda>ws. IncomingChannelClosure (generate_channel_id keccak (word_address (ws ! 0)) signer))
           (call_words P FnCloseIncomingChannel input),
         map_option redeem_action (call_words P FnRedeemTicket input)])"

definition payer_of :: "bool \<Rightarrow> payer" where
  "payer_of module_call = (if module_call then SafePays else EoaPays)"

definition parse_announcement :: "'m parselib \<Rightarrow> bytes \<Rightarrow> ('m parsed_action, chain_types_error) res" where
  "parse_announcement P payload =
     and_then (map_err TxParseError (pl_announce P (replicate 31 0 @ [32] @ payload))) (\<lambda>vs.
     and_then (ok_or (TxParseError []) (announce_fields vs)) (\<lambda>(pub_key, ma).
     and_then (map_err (\<lambda>_. TxParseError ''failed to parse packet key'') (opk_try_from pub_key)) (\<lambda>packet_key.
       if ma = [] then Ok (Announce packet_key None)
       else map_ok (\<lambda>m. Announce packet_key (Some m))
         (ok_or (TxParseError ''failed to parse multiaddress'') (pl_multiaddr P (bytes_string ma))))))"

definition parse_token :: "'m parselib \<Rightarrow> contract_addresses \<Rightarrow> bytes \<Rightarrow> bool \<Rightarrow> ('m parsed_action, chain_types_error) res" where
  "parse_token P contracts input module_call =
     (case Option.bind (ok (pl_call P FnSend input)) send_fields of
        Some (recipient, amount, payload) \<Rightarrow>
          if word_address recipient = ca_announcements contracts then parse_announcement P payload
          else Ok (WithdrawToken (word_address recipient) (word_balance wxhopr_currency 32 amount) (payer_of module_call))
      | None \<Rightarrow>
          (case call_words P FnApprove input of
             Some ws \<Rightarrow> Ok (Approve (word_address (ws ! 0)) (word_balance wxhopr_currency 32 (ws ! 1)) (payer_of module_call))
           | None \<Rightarrow>
               and_then (map_err TxParseError (pl_call P FnTransfer input)) (\<lambda>vs.
               and_then (ok_or (TxParseError []) (words_of vs)) (\<lambda>ws.
                 Ok (WithdrawToken (word_address (ws ! 0)) (word_balance wxhopr_currency 32 (ws ! 1)) (payer_of module_call))))))"

definition parse_target ::
  "'m parselib \<Rightarrow> (bytes \<Rightarrow> bytes) \<Rightarrow> contract_addresses \<Rightarrow> address \<Rightarrow> address \<Rightarrow> bytes \<Rightarrow> bool
    \<Rightarrow> ('m parsed_action, chain_types_error) res" where
  "parse_target P keccak contracts signer target_contract input module_call =
     (if target_contract = ca_node_safe_registry contracts then
        and_then (map_err TxParseError (pl_call P FnRegisterSafeByNode input)) (\<lambda>vs.
        map_ok (\<lambda>ws. RegisterSafeAddress (word_address (ws ! 0))) (ok_or (TxParseError []) (words_of vs)))
      else if target_contract = ca_channels contracts \<and> module_call then parse_channels_module P keccak signer input
      else if target_contract = ca_channels contracts \<and> \<not> module_call then parse_channels_direct P keccak signer input
      else if target_contract = ca_token contracts then parse_token P contracts input module_call
      else Err (TxParseError ''transaction has invalid contract address''))"

section \<open>Transactions\<close>

text \<open>The recipient, value and data of \<open>execTransactionFromModule\<close>; its operation is not read.\<close>

definition module_call_of :: "'m parselib \<Rightarrow> bytes \<Rightarrow> (address \<times> nat \<times> bytes, chain_types_error) res" where
  "module_call_of P input =
     and_then (map_err TxParseError (pl_call P FnExecTransactionFromModule input)) (\<lambda>vs.
     map_ok (\<lambda>(to, v, payload). (word_address to, from_be v, payload)) (ok_or (TxParseError []) (exec_fields vs)))"

definition native_balance :: "nat \<Rightarrow> xdai_balance" where
  "native_balance v = word_balance xdai_currency 32 (be32 v)"

definition parse_transaction ::
  "'m parselib \<Rightarrow> (bytes \<Rightarrow> bytes) \<Rightarrow> address \<Rightarrow> contract_addresses \<Rightarrow> decoded_tx
    \<Rightarrow> ('m parsed_action \<times> address, chain_types_error) res" where
  "parse_transaction P keccak module_addr contracts tx =
     and_then (map_err TxParseError (dt_signer tx)) (\<lambda>signer.
     and_then (ok_or (TxParseError ''transaction has no recipient'') (dt_to tx)) (\<lambda>tx_target.
       if tx_target = module_addr then
         and_then (module_call_of P (dt_input tx)) (\<lambda>(to, v, payload).
           if v \<noteq> 0 \<and> payload = [] then Ok (WithdrawNative to (native_balance v) SafePays, signer)
           else map_ok (\<lambda>a. (a, signer)) (parse_target P keccak contracts signer to payload True))
       else if list_ex (\<lambda>addr. addr = tx_target) (contract_list contracts) then
         map_ok (\<lambda>a. (a, signer)) (parse_target P keccak contracts signer tx_target (dt_input tx) False)
       else if dt_value tx > 0 then Ok (WithdrawNative tx_target (native_balance (dt_value tx)) EoaPays, signer)
       else Err (TxParseError ''failed to determine type of transaction'')))"

definition parse_from_eip2718 ::
  "'m parselib \<Rightarrow> (bytes \<Rightarrow> bytes) \<Rightarrow> bytes \<Rightarrow> address \<Rightarrow> contract_addresses
    \<Rightarrow> ('m parsed_action \<times> address, chain_types_error) res" where
  "parse_from_eip2718 P keccak signed_tx module_addr contracts =
     and_then (map_err TxParseError (pl_decode P signed_tx)) (parse_transaction P keccak module_addr contracts)"

section \<open>Reading back what was written\<close>

lemma words_of_map [simp]: "words_of (map AWord ws) = Some ws"
  by (induction ws) simp_all

lemma decoded_call:
  assumes "parselib_ok A P" "list_all2 has_type vs (fn_types f)" "length (abi_encode vs) < 2 ^ 64"
  shows "pl_call P f (call_data f vs) = Ok vs"
  using assms by (simp add: parselib_ok_def)

lemma announced_decoded:
  assumes "parselib_ok A P" "ma = [] \<or> (\<exists>m. ma = ma_display A m)"
    and "list_all2 has_type (ws @ [ABytes (ascii_bytes ma)]) announce_types" "length (abi_encode (ws @ [ABytes (ascii_bytes ma)])) < 2 ^ 63"
  shows "pl_announce P (be32 32 @ abi_encode (ws @ [ABytes (ascii_bytes ma)])) = Ok (ws @ [ABytes (ascii_bytes ma)])"
  using assms unfolding parselib_ok_def by blast

lemma other_call: "parselib_ok A P \<Longrightarrow> f \<noteq> g \<Longrightarrow> \<exists>e. pl_call P g (call_data f vs) = Err e"
  by (simp add: parselib_ok_def selector_inj)

lemma length_words_short: "\<forall>w \<in> set ws. length w \<le> 32 \<Longrightarrow> length ws \<le> 30 \<Longrightarrow> length (abi_encode (map AWord ws)) < 2 ^ 64"
  using length_call_words [of ws FnApprove] by (simp add: call_data_def)

lemma typed_words:
  "list_all2 has_type (map AWord ws) ts \<Longrightarrow> \<forall>w \<in> set ws. length w \<le> 32"
proof (induction ws arbitrary: ts)
  case (Cons w ws)
  then obtain t ts' where "ts = t # ts'" "has_type (AWord w) t" "list_all2 has_type (map AWord ws) ts'" by (cases ts) auto
  moreover from this(2) have "length w = 32" by (cases t) (simp_all add: has_type.simps)
  ultimately show ?case using Cons.IH by simp
qed simp

lemma call_words_other:
  assumes "parselib_ok A P" "f \<noteq> g"
  shows "call_words P g (call_data f vs) = None"
proof -
  obtain e where "pl_call P g (call_data f vs) = Err e" using other_call [OF assms] by blast
  then show ?thesis by (simp add: call_words_def)
qed

lemma call_words_data:
  assumes "parselib_ok A P" "list_all2 has_type (map AWord ws) (fn_types f)" "length ws \<le> 30"
  shows "call_words P f (call_data f (map AWord ws)) = Some ws"
  using decoded_call [OF assms(1,2) length_words_short [OF typed_words [OF assms(2)] assms(3)]] by (simp add: call_words_def)

lemmas call_words_simps =
  call_words_data [where ws = "[a]", simplified] call_words_data [where ws = "[a, b]", simplified]
  call_words_data [where ws = "[a, b, c]", simplified] for a b c

lemma word_reads:
  "wf_address a \<Longrightarrow> word_address (addr32 a) = a"
  "word_balance C 32 (u256_to_be_bytes v) = Balance v (currency_default C)"
  "word_balance C 12 (truncated_word (u256_to_be_bytes v) 12) = Balance (of_nat (unat v mod 2 ^ 96)) (currency_default C)"
proof -
  show "word_address (addr32 a) = a" if "wf_address a"
    using addr32_word(3) [OF that] by (simp add: word_address_def)
  have "word_be 32 (u256_to_be_bytes v) = u256_to_be_bytes v"
    by (simp add: word_be_def to_be_from_be_len)
  then show "word_balance C 32 (u256_to_be_bytes v) = Balance v (currency_default C)"
    by (simp add: word_balance_def balance_from_be_bytes_def)
  have m: "unat v mod 2 ^ 96 < 2 ^ 96" by simp
  then have "unat v mod 2 ^ 96 < 2 ^ 256" by (rule less_trans) simp
  with m have "from_be (word_be 12 (truncated_word (u256_to_be_bytes v) 12)) = unat v mod 2 ^ 96"
    by (simp add: word_be_def truncated_amount from_be_be32 from_be_to_be)
  then show "word_balance C 12 (truncated_word (u256_to_be_bytes v) 12) = Balance (of_nat (unat v mod 2 ^ 96)) (currency_default C)"
    by (simp add: word_balance_def balance_from_be_bytes_def u256_from_be_bytes_def word_be_def)
qed

section \<open>Contract calls are read back\<close>

lemma parse_channels_reads:
  assumes "parselib_ok A P" "wf_address me" "wf_address a"
  shows "parse_channels_direct P keccak s (encode_fund_channel a (truncated_word (u256_to_be_bytes v) 12)) =
      Ok (FundChannel a (Balance (of_nat (unat v mod 2 ^ 96)) WxHOPR))"
    "parse_channels_direct P keccak s (encode_initiate_outgoing_channel_closure a) =
      Ok (InitializeChannelClosure (generate_channel_id keccak s a))"
    "parse_channels_direct P keccak s (encode_finalize_outgoing_channel_closure a) =
      Ok (FinalizeChannelClosure (generate_channel_id keccak s a))"
    "parse_channels_direct P keccak s (encode_close_incoming_channel a) =
      Ok (IncomingChannelClosure (generate_channel_id keccak a s))"
    "parse_channels_module P keccak s (encode_fund_channel_safe me a (truncated_word (u256_to_be_bytes v) 12)) =
      Ok (FundChannel a (Balance (of_nat (unat v mod 2 ^ 96)) WxHOPR))"
    "parse_channels_module P keccak s (encode_initiate_outgoing_channel_closure_safe me a) =
      Ok (InitializeChannelClosure (generate_channel_id keccak s a))"
    "parse_channels_module P keccak s (encode_finalize_outgoing_channel_closure_safe me a) =
      Ok (FinalizeChannelClosure (generate_channel_id keccak s a))"
    "parse_channels_module P keccak s (encode_close_incoming_channel_safe me a) =
      Ok (IncomingChannelClosure (generate_channel_id keccak a s))"
  using assms by (simp_all add: parse_channels_direct_def parse_channels_module_def encode_static call_words_simps
      call_words_other value_types word_reads wxhopr_currency_def)

lemma parse_channels_redeem:
  assumes "parselib_ok A P" "wf_address me" "list_all2 has_type (map AWord ws) redeem_types"
  shows "parse_channels_direct P keccak s (call_data FnRedeemTicket (map AWord ws)) = Ok (redeem_action ws)"
    "parse_channels_module P keccak s (call_data FnRedeemTicketSafe (AWord (addr32 me) # map AWord ws)) = Ok (redeem_action ws)"
proof -
  have l: "length ws \<le> 29" using list_all2_lengthD [OF assms(3)] by (simp add: redeem_types_def)
  then have "call_words P FnRedeemTicket (call_data FnRedeemTicket (map AWord ws)) = Some ws"
    by (intro call_words_data [OF assms(1)]) (simp_all add: assms(3))
  then show "parse_channels_direct P keccak s (call_data FnRedeemTicket (map AWord ws)) = Ok (redeem_action ws)"
    by (simp add: parse_channels_direct_def call_words_other [OF assms(1)])
  have "call_words P FnRedeemTicketSafe (call_data FnRedeemTicketSafe (map AWord (addr32 me # ws))) = Some (addr32 me # ws)"
    by (rule call_words_data [OF assms(1)]) (use l assms(2,3) in \<open>simp_all add: value_types\<close>)
  then show "parse_channels_module P keccak s (call_data FnRedeemTicketSafe (AWord (addr32 me) # map AWord ws)) = Ok (redeem_action ws)"
    by (simp add: parse_channels_module_def call_words_other [OF assms(1)])
qed

lemma parse_token_reads:
  assumes "parselib_ok A P" "wf_address a"
  shows "parse_token P c (encode_approve a (u256_to_be_bytes v)) m = Ok (Approve a (Balance v WxHOPR) (payer_of m))"
    "parse_token P c (encode_transfer a (u256_to_be_bytes v)) m = Ok (WithdrawToken a (Balance v WxHOPR) (payer_of m))"
    "length d < 2 ^ 62 \<Longrightarrow> parse_token P c (encode_send a (u256_to_be_bytes v) d) m =
       (if a = ca_announcements c then parse_announcement P d else Ok (WithdrawToken a (Balance v WxHOPR) (payer_of m)))"
proof -
  let ?ws = "[addr32 a, u256_to_be_bytes v]"
  obtain e1 e2 where e: "pl_call P FnSend (call_data FnApprove (map AWord ?ws)) = Err e1"
    "pl_call P FnSend (call_data FnTransfer (map AWord ?ws)) = Err e2"
    using other_call [OF assms(1)] by blast
  show "parse_token P c (encode_approve a (u256_to_be_bytes v)) m = Ok (Approve a (Balance v WxHOPR) (payer_of m))"
    using e assms by (simp add: parse_token_def encode_static call_words_simps value_types word_reads wxhopr_currency_def)
  have "pl_call P FnTransfer (call_data FnTransfer (map AWord ?ws)) = Ok (map AWord ?ws)"
    by (rule decoded_call [OF assms(1) _ length_words_short])
      (use assms(2) in \<open>simp_all add: value_types\<close>)
  then show "parse_token P c (encode_transfer a (u256_to_be_bytes v)) m = Ok (WithdrawToken a (Balance v WxHOPR) (payer_of m))"
    using e assms by (simp add: parse_token_def encode_static call_words_other value_types word_reads wxhopr_currency_def)
  show "parse_token P c (encode_send a (u256_to_be_bytes v) d) m =
       (if a = ca_announcements c then parse_announcement P d else Ok (WithdrawToken a (Balance v WxHOPR) (payer_of m)))"
    if d: "length d < 2 ^ 62"
  proof -
    let ?vs = "[AWord (addr32 a), AWord (u256_to_be_bytes v), ABytes d]"
    have s: "length (encode_send a (u256_to_be_bytes v) d) < 2 ^ 63" by (rule send_short [OF d])
    have d': "length d < 2 ^ 63" using d by simp
    have "length (abi_encode ?vs) < 2 ^ 64"
      using s unfolding encode_send_eq [OF d'] by (simp add: call_data_def)
    then have "pl_call P FnSend (call_data FnSend ?vs) = Ok ?vs"
      by (intro decoded_call [OF assms(1)]) (use assms(2) in \<open>simp add: value_types\<close>)
    then show ?thesis
      using assms(2) by (simp add: parse_token_def encode_send_eq [OF d'] word_reads wxhopr_currency_def)
  qed
qed

lemma bytes_string_ascii [simp]: "bytes_string (ascii_bytes s) = s"
proof -
  have "char_of (unat (of_nat (of_char c) :: u8)) = c" for c
    by (simp add: unat_of_nat)
  then have "char_of (unat (of_char c :: u8)) = c" for c
    by (simp only: of_nat_of_char)
  then show ?thesis by (simp add: bytes_string_def ascii_bytes_def comp_def)
qed

lemma parse_announced:
  assumes "parselib_ok A P" "wf_address me" "length s0 = 32" "length s1 = 32" "wf_opk k" "length ma < 2 ^ 32"
    and "ma = [] \<or> (\<exists>m. ma = ma_display A m)"
  shows "parse_announcement P (encode_key_bind_announce_body me s0 s1 (opk_bytes k) ma) =
    (if ma = [] then Ok (Announce k None)
     else map_ok (\<lambda>m. Announce k (Some m)) (ok_or (TxParseError ''failed to parse multiaddress'') (pl_multiaddr P ma)))"
proof -
  let ?vs = "[AWord (addr32 me), AWord s0, AWord s1, AWord (opk_bytes k), ABytes (ascii_bytes ma)]"
  have k: "length (opk_bytes k) = 32" using assms(5) by (simp add: wf_opk_def OPK_SIZE_def)
  have m: "length ma < 2 ^ 63" using assms(6) by simp
  have "length (abi_encode ?vs) < 2 ^ 63"
    using announce_body_short [of s0 s1 "opk_bytes k" ma me] assms(3,4,6) k by simp
  moreover have "list_all2 has_type ?vs announce_types"
    using assms(2-4) k by (simp add: announce_types_def value_types)
  ultimately have d: "pl_announce P (be32 32 @ abi_encode ?vs) = Ok ?vs"
    using announced_decoded [OF assms(1,7), of "butlast ?vs"] by simp
  have h: "be32 32 = replicate 31 0 @ [32]"
    using to_be_pad [of 32 1 31] by (simp add: be32_def)
  have key: "opk_try_from (opk_bytes k) = Ok k" using assms(5) by (rule opk.try_from_as_ref)
  have e: "ascii_bytes ma = [] \<longleftrightarrow> ma = []" by (simp add: ascii_bytes_def)
  show ?thesis
    using d unfolding parse_announcement_def encode_bodies(1) [OF m] h by (simp add: key e)
qed

section \<open>Requests are read back\<close>

definition received :: "address \<Rightarrow> tx_request \<Rightarrow> decoded_tx" where
  "received signer t = \<lparr>dt_signer = Ok signer, dt_to = tx_to t, dt_input = tx_input t, dt_value = from_be (tx_value t)\<rparr>"

definition read_back ::
  "'m parselib \<Rightarrow> (bytes \<Rightarrow> bytes) \<Rightarrow> address \<Rightarrow> contract_addresses \<Rightarrow> address \<Rightarrow> (tx_request, chain_types_error) res
    \<Rightarrow> ('m parsed_action \<times> address, chain_types_error) res" where
  "read_back P keccak module_addr contracts signer r =
     and_then r (\<lambda>t. parse_transaction P keccak module_addr contracts (received signer t))"

text \<open>The contracts the parser tells apart.\<close>

definition contracts_apart :: "contract_addresses \<Rightarrow> bool" where
  "contracts_apart c \<longleftrightarrow> distinct [ca_node_safe_registry c, ca_channels c, ca_token c]"

lemma read_direct:
  assumes "module_addr \<notin> set (contract_list c)" "a \<in> set (contract_list c)" "tx_to t = Some a"
  shows "parse_transaction P keccak module_addr c (received s t) =
    map_ok (\<lambda>x. (x, s)) (parse_target P keccak c s a (tx_input t) False)"
proof -
  have "list_ex (\<lambda>x. x = a) (contract_list c)" "a \<noteq> module_addr" using assms(1,2) by (auto simp: list_ex_iff)
  then show ?thesis using assms(3) by (simp add: parse_transaction_def received_def)
qed

lemma read_module_call:
  assumes "parselib_ok A P" "wf_address a" "length w = 32" "length d < 2 ^ 63"
  shows "module_call_of P (tx_input (module_exec_tx g a w d)) = Ok (a, from_be w, d)"
proof -
  let ?vs = "[AWord (addr32 a), AWord w, ABytes d, AWord zero_word]"
  have "length (addr32 a) \<le> 64" using length_addr32 [of a] by linarith
  then have "length (abi_encode ?vs) \<le> 160 + length (abi_tail (ABytes d))"
    using length_parts [of ?vs "32 * length ?vs"] assms(3) by (simp add: abi_encode_def split_beta)
  moreover have "(2 :: nat) ^ 63 + 223 \<le> 2 ^ 64" by simp
  ultimately have "length (abi_encode ?vs) < 2 ^ 64" using assms(4) length_tail_le [of d] by linarith
  then have "pl_call P FnExecTransactionFromModule (call_data FnExecTransactionFromModule ?vs) = Ok ?vs"
    by (intro decoded_call [OF assms(1)]) (use assms(2,3) in \<open>simp_all add: value_types\<close>)
  then show ?thesis
    using assms(2) by (simp add: module_exec_tx_eq [OF assms(4)] module_execution_def module_call_of_def word_reads)
qed

lemma read_module:
  assumes "parselib_ok A P" "wf_address a" "length w = 32" "length d < 2 ^ 63"
  shows "parse_transaction P keccak (sg_module g) c (received s (module_exec_tx g a w d)) =
    (if from_be w \<noteq> 0 \<and> d = [] then Ok (WithdrawNative a (native_balance (from_be w)) SafePays, s)
     else map_ok (\<lambda>x. (x, s)) (parse_target P keccak c s a d True))"
proof -
  note read_module_call [OF assms, of g]
  moreover have "tx_to (module_exec_tx g a w d) = Some (sg_module g)"
    by (simp add: module_exec_tx_eq [OF assms(4)] module_execution_def)
  ultimately show ?thesis by (simp add: parse_transaction_def received_def)
qed

lemma parse_target_apart:
  assumes "contracts_apart c"
  shows "parse_target P keccak c s (ca_channels c) d False = parse_channels_direct P keccak s d"
    "parse_target P keccak c s (ca_channels c) d True = parse_channels_module P keccak s d"
    "parse_target P keccak c s (ca_token c) d m = parse_token P c d m"
  using assms by (auto simp: parse_target_def contracts_apart_def)

lemma parse_registration:
  assumes "parselib_ok A P" "wf_address a"
  shows "parse_target P keccak c s (ca_node_safe_registry c) (encode_register_safe_by_node a) m = Ok (RegisterSafeAddress a)"
proof -
  have "pl_call P FnRegisterSafeByNode (call_data FnRegisterSafeByNode (map AWord [addr32 a])) = Ok (map AWord [addr32 a])"
    by (rule decoded_call [OF assms(1) _ length_words_short]) (use assms(2) in \<open>simp_all add: value_types\<close>)
  then show ?thesis using assms(2) by (simp add: parse_target_def encode_static word_reads)
qed

lemma native_balance_eq: "native_balance (from_be (u256_to_be_bytes v)) = Balance v XDai"
proof -
  have "be32 (from_be (u256_to_be_bytes v)) = u256_to_be_bytes v" by (simp add: be32_from_be)
  then show ?thesis by (simp add: native_balance_def word_reads(2) xdai_currency_def)
qed

lemma redeem_action_eq:
  assumes "redeem_ticket_words L W r me = Ok ws" "wf_redeemable r" "wf_ticket (vt_ticket (rt_ticket r))"
  shows "redeem_action ws = RedeemTicket (vt_channel_id (rt_ticket r)) (ticket_index (vt_ticket (rt_ticket r)))
    (ticket_amount (vt_ticket (rt_ticket r)))"
proof -
  let ?t = "vt_ticket (rt_ticket r)"
  obtain a b where ab: "redeemable_ticket_words r = Ok a" "ws = a @ b"
    using assms(1) by (auto simp: redeem_ticket_words_def)
  have a: "length a = 8" "a ! 0 = hash_bytes (vt_channel_id (rt_ticket r))"
    "a ! 1 = truncated_word (u256_to_be_bytes (balance_amount (ticket_amount ?t))) 12"
    "a ! 2 = truncated_word (to_be 8 (unat (ticket_index ?t))) 6"
    using ab(1) by (auto simp: redeemable_ticket_words_def Let_def expect_def split: option.splits)
  have i: "unat (ticket_index ?t) < 2 ^ 48" and w: "unat (balance_amount (ticket_amount ?t)) < 10 ^ 25"
    using assms(3) by (simp_all add: wf_ticket_def wei_def balance_amount_def)
  have "from_be (word_be 6 (truncated_word (to_be 8 (unat (ticket_index ?t))) 6)) = unat (ticket_index ?t)"
  proof -
    have "unat (ticket_index ?t) < 2 ^ 256" using i by (rule less_trans) simp
    then show ?thesis using i by (simp add: truncated_word_eq word_be_def from_be_be32 from_be_to_be)
  qed
  moreover have "unat (balance_amount (ticket_amount ?t)) mod 2 ^ 96 = unat (balance_amount (ticket_amount ?t))"
    using less_trans [OF w, of "2 ^ 96"] by simp
  then have "word_balance wxhopr_currency 12 (a ! 1) = ticket_amount ?t"
    unfolding a(3) word_reads(3) by (cases "ticket_amount ?t"; cases "balance_currency (ticket_amount ?t)")
      (simp add: wxhopr_currency_def balance_amount_def)
  ultimately show ?thesis
    using a by (simp add: redeem_action_def ab(2) nth_append)
qed

lemma hopr_balance_eta: "Balance (balance_amount b) WxHOPR = b" "Balance (balance_amount c) XDai = c"
  by (cases b; cases "balance_currency b"; simp add: balance_amount_def) (cases c; cases "balance_currency c"; simp add: balance_amount_def)

lemma announced_short: "wf_opk k \<Longrightarrow> length (opk_bytes k) = 32"
  by (simp add: wf_opk_def OPK_SIZE_def)

lemma announcement_read:
  assumes "parselib_ok A P" "wf_address me" "wf_address (ca_announcements c)" "length (announced_multiaddr A an) < 2 ^ 32"
    and "wf_offchain_signature (kb_signature (an_key_binding an))" "wf_opk (kb_packet_key (an_key_binding an))"
    and "pred_option (\<lambda>m. \<not> ma_is_empty A m) (an_multiaddress an)"
  shows "\<exists>d. announce_call_data A me (ca_announcements c) an fee = Some d \<and> length d < 2 ^ 63
    \<and> parse_token P c d m = Ok (Announce (kb_packet_key (an_key_binding an)) (an_multiaddress an))"
proof -
  let ?s = "offchain_signature_bytes (kb_signature (an_key_binding an))" and ?k = "kb_packet_key (an_key_binding an)"
  let ?ma = "announced_multiaddr A an"
  have l: "length ?s = 64" "length (opk_bytes ?k) = 32"
    using assms(5,6) by (simp_all add: wf_offchain_signature_def OFFCHAIN_SIGNATURE_SIZE_def announced_short)
  let ?body = "encode_key_bind_announce_body me (slice_of 0 32 ?s) (slice_of 32 32 ?s) (opk_bytes ?k) ?ma"
  have d: "announce_call_data A me (ca_announcements c) an fee =
      Some (encode_send (ca_announcements c) (u256_to_be_bytes (balance_amount fee)) ?body)"
    using l by (simp add: announce_call_data_def)
  have m: "length ?ma < 2 ^ 63" using assms(4) by simp
  have t: "?ma = [] \<or> (\<exists>m. ?ma = ma_display A m)" by (auto simp: announced_multiaddr_def split: option.splits)
  have "length ?body < 2 ^ 62"
    using announce_body_short [of "slice_of 0 32 ?s" "slice_of 32 32 ?s" "opk_bytes ?k" ?ma me] l assms(4)
    unfolding encode_bodies(1) [OF m] by simp
  then have "parse_token P c (encode_send (ca_announcements c) (u256_to_be_bytes (balance_amount fee)) ?body) m = parse_announcement P ?body"
    by (simp only: parse_token_reads(3) [OF assms(1,3)] if_True simp_thms)
  also have "\<dots> = Ok (Announce ?k (an_multiaddress an))"
    using parse_announced [OF assms(1,2) _ _ assms(6,4) t, of "slice_of 0 32 ?s" "slice_of 32 32 ?s"] l(1) assms(1,7)
    by (cases "an_multiaddress an") (auto simp: announced_multiaddr_def parselib_ok_def)
  finally show ?thesis using d announce_short [OF assms(4) d] by blast
qed

end
