(* ===== verification/Parser_Spec.thy ===== *)
theory Parser_Spec
  imports Chain_Parser
begin

text \<open>
  The parser inverts the generators: what is read back from a request of either generator is the
  action it was made for, with the signer, and with the account that pays.
\<close>

section \<open>Requests of the basic generator\<close>

lemma read_back_direct:
  assumes "module_addr \<notin> set (contract_list c)" "a \<in> set (contract_list c)"
  shows "read_back P keccak module_addr c s (Ok (with_to a (with_input d tx_default))) =
    map_ok (\<lambda>x. (x, s)) (parse_target P keccak c s a d False)"
  using read_direct [OF assms, of "with_to a (with_input d tx_default)"] by (simp add: read_back_def request_simps)

lemma with_input_to: "with_input d (with_to a t) = with_to a (with_input d t)"
  by (simp add: with_input_def with_to_def)

lemma contract_members:
  "ca_token c \<in> set (contract_list c)" "ca_channels c \<in> set (contract_list c)" "ca_node_safe_registry c \<in> set (contract_list c)"
  by (simp_all add: contract_list_def)

lemma native_positive: "\<not> balance_is_zero b \<longleftrightarrow> 0 < from_be (u256_to_be_bytes (balance_amount b))"
proof -
  have "from_be (u256_to_be_bytes (balance_amount b)) = unat (balance_amount b)"
    using unat_less_2p [of "balance_amount b"] by (simp add: u256_to_be_bytes_def from_be_to_be)
  then show ?thesis by (simp add: balance_is_zero_def balance_amount_def unat_gt_0)
qed

lemma read_back_Err [simp]: "read_back P keccak m c s (Err e) = Err e"
  by (simp add: read_back_def)

lemma basic_redeem_read:
  assumes "parselib_ok A P" "wf_basic g" "contracts_apart (bg_contracts g)" "module_addr \<notin> set (contract_list (bg_contracts g))"
    and "secp_ok L" "wf_redeemable r" "wf_ticket (vt_ticket (rt_ticket r))" "redeem_ticket_words L W r (bg_me g) = Ok ws"
  shows "read_back P (keccak256 L) module_addr (bg_contracts g) (bg_me g) (basic_redeem_ticket L W g r) =
    Ok (RedeemTicket (vt_channel_id (rt_ticket r)) (ticket_index (vt_ticket (rt_ticket r)))
      (ticket_amount (vt_ticket (rt_ticket r))), bg_me g)"
  by (simp add: basic_redeem_ticket_def encode_redeem assms(8) read_back_direct [OF assms(4) contract_members(2)]
      parse_target_apart [OF assms(3)] redeem_action_eq [OF assms(8,6,7)]
      parse_channels_redeem(1) [OF assms(1) wf_generators(1) [OF assms(2)] al_redeem_eq(2) [OF assms(5,6,8)]])

lemma basic_announce_read:
  assumes "parselib_ok A P" "wf_basic g" "contracts_apart (bg_contracts g)" "module_addr \<notin> set (contract_list (bg_contracts g))"
    and "length (announced_multiaddr A an) < 2 ^ 32" "wf_offchain_signature (kb_signature (an_key_binding an))"
    and "wf_opk (kb_packet_key (an_key_binding an))" "pred_option (\<lambda>m. \<not> ma_is_empty A m) (an_multiaddress an)"
  shows "read_back P keccak module_addr (bg_contracts g) (bg_me g) (basic_announce A g an amount) =
    Ok (Announce (kb_packet_key (an_key_binding an)) (an_multiaddress an), bg_me g)"
  using announcement_read [OF assms(1) wf_generators(1) [OF assms(2)]
      wf_contracts_members(3) [OF wf_generators(2) [OF assms(2)]] assms(5-8), of amount False]
  by (auto simp: basic_announce_def read_back_direct [OF assms(4) contract_members(1)] parse_target_apart [OF assms(3)])

lemma basic_close_incoming_read:
  assumes "parselib_ok A P" "wf_basic g" "contracts_apart (bg_contracts g)" "module_addr \<notin> set (contract_list (bg_contracts g))"
    and "wf_address a" "a \<noteq> bg_me g"
  shows "read_back P keccak module_addr (bg_contracts g) (bg_me g) (basic_close_incoming_channel g a) =
    Ok (IncomingChannelClosure (generate_channel_id keccak a (bg_me g)), bg_me g)"
  using assms(6) by (simp add: basic_close_incoming_channel_def read_back_direct [OF assms(4) contract_members(2)]
      parse_target_apart [OF assms(3)] parse_channels_reads [OF assms(1) wf_generators(1) [OF assms(2)] assms(5)])

lemma basic_account_reads:
  assumes "parselib_ok A P" "wf_basic g" "contracts_apart (bg_contracts g)" "module_addr \<notin> set (contract_list (bg_contracts g))"
    and "wf_address a" and rb: "rb = read_back P keccak module_addr (bg_contracts g) (bg_me g)"
  shows "rb (basic_approve g a amount) = Ok (Approve a amount EoaPays, bg_me g)"
    "rb (basic_transfer wxhopr_currency g a amount) = Ok (WithdrawToken a amount EoaPays, bg_me g)"
    "a \<notin> insert module_addr (set (contract_list (bg_contracts g))) \<Longrightarrow> \<not> balance_is_zero native \<Longrightarrow>
      rb (basic_transfer xdai_currency g a native) = Ok (WithdrawNative a native EoaPays, bg_me g)"
    "a \<noteq> ca_announcements (bg_contracts g) \<Longrightarrow>
      rb (basic_send_erc777 g a amount payload) = Ok (WithdrawToken a amount EoaPays, bg_me g)"
    "a \<noteq> bg_me g \<Longrightarrow>
      rb (basic_fund_channel g a amount) = Ok (FundChannel a (Balance (of_nat (wei amount mod 2 ^ 96)) WxHOPR), bg_me g)"
    "a \<noteq> bg_me g \<Longrightarrow> rb (basic_initiate_outgoing_channel_closure g a)
      = Ok (InitializeChannelClosure (generate_channel_id keccak (bg_me g) a), bg_me g)"
    "a \<noteq> bg_me g \<Longrightarrow> rb (basic_finalize_outgoing_channel_closure g a)
      = Ok (FinalizeChannelClosure (generate_channel_id keccak (bg_me g) a), bg_me g)"
    "a \<noteq> bg_me g \<Longrightarrow> rb (basic_close_incoming_channel g a)
      = Ok (IncomingChannelClosure (generate_channel_id keccak a (bg_me g)), bg_me g)"
    "rb (basic_register_safe_by_node g a) = Ok (RegisterSafeAddress a, bg_me g)"
proof -
  note c = wf_contracts_members [OF wf_generators(2) [OF assms(2)]] and me = wf_generators(1) [OF assms(2)]
  note direct = read_back_direct [OF assms(4) contract_members(1)] read_back_direct [OF assms(4) contract_members(2)]
    read_back_direct [OF assms(4) contract_members(3)]
  note reads = direct parse_target_apart [OF assms(3)] parse_channels_reads [OF assms(1) me assms(5)]
    parse_token_reads [OF assms(1,5)] payer_of_def hopr_balance_eta
  show "rb (basic_approve g a amount) = Ok (Approve a amount EoaPays, bg_me g)"
    by (simp add: rb basic_approve_def reads)
  show "rb (basic_transfer wxhopr_currency g a amount) = Ok (WithdrawToken a amount EoaPays, bg_me g)"
    using currencies_differ [of wxhopr_currency]
    by (auto simp: rb basic_transfer_def transfer_tx_def Let_def reads currency_is_def xdai_currency_def wxhopr_currency_def)
  show "rb (basic_transfer xdai_currency g a native) = Ok (WithdrawNative a native EoaPays, bg_me g)"
    if "a \<notin> insert module_addr (set (contract_list (bg_contracts g)))" "\<not> balance_is_zero native"
  proof -
    have x: "currency_is xdai_currency xdai_currency" by (simp add: currency_is_def)
    have "from_be (u256_to_be_bytes (balance_amount native)) > 0"
      using that(2) native_positive by blast
    moreover have "\<not> list_ex (\<lambda>x. x = a) (contract_list (bg_contracts g))" using that(1) by (auto simp: list_ex_iff)
    ultimately show ?thesis
      using that(1) x by (simp add: rb basic_transfer_def transfer_tx_def read_back_def parse_transaction_def received_def request_simps
          native_balance_eq hopr_balance_eta)
  qed
  show "rb (basic_send_erc777 g a amount payload) = Ok (WithdrawToken a amount EoaPays, bg_me g)"
    if "a \<noteq> ca_announcements (bg_contracts g)"
    using that le_less_trans [OF length_erc777 [of payload], of "2 ^ 62"] by (simp add: rb basic_send_erc777_def reads)
  show "rb (basic_fund_channel g a amount) = Ok (FundChannel a (Balance (of_nat (wei amount mod 2 ^ 96)) WxHOPR), bg_me g)"
    if "a \<noteq> bg_me g"
    using that by (simp add: rb basic_fund_channel_def reads wei_def balance_amount_def)
  show "rb (basic_initiate_outgoing_channel_closure g a)
      = Ok (InitializeChannelClosure (generate_channel_id keccak (bg_me g) a), bg_me g)"
    "rb (basic_finalize_outgoing_channel_closure g a)
      = Ok (FinalizeChannelClosure (generate_channel_id keccak (bg_me g) a), bg_me g)"
    "rb (basic_close_incoming_channel g a)
      = Ok (IncomingChannelClosure (generate_channel_id keccak a (bg_me g)), bg_me g)" if "a \<noteq> bg_me g"
    using that by (simp_all add: rb basic_initiate_outgoing_channel_closure_def basic_finalize_outgoing_channel_closure_def
        basic_close_incoming_channel_def reads)
  show "rb (basic_register_safe_by_node g a) = Ok (RegisterSafeAddress a, bg_me g)"
    by (simp add: rb basic_register_safe_by_node_def direct parse_registration [OF assms(1,5)])
qed

text \<open>Every transaction the basic generator makes, received from its signer, is parsed to the action
  it was made for: approvals, transfers of both currencies and sends (the signer pays),
  announcements with their key and multiaddress, funding (the amount modulo \<open>2 ^ 96\<close>), the three
  closures with the channel in the right direction, redemptions with channel, index and amount of
  the ticket, and registrations of a Safe. A native transfer must not be zero nor go to a contract.\<close>

theorem parse_basic_requests:
  assumes "parselib_ok A P" "wf_basic g" "contracts_apart (bg_contracts g)" "module_addr \<notin> set (contract_list (bg_contracts g))"
    and "wf_address a" "secp_ok L" "wf_redeemable r" "wf_ticket (vt_ticket (rt_ticket r))" "redeem_ticket_words L W r (bg_me g) = Ok ws"
    and "length (announced_multiaddr A an) < 2 ^ 32" "wf_offchain_signature (kb_signature (an_key_binding an))"
    and "wf_opk (kb_packet_key (an_key_binding an))" "pred_option (\<lambda>m. \<not> ma_is_empty A m) (an_multiaddress an)"
    and rb: "rb = read_back P (keccak256 L) module_addr (bg_contracts g) (bg_me g)"
  shows "rb (basic_approve g a amount) = Ok (Approve a amount EoaPays, bg_me g)
    \<and> rb (basic_transfer wxhopr_currency g a amount) = Ok (WithdrawToken a amount EoaPays, bg_me g)
    \<and> (a \<notin> insert module_addr (set (contract_list (bg_contracts g))) \<longrightarrow> \<not> balance_is_zero native \<longrightarrow>
        rb (basic_transfer xdai_currency g a native) = Ok (WithdrawNative a native EoaPays, bg_me g))
    \<and> (a \<noteq> ca_announcements (bg_contracts g) \<longrightarrow>
        rb (basic_send_erc777 g a amount payload) = Ok (WithdrawToken a amount EoaPays, bg_me g))
    \<and> rb (basic_announce A g an amount) = Ok (Announce (kb_packet_key (an_key_binding an)) (an_multiaddress an), bg_me g)
    \<and> (a \<noteq> bg_me g \<longrightarrow>
        rb (basic_fund_channel g a amount) = Ok (FundChannel a (Balance (of_nat (wei amount mod 2 ^ 96)) WxHOPR), bg_me g)
      \<and> rb (basic_initiate_outgoing_channel_closure g a)
          = Ok (InitializeChannelClosure (generate_channel_id (keccak256 L) (bg_me g) a), bg_me g)
      \<and> rb (basic_finalize_outgoing_channel_closure g a)
          = Ok (FinalizeChannelClosure (generate_channel_id (keccak256 L) (bg_me g) a), bg_me g)
      \<and> rb (basic_close_incoming_channel g a)
          = Ok (IncomingChannelClosure (generate_channel_id (keccak256 L) a (bg_me g)), bg_me g))
    \<and> rb (basic_redeem_ticket L W g r) = Ok (RedeemTicket (vt_channel_id (rt_ticket r))
        (ticket_index (vt_ticket (rt_ticket r))) (ticket_amount (vt_ticket (rt_ticket r))), bg_me g)
    \<and> rb (basic_register_safe_by_node g a) = Ok (RegisterSafeAddress a, bg_me g)"
  using basic_account_reads [OF assms(1-5) rb] basic_announce_read [OF assms(1-4,10-13)] basic_redeem_read [OF assms(1-4,6-9)]
  by (simp add: rb)

section \<open>Requests of the Safe generator\<close>

lemma read_back_module:
  assumes "parselib_ok A P" "wf_address a" "length w = 32" "length d < 2 ^ 63"
  shows "read_back P keccak (sg_module g) c s (Ok (module_exec_tx g a w d)) =
    (if from_be w \<noteq> 0 \<and> d = [] then Ok (WithdrawNative a (native_balance (from_be w)) SafePays, s)
     else map_ok (\<lambda>x. (x, s)) (parse_target P keccak c s a d True))"
  using read_module [OF assms] by (simp add: read_back_def)

lemma safe_redeem_read:
  assumes "parselib_ok A P" "wf_safe g" "contracts_apart (sg_contracts g)"
    and "secp_ok L" "wf_redeemable r" "wf_ticket (vt_ticket (rt_ticket r))" "redeem_ticket_words L W r (sg_me g) = Ok ws"
  shows "read_back P (keccak256 L) (sg_module g) (sg_contracts g) (sg_me g) (safe_redeem_ticket L W g r) =
    Ok (RedeemTicket (vt_channel_id (rt_ticket r)) (ticket_index (vt_ticket (rt_ticket r)))
      (ticket_amount (vt_ticket (rt_ticket r))), sg_me g)"
proof -
  note c = wf_contracts_members [OF wf_generators(4) [OF assms(2)]] and me = wf_generators(3) [OF assms(2)]
  have "length (call_data FnRedeemTicketSafe (map AWord (addr32 (sg_me g) # ws))) < 2 ^ 63"
    by (rule words_call_short) (use redeem_words [OF assms(7)] in auto)
  then show ?thesis
    by (simp add: safe_redeem_ticket_def encode_redeem assms(7) read_back_module [OF assms(1) c(2)]
        parse_target_apart [OF assms(3)] redeem_action_eq [OF assms(7,5,6)] zero_word_type
        parse_channels_redeem(2) [OF assms(1) me al_redeem_eq(2) [OF assms(4,5,7)]])
qed

lemma safe_announce_read:
  assumes "parselib_ok A P" "wf_safe g" "contracts_apart (sg_contracts g)"
    and "length (announced_multiaddr A an) < 2 ^ 32" "wf_offchain_signature (kb_signature (an_key_binding an))"
    and "wf_opk (kb_packet_key (an_key_binding an))" "pred_option (\<lambda>m. \<not> ma_is_empty A m) (an_multiaddress an)"
  shows "read_back P keccak (sg_module g) (sg_contracts g) (sg_me g) (safe_announce A g an amount) =
    Ok (Announce (kb_packet_key (an_key_binding an)) (an_multiaddress an), sg_me g)"
  using announcement_read [OF assms(1) wf_generators(3) [OF assms(2)]
      wf_contracts_members(3) [OF wf_generators(4) [OF assms(2)]] assms(4-7), of amount True]
  by (auto simp: safe_announce_def read_back_module [OF assms(1) wf_contracts_members(1) [OF wf_generators(4) [OF assms(2)]]]
      parse_target_apart [OF assms(3)] zero_word_type)

lemma within_funding_limit:
  assumes "wei amount \<le> MAX_FUNDING_AMOUNT"
  shows "\<not> of_nat MAX_FUNDING_AMOUNT < balance_amount amount"
    "unat (balance_amount amount) mod 2 ^ 96 = unat (balance_amount amount)"
  using assms by (simp_all add: word_less_nat_alt unat_of_nat_less MAX_FUNDING_AMOUNT_def wei_def balance_amount_def)

lemma safe_account_reads:
  assumes "parselib_ok A P" "wf_safe g" "contracts_apart (sg_contracts g)" "sg_module g \<notin> set (contract_list (sg_contracts g))"
    and "wf_address a" and rb: "rb = read_back P keccak (sg_module g) (sg_contracts g) (sg_me g)"
  shows "rb (safe_approve g a amount) = Ok (Approve a amount SafePays, sg_me g)"
    "rb (safe_transfer wxhopr_currency g a amount) = Ok (WithdrawToken a amount SafePays, sg_me g)"
    "\<not> balance_is_zero native \<Longrightarrow>
      rb (safe_transfer xdai_currency g a native) = Ok (WithdrawNative a native SafePays, sg_me g)"
    "a \<noteq> ca_announcements (sg_contracts g) \<Longrightarrow>
      rb (safe_send_erc777 g a amount payload) = Ok (WithdrawToken a amount SafePays, sg_me g)"
    "a \<noteq> sg_me g \<Longrightarrow> wei amount \<le> MAX_FUNDING_AMOUNT \<Longrightarrow>
      rb (safe_fund_channel g a amount) = Ok (FundChannel a amount, sg_me g)"
    "a \<noteq> sg_me g \<Longrightarrow> rb (safe_initiate_outgoing_channel_closure g a)
      = Ok (InitializeChannelClosure (generate_channel_id keccak (sg_me g) a), sg_me g)"
    "a \<noteq> sg_me g \<Longrightarrow> rb (safe_finalize_outgoing_channel_closure g a)
      = Ok (FinalizeChannelClosure (generate_channel_id keccak (sg_me g) a), sg_me g)"
    "a \<noteq> sg_me g \<Longrightarrow> rb (safe_close_incoming_channel g a)
      = Ok (IncomingChannelClosure (generate_channel_id keccak a (sg_me g)), sg_me g)"
    "rb (safe_register_safe_by_node g a) = Ok (RegisterSafeAddress a, sg_me g)"
proof -
  note c = wf_contracts_members [OF wf_generators(4) [OF assms(2)]] and me = wf_generators(3) [OF assms(2)]
  note modules = read_back_module [OF assms(1) c(1)] read_back_module [OF assms(1) c(2)]
  note reads = modules parse_target_apart [OF assms(3)] parse_channels_reads [OF assms(1) me assms(5)]
    parse_token_reads [OF assms(1,5)] payer_of_def hopr_balance_eta
  note short = amount_calls_short
  show "rb (safe_approve g a amount) = Ok (Approve a amount SafePays, sg_me g)"
    using short by (simp add: rb safe_approve_def reads zero_word_type)
  show "rb (safe_transfer wxhopr_currency g a amount) = Ok (WithdrawToken a amount SafePays, sg_me g)"
    using short by (simp add: rb safe_transfer_def Let_def reads zero_word_type currency_is_def xdai_currency_def wxhopr_currency_def)
  show "rb (safe_transfer xdai_currency g a native) = Ok (WithdrawNative a native SafePays, sg_me g)" if "\<not> balance_is_zero native"
  proof -
    have "currency_is xdai_currency xdai_currency" by (simp add: currency_is_def)
    moreover have "from_be (u256_to_be_bytes (balance_amount native)) \<noteq> 0" using that native_positive by (metis less_irrefl)
    ultimately show ?thesis
      by (simp add: rb safe_transfer_def read_back_module [OF assms(1,5)] native_balance_eq hopr_balance_eta)
  qed
  show "rb (safe_send_erc777 g a amount payload) = Ok (WithdrawToken a amount SafePays, sg_me g)"
    if "a \<noteq> ca_announcements (sg_contracts g)"
    using that le_less_trans [OF length_erc777 [of payload], of "2 ^ 62"] send_short [of "encode_erc777_payload payload" a]
    by (simp add: rb safe_send_erc777_def reads zero_word_type)
  show "rb (safe_fund_channel g a amount) = Ok (FundChannel a amount, sg_me g)"
    if "a \<noteq> sg_me g" "wei amount \<le> MAX_FUNDING_AMOUNT"
    using that within_funding_limit [OF that(2)] short by (simp add: rb safe_fund_channel_def reads zero_word_type)
  show "rb (safe_initiate_outgoing_channel_closure g a)
      = Ok (InitializeChannelClosure (generate_channel_id keccak (sg_me g) a), sg_me g)"
    "rb (safe_finalize_outgoing_channel_closure g a)
      = Ok (FinalizeChannelClosure (generate_channel_id keccak (sg_me g) a), sg_me g)"
    "rb (safe_close_incoming_channel g a)
      = Ok (IncomingChannelClosure (generate_channel_id keccak a (sg_me g)), sg_me g)" if "a \<noteq> sg_me g"
    using that short by (simp_all add: rb safe_initiate_outgoing_channel_closure_def safe_finalize_outgoing_channel_closure_def
        safe_close_incoming_channel_def reads zero_word_type)
  show "rb (safe_register_safe_by_node g a) = Ok (RegisterSafeAddress a, sg_me g)"
    using read_direct [OF assms(4) contract_members(3), of "with_gas_limit DEFAULT_TX_GAS
        (with_to (ca_node_safe_registry (sg_contracts g)) (register_safe_tx a))" P keccak "sg_me g"]
    by (simp add: rb safe_register_safe_by_node_def read_back_def register_safe_tx_def request_simps with_gas_limit_def
        parse_registration [OF assms(1,5)])
qed

text \<open>Every transaction the Safe generator makes for the module to execute, received from its signer,
  is parsed to the same action as the one of the basic generator, with the Safe as the account that
  pays; the amount of a funding is exact, as it is within the funding limit. The registration of the
  Safe itself is addressed to the registry and read from there.\<close>

theorem parse_safe_requests:
  assumes "parselib_ok A P" "wf_safe g" "contracts_apart (sg_contracts g)" "sg_module g \<notin> set (contract_list (sg_contracts g))"
    and "wf_address a" "secp_ok L" "wf_redeemable r" "wf_ticket (vt_ticket (rt_ticket r))" "redeem_ticket_words L W r (sg_me g) = Ok ws"
    and "length (announced_multiaddr A an) < 2 ^ 32" "wf_offchain_signature (kb_signature (an_key_binding an))"
    and "wf_opk (kb_packet_key (an_key_binding an))" "pred_option (\<lambda>m. \<not> ma_is_empty A m) (an_multiaddress an)"
    and rb: "rb = read_back P (keccak256 L) (sg_module g) (sg_contracts g) (sg_me g)"
  shows "rb (safe_approve g a amount) = Ok (Approve a amount SafePays, sg_me g)
    \<and> rb (safe_transfer wxhopr_currency g a amount) = Ok (WithdrawToken a amount SafePays, sg_me g)
    \<and> (\<not> balance_is_zero native \<longrightarrow>
        rb (safe_transfer xdai_currency g a native) = Ok (WithdrawNative a native SafePays, sg_me g))
    \<and> (a \<noteq> ca_announcements (sg_contracts g) \<longrightarrow>
        rb (safe_send_erc777 g a amount payload) = Ok (WithdrawToken a amount SafePays, sg_me g))
    \<and> rb (safe_announce A g an amount) = Ok (Announce (kb_packet_key (an_key_binding an)) (an_multiaddress an), sg_me g)
    \<and> (a \<noteq> sg_me g \<longrightarrow>
        (wei amount \<le> MAX_FUNDING_AMOUNT \<longrightarrow> rb (safe_fund_channel g a amount) = Ok (FundChannel a amount, sg_me g))
      \<and> rb (safe_initiate_outgoing_channel_closure g a)
          = Ok (InitializeChannelClosure (generate_channel_id (keccak256 L) (sg_me g) a), sg_me g)
      \<and> rb (safe_finalize_outgoing_channel_closure g a)
          = Ok (FinalizeChannelClosure (generate_channel_id (keccak256 L) (sg_me g) a), sg_me g)
      \<and> rb (safe_close_incoming_channel g a)
          = Ok (IncomingChannelClosure (generate_channel_id (keccak256 L) a (sg_me g)), sg_me g))
    \<and> rb (safe_redeem_ticket L W g r) = Ok (RedeemTicket (vt_channel_id (rt_ticket r))
        (ticket_index (vt_ticket (rt_ticket r))) (ticket_amount (vt_ticket (rt_ticket r))), sg_me g)
    \<and> rb (safe_register_safe_by_node g a) = Ok (RegisterSafeAddress a, sg_me g)"
  using safe_account_reads [OF assms(1-5) rb] safe_announce_read [OF assms(1-3,10-13)] safe_redeem_read [OF assms(1-3,6-9)]
  by (simp add: rb)

section \<open>What a parsed action says\<close>

fun action_payer :: "'m parsed_action \<Rightarrow> payer option" where
  "action_payer (WithdrawNative _ _ p) = Some p"
| "action_payer (WithdrawToken _ _ p) = Some p"
| "action_payer (Approve _ _ p) = Some p"
| "action_payer _ = None"

text \<open>The channels a closure by \<open>signer\<close> can name.\<close>

fun closure_of_signer :: "(bytes \<Rightarrow> bytes) \<Rightarrow> address \<Rightarrow> 'm parsed_action \<Rightarrow> bool" where
  "closure_of_signer keccak signer (InitializeChannelClosure i) \<longleftrightarrow> i \<in> range (generate_channel_id keccak signer)"
| "closure_of_signer keccak signer (FinalizeChannelClosure i) \<longleftrightarrow> i \<in> range (generate_channel_id keccak signer)"
| "closure_of_signer keccak signer (IncomingChannelClosure i) \<longleftrightarrow> i \<in> range (\<lambda>a. generate_channel_id keccak a signer)"
| "closure_of_signer _ _ _ \<longleftrightarrow> True"

lemma first_some_Some: "first_some xs = Some a \<Longrightarrow> Some a \<in> set xs"
  by (induction xs) (auto split: option.splits)

lemma Some_eq_map: "Some x = map_option f y \<longleftrightarrow> (\<exists>z. y = Some z \<and> x = f z)"
  by (cases y) auto

lemma parse_channels_sound:
  assumes "parse_channels_module P keccak s d = Ok x \<or> parse_channels_direct P keccak s d = Ok x"
  shows "closure_of_signer keccak s x \<and> action_payer x = None"
  using assms by (auto simp: parse_channels_module_def parse_channels_direct_def redeem_action_def Some_eq_map simp del: first_some.simps dest!: first_some_Some)

lemma parse_announcement_sound: "parse_announcement P d = Ok x \<Longrightarrow> \<exists>k m. x = Announce k m"
  by (auto simp: parse_announcement_def split: if_splits)

lemma parse_token_sound:
  assumes "parse_token P c d m = Ok x"
  shows "closure_of_signer keccak s x \<and> action_payer x \<in> {None, Some (payer_of m)}"
proof -
  have "(\<exists>k y. x = Announce k y) \<or> (\<exists>a b. x = WithdrawToken a b (payer_of m) \<or> x = Approve a b (payer_of m))"
    using assms parse_announcement_sound
    by (auto simp: parse_token_def split: if_splits option.splits)
  then show ?thesis by auto
qed

lemma parse_target_sound:
  assumes "parse_target P keccak c s t d m = Ok x"
  shows "closure_of_signer keccak s x \<and> action_payer x \<in> {None, Some (payer_of m)}"
proof -
  consider "\<exists>a. x = RegisterSafeAddress a" | "parse_channels_module P keccak s d = Ok x \<or> parse_channels_direct P keccak s d = Ok x"
    | "parse_token P c d m = Ok x"
    using assms by (auto simp: parse_target_def split: if_splits)
  then show ?thesis
  proof cases
    case 1
    then show ?thesis by auto
  qed (use parse_channels_sound parse_token_sound in blast)+
qed

text \<open>C29. What a parsed transaction says, whatever its bytes: the signer is the one recovered; the payer
  of a withdrawal or an approval is the Safe exactly when the transaction is addressed to the module;
  a closure names a channel the signer is an end of, an outgoing one for initiation and
  finalization, an incoming one otherwise.\<close>

theorem parse_sound:
  assumes "parse_transaction P keccak module_addr contracts tx = Ok (action, signer)"
  shows "dt_signer tx = Ok signer \<and> closure_of_signer keccak signer action
    \<and> (action_payer action = None \<or> action_payer action = Some (if dt_to tx = Some module_addr then SafePays else EoaPays))"
proof -
  obtain to where to: "dt_signer tx = Ok signer" "dt_to tx = Some to"
    using assms by (auto simp: parse_transaction_def split: if_splits)
  consider "to = module_addr" "\<exists>a b. action = WithdrawNative a b SafePays"
    | d t where "to = module_addr" "parse_target P keccak contracts signer t d True = Ok action"
    | "to \<noteq> module_addr" "parse_target P keccak contracts signer to (dt_input tx) False = Ok action"
    | "to \<noteq> module_addr" "\<exists>a b. action = WithdrawNative a b EoaPays"
    using assms to by (auto simp: parse_transaction_def split: if_splits prod.splits)
  then show ?thesis
    using to by cases (auto simp: payer_of_def dest!: parse_target_sound)
qed

text \<open>C39. The parser does not invert every method of the generators, though its documentation says so:
  deregistering a node through the Safe, deregistering a service and native transfers of nothing
  are refused; the deployment of a Safe is read as a withdrawal of tokens to the factory.\<close>

theorem parse_not_inverse:
  assumes "parselib_ok A P" "wf_safe g" "contracts_apart (sg_contracts g)" "sg_module g \<notin> set (contract_list (sg_contracts g))"
    and "ca_service_registry (sg_contracts g) \<notin>
      {ca_node_safe_registry (sg_contracts g), ca_channels (sg_contracts g), ca_token (sg_contracts g)}"
    and "wf_address a" "a \<notin> insert (sg_module g) (set (contract_list (sg_contracts g)))" "wf_service_type st"
    and "ca_node_stake_factory (sg_contracts g) \<noteq> ca_announcements (sg_contracts g)" "length nonce = 32" "length admins < 2 ^ 56"
    and rb: "rb = read_back P keccak (sg_module g) (sg_contracts g) (sg_me g)" and b: "b = basic_new (sg_me g) (sg_contracts g)"
  shows "(\<exists>e. rb (safe_deregister_node_by_safe g) = Err (TxParseError e))
    \<and> rb (safe_transfer xdai_currency g a (balance_zero xdai_currency)) = Err (TxParseError ''transaction has invalid contract address'')
    \<and> rb (basic_transfer xdai_currency b a (balance_zero xdai_currency)) = Err (TxParseError ''failed to determine type of transaction'')
    \<and> rb (safe_deregister_service g st) = Err (TxParseError ''transaction has invalid contract address'')
    \<and> rb (basic_deregister_service b st) = Err (TxParseError ''transaction has invalid contract address'')
    \<and> rb (basic_deploy_safe b amount admins include_node nonce)
        = Ok (WithdrawToken (ca_node_stake_factory (sg_contracts g)) amount EoaPays, sg_me g)"
proof (intro conjI)
  note c = wf_contracts_members [OF wf_generators(4) [OF assms(2)]]
  have bs: "bg_me b = sg_me g" "bg_contracts b = sg_contracts g" by (simp_all add: b basic_new_def)
  have other: "parse_target P keccak (sg_contracts g) s t d m = Err (TxParseError ''transaction has invalid contract address'')"
    if "t \<notin> {ca_node_safe_registry (sg_contracts g), ca_channels (sg_contracts g), ca_token (sg_contracts g)}" for s t d m
    using that by (simp add: parse_target_def)
  have x: "currency_is xdai_currency xdai_currency" by (simp add: currency_is_def)
  have z: "from_be (u256_to_be_bytes (balance_amount (balance_zero xdai_currency))) = 0"
    using native_positive [of "balance_zero xdai_currency"] by (simp add: balance_is_zero_def balance_zero_def)
  have a: "a \<notin> {ca_node_safe_registry (sg_contracts g), ca_channels (sg_contracts g), ca_token (sg_contracts g)}"
    using assms(7) contract_members [of "sg_contracts g"] by auto
  show "\<exists>e. rb (safe_deregister_node_by_safe g) = Err (TxParseError e)"
    using other_call [OF assms(1), of FnDeregisterNodeBySafe FnExecTransactionFromModule "[AWord (addr32 (sg_me g))]"]
    by (auto simp: rb safe_deregister_node_by_safe_def read_back_def parse_transaction_def received_def request_simps
        with_gas_limit_def module_call_of_def encode_static)
  show "rb (safe_transfer xdai_currency g a (balance_zero xdai_currency)) = Err (TxParseError ''transaction has invalid contract address'')"
    by (simp add: rb safe_transfer_def x read_back_module [OF assms(1,6)] z other [OF a])
  have "\<not> list_ex (\<lambda>y. y = a) (contract_list (sg_contracts g))" using assms(7) by (auto simp: list_ex_iff)
  then show "rb (basic_transfer xdai_currency b a (balance_zero xdai_currency)) = Err (TxParseError ''failed to determine type of transaction'')"
    using assms(7) by (simp add: rb basic_transfer_def transfer_tx_def x read_back_def parse_transaction_def received_def request_simps z bs)
  have "length (encode_service_deregister st (sg_me g)) < 2 ^ 63"
    using assms(8) by (simp add: encode_static short_calls wf_service_type_def SERVICE_TYPE_SIZE_def)
  then show "rb (safe_deregister_service g st) = Err (TxParseError ''transaction has invalid contract address'')"
    by (simp add: rb safe_deregister_service_def read_back_module [OF assms(1) c(5)] zero_word_type other [OF assms(5)])
  have r: "ca_service_registry (sg_contracts g) \<in> set (contract_list (sg_contracts g))" by (simp add: contract_list_def)
  show "rb (basic_deregister_service b st) = Err (TxParseError ''transaction has invalid contract address'')"
    by (simp add: rb basic_deregister_service_def bs read_back_direct [OF assms(4) r] other [OF assms(5)])
  show "rb (basic_deploy_safe b amount admins include_node nonce)
        = Ok (WithdrawToken (ca_node_stake_factory (sg_contracts g)) amount EoaPays, sg_me g)"
  proof -
    let ?d = "encode_user_data_body (deploy_function_id include_node) nonce (make_default_target (ca_channels (sg_contracts g))) admins"
    let ?vs = "[AWord (deploy_function_id include_node), AWord nonce, AWord (make_default_target (ca_channels (sg_contracts g))),
      AWords (map addr32 admins)]"
    have wl: "length (concat (map addr32 admins)) \<le> 32 * length admins"
      by (induction admins) (auto intro: add_mono)
    have "length (abi_encode ?vs) \<le> 160 + 32 * length admins"
      using length_parts [of ?vs "32 * length ?vs"] wl assms(10) default_target_eq(2) [OF c(2)] deploy_function_eq(2)
      by (simp add: abi_encode_def split_beta)
    moreover have "?d = abi_encode ?vs" by (rule encode_bodies(2)) (use assms(11) in simp)
    ultimately have d: "length ?d < 2 ^ 62" using assms(11) by simp
    show ?thesis
      using parse_token_reads(3) [OF assms(1) c(6) d] assms(9)
      by (simp add: rb basic_deploy_safe_def bs with_input_to read_back_direct [OF assms(4) contract_members(1)]
          parse_target_apart(3) [OF assms(3)] payer_of_def hopr_balance_eta)
  qed
qed

section \<open>Concrete packages and requests\<close>

text \<open>Multiaddresses as their texts, and the reference decoders.\<close>

definition ma_text :: "string malib" where
  "ma_text = \<lparr>ma_protocols = (\<lambda>_. []), ma_collect = (\<lambda>_. []), ma_is_empty = (\<lambda>s. s = []),
     ma_with_p2p = (\<lambda>m _. Ok m), ma_pop = (\<lambda>m. m), ma_display = (\<lambda>s. s)\<rparr>"

definition parselib_std :: "string parselib" where
  "parselib_std = \<lparr>pl_decode = (\<lambda>_. Err ''decode''),
     pl_call = (\<lambda>f input. case read_call f input of Some vs \<Rightarrow> Ok vs | None \<Rightarrow> Err ''call''),
     pl_announce = (\<lambda>bs. case abi_decode announce_types (drop 32 bs) of Some vs \<Rightarrow> Ok vs | None \<Rightarrow> Err ''struct''),
     pl_multiaddr = Some\<rparr>"

lemma parselib_ok_std: "parselib_ok ma_text parselib_std"
proof -
  have "abi_decode announce_types (drop 32 (be32 32 @ abi_encode vs)) = Some vs"
    if "list_all2 has_type vs announce_types" "length (abi_encode vs) < 2 ^ 63" for vs
    using abi_decode_encode [OF that(1)] that(2) by simp
  then show ?thesis
    by (simp add: parselib_ok_def parselib_std_def read_call_data ma_text_def) (simp add: read_call_def)
qed

definition signed_example :: "u32 redeemable_ticket" where
  "signed_example = redeemable_example\<lparr>rt_ticket := \<lparr>vt_ticket = ticket_example\<lparr>ticket_signature := Some (ChainSignature (replicate 64 1))\<rparr>,
     vt_hash = hash_default, vt_issuer = Address (replicate 20 1), vt_channel_id = hash_default\<rparr>\<rparr>"

lemma wf_signed_example: "wf_redeemable signed_example" "wf_ticket (vt_ticket (rt_ticket signed_example))"
  using wf_redeemable_example wf_ticket_example
  by (simp_all add: signed_example_def redeemable_example_def wf_redeemable_def wf_ticket_def wf_signature_def
      ECDSA_SIGNATURE_SIZE_def ticket_win_prob_def)

lemma toy_words:
  assumes "ticket_signature (vt_ticket (rt_ticket r)) = Some s" "wf_redeemable r"
    and "0 \<notin> {vrf_V vp, vrf_A vp, 2 * of_nat (vrf_s vp), of_nat (vrf_s vp), vrf_V vp * of_nat (vrf_h vp), vrf_A vp * of_nat (vrf_h vp)}"
    and vp: "vp = rt_vrf_params r"
  shows "\<exists>ws. redeem_ticket_words secp_toy vrf_toy r me = Ok ws"
proof -
  have p: "\<exists>x y. point_xy_words (secp_uncompressed secp_toy q) = Some (x, y)" if "q \<noteq> 0" for q
    using that by (simp add: point_xy_words_def secp_toy_def std_uncompressed_def)
  have l: "length (hash_bytes (vt_hash (rt_ticket r))) = 32" "length (hash_bytes (vt_channel_id (rt_ticket r))) = 32"
    "length (signature_bytes s) = 64"
    using assms(1,2) by (simp_all add: wf_redeemable_def wf_hash_def HASH_BASE_SIZE_def wf_signature_def ECDSA_SIGNATURE_SIZE_def)
  have "\<exists>a. redeemable_ticket_words r = Ok a"
    using l assms(1) by (simp add: redeemable_ticket_words_def Let_def split64_def)
  moreover have "\<exists>b. vrf_parameters_words secp_toy vrf_toy r me = Ok b"
  proof -
    have v: "vrf_encoded_payload vrf_toy c m d = Ok 2" for c m d by (simp add: vrf_encoded_payload_def vrf_toy_def)
    have mul: "vrf_mul vrf_toy q a = q * of_nat a" for q a by (simp add: vrf_toy_def)
    have base: "secp_base_mul secp_toy a = of_nat a" for a by (simp add: secp_toy_def)
    show ?thesis
      using p [of "vrf_V vp"] p [of "vrf_A vp"] p [of "2 * of_nat (vrf_s vp)"] p [of "of_nat (vrf_s vp)"]
        p [of "vrf_V vp * of_nat (vrf_h vp)"] p [of "vrf_A vp * of_nat (vrf_h vp)"] l assms(3)
      by (auto simp: vrf_parameters_words_def Let_def get_v_encoded_point_def vp
          get_s_b_witness_def get_h_v_witness_def get_a_encoded_point_def get_s_g_witness_def get_h_a_witness_def v mul base)
  qed
  ultimately show ?thesis by (auto simp: redeem_ticket_words_def)
qed

lemma signed_example_words: "\<exists>ws. redeem_ticket_words secp_toy vrf_toy signed_example me = Ok ws"
  by (rule toy_words [OF _ wf_signed_example(1) _ refl]) (simp_all add: signed_example_def redeemable_example_def)

definition announced_example :: "string announcement_data" where
  "announced_example = \<lparr>an_multiaddress = Some ''/ip4/1.2.3.4'', an_key_binding = \<lparr>kb_chain_key = Address (replicate 20 1),
     kb_packet_key = OffchainPublicKey (replicate 32 2), kb_signature = OffchainSignature (replicate 64 3)\<rparr>\<rparr>"

lemma announced_example:
  "length (announced_multiaddr ma_text announced_example) < 2 ^ 32"
  "wf_offchain_signature (kb_signature (an_key_binding announced_example))"
  "wf_opk (kb_packet_key (an_key_binding announced_example))"
  "pred_option (\<lambda>m. \<not> ma_is_empty ma_text m) (an_multiaddress announced_example)"
  by (simp_all add: announced_example_def announced_multiaddr_def ma_text_def wf_offchain_signature_def
      OFFCHAIN_SIGNATURE_SIZE_def wf_opk_def OPK_SIZE_def)

lemma replicate_20 [simp]: "Address (replicate 20 (b :: u8)) = Address (replicate 20 c) \<longleftrightarrow> b = c"
  by (simp add: numeral_eq_Suc)

lemma contracts_example_apart:
  "contracts_apart contracts_example" "b > 10 \<Longrightarrow> Address (replicate 20 b) \<notin> set (contract_list contracts_example)"
proof -
  show "contracts_apart contracts_example" by (simp add: contracts_apart_def contracts_example_def)
  show "Address (replicate 20 b) \<notin> set (contract_list contracts_example)" if "b > 10"
    using that unfolding contract_list_def contracts_example_def by auto
qed

text \<open>A basic request for the node \<open>11\<close>, with the module \<open>12\<close> of the Safe, to the address \<open>13\<close>.\<close>

theorem parse_basic_requests_witness:
  "read_back parselib_std (keccak256 secp_toy) (Address (replicate 20 12)) contracts_example (Address (replicate 20 11))
     (basic_announce ma_text (basic_new (Address (replicate 20 11)) contracts_example) announced_example (Balance 5 WxHOPR))
   = Ok (Announce (OffchainPublicKey (replicate 32 2)) (Some ''/ip4/1.2.3.4''), Address (replicate 20 11))"
proof -
  let ?g = "basic_new (Address (replicate 20 11)) contracts_example"
  have g: "bg_contracts ?g = contracts_example" "bg_me ?g = Address (replicate 20 11)" by (simp_all add: basic_new_def)
  obtain ws where ws: "redeem_ticket_words secp_toy vrf_toy signed_example (bg_me ?g) = Ok ws"
    using signed_example_words by blast
  have c: "contracts_apart (bg_contracts ?g)" "Address (replicate 20 12) \<notin> set (contract_list (bg_contracts ?g))"
    unfolding g by (rule contracts_example_apart; simp)+
  from parse_basic_requests [OF parselib_ok_std generator_examples(1) c wf_address_20 secp_ok_toy wf_signed_example ws
      announced_example refl]
  show ?thesis by (simp add: g announced_example_def)
qed

theorem parse_safe_requests_witness:
  "read_back parselib_std (keccak256 secp_toy) (Address (replicate 20 12)) contracts_example (Address (replicate 20 11))
     (safe_transfer xdai_currency safe_example (Address (replicate 20 13)) (Balance 7 XDai))
   = Ok (WithdrawNative (Address (replicate 20 13)) (Balance 7 XDai) SafePays, Address (replicate 20 11))"
proof -
  have g: "sg_contracts safe_example = contracts_example" "sg_me safe_example = Address (replicate 20 11)"
    "sg_module safe_example = Address (replicate 20 12)" by (simp_all add: safe_example_def)
  obtain ws where ws: "redeem_ticket_words secp_toy vrf_toy signed_example (sg_me safe_example) = Ok ws"
    using signed_example_words by blast
  have c: "contracts_apart (sg_contracts safe_example)" "sg_module safe_example \<notin> set (contract_list (sg_contracts safe_example))"
    unfolding g by (rule contracts_example_apart; simp)+
  have n: "\<not> balance_is_zero (Balance 7 XDai)" by (simp add: balance_is_zero_def)
  from parse_safe_requests [OF parselib_ok_std generator_examples(2) c wf_address_20 secp_ok_toy wf_signed_example ws
      announced_example refl] n
  show ?thesis unfolding g by blast
qed

theorem parse_sound_witness:
  "\<exists>action. parse_transaction parselib_std (keccak256 secp_toy) (Address (replicate 20 12)) contracts_example
      \<lparr>dt_signer = Ok (Address (replicate 20 11)), dt_to = Some (Address (replicate 20 13)), dt_input = [], dt_value = 5\<rparr>
    = Ok (action, Address (replicate 20 11)) \<and> action_payer action = Some EoaPays"
proof -
  let ?tx = "\<lparr>dt_signer = Ok (Address (replicate 20 11)), dt_to = Some (Address (replicate 20 13)), dt_input = [], dt_value = 5\<rparr>"
  have "\<not> list_ex (\<lambda>x. x = Address (replicate 20 13)) (contract_list contracts_example)"
    using contracts_example_apart(2) [of 13] by (auto simp: list_ex_iff)
  then have p: "parse_transaction parselib_std (keccak256 secp_toy) (Address (replicate 20 12)) contracts_example ?tx
      = Ok (WithdrawNative (Address (replicate 20 13)) (native_balance 5) EoaPays, Address (replicate 20 11))"
    by (simp add: parse_transaction_def)
  then have "action_payer (WithdrawNative (Address (replicate 20 13)) (native_balance 5) EoaPays :: string parsed_action) = Some EoaPays"
    using parse_sound [OF p] by simp
  with p show ?thesis by blast
qed

theorem parse_not_inverse_witness:
  "read_back parselib_std (keccak256 secp_toy) (Address (replicate 20 12)) contracts_example (Address (replicate 20 11))
     (safe_deregister_service safe_example (ServiceType (replicate 32 1)))
   = Err (TxParseError ''transaction has invalid contract address'')"
proof -
  have g: "sg_contracts safe_example = contracts_example" "sg_me safe_example = Address (replicate 20 11)"
    "sg_module safe_example = Address (replicate 20 12)" by (simp_all add: safe_example_def)
  have c: "contracts_apart (sg_contracts safe_example)" "sg_module safe_example \<notin> set (contract_list (sg_contracts safe_example))"
    unfolding g by (rule contracts_example_apart; simp)+
  have r: "ca_service_registry (sg_contracts safe_example) \<notin> {ca_node_safe_registry (sg_contracts safe_example),
      ca_channels (sg_contracts safe_example), ca_token (sg_contracts safe_example)}"
    "ca_node_stake_factory (sg_contracts safe_example) \<noteq> ca_announcements (sg_contracts safe_example)"
    unfolding g by (simp_all add: contracts_example_def)
  have a: "Address (replicate 20 13) \<notin> insert (sg_module safe_example) (set (contract_list (sg_contracts safe_example)))"
    unfolding g using contracts_example_apart(2) [of 13] by simp
  have n: "length (replicate 32 0 :: bytes) = 32" "length ([] :: address list) < 2 ^ 56" by simp_all
  from parse_not_inverse [OF parselib_ok_std generator_examples(2) c r(1) wf_address_20 a wf_service_type_example r(2) n refl refl]
  show ?thesis unfolding g by blast
qed

end
