(* ===== verification/Key_Store.thy ===== *)
theory Key_Store
  imports Pix_Keys Error_Messages
begin

text \<open>
  \<open>keypair/key_pair.rs\<close>, \<open>keypair/keystore.rs\<close>, \<open>keypair/errors.rs\<close>: the keys of a node, and their
  encrypted store in a file. Key derivation, the stream cipher and the JSON texts are the packages of
  the record \<open>storelib\<close>; the file system is a state; random values are arguments.
\<close>

section \<open>Errors\<close>

datatype key_pair_error =
    FileSystemError string
  | CryptographyError crypto_error
  | JsonError string
  | HexParsingError string
  | KeyDerivationError string
  | MacMismatch
  | InvalidEncryptedKeyLength nat nat
  | InvalidVersion nat nat
  | KeyInvalidParameterSize string nat
  | InvalidPrivateKeySize nat nat
  | KeyGeneralError string

text \<open>The quoted form of the name of a parameter is that of a plain text.\<close>

fun key_pair_error_display :: "key_pair_error \<Rightarrow> string" where
  "key_pair_error_display (FileSystemError e) = ''file system error: '' @ e"
| "key_pair_error_display (CryptographyError e) = ''cryptography error: '' @ crypto_error_display e"
| "key_pair_error_display (JsonError e) = ''JSON error: '' @ e"
| "key_pair_error_display (HexParsingError e) = ''hex parsing error: '' @ e"
| "key_pair_error_display (KeyDerivationError e) = ''key derivation error '' @ e"
| "key_pair_error_display MacMismatch = ''crypto error: macs do not match. Key store may have been altered.''"
| "key_pair_error_display (InvalidEncryptedKeyLength a e) =
     ''decoding error: invalid encrypted key length '' @ show_nat a @ '' but expected '' @ show_nat e"
| "key_pair_error_display (InvalidVersion _ _) = ''invalid version''"
| "key_pair_error_display (KeyInvalidParameterSize name e) =
     ''cryptographic parameter '' @ [CHR 0x27, CHR 0x22] @ name @ [CHR 0x22, CHR 0x27] @ '' must be '' @ show_nat e @ '' bytes''"
| "key_pair_error_display (InvalidPrivateKeySize a e) =
     ''Invalid private key size '' @ show_nat a @ '' but expected '' @ show_nat e"
| "key_pair_error_display (KeyGeneralError s) = s"

section \<open>The store\<close>

type_synonym uuid = bytes

record private_keys =
  pks_version :: u32
  pks_chain_key :: bytes
  pks_packet_key :: bytes
  pks_babyjubjub_key :: bytes

datatype kdf_type = KdfPbkdf2 | KdfScrypt

datatype kdfparams_type =
    Pbkdf2 (pbkdf2_c: u32) (pbkdf2_dklen: u8) (pbkdf2_prf: string) (pbkdf2_salt: bytes)
  | Scrypt (scrypt_dklen: u8) (scrypt_n: u32) (scrypt_p: u32) (scrypt_r: u32) (scrypt_salt: bytes)

record crypto_json =
  cj_cipher :: string
  cj_iv :: bytes
  cj_ciphertext :: bytes
  cj_kdf :: kdf_type
  cj_kdfparams :: kdfparams_type
  cj_mac :: bytes

record eth_keystore =
  ek_crypto :: crypto_json
  ek_id :: uuid
  ek_version :: u8

text \<open>
  The packages: \<open>scrypt\<close> (the check of its parameters and the derivation), the conversion
  \<open>(n as f32).log2() as u8\<close>, the AES-128 counter mode key stream applied to bytes, and \<open>serde_json\<close> on
  the structs above.
\<close>

record storelib =
  sl_params :: "nat \<Rightarrow> u32 \<Rightarrow> u32 \<Rightarrow> nat \<Rightarrow> (unit, string) res"
  sl_scrypt :: "string \<Rightarrow> bytes \<Rightarrow> nat \<Rightarrow> u32 \<Rightarrow> u32 \<Rightarrow> nat \<Rightarrow> (bytes, string) res"
  sl_log2 :: "u32 \<Rightarrow> nat"
  sl_aes128_ctr :: "bytes \<Rightarrow> bytes \<Rightarrow> bytes \<Rightarrow> bytes"
  sl_keys_to_json :: "private_keys \<Rightarrow> bytes"
  sl_keys_from_json :: "bytes \<Rightarrow> (private_keys, string) res"
  sl_store_to_json :: "eth_keystore \<Rightarrow> string"
  sl_store_from_json :: "string \<Rightarrow> (eth_keystore, string) res"

text \<open>
  Documented: a derived key has the length asked for; logarithms of powers of two are exact; the key
  stream is its own inverse and keeps lengths; JSON is read back, and the text of keys holds two
  digits for each byte of them.
\<close>

definition storelib_ok :: "storelib \<Rightarrow> bool" where
  "storelib_ok Q \<longleftrightarrow>
     (\<forall>pw salt n r p len key. sl_scrypt Q pw salt n r p len = Ok key \<longrightarrow> length key = len)
   \<and> (\<forall>k < 32. sl_log2 Q (2 ^ k) = k)
   \<and> (\<forall>key iv bs. length (sl_aes128_ctr Q key iv bs) = length bs \<and> sl_aes128_ctr Q key iv (sl_aes128_ctr Q key iv bs) = bs)
   \<and> (\<forall>k. sl_keys_from_json Q (sl_keys_to_json Q k) = Ok k
        \<and> 2 * (length (pks_chain_key k) + length (pks_packet_key k)) \<le> length (sl_keys_to_json Q k))
   \<and> (\<forall>s. sl_store_from_json Q (sl_store_to_json Q s) = Ok s)"

definition HOPR_CIPHER :: string where
  "HOPR_CIPHER = ''aes-128-ctr''"

definition HOPR_KDF_PARAMS_DKLEN :: u8 where
  "HOPR_KDF_PARAMS_DKLEN = 32"

definition HOPR_KDF_PARAMS_LOG_N :: nat where
  "HOPR_KDF_PARAMS_LOG_N = 13"

definition HOPR_KDF_PARAMS_R :: u32 where
  "HOPR_KDF_PARAMS_R = 8"

definition HOPR_KDF_PARAMS_P :: u32 where
  "HOPR_KDF_PARAMS_P = 1"

definition PACKET_KEY_LENGTH :: nat where
  "PACKET_KEY_LENGTH = 32"

definition CHAIN_KEY_LENGTH :: nat where
  "CHAIN_KEY_LENGTH = 32"

definition BJJ_KEY_LENGTH :: nat where
  "BJJ_KEY_LENGTH = 32"

definition V1_PRIVKEY_LENGTH :: nat where
  "V1_PRIVKEY_LENGTH = 32"

definition KEYS_VERSION :: u32 where
  "KEYS_VERSION = 3"

section \<open>Keys\<close>

text \<open>The libraries of the three key pairs, and the choice of the ECDSA implementation.\<close>

record ('e, 'p, 'b) keylibs =
  kl_ed :: "'e edlib"
  kl_secp :: "'p secp"
  kl_rust_ecdsa :: bool
  kl_bjj :: "'b bjjlib"

record ('e, 'p) hopr_keys =
  hk_packet_key :: "'e offchain_keypair"
  hk_chain_key :: "'p chain_keypair"
  hk_bjj_key :: bjj_keypair
  hk_id :: uuid

definition packet_key_from_secret :: "('e, 'p, 'b) keylibs \<Rightarrow> bytes \<Rightarrow> ('e offchain_keypair, key_pair_error) res" where
  "packet_key_from_secret K bs = map_err CryptographyError (offchain_keypair_from_secret (kl_ed K) bs)"

definition chain_key_from_secret :: "('e, 'p, 'b) keylibs \<Rightarrow> bytes \<Rightarrow> ('p chain_keypair, key_pair_error) res" where
  "chain_key_from_secret K bs = map_err CryptographyError (chain_keypair_from_secret (kl_secp K) (kl_rust_ecdsa K) bs)"

definition bjj_key_from_secret :: "('e, 'p, 'b) keylibs \<Rightarrow> bytes \<Rightarrow> (bjj_keypair, key_pair_error) res" where
  "bjj_key_from_secret K bs = map_err CryptographyError (bjj_keypair_from_secret (kl_bjj K) bs)"

text \<open>\<open>TryFrom\<close> of three secrets; the identifier is fresh.\<close>

definition hopr_keys_try_from ::
  "('e, 'p, 'b) keylibs \<Rightarrow> uuid \<Rightarrow> bytes \<times> bytes \<times> bytes \<Rightarrow> (('e, 'p) hopr_keys, key_pair_error) res" where
  "hopr_keys_try_from K uid value =
     and_then (packet_key_from_secret K (fst value)) (\<lambda>packet_key.
     and_then (chain_key_from_secret K (fst (snd value))) (\<lambda>chain_key.
     and_then (bjj_key_from_secret K (snd (snd value))) (\<lambda>bjj_key.
       Ok \<lparr>hk_packet_key = packet_key, hk_chain_key = chain_key, hk_bjj_key = bjj_key, hk_id = uid\<rparr>)))"

definition hopr_keys_try_from_array ::
  "('e, 'p, 'b) keylibs \<Rightarrow> uuid \<Rightarrow> bytes \<Rightarrow> (('e, 'p) hopr_keys, key_pair_error) res" where
  "hopr_keys_try_from_array K uid value =
     hopr_keys_try_from K uid (slice_of 0 32 value, slice_of 32 32 value, slice_of 64 32 value)"

definition hopr_keys_from_str ::
  "hexlib \<Rightarrow> ('e, 'p, 'b) keylibs \<Rightarrow> uuid \<Rightarrow> string \<Rightarrow> (('e, 'p) hopr_keys, key_pair_error) res" where
  "hopr_keys_from_str h K uid s =
     (let maybe_priv_key = (if take 2 s = ''0x'' then drop 2 s else s);
          size = PACKET_KEY_LENGTH + CHAIN_KEY_LENGTH + BJJ_KEY_LENGTH
      in if length maybe_priv_key \<noteq> 2 * size then Err (InvalidPrivateKeySize (length maybe_priv_key) (2 * size))
         else and_then (map_err HexParsingError (hex_decode_to_slice h maybe_priv_key size)) (hopr_keys_try_from_array K uid))"

definition hopr_keys_eq :: "('e, 'p) hopr_keys \<Rightarrow> ('e, 'p) hopr_keys \<Rightarrow> bool" where
  "hopr_keys_eq a b \<longleftrightarrow>
     offchain_keypair_public (hk_packet_key a) = offchain_keypair_public (hk_packet_key b)
   \<and> ckp_public (hk_chain_key a) = ckp_public (hk_chain_key b)
   \<and> bjj_public (hk_bjj_key a) = bjj_public (hk_bjj_key b)"

text \<open>The texts of keys, for the log; the text of an identifier is an argument.\<close>

definition hopr_keys_display ::
  "('e, 'p, 'b) keylibs \<Rightarrow> hexlib \<Rightarrow> (uuid \<Rightarrow> string) \<Rightarrow> ('e, 'p) hopr_keys \<Rightarrow> (string, key_pair_error) res" where
  "hopr_keys_display K h uuid_text keys =
     map_ok (\<lambda>peer. ''packet_key: '' @ peer @ '', chain_key: '' @ to_hex h pk_compressed (ckp_public (hk_chain_key keys))
         @ '' (Ethereum address: '' @ to_hex h address_bytes (chain_keypair_address (hk_chain_key keys)) @ '')''
         @ [CHR 0x0A] @ ''bjj_key: '' @ to_hex h bjj_bytes (bjj_public (hk_bjj_key keys)) @ [CHR 0x0A] @ ''UUID: '' @ uuid_text (hk_id keys))
       (expect (to_peerid_str (kl_ed K) (offchain_keypair_public (hk_packet_key keys))))"

definition hopr_keys_debug :: "hexlib \<Rightarrow> ('e, 'p) hopr_keys \<Rightarrow> string" where
  "hopr_keys_debug h keys =
     (let field = (\<lambda>name key. name @ '': (priv_key: <REDACTED>, pub_key: '' @ key)
      in ''HoprKeys { '' @ field ''packet_key'' (to_hex h opk_bytes (offchain_keypair_public (hk_packet_key keys)))
         @ '', '' @ field ''chain_key'' (to_hex h pk_compressed (ckp_public (hk_chain_key keys)))
         @ '', '' @ field ''bjj_key'' (to_hex h bjj_bytes (bjj_public (hk_bjj_key keys))) @ '' }'')"

definition hopr_keys_pair :: "('e, 'p) hopr_keys \<Rightarrow> 'p chain_keypair \<times> 'e offchain_keypair" where
  "hopr_keys_pair keys = (hk_chain_key keys, hk_packet_key keys)"

definition hopr_keys_triple :: "('e, 'p) hopr_keys \<Rightarrow> 'p chain_keypair \<times> 'e offchain_keypair \<times> bjj_keypair" where
  "hopr_keys_triple keys = (hk_chain_key keys, hk_packet_key keys, hk_bjj_key keys)"

section \<open>Reading and writing\<close>

text \<open>The files by their paths, and the paths whose file and directories can be written.\<close>

record filesystem =
  fs_files :: "string \<Rightarrow> string option"
  fs_writable :: "string \<Rightarrow> bool"

definition fs_read :: "filesystem \<Rightarrow> string \<Rightarrow> (string, key_pair_error) res" where
  "fs_read fs path = ok_or (FileSystemError ''not found'') (fs_files fs path)"

definition fs_write :: "filesystem \<Rightarrow> string \<Rightarrow> string \<Rightarrow> (filesystem, key_pair_error) res" where
  "fs_write fs path s =
     (if fs_writable fs path then Ok (fs\<lparr>fs_files := (fs_files fs)(path \<mapsto> s)\<rparr>) else Err (FileSystemError ''not writable''))"

text \<open>The random values a run may draw.\<close>

record ('e, 'p) key_random =
  kr_salt :: bytes
  kr_iv :: bytes
  kr_packet_secret :: bytes
  kr_packet :: "'e offchain_keypair"
  kr_chain :: "'p chain_keypair"
  kr_bjj :: bjj_keypair
  kr_uuid :: uuid

definition keystore_key :: "storelib \<Rightarrow> kdfparams_type \<Rightarrow> string \<Rightarrow> (bytes, key_pair_error) res" where
  "keystore_key Q params password =
     (case params of
        Scrypt dklen n p r salt \<Rightarrow>
          let log_n = sl_log2 Q n in
          and_then (map_err KeyDerivationError (sl_params Q log_n r p (unat dklen))) (\<lambda>_.
            map_err KeyDerivationError (sl_scrypt Q password salt log_n r p (unat dklen)))
      | Pbkdf2 _ _ _ _ \<Rightarrow> Panic)"

definition keystore_mac :: "('e, 'p, 'b) keylibs \<Rightarrow> bytes \<Rightarrow> bytes \<Rightarrow> bytes" where
  "keystore_mac K key ciphertext = keccak256 (kl_secp K) (slice_of 16 16 key @ ciphertext)"

definition expect_length :: "bytes \<Rightarrow> nat \<Rightarrow> (bytes, key_pair_error) res" where
  "expect_length bs n = (if length bs \<noteq> n then Err (InvalidEncryptedKeyLength (length bs) n) else Ok bs)"

definition decode_v1 ::
  "('e, 'p, 'b) keylibs \<Rightarrow> ('e, 'p) key_random \<Rightarrow> bytes \<Rightarrow> (('e, 'p) hopr_keys \<times> bool, key_pair_error) res" where
  "decode_v1 K rnd pk =
     and_then (packet_key_from_secret K (kr_packet_secret rnd)) (\<lambda>packet_key.
     and_then (chain_key_from_secret K (take CHAIN_KEY_LENGTH pk)) (\<lambda>chain_key.
       Ok (\<lparr>hk_packet_key = packet_key, hk_chain_key = chain_key, hk_bjj_key = kr_bjj rnd, hk_id = kr_uuid rnd\<rparr>, True)))"

definition decode_v2_v3 ::
  "storelib \<Rightarrow> ('e, 'p, 'b) keylibs \<Rightarrow> ('e, 'p) key_random \<Rightarrow> uuid \<Rightarrow> bytes
    \<Rightarrow> (('e, 'p) hopr_keys \<times> bool, key_pair_error) res" where
  "decode_v2_v3 Q K rnd uid pk =
     and_then (map_err JsonError (sl_keys_from_json Q pk)) (\<lambda>keys.
     and_then (expect_length (pks_packet_key keys) PACKET_KEY_LENGTH) (\<lambda>packet_key.
     and_then (expect_length (pks_chain_key keys) CHAIN_KEY_LENGTH) (\<lambda>chain_key.
     and_then
       (if length (pks_babyjubjub_key keys) = BJJ_KEY_LENGTH then Ok (pks_babyjubjub_key keys, False)
        else if pks_babyjubjub_key keys = [] then Ok (secret_bytes (bjj_secret (kr_bjj rnd)), True)
        else Err (InvalidEncryptedKeyLength (length (pks_babyjubjub_key keys)) BJJ_KEY_LENGTH)) (\<lambda>(bjj_key, needs_migration).
     map_ok (\<lambda>keys. (keys, needs_migration)) (hopr_keys_try_from K uid (packet_key, chain_key, bjj_key))))))"

definition read_eth_keystore ::
  "storelib \<Rightarrow> ('e, 'p, 'b) keylibs \<Rightarrow> ('e, 'p) key_random \<Rightarrow> filesystem \<Rightarrow> string \<Rightarrow> string
    \<Rightarrow> (('e, 'p) hopr_keys \<times> bool, key_pair_error) res" where
  "read_eth_keystore Q K rnd fs path password =
     and_then (fs_read fs path) (\<lambda>json_string.
     and_then (map_err JsonError (sl_store_from_json Q json_string)) (\<lambda>keystore.
     let crypto = ek_crypto keystore in
     and_then (keystore_key Q (cj_kdfparams crypto) password) (\<lambda>key.
       if length key < 32 then Panic
       else if keystore_mac K key (cj_ciphertext crypto) \<noteq> cj_mac crypto then Err MacMismatch
       else if length (cj_iv crypto) < 16 then Panic
       else
         let pk = sl_aes128_ctr Q (take 16 key) (take 16 (cj_iv crypto)) (cj_ciphertext crypto)
         in if length (cj_ciphertext crypto) = V1_PRIVKEY_LENGTH then decode_v1 K rnd pk
            else decode_v2_v3 Q K rnd (ek_id keystore) pk)))"

definition write_eth_keystore ::
  "storelib \<Rightarrow> ('e, 'p, 'b) keylibs \<Rightarrow> ('e, 'p) key_random \<Rightarrow> ('e, 'p) hopr_keys \<Rightarrow> filesystem \<Rightarrow> string \<Rightarrow> string
    \<Rightarrow> (filesystem, key_pair_error) res" where
  "write_eth_keystore Q K rnd keys fs path password =
     (let salt = kr_salt rnd; dklen = unat HOPR_KDF_PARAMS_DKLEN in
     and_then (map_err KeyDerivationError (sl_params Q HOPR_KDF_PARAMS_LOG_N HOPR_KDF_PARAMS_R HOPR_KDF_PARAMS_P dklen)) (\<lambda>_.
     and_then (map_err KeyDerivationError
        (sl_scrypt Q password salt HOPR_KDF_PARAMS_LOG_N HOPR_KDF_PARAMS_R HOPR_KDF_PARAMS_P dklen)) (\<lambda>key.
     let iv = kr_iv rnd;
         private_keys = \<lparr>pks_version = KEYS_VERSION, pks_chain_key = secret_bytes (ckp_secret (hk_chain_key keys)),
           pks_packet_key = secret_bytes (okp_secret (hk_packet_key keys)),
           pks_babyjubjub_key = secret_bytes (bjj_secret (hk_bjj_key keys))\<rparr>;
         ciphertext = sl_aes128_ctr Q (take 16 key) (take 16 iv) (sl_keys_to_json Q private_keys);
         keystore = \<lparr>ek_crypto = \<lparr>cj_cipher = HOPR_CIPHER, cj_iv = iv, cj_ciphertext = ciphertext, cj_kdf = KdfScrypt,
             cj_kdfparams = Scrypt HOPR_KDF_PARAMS_DKLEN (2 ^ HOPR_KDF_PARAMS_LOG_N) HOPR_KDF_PARAMS_P HOPR_KDF_PARAMS_R salt,
             cj_mac = keystore_mac K key ciphertext\<rparr>,
           ek_id = hk_id keys, ek_version = 3\<rparr>
     in fs_write fs path (sl_store_to_json Q keystore))))"

datatype identity_retrieval_mode =
    FromFile (file_password: string) (file_path: string)
  | FromPrivateKey (private_key_text: string)
  | FromIdIntoFile (into_id: uuid) (into_password: string) (into_path: string)

definition hopr_keys_init ::
  "hexlib \<Rightarrow> storelib \<Rightarrow> ('e, 'p, 'b) keylibs \<Rightarrow> ('e, 'p) key_random \<Rightarrow> filesystem \<Rightarrow> identity_retrieval_mode
    \<Rightarrow> (('e, 'p) hopr_keys \<times> filesystem, key_pair_error) res" where
  "hopr_keys_init h Q K rnd fs mode =
     (let random_keys = (\<lambda>uid. \<lparr>hk_packet_key = kr_packet rnd, hk_chain_key = kr_chain rnd, hk_bjj_key = kr_bjj rnd, hk_id = uid\<rparr>) in
      case mode of
        FromFile password id_path \<Rightarrow>
          if fs_files fs id_path \<noteq> None then
            (case read_eth_keystore Q K rnd fs id_path password of
               Ok (keys, needs_migration) \<Rightarrow>
                 if needs_migration then map_ok (\<lambda>fs'. (keys, fs')) (write_eth_keystore Q K rnd keys fs id_path password)
                 else Ok (keys, fs)
             | Err e \<Rightarrow> Err (KeyGeneralError (''An identity file is present at '' @ id_path @
                 '' but the provided password <REDACTED> is not sufficient to decrypt it '' @ key_pair_error_display e))
             | Panic \<Rightarrow> Panic)
          else
            let keys = random_keys (kr_uuid rnd)
            in map_ok (\<lambda>fs'. (keys, fs')) (write_eth_keystore Q K rnd keys fs id_path password)
      | FromPrivateKey private_key \<Rightarrow> map_ok (\<lambda>keys. (keys, fs)) (hopr_keys_from_str h K (kr_uuid rnd) private_key)
      | FromIdIntoFile uid password id_path \<Rightarrow>
          if fs_files fs id_path \<noteq> None then
            Err (KeyGeneralError (''Cannot create identity file at '' @ id_path @ '' because the file already exists.''))
          else
            let keys = random_keys uid
            in map_ok (\<lambda>fs'. (keys, fs')) (write_eth_keystore Q K rnd keys fs id_path password))"

end
