(* ===== verification/Key_Store_Spec.thy ===== *)
theory Key_Store_Spec
  imports Key_Store Signing
begin

text \<open>
  Correctness of the key store: an encrypted file gives back the keys it was written from, the
  migration of old formats happens once, the text of secrets is read back, and the exact inputs on
  which reading unwinds.
\<close>

section \<open>Well-formed keys\<close>

text \<open>Keys made from their own secrets.\<close>

definition wf_hopr_keys :: "('e, 'p, 'b) keylibs \<Rightarrow> ('e, 'p) hopr_keys \<Rightarrow> bool" where
  "wf_hopr_keys K keys \<longleftrightarrow>
     packet_key_from_secret K (secret_bytes (okp_secret (hk_packet_key keys))) = Ok (hk_packet_key keys)
   \<and> chain_key_from_secret K (secret_bytes (ckp_secret (hk_chain_key keys))) = Ok (hk_chain_key keys)
   \<and> bjj_key_from_secret K (secret_bytes (bjj_secret (hk_bjj_key keys))) = Ok (hk_bjj_key keys)"

text \<open>What the generators of random values produce.\<close>

definition wf_key_random :: "('e, 'p, 'b) keylibs \<Rightarrow> ('e, 'p) key_random \<Rightarrow> bool" where
  "wf_key_random K rnd \<longleftrightarrow>
     wf_hopr_keys K \<lparr>hk_packet_key = kr_packet rnd, hk_chain_key = kr_chain rnd, hk_bjj_key = kr_bjj rnd, hk_id = kr_uuid rnd\<rparr>
   \<and> length (kr_salt rnd) = 32 \<and> length (kr_iv rnd) = 16 \<and> length (kr_packet_secret rnd) = 32"

lemma packet_key_from_secret_Ok:
  "packet_key_from_secret K bs = Ok kp \<Longrightarrow> secret_bytes (okp_secret kp) = bs \<and> length bs = 32"
  by (auto simp: packet_key_from_secret_def offchain_keypair_from_secret_def)

lemma chain_key_from_secret_Ok:
  "chain_key_from_secret K bs = Ok kp \<Longrightarrow> secret_bytes (ckp_secret kp) = bs \<and> length bs = 32"
  by (auto simp: chain_key_from_secret_def chain_keypair_from_secret_def)

lemma bjj_key_from_secret_Ok:
  "bjj_key_from_secret K bs = Ok kp \<Longrightarrow> secret_bytes (bjj_secret kp) = bs \<and> length bs = 32"
  by (auto simp: bjj_key_from_secret_def bjj_keypair_from_secret_def)

lemmas key_from_secret_Ok = packet_key_from_secret_Ok chain_key_from_secret_Ok bjj_key_from_secret_Ok

lemma wf_hopr_keys_lengths:
  assumes "wf_hopr_keys K keys"
  shows "length (secret_bytes (okp_secret (hk_packet_key keys))) = 32"
    and "length (secret_bytes (ckp_secret (hk_chain_key keys))) = 32"
    and "length (secret_bytes (bjj_secret (hk_bjj_key keys))) = 32"
  using assms key_from_secret_Ok unfolding wf_hopr_keys_def by blast+

lemma hopr_keys_try_from_Ok:
  "hopr_keys_try_from K uid (a, b, c) = Ok keys \<longleftrightarrow>
     wf_hopr_keys K keys \<and> hk_id keys = uid
   \<and> a = secret_bytes (okp_secret (hk_packet_key keys)) \<and> b = secret_bytes (ckp_secret (hk_chain_key keys))
   \<and> c = secret_bytes (bjj_secret (hk_bjj_key keys))"
  by (cases keys) (auto simp: hopr_keys_try_from_def wf_hopr_keys_def dest: key_from_secret_Ok)

section \<open>The store\<close>

lemma storelib_okD:
  assumes "storelib_ok Q"
  shows "sl_scrypt Q pw salt n r p len = Ok key \<Longrightarrow> length key = len"
    and "k < 32 \<Longrightarrow> sl_log2 Q (2 ^ k) = k"
    and "length (sl_aes128_ctr Q a b bs) = length bs" "sl_aes128_ctr Q a b (sl_aes128_ctr Q a b bs) = bs"
    and "sl_keys_from_json Q (sl_keys_to_json Q pk) = Ok pk"
    and "2 * (length (pks_chain_key pk) + length (pks_packet_key pk)) \<le> length (sl_keys_to_json Q pk)"
    and "sl_store_from_json Q (sl_store_to_json Q s) = Ok s"
  using assms unfolding storelib_ok_def by blast+

lemma expect_length_Ok [simp]: "expect_length bs n = Ok x \<longleftrightarrow> x = bs \<and> length bs = n"
  by (auto simp: expect_length_def)

text \<open>A decoded file: its keys are well formed, and without migration they do not depend on the random values.\<close>

lemma from_own_secret:
  "packet_key_from_secret K a = Ok p \<Longrightarrow> packet_key_from_secret K (secret_bytes (okp_secret p)) = Ok p"
  "chain_key_from_secret K b = Ok c \<Longrightarrow> chain_key_from_secret K (secret_bytes (ckp_secret c)) = Ok c"
  "bjj_key_from_secret K d = Ok j \<Longrightarrow> bjj_key_from_secret K (secret_bytes (bjj_secret j)) = Ok j"
  using key_from_secret_Ok by metis+

lemma decode_v2_v3_Ok:
  "decode_v2_v3 Q K rnd uid pk = Ok (keys, m) \<longleftrightarrow>
     (\<exists>ks. sl_keys_from_json Q pk = Ok ks \<and> length (pks_packet_key ks) = 32 \<and> length (pks_chain_key ks) = 32
        \<and> (\<not> m \<and> length (pks_babyjubjub_key ks) = 32
             \<and> hopr_keys_try_from K uid (pks_packet_key ks, pks_chain_key ks, pks_babyjubjub_key ks) = Ok keys
           \<or> m \<and> pks_babyjubjub_key ks = []
             \<and> hopr_keys_try_from K uid (pks_packet_key ks, pks_chain_key ks, secret_bytes (bjj_secret (kr_bjj rnd))) = Ok keys))"
  unfolding decode_v2_v3_def
  by (auto simp: PACKET_KEY_LENGTH_def CHAIN_KEY_LENGTH_def BJJ_KEY_LENGTH_def split: if_split_asm)

lemma decode_v2_v3_wf:
  "decode_v2_v3 Q K rnd uid pk = Ok (keys, m) \<Longrightarrow> wf_hopr_keys K keys"
  by (auto simp: decode_v2_v3_Ok hopr_keys_try_from_Ok)

lemma decode_v2_v3_stable:
  "decode_v2_v3 Q K rnd uid pk = Ok (keys, False) \<Longrightarrow> decode_v2_v3 Q K rnd' uid pk = Ok (keys, False)"
  by (simp add: decode_v2_v3_Ok)

lemma decode_v1_wf:
  assumes "decode_v1 K rnd pk = Ok (keys, m)" "wf_key_random K rnd"
  shows "wf_hopr_keys K keys" and "m"
  using assms by (auto simp: decode_v1_def wf_key_random_def wf_hopr_keys_def from_own_secret)

text \<open>Reading is the decoding of what the file decrypts to.\<close>

definition decode_store ::
  "storelib \<Rightarrow> ('e, 'p, 'b) keylibs \<Rightarrow> ('e, 'p) key_random \<Rightarrow> eth_keystore \<Rightarrow> bytes
    \<Rightarrow> (('e, 'p) hopr_keys \<times> bool, key_pair_error) res" where
  "decode_store Q K rnd keystore key =
     (let crypto = ek_crypto keystore;
          pk = sl_aes128_ctr Q (take 16 key) (take 16 (cj_iv crypto)) (cj_ciphertext crypto)
      in if length (cj_ciphertext crypto) = V1_PRIVKEY_LENGTH then decode_v1 K rnd pk
         else decode_v2_v3 Q K rnd (ek_id keystore) pk)"

definition unlocks :: "storelib \<Rightarrow> ('e, 'p, 'b) keylibs \<Rightarrow> string \<Rightarrow> eth_keystore \<Rightarrow> bytes \<Rightarrow> bool" where
  "unlocks Q K pw keystore key \<longleftrightarrow>
     keystore_key Q (cj_kdfparams (ek_crypto keystore)) pw = Ok key \<and> 32 \<le> length key
   \<and> keystore_mac K key (cj_ciphertext (ek_crypto keystore)) = cj_mac (ek_crypto keystore)
   \<and> 16 \<le> length (cj_iv (ek_crypto keystore))"

lemma read_eth_keystore_decode:
  "read_eth_keystore Q K rnd fs path pw =
     and_then (fs_read fs path) (\<lambda>json.
     and_then (map_err JsonError (sl_store_from_json Q json)) (\<lambda>store.
     and_then (keystore_key Q (cj_kdfparams (ek_crypto store)) pw) (\<lambda>key.
       if length key < 32 then Panic
       else if \<not> keystore_mac K key (cj_ciphertext (ek_crypto store)) = cj_mac (ek_crypto store) then Err MacMismatch
       else if length (cj_iv (ek_crypto store)) < 16 then Panic
       else decode_store Q K rnd store key)))"
  unfolding read_eth_keystore_def decode_store_def Let_def ..

lemma read_eth_keystore_Ok:
  "read_eth_keystore Q K rnd fs path pw = Ok r \<longleftrightarrow>
     (\<exists>json keystore key. fs_files fs path = Some json \<and> sl_store_from_json Q json = Ok keystore
        \<and> unlocks Q K pw keystore key \<and> decode_store Q K rnd keystore key = Ok r)"
  by (auto simp: read_eth_keystore_def unlocks_def decode_store_def fs_read_def Let_def not_less split: if_split_asm)

lemma decode_store_wf:
  assumes "decode_store Q K rnd keystore key = Ok (keys, m)" "wf_key_random K rnd"
  shows "wf_hopr_keys K keys"
proof (cases "length (cj_ciphertext (ek_crypto keystore)) = V1_PRIVKEY_LENGTH")
  case True
  then show ?thesis using assms(1) decode_v1_wf(1) [OF _ assms(2)] unfolding decode_store_def Let_def by metis
next
  case False
  then show ?thesis using assms(1) decode_v2_v3_wf unfolding decode_store_def Let_def by metis
qed

lemma decode_store_stable:
  assumes "decode_store Q K rnd keystore key = Ok (keys, False)" "wf_key_random K rnd"
  shows "decode_store Q K rnd' keystore key = Ok (keys, False)"
proof (cases "length (cj_ciphertext (ek_crypto keystore)) = V1_PRIVKEY_LENGTH")
  case True
  then show ?thesis using assms(1) decode_v1_wf(2) [OF _ assms(2)] unfolding decode_store_def Let_def by metis
next
  case False
  then show ?thesis using assms(1) decode_v2_v3_stable unfolding decode_store_def Let_def by metis
qed

lemma write_eth_keystore_Ok:
  assumes "write_eth_keystore Q K rnd keys fs path pw = Ok fs'"
  obtains json where "fs' = fs\<lparr>fs_files := (fs_files fs)(path \<mapsto> json)\<rparr>"
  using assms by (auto simp: write_eth_keystore_def fs_write_def Let_def split: if_splits)

lemma decode_v2_v3_written:
  assumes "storelib_ok Q" "wf_hopr_keys K keys"
  shows "decode_v2_v3 Q K rnd (hk_id keys) (sl_keys_to_json Q
       \<lparr>pks_version = v, pks_chain_key = secret_bytes (ckp_secret (hk_chain_key keys)),
        pks_packet_key = secret_bytes (okp_secret (hk_packet_key keys)),
        pks_babyjubjub_key = secret_bytes (bjj_secret (hk_bjj_key keys))\<rparr>) = Ok (keys, False)"
  using wf_hopr_keys_lengths [OF assms(2)] assms(2)
  by (simp add: decode_v2_v3_def storelib_okD(5) [OF assms(1)] PACKET_KEY_LENGTH_def CHAIN_KEY_LENGTH_def
      BJJ_KEY_LENGTH_def expect_length_def hopr_keys_try_from_Ok)

lemma read_written:
  assumes Q: "storelib_ok Q" and K: "wf_hopr_keys K keys" and iv: "16 \<le> length (kr_iv rnd)"
    and w: "write_eth_keystore Q K rnd keys fs path pw = Ok fs'"
  shows "read_eth_keystore Q K rnd' fs' path pw = Ok (keys, False)"
proof -
  let ?pks = "\<lparr>pks_version = KEYS_VERSION, pks_chain_key = secret_bytes (ckp_secret (hk_chain_key keys)),
        pks_packet_key = secret_bytes (okp_secret (hk_packet_key keys)),
        pks_babyjubjub_key = secret_bytes (bjj_secret (hk_bjj_key keys))\<rparr>"
  let ?plain = "sl_keys_to_json Q ?pks"
  from w obtain key u where key: "sl_params Q 13 8 1 32 = Ok u" "sl_scrypt Q pw (kr_salt rnd) 13 8 1 32 = Ok key"
    and fs': "fs_files fs' path = Some (sl_store_to_json Q
       \<lparr>ek_crypto = \<lparr>cj_cipher = HOPR_CIPHER, cj_iv = kr_iv rnd,
          cj_ciphertext = sl_aes128_ctr Q (take 16 key) (take 16 (kr_iv rnd)) ?plain, cj_kdf = KdfScrypt,
          cj_kdfparams = Scrypt 32 (2 ^ 13) 1 8 (kr_salt rnd),
          cj_mac = keystore_mac K key (sl_aes128_ctr Q (take 16 key) (take 16 (kr_iv rnd)) ?plain)\<rparr>,
        ek_id = hk_id keys, ek_version = 3\<rparr>)"
    by (auto simp: write_eth_keystore_def fs_write_def Let_def HOPR_KDF_PARAMS_DKLEN_def HOPR_KDF_PARAMS_LOG_N_def
        HOPR_KDF_PARAMS_R_def HOPR_KDF_PARAMS_P_def split: if_splits)
  have len: "length key = 32" using storelib_okD(1) [OF Q key(2)] .
  have log: "sl_log2 Q (2 ^ 13) = 13" using storelib_okD(2) [OF Q, of 13] by (simp del: power_numeral)
  have long: "length ?plain \<noteq> 32"
    using storelib_okD(6) [OF Q, of ?pks] wf_hopr_keys_lengths [OF K] by simp
  have k: "keystore_key Q (Scrypt 32 (2 ^ 13) 1 8 (kr_salt rnd)) pw = Ok key"
    using key log by (simp add: keystore_key_def Let_def del: power_numeral)
  show ?thesis
    using iv len long decode_v2_v3_written [OF Q K]
    by (simp add: read_eth_keystore_def fs_read_def fs' storelib_okD(7) [OF Q] k Let_def storelib_okD(3,4) [OF Q]
        V1_PRIVKEY_LENGTH_def del: power_numeral)
qed

text \<open>
  C21. The key store is read back: once keys have been written, reading the file with the same
  password gives the same three key pairs and the same identifier, without a migration and whatever
  random values the reader draws; and no other file has changed.
\<close>

theorem keystore_roundtrip:
  assumes "storelib_ok Q" "wf_hopr_keys K keys" "wf_key_random K rnd"
    and "write_eth_keystore Q K rnd keys fs path pw = Ok fs'"
  shows "read_eth_keystore Q K rnd' fs' path pw = Ok (keys, False)
    \<and> (\<forall>other. other \<noteq> path \<longrightarrow> fs_files fs' other = fs_files fs other)"
proof -
  have "read_eth_keystore Q K rnd' fs' path pw = Ok (keys, False)"
    using assms(3) by (intro read_written [OF assms(1,2) _ assms(4)]) (simp add: wf_key_random_def)
  moreover obtain json where "fs' = fs\<lparr>fs_files := (fs_files fs)(path \<mapsto> json)\<rparr>"
    using assms(4) by (rule write_eth_keystore_Ok)
  ultimately show ?thesis by simp
qed

section \<open>The identity of a node\<close>

lemma hopr_keys_init_from_file:
  "hopr_keys_init h Q K rnd fs (FromFile pw path) = Ok (keys, fs') \<longleftrightarrow>
     (if fs_files fs path = None
      then keys = \<lparr>hk_packet_key = kr_packet rnd, hk_chain_key = kr_chain rnd, hk_bjj_key = kr_bjj rnd, hk_id = kr_uuid rnd\<rparr>
        \<and> write_eth_keystore Q K rnd keys fs path pw = Ok fs'
      else read_eth_keystore Q K rnd fs path pw = Ok (keys, False) \<and> fs' = fs
         \<or> read_eth_keystore Q K rnd fs path pw = Ok (keys, True) \<and> write_eth_keystore Q K rnd keys fs path pw = Ok fs')"
  by (cases "read_eth_keystore Q K rnd fs path pw") (auto simp: hopr_keys_init_def Let_def split: if_splits)

lemma hopr_keys_init_wf:
  assumes "wf_key_random K rnd" "hopr_keys_init h Q K rnd fs (FromFile pw path) = Ok (keys, fs')"
  shows "wf_hopr_keys K keys"
  using assms decode_store_wf [OF _ assms(1)]
  unfolding hopr_keys_init_from_file wf_key_random_def read_eth_keystore_Ok by (metis (no_types, lifting))

lemma hopr_keys_init_again:
  assumes "storelib_ok Q" "wf_key_random K rnd"
    and "hopr_keys_init h Q K rnd fs (FromFile pw path) = Ok (keys, fs1)"
  shows "hopr_keys_init h Q K rnd' fs1 (FromFile pw path) = Ok (keys, fs1)"
proof -
  have "read_eth_keystore Q K rnd' fs1 path pw = Ok (keys, False) \<and> fs_files fs1 path \<noteq> None"
  proof -
    have written: ?thesis
      if "wf_hopr_keys K keys" "write_eth_keystore Q K rnd keys fs path pw = Ok fs1"
      using read_written [OF assms(1) that(1) _ that(2)] assms(2) that(2)
      by (auto simp: wf_key_random_def elim!: write_eth_keystore_Ok)
    consider (new) "wf_hopr_keys K keys" "write_eth_keystore Q K rnd keys fs path pw = Ok fs1"
      | (old) "read_eth_keystore Q K rnd fs path pw = Ok (keys, False)" "fs1 = fs" "fs_files fs path \<noteq> None"
      using assms(2,3) decode_store_wf [OF _ assms(2)]
      unfolding hopr_keys_init_from_file wf_key_random_def read_eth_keystore_Ok by (metis (no_types, lifting))
    then show ?thesis
    proof cases
      case new
      then show ?thesis by (rule written)
    next
      case old
      then show ?thesis using decode_store_stable [OF _ assms(2)] unfolding read_eth_keystore_Ok by blast
    qed
  qed
  then show ?thesis unfolding hopr_keys_init_from_file by auto
qed

text \<open>
  C17. The identity of a node is stable: if starting from a file and a password succeeds once --- by
  creating the file, by reading it, or by migrating an older format --- then starting again from what
  is now on disk, with any other random values, gives the same keys and leaves the disk as it is.
\<close>

theorem identity_is_stable:
  assumes "storelib_ok Q" "wf_key_random K rnd"
    and "hopr_keys_init h Q K rnd fs (FromFile pw path) = Ok (keys, fs1)"
  shows "hopr_keys_init h Q K rnd' fs1 (FromFile pw path) = Ok (keys, fs1)"
  by (rule hopr_keys_init_again [OF assms])

section \<open>Secrets as text\<close>

text \<open>
  The text of the three secrets, with or without its prefix, gives back the keys; only the
  identifier is fresh.
\<close>

theorem hopr_keys_from_str_roundtrip:
  assumes "hex_ok h" "wf_hopr_keys K keys" "prefix = [] \<or> prefix = ''0x''"
  shows "hopr_keys_from_str h K uid (prefix @ hex_encode h (secret_bytes (okp_secret (hk_packet_key keys))
      @ secret_bytes (ckp_secret (hk_chain_key keys)) @ secret_bytes (bjj_secret (hk_bjj_key keys)))) = Ok (keys\<lparr>hk_id := uid\<rparr>)"
proof -
  define p c b where pcb: "p = secret_bytes (okp_secret (hk_packet_key keys))"
    "c = secret_bytes (ckp_secret (hk_chain_key keys))" "b = secret_bytes (bjj_secret (hk_bjj_key keys))"
  have len: "length p = 32" "length c = 32" "length b = 32"
    using wf_hopr_keys_lengths [OF assms(2)] by (simp_all add: pcb)
  have hex: "length (hex_encode h (p @ c @ b)) = 192" "hex_decode_to_slice h (hex_encode h (p @ c @ b)) 96 = Ok (p @ c @ b)"
    using hex_okD(1,4) [OF assms(1), of "p @ c @ b"] len by simp_all
  have nox: "take 2 (hex_encode h (p @ c @ b)) \<noteq> ''0x''"
  proof
    assume "take 2 (hex_encode h (p @ c @ b)) = ''0x''"
    then have "CHR ''x'' \<in> set (hex_encode h (p @ c @ b))" by (metis in_set_takeD list.set_intros)
    then show False using hex_okD(2) [OF assms(1), of "p @ c @ b"] by auto
  qed
  have arr: "slice_of 0 32 (p @ c @ b) = p" "slice_of 32 32 (p @ c @ b) = c" "slice_of 64 32 (p @ c @ b) = b"
    using len by (simp_all add: slice_of_def)
  have "hopr_keys_try_from K uid (p, c, b) = Ok (keys\<lparr>hk_id := uid\<rparr>)"
    using assms(2) by (simp add: hopr_keys_try_from_Ok pcb wf_hopr_keys_def)
  then have "hopr_keys_from_str h K uid (prefix @ hex_encode h (p @ c @ b)) = Ok (keys\<lparr>hk_id := uid\<rparr>)"
    using assms(3) hex nox
    by (auto simp: hopr_keys_from_str_def Let_def PACKET_KEY_LENGTH_def CHAIN_KEY_LENGTH_def BJJ_KEY_LENGTH_def
        hopr_keys_try_from_array_def arr)
  then show ?thesis by (simp add: pcb)
qed

section \<open>When reading unwinds\<close>

lemma public_key_from_privkey_not_Panic:
  assumes "secp_ok L"
  shows "public_key_from_privkey L f bs \<noteq> Panic"
proof -
  have built: "expect (public_key_from L p) \<noteq> (Panic :: (_, crypto_error) res)" if "p \<noteq> secp_identity L" for p
    by (rule public_key_from_ok [OF assms that]) simp
  have "secp_base_mul L s \<noteq> secp_identity L" if "non_zero_scalar L bs = Some s" for s
    using that secp_okD(5) [OF assms, of s] by (simp add: non_zero_scalar_Some [OF assms])
  then show ?thesis
    using built by (auto simp: public_key_from_privkey_def and_then_eq_Panic affine_point_from_bytes_def)
qed

lemma hopr_keys_try_from_not_Panic:
  assumes "secp_ok (kl_secp K)"
  shows "hopr_keys_try_from K uid (a, b, c) \<noteq> Panic" "packet_key_from_secret K a \<noteq> Panic" "chain_key_from_secret K b \<noteq> Panic"
proof -
  show p: "packet_key_from_secret K a \<noteq> Panic" for a
    by (simp add: packet_key_from_secret_def offchain_keypair_from_secret_def and_then_eq_Panic opk_from_privkey_def
        expanded_try_from_def secret_value_try_from_def opk_try_from_def array_try_from_def)
  show c: "chain_key_from_secret K b \<noteq> Panic" for b
    by (simp add: chain_key_from_secret_def chain_keypair_from_secret_def and_then_eq_Panic secret_value_try_from_def
        public_key_from_privkey_not_Panic [OF assms])
  have "bjj_key_from_secret K c \<noteq> Panic"
    by (simp add: bjj_key_from_secret_def bjj_keypair_from_secret_def bjj_from_privkey_def bjj_try_from_point_def
        and_then_eq_Panic secret_value_try_from_def)
  then show "hopr_keys_try_from K uid (a, b, c) \<noteq> Panic"
    by (simp add: hopr_keys_try_from_def and_then_eq_Panic p c)
qed

lemma decode_not_Panic:
  assumes "secp_ok (kl_secp K)"
  shows "decode_v1 K rnd pk \<noteq> Panic"
    and "(\<And>b. sl_keys_from_json Q b \<noteq> Panic) \<Longrightarrow> decode_v2_v3 Q K rnd uid pk \<noteq> Panic"
  by (auto simp: decode_v1_def decode_v2_v3_def and_then_eq_Panic hopr_keys_try_from_not_Panic [OF assms] expect_length_def
      split: if_splits)

lemma keystore_key_length:
  "storelib_ok Q \<Longrightarrow> keystore_key Q (Scrypt dklen n p r salt) pw = Ok key \<Longrightarrow> length key = unat dklen"
  by (auto simp: keystore_key_def Let_def dest: storelib_okD(1))

text \<open>
  C24. Reading an identity file unwinds on exactly three kinds of files, none of which is reported as
  an error: one that asks for PBKDF2, one whose derived key is shorter than 32 bytes, and one with
  the right code but an initial vector shorter than 16 bytes. Every other damage is an error value.
\<close>

theorem read_eth_keystore_panics:
  assumes "secp_ok (kl_secp K)" "storelib_ok Q"
    and "\<And>s. sl_store_from_json Q s \<noteq> Panic" "\<And>b. sl_keys_from_json Q b \<noteq> Panic"
    and "\<And>n r p l. sl_params Q n r p l \<noteq> Panic" "\<And>pw s n r p l. sl_scrypt Q pw s n r p l \<noteq> Panic"
  shows "read_eth_keystore Q K rnd fs path pw = Panic \<longleftrightarrow>
    (\<exists>json store. fs_files fs path = Some json \<and> sl_store_from_json Q json = Ok store
      \<and> (case cj_kdfparams (ek_crypto store) of
           Pbkdf2 _ _ _ _ \<Rightarrow> True
         | Scrypt dklen n p r salt \<Rightarrow>
             \<exists>key. keystore_key Q (Scrypt dklen n p r salt) pw = Ok key
               \<and> (unat dklen < 32
                 \<or> keystore_mac K key (cj_ciphertext (ek_crypto store)) = cj_mac (ek_crypto store)
                   \<and> length (cj_iv (ek_crypto store)) < 16)))"
proof -
  have read: "read_eth_keystore Q K rnd fs path pw = Panic \<longleftrightarrow> (\<exists>json store. fs_files fs path = Some json
      \<and> sl_store_from_json Q json = Ok store \<and> decrypt_panics store)"
    if "\<And>store. decrypt_panics store \<longleftrightarrow> keystore_key Q (cj_kdfparams (ek_crypto store)) pw = Panic
      \<or> (\<exists>key. keystore_key Q (cj_kdfparams (ek_crypto store)) pw = Ok key \<and> (length key < 32
         \<or> keystore_mac K key (cj_ciphertext (ek_crypto store)) = cj_mac (ek_crypto store)
           \<and> length (cj_iv (ek_crypto store)) < 16))" for decrypt_panics
  proof -
    have guards: "(if a then Panic else if \<not> b then Err e else if c then Panic else d) = Panic \<longleftrightarrow> a \<or> b \<and> c"
      if "d \<noteq> Panic" for a b c :: bool and e and d :: "('x, 'y) res"
      using that by simp
    have "decode_store Q K rnd store key \<noteq> Panic" for store key
      using decode_not_Panic [OF assms(1)] assms(4) by (simp add: decode_store_def Let_def)
    then show ?thesis
      using assms(3) by (simp add: read_eth_keystore_decode fs_read_def and_then_eq_Panic that guards split del: if_split)
  qed
  show ?thesis
  proof (rule read)
    fix store
    show "(case cj_kdfparams (ek_crypto store) of
           Pbkdf2 _ _ _ _ \<Rightarrow> True
         | Scrypt dklen n p r salt \<Rightarrow>
             \<exists>key. keystore_key Q (Scrypt dklen n p r salt) pw = Ok key
               \<and> (unat dklen < 32
                 \<or> keystore_mac K key (cj_ciphertext (ek_crypto store)) = cj_mac (ek_crypto store)
                   \<and> length (cj_iv (ek_crypto store)) < 16)) \<longleftrightarrow>
      keystore_key Q (cj_kdfparams (ek_crypto store)) pw = Panic
      \<or> (\<exists>key. keystore_key Q (cj_kdfparams (ek_crypto store)) pw = Ok key \<and> (length key < 32
         \<or> keystore_mac K key (cj_ciphertext (ek_crypto store)) = cj_mac (ek_crypto store)
           \<and> length (cj_iv (ek_crypto store)) < 16))"
    proof (cases "cj_kdfparams (ek_crypto store)")
      case (Pbkdf2 c dklen h salt)
      then show ?thesis by (simp add: keystore_key_def)
    next
      case (Scrypt dklen n p r salt)
      have "keystore_key Q (Scrypt dklen n p r salt) pw \<noteq> Panic"
        using assms(5,6) by (simp add: keystore_key_def Let_def and_then_eq_Panic)
      then show ?thesis
        using keystore_key_length [OF assms(2), of dklen n p r salt pw] by (auto simp: Scrypt)
    qed
  qed
qed

section \<open>A library and keys with the promised behaviour\<close>

text \<open>Lists of byte strings as one byte string.\<close>

fun frames :: "bytes list \<Rightarrow> bytes" where
  "frames [] = []"
| "frames (x # xs) = concat (map (\<lambda>b. [1, b]) x) @ 0 # frames xs"

fun unframes :: "bytes \<Rightarrow> bytes \<Rightarrow> bytes list" where
  "unframes acc [] = []"
| "unframes acc [c] = [rev acc]"
| "unframes acc (c # b # r) = (if c = 0 then rev acc # unframes [] (b # r) else unframes (b # acc) r)"

lemma unframes_step: "unframes acc (concat (map (\<lambda>b. [1, b]) x) @ 0 # r) = (rev acc @ x) # unframes [] r"
  by (induction x arbitrary: acc) (cases r; simp)+

lemma unframes_frames: "unframes [] (frames xs) = xs"
  by (induction xs) (simp_all add: unframes_step)

lemma length_frames: "length (frames xs) = 2 * sum_list (map length xs) + length xs"
proof (induction xs)
  case (Cons x xs)
  have "length (concat (map (\<lambda>b. [1, b]) x)) = 2 * length x" by (induction x) simp_all
  with Cons show ?case by simp
qed simp

definition bytes_text :: "bytes \<Rightarrow> string" where
  "bytes_text bs = map (\<lambda>b. char_of (unat b)) bs"

lemma ascii_bytes_text: "ascii_bytes (bytes_text bs) = bs"
proof -
  have "of_char (char_of (unat b) :: char) = b" for b :: "8 word"
    using of_nat_of_char [of "char_of (unat b)", where 'a = "8 word"] unat_byte_less [of b] by simp
  then show ?thesis by (induction bs) (simp_all add: ascii_bytes_def bytes_text_def)
qed

lemma bytes_text_ascii: "bytes_text (ascii_bytes s) = s"
proof -
  have "char_of (unat (of_char c :: 8 word)) = c" for c :: char
  proof -
    have "unat (of_char c :: 8 word) = of_char c"
      using nat_of_char_less_256 [of c] unat_of_nat_byte [of "of_char c"]
      of_nat_of_char [of c, where 'a = "8 word"] by simp
    then show ?thesis by simp
  qed
  then show ?thesis by (induction s) (simp_all add: ascii_bytes_def bytes_text_def)
qed

definition keys_frames :: "private_keys \<Rightarrow> bytes" where
  "keys_frames k = frames [to_be 4 (unat (pks_version k)), pks_chain_key k, pks_packet_key k, pks_babyjubjub_key k]"

definition frames_keys :: "bytes \<Rightarrow> (private_keys, string) res" where
  "frames_keys bs = (case unframes [] bs of
      [v, c, p, b] \<Rightarrow> Ok \<lparr>pks_version = of_nat (from_be v), pks_chain_key = c, pks_packet_key = p, pks_babyjubjub_key = b\<rparr>
    | _ \<Rightarrow> Err ''keys'')"

fun params_frames :: "kdfparams_type \<Rightarrow> bytes list" where
  "params_frames (Pbkdf2 c d h salt) = [to_be 4 (unat c), [d], ascii_bytes h, salt]"
| "params_frames (Scrypt d n p r salt) = [[d], to_be 4 (unat n), to_be 4 (unat p), to_be 4 (unat r), salt]"

definition frames_params :: "bytes list \<Rightarrow> kdfparams_type" where
  "frames_params xs = (case xs of
      [c, d, h, salt] \<Rightarrow> Pbkdf2 (of_nat (from_be c)) (hd d) (bytes_text h) salt
    | [d, n, p, r, salt] \<Rightarrow> Scrypt (hd d) (of_nat (from_be n)) (of_nat (from_be p)) (of_nat (from_be r)) salt
    | _ \<Rightarrow> Pbkdf2 0 0 [] [])"

definition store_text :: "eth_keystore \<Rightarrow> string" where
  "store_text s = (let c = ek_crypto s in bytes_text (frames
     ([ascii_bytes (cj_cipher c), cj_iv c, cj_ciphertext c, [if cj_kdf c = KdfScrypt then 1 else 0], cj_mac c, ek_id s,
       [ek_version s]] @ params_frames (cj_kdfparams c))))"

definition text_store :: "string \<Rightarrow> (eth_keystore, string) res" where
  "text_store t = (case unframes [] (ascii_bytes t) of
      a # i # t # k # m # u # v # ps \<Rightarrow>
        Ok \<lparr>ek_crypto = \<lparr>cj_cipher = bytes_text a, cj_iv = i, cj_ciphertext = t,
              cj_kdf = (if k = [1] then KdfScrypt else KdfPbkdf2), cj_kdfparams = frames_params ps, cj_mac = m\<rparr>,
            ek_id = u, ek_version = hd v\<rparr>
    | _ \<Rightarrow> Err ''store'')"

lemma word_of_to_be: "of_nat (from_be (to_be 4 (unat w))) = (w :: u32)"
  using unat_less_2p [of w] by (simp add: from_be_to_be_id)

lemma frames_params_frames: "frames_params (params_frames ps) = ps"
  by (cases ps) (simp_all add: frames_params_def word_of_to_be bytes_text_ascii del: to_be.simps)

lemma text_store_text: "text_store (store_text s) = Ok s"
proof -
  have k: "kd \<noteq> KdfScrypt \<Longrightarrow> KdfPbkdf2 = kd" for kd
    by (cases kd) simp_all
  show ?thesis
    using k by (cases s; cases "ek_crypto s")
      (auto simp add: text_store_def store_text_def Let_def ascii_bytes_text unframes_frames frames_params_frames bytes_text_ascii
        simp del: frames.simps)
qed

definition storelib_toy :: storelib where
  "storelib_toy = \<lparr>
     sl_params = (\<lambda>_ _ _ _. Ok ()),
     sl_scrypt = (\<lambda>pw salt n r p len. Ok (take len (ascii_bytes pw @ salt @ replicate len 0))),
     sl_log2 = (\<lambda>w. case List.find (\<lambda>k. 2 ^ k = w) [0..<32] of Some k \<Rightarrow> k | None \<Rightarrow> 0),
     sl_aes128_ctr = (\<lambda>key iv bs. map (\<lambda>b. b XOR hd (key @ [0])) bs),
     sl_keys_to_json = keys_frames, sl_keys_from_json = frames_keys,
     sl_store_to_json = store_text, sl_store_from_json = text_store\<rparr>"

lemma storelib_ok_toy: "storelib_ok storelib_toy"
proof -
  have pow: "(2 ^ j :: u32) = 2 ^ k \<longleftrightarrow> j = k" if "j < 32" "k < 32" for j k
  proof -
    have "unat (2 ^ i :: u32) = 2 ^ i" if "i < 32" for i
    proof -
      have "(2 :: nat) ^ i < 2 ^ 32" using that by (rule power_strict_increasing) simp
      then have "unat (of_nat (2 ^ i) :: u32) = 2 ^ i" by (intro unat_of_nat_less) simp
      then show ?thesis by simp
    qed
    then show ?thesis by (metis that power_inject_exp one_less_numeral_iff semiring_norm(76))
  qed
  have log: "(case List.find (\<lambda>j. 2 ^ j = (2 ^ k :: u32)) [0..<32] of Some j \<Rightarrow> j | None \<Rightarrow> 0) = k" if "k < 32" for k
  proof -
    have "List.find (\<lambda>j. 2 ^ j = (2 ^ k :: u32)) [0..<32] = Some k"
      unfolding find_Some_iff using that pow by (intro exI [of _ k]) simp
    then show ?thesis by simp
  qed
  have xor: "map (\<lambda>b. b XOR c) (map (\<lambda>b. b XOR c) bs) = (bs :: bytes)" for c bs
    by (induction bs) (auto simp: xor.assoc)
  show ?thesis
    unfolding storelib_ok_def storelib_toy_def storelib.simps
    using log xor
    by (auto simp: frames_keys_def keys_frames_def unframes_frames word_of_to_be length_frames text_store_text
        simp del: frames.simps)
qed

definition bjj_toy :: "nat bjjlib" where
  "bjj_toy = \<lparr>bjj_scalar = (\<lambda>bs. Some (from_be bs)), bjj_base_mul = (\<lambda>n. n), bjj_from_bytes = (\<lambda>bs. Some (from_be bs)),
     bjj_to_bytes = to_be 32, bjj_is_identity = (\<lambda>p. p = 0), bjj_in_subgroup = (\<lambda>_. True)\<rparr>"

definition keylibs_toy :: "(bytes, u32, nat) keylibs" where
  "keylibs_toy = \<lparr>kl_ed = ed_std, kl_secp = secp_toy, kl_rust_ecdsa = True, kl_bjj = bjj_toy\<rparr>"

definition keys_toy :: "(bytes, u32) hopr_keys" where
  "keys_toy = (case hopr_keys_try_from keylibs_toy [7] (replicate 32 1, to_be 32 3, to_be 32 2) of Ok k \<Rightarrow> k | _ \<Rightarrow> undefined)"

lemma bjj_key_toy: "length bs = 32 \<Longrightarrow> from_be bs \<noteq> 0 \<Longrightarrow> \<exists>b. bjj_key_from_secret keylibs_toy bs = Ok b"
  by (simp add: bjj_key_from_secret_def keylibs_toy_def bjj_keypair_from_secret_def bjj_from_privkey_def bjj_toy_def
      bjj_try_from_point_def del: to_be.simps)

lemma keys_toy: "hopr_keys_try_from keylibs_toy [7] (replicate 32 1, to_be 32 3, to_be 32 2) = Ok keys_toy"
proof -
  have p: "\<exists>p. packet_key_from_secret keylibs_toy bs = Ok p" if "length bs = 32" for bs
    using offchain_keypair_from_secret_total [OF edlib_ok_std that]
    by (auto simp: packet_key_from_secret_def keylibs_toy_def)
  have "chain_keypair_from_secret secp_toy True (to_be 32 3) = Ok keypair_toy"
    using keypair_toy(1,2) chain_keypair_from_secret_Ok [OF secp_ok_toy] by metis
  then have c: "chain_key_from_secret keylibs_toy (to_be 32 3) = Ok keypair_toy"
    unfolding chain_key_from_secret_def keylibs_toy_def keylibs.simps by (simp only: map_err.simps)
  have "from_be (to_be 32 2) \<noteq> 0" by (simp add: from_be_to_be_id del: to_be.simps)
  then obtain p b where pb: "packet_key_from_secret keylibs_toy (replicate 32 1) = Ok p"
    "bjj_key_from_secret keylibs_toy (to_be 32 2) = Ok b"
    using p [of "replicate 32 1"] bjj_key_toy [of "to_be 32 2"] length_replicate length_to_be by metis
  show ?thesis unfolding keys_toy_def hopr_keys_try_from_def fst_conv snd_conv c pb and_then.simps res.case ..
qed

definition key_random_toy :: "(bytes, u32) key_random" where
  "key_random_toy = \<lparr>kr_salt = replicate 32 5, kr_iv = replicate 16 6, kr_packet_secret = replicate 32 8,
     kr_packet = hk_packet_key keys_toy, kr_chain = hk_chain_key keys_toy, kr_bjj = hk_bjj_key keys_toy, kr_uuid = [9]\<rparr>"

lemma keys_toy_wf: "wf_hopr_keys keylibs_toy keys_toy" "wf_key_random keylibs_toy key_random_toy"
  using keys_toy by (simp_all add: hopr_keys_try_from_Ok wf_key_random_def wf_hopr_keys_def key_random_toy_def)

definition empty_disk :: filesystem where
  "empty_disk = \<lparr>fs_files = Map.empty, fs_writable = (\<lambda>_. True)\<rparr>"

lemma write_toy: "\<exists>fs. write_eth_keystore storelib_toy keylibs_toy rnd keys empty_disk path pw = Ok fs"
  by (simp add: write_eth_keystore_def storelib_toy_def Let_def fs_write_def empty_disk_def)

text \<open>The three theorems at these libraries.\<close>

theorem keystore_roundtrip_witness:
  "\<exists>fs. write_eth_keystore storelib_toy keylibs_toy key_random_toy keys_toy empty_disk ''id'' ''pw'' = Ok fs
     \<and> read_eth_keystore storelib_toy keylibs_toy key_random_toy fs ''id'' ''pw'' = Ok (keys_toy, False)"
  using write_toy [of key_random_toy keys_toy "''id''" "''pw''"]
    keystore_roundtrip [OF storelib_ok_toy keys_toy_wf, of empty_disk "''id''" "''pw''"] by blast

theorem identity_is_stable_witness:
  "\<exists>keys fs. hopr_keys_init hex_std storelib_toy keylibs_toy key_random_toy empty_disk (FromFile ''pw'' ''id'') = Ok (keys, fs)
     \<and> hopr_keys_init hex_std storelib_toy keylibs_toy key_random_toy fs (FromFile ''pw'' ''id'') = Ok (keys, fs)"
proof -
  have none: "fs_files empty_disk ''id'' = None" by (simp add: empty_disk_def)
  obtain keys fs where "hopr_keys_init hex_std storelib_toy keylibs_toy key_random_toy empty_disk (FromFile ''pw'' ''id'') = Ok (keys, fs)"
    using write_toy [of key_random_toy _ "''id''" "''pw''"] none unfolding hopr_keys_init_from_file by auto
  then show ?thesis using identity_is_stable [OF storelib_ok_toy keys_toy_wf(2)] by blast
qed

theorem hopr_keys_from_str_roundtrip_witness:
  "hopr_keys_from_str hex_std keylibs_toy [1] (''0x'' @ hex_encode hex_std (secret_bytes (okp_secret (hk_packet_key keys_toy))
      @ secret_bytes (ckp_secret (hk_chain_key keys_toy)) @ secret_bytes (bjj_secret (hk_bjj_key keys_toy))))
   = Ok (keys_toy\<lparr>hk_id := [1]\<rparr>)"
  by (rule hopr_keys_from_str_roundtrip [OF hex_ok_std keys_toy_wf(1)]) simp

definition pbkdf2_store :: eth_keystore where
  "pbkdf2_store = \<lparr>ek_crypto = \<lparr>cj_cipher = HOPR_CIPHER, cj_iv = replicate 16 0, cj_ciphertext = [1], cj_kdf = KdfPbkdf2,
     cj_kdfparams = Pbkdf2 1000 32 ''hmac-sha256'' [1], cj_mac = [2]\<rparr>, ek_id = [3], ek_version = 3\<rparr>"

theorem read_eth_keystore_panics_witness:
  "read_eth_keystore storelib_toy keylibs_toy key_random_toy (empty_disk\<lparr>fs_files := [''id'' \<mapsto> store_text pbkdf2_store]\<rparr>) ''id'' ''pw''
     = Panic"
proof -
  have np: "sl_store_from_json storelib_toy s \<noteq> Panic" "sl_keys_from_json storelib_toy b \<noteq> Panic"
    "sl_params storelib_toy n r p l \<noteq> Panic" "sl_scrypt storelib_toy pw t n r p l \<noteq> Panic" for s b n r p l pw t
    by (simp_all add: storelib_toy_def text_store_def frames_keys_def split: list.splits)
  have store: "sl_store_from_json storelib_toy (store_text pbkdf2_store) = Ok pbkdf2_store"
    by (simp add: storelib_toy_def text_store_text)
  have secp: "secp_ok (kl_secp keylibs_toy)" by (simp add: keylibs_toy_def secp_ok_toy)
  show ?thesis
    unfolding read_eth_keystore_panics [OF secp storelib_ok_toy np]
    using store by (simp add: pbkdf2_store_def)
qed

end
