(* ===== verification/Hosts.thy ===== *)
theory Hosts
  imports Offchain_Keys Error_Messages
begin

text \<open>
  \<open>network/types.rs\<close>, \<open>network/session.rs\<close> and \<open>crypto/seal.rs\<close>: hosts with ports and their texts,
  sealed hosts and session targets. The texts of socket addresses are those of the standard library
  (\<open>core::net\<close>), whose parser and printer are written out here.
\<close>

section \<open>Socket addresses\<close>

text \<open>An IPv4 address has four bytes, an IPv6 address eight groups.\<close>

datatype ip_addr = IpV4 (v4_octets: bytes) | IpV6 (v6_segments: "u16 list")

datatype socket_addr =
    SocketV4 (sv4_ip: bytes) (sv4_port: u16)
  | SocketV6 (sv6_ip: "u16 list") (sv6_port: u16) (sv6_flowinfo: u32) (sv6_scope_id: u32)

definition wf_socket_addr :: "socket_addr \<Rightarrow> bool" where
  "wf_socket_addr a \<longleftrightarrow> (case a of SocketV4 ip _ \<Rightarrow> length ip = 4 | SocketV6 ip _ _ _ \<Rightarrow> length ip = 8)"

fun socket_ip :: "socket_addr \<Rightarrow> ip_addr" where
  "socket_ip (SocketV4 ip _) = IpV4 ip"
| "socket_ip (SocketV6 ip _ _ _) = IpV6 ip"

fun socket_port :: "socket_addr \<Rightarrow> u16" where
  "socket_port (SocketV4 _ p) = p"
| "socket_port (SocketV6 _ p _ _) = p"

fun ip_is_loopback :: "ip_addr \<Rightarrow> bool" where
  "ip_is_loopback (IpV4 ip) \<longleftrightarrow> ip ! 0 = 127"
| "ip_is_loopback (IpV6 gs) \<longleftrightarrow> gs = [0, 0, 0, 0, 0, 0, 0, 1]"

subsection \<open>Printing\<close>

definition hex_digit_char :: "nat \<Rightarrow> char" where
  "hex_digit_char d = (if d < 10 then char_of (48 + d) else char_of (87 + d))"

fun show_hex :: "nat \<Rightarrow> string" where
  "show_hex n = (if n < 16 then [hex_digit_char n] else show_hex (n div 16) @ [hex_digit_char (n mod 16)])"

declare show_hex.simps [simp del]

fun join_with :: "string \<Rightarrow> string list \<Rightarrow> string" where
  "join_with sep [] = []"
| "join_with sep [x] = x"
| "join_with sep (x # y # ys) = x @ sep @ join_with sep (y # ys)"

definition v4_display :: "bytes \<Rightarrow> string" where
  "v4_display ip = join_with ''.'' (map (\<lambda>b. show_nat (unat b)) ip)"

text \<open>The first longest run of zero groups, as its start and length.\<close>

fun zero_run :: "nat \<Rightarrow> nat \<times> nat \<Rightarrow> nat \<times> nat \<Rightarrow> u16 list \<Rightarrow> nat \<times> nat" where
  "zero_run i current longest [] = longest"
| "zero_run i current longest (g # gs) =
     (if g = 0 then
        let current = (if snd current = 0 then i else fst current, snd current + 1)
        in zero_run (i + 1) current (if snd current > snd longest then current else longest) gs
      else zero_run (i + 1) (0, 0) longest gs)"

definition groups_display :: "u16 list \<Rightarrow> string" where
  "groups_display gs = join_with '':'' (map (\<lambda>g. show_hex (unat g)) gs)"

definition v6_display :: "u16 list \<Rightarrow> string" where
  "v6_display gs =
     (if take 6 gs = [0, 0, 0, 0, 0, 0xffff] then
        ''::ffff:'' @ v4_display (concat (map (\<lambda>g. to_be 2 (unat g)) (drop 6 gs)))
      else
        let (start, len) = zero_run 0 (0, 0) (0, 0) gs
        in if len > 1 then groups_display (take start gs) @ ''::'' @ groups_display (drop (start + len) gs)
           else groups_display gs)"

fun ip_display :: "ip_addr \<Rightarrow> string" where
  "ip_display (IpV4 ip) = v4_display ip"
| "ip_display (IpV6 gs) = v6_display gs"

fun socket_display :: "socket_addr \<Rightarrow> string" where
  "socket_display (SocketV4 ip port) = v4_display ip @ '':'' @ show_nat (unat port)"
| "socket_display (SocketV6 gs port _ scope_id) =
     (if scope_id = 0 then ''['' @ v6_display gs @ '']:'' @ show_nat (unat port)
      else ''['' @ v6_display gs @ ''%'' @ show_nat (unat scope_id) @ '']:'' @ show_nat (unat port))"

subsection \<open>Parsing\<close>

text \<open>A reader returns what it has read and the rest of the text; \<open>None\<close> leaves the text as it was.\<close>

type_synonym 'a reader = "string \<Rightarrow> ('a \<times> string) option"

definition to_digit :: "nat \<Rightarrow> char \<Rightarrow> nat option" where
  "to_digit radix c =
     (let n = (of_char c :: nat);
          d = (if 48 \<le> n \<and> n \<le> 57 then n - 48
               else if 97 \<le> n \<and> n \<le> 122 then n - 87
               else if 65 \<le> n \<and> n \<le> 90 then n - 55 else 36)
      in if d < radix then Some d else None)"

fun read_given_char :: "char \<Rightarrow> unit reader" where
  "read_given_char c [] = None"
| "read_given_char c (d # s) = (if d = c then Some ((), s) else None)"

definition read_number :: "nat \<Rightarrow> nat option \<Rightarrow> bool \<Rightarrow> nat \<Rightarrow> nat reader" where
  "read_number radix max_digits allow_zero_prefix bound s =
     (let ds = takeWhile (\<lambda>c. to_digit radix c \<noteq> None) s;
          value = foldl (\<lambda>a c. radix * a + the (to_digit radix c)) 0 ds
      in if (case max_digits of None \<Rightarrow> False | Some m \<Rightarrow> length ds > m) then None
         else if ds = [] then None
         else if \<not> allow_zero_prefix \<and> hd ds = CHR ''0'' \<and> length ds > 1 then None
         else if value \<ge> bound then None
         else Some (value, dropWhile (\<lambda>c. to_digit radix c \<noteq> None) s))"

definition read_separator :: "char \<Rightarrow> nat \<Rightarrow> 'a reader \<Rightarrow> 'a reader" where
  "read_separator sep index inner s =
     (if index > 0 then Option.bind (read_given_char sep s) (\<lambda>(_, r). inner r) else inner s)"

definition read_octet :: "nat \<Rightarrow> nat reader" where
  "read_octet i s = read_separator (CHR ''.'') i (read_number 10 (Some 3) False 256) s"

definition read_ipv4_addr :: "bytes reader" where
  "read_ipv4_addr s =
     Option.bind (read_octet 0 s) (\<lambda>(a, s).
     Option.bind (read_octet 1 s) (\<lambda>(b, s).
     Option.bind (read_octet 2 s) (\<lambda>(c, s).
     Option.bind (read_octet 3 s) (\<lambda>(d, s). Some (map of_nat [a, b, c, d], s)))))"

text \<open>The groups read, whether an embedded IPv4 address ended them, and the rest.\<close>

function read_groups :: "nat \<Rightarrow> nat \<Rightarrow> string \<Rightarrow> u16 list \<times> bool \<times> string" where
  "read_groups limit i s =
     (if limit \<le> i then ([], False, s)
      else
        case (if i < limit - 1 then read_separator (CHR '':'') i read_ipv4_addr s else None) of
          Some (ip, r) \<Rightarrow> ([of_nat (from_be (slice_of 0 2 ip)), of_nat (from_be (slice_of 2 2 ip))], True, r)
        | None \<Rightarrow>
            (case read_separator (CHR '':'') i (read_number 16 (Some 4) True 65536) s of
               None \<Rightarrow> ([], False, s)
             | Some (g, r) \<Rightarrow> let (gs, v4, r') = read_groups limit (Suc i) r in (of_nat g # gs, v4, r')))"
  by pat_completeness auto

termination
  by (relation "measure (\<lambda>(limit, i, s). limit - i)") auto

declare read_groups.simps [simp del]

definition read_ipv6_addr :: "u16 list reader" where
  "read_ipv6_addr s =
     (let (head, head_ipv4, s) = read_groups 8 0 s
      in if length head = 8 then Some (head, s)
         else if head_ipv4 then None
         else
           Option.bind (read_given_char (CHR '':'') s) (\<lambda>(_, s).
           Option.bind (read_given_char (CHR '':'') s) (\<lambda>(_, s).
             let (tail, _, s) = read_groups (8 - (length head + 1)) 0 s
             in Some (head @ replicate (8 - length head - length tail) 0 @ tail, s))))"

definition read_port :: "u16 reader" where
  "read_port s =
     Option.bind (read_given_char (CHR '':'') s) (\<lambda>(_, s).
     map_option (\<lambda>(n, r). (of_nat n, r)) (read_number 10 None True 65536 s))"

definition read_scope_id :: "u32 reader" where
  "read_scope_id s =
     Option.bind (read_given_char (CHR ''%'') s) (\<lambda>(_, s).
     map_option (\<lambda>(n, r). (of_nat n, r)) (read_number 10 None True 4294967296 s))"

definition read_socket_addr_v4 :: "socket_addr reader" where
  "read_socket_addr_v4 s =
     Option.bind (read_ipv4_addr s) (\<lambda>(ip, s).
     map_option (\<lambda>(port, s). (SocketV4 ip port, s)) (read_port s))"

definition read_socket_addr_v6 :: "socket_addr reader" where
  "read_socket_addr_v6 s =
     Option.bind (read_given_char (CHR ''['') s) (\<lambda>(_, s).
     Option.bind (read_ipv6_addr s) (\<lambda>(ip, s).
     let (scope_id, s) = (case read_scope_id s of None \<Rightarrow> (0, s) | Some x \<Rightarrow> x) in
     Option.bind (read_given_char (CHR '']'') s) (\<lambda>(_, s).
     map_option (\<lambda>(port, s). (SocketV6 ip port 0 scope_id, s)) (read_port s))))"

text \<open>\<open>SocketAddr::from_str\<close>: one of the two forms, and nothing after it.\<close>

definition socket_addr_from_str :: "string \<Rightarrow> socket_addr option" where
  "socket_addr_from_str s =
     (case (case read_socket_addr_v4 s of Some x \<Rightarrow> Some x | None \<Rightarrow> read_socket_addr_v6 s) of
        Some (a, []) \<Rightarrow> Some a
      | _ \<Rightarrow> None)"

text \<open>\<open>u16::from_str\<close>: decimal digits after an optional plus sign.\<close>

definition u16_from_str :: "string \<Rightarrow> u16 option" where
  "u16_from_str s =
     (let ds = (case s of c # r \<Rightarrow> if c = CHR ''+'' then r else s | [] \<Rightarrow> [])
      in if is_digits ds \<and> digits_val ds < 65536 then Some (of_nat (digits_val ds)) else None)"

definition split_once :: "char \<Rightarrow> string \<Rightarrow> (string \<times> string) option" where
  "split_once c s =
     (case dropWhile (\<lambda>d. d \<noteq> c) s of [] \<Rightarrow> None | _ # r \<Rightarrow> Some (takeWhile (\<lambda>d. d \<noteq> c) s, r))"

section \<open>Hosts\<close>

datatype ip_protocol = TCP | UDP

fun ip_protocol_display :: "ip_protocol \<Rightarrow> string" where
  "ip_protocol_display TCP = ''tcp''"
| "ip_protocol_display UDP = ''udp''"

definition ip_protocol_from_str :: "string \<Rightarrow> ip_protocol option" where
  "ip_protocol_from_str s =
     (if eq_ignore_ascii_case s ''tcp'' then Some TCP
      else if eq_ignore_ascii_case s ''udp'' then Some UDP else None)"

datatype ip_or_host = Dns string u16 | Ip socket_addr

fun ip_or_host_display :: "ip_or_host \<Rightarrow> string" where
  "ip_or_host_display (Dns host port) = host @ '':'' @ show_nat (unat port)"
| "ip_or_host_display (Ip ip) = socket_display ip"

definition ip_or_host_from_str :: "string \<Rightarrow> (ip_or_host, network_type_error) res" where
  "ip_or_host_from_str s =
     (case socket_addr_from_str s of
        Some addr \<Rightarrow> Ok (Ip addr)
      | None \<Rightarrow>
          and_then (ok_or (NetworkOther ''missing port delimiter'') (split_once (CHR '':'') s)) (\<lambda>(host, port_str).
            map_ok (Dns host) (ok_or (NetworkOther ''invalid port number'') (u16_from_str port_str))))"

definition ip_or_host_from :: "socket_addr \<Rightarrow> ip_or_host" where
  "ip_or_host_from value = Ip value"

fun ip_or_host_port :: "ip_or_host \<Rightarrow> u16" where
  "ip_or_host_port (Dns _ port) = port"
| "ip_or_host_port (Ip addr) = socket_port addr"

fun ip_or_host_host :: "ip_or_host \<Rightarrow> string" where
  "ip_or_host_host (Dns host _) = host"
| "ip_or_host_host (Ip addr) = ip_display (socket_ip addr)"

fun is_dns :: "ip_or_host \<Rightarrow> bool" where
  "is_dns (Dns _ _) = True"
| "is_dns (Ip _) = False"

fun is_ipv4 :: "ip_or_host \<Rightarrow> bool" where
  "is_ipv4 (Ip (SocketV4 _ _)) = True"
| "is_ipv4 _ = False"

fun is_ipv6 :: "ip_or_host \<Rightarrow> bool" where
  "is_ipv6 (Ip (SocketV6 _ _ _ _)) = True"
| "is_ipv6 _ = False"

fun is_loopback_ip :: "ip_or_host \<Rightarrow> bool" where
  "is_loopback_ip (Dns _ _) = False"
| "is_loopback_ip (Ip addr) = ip_is_loopback (socket_ip addr)"

section \<open>Sealing\<close>

text \<open>Not implemented in the code: both functions answer with an error.\<close>

definition seal_data :: "bytes \<Rightarrow> peer_id \<Rightarrow> (bytes, crypto_error) res" where
  "seal_data data peer = Err SealingError"

definition unseal_data :: "bytes \<Rightarrow> 'e offchain_keypair \<Rightarrow> (bytes, crypto_error) res" where
  "unseal_data data keypair = Err SealingError"

datatype sealed_host = Plain ip_or_host | Sealed bytes

definition MAX_LEN_WITH_PADDING :: nat where
  "MAX_LEN_WITH_PADDING = 50"

definition PADDING_CHAR :: char where
  "PADDING_CHAR = CHR ''@''"

text \<open>The text that is sealed; \<open>pad_len\<close> is the random length below the maximum.\<close>

definition host_padded :: "ip_or_host \<Rightarrow> nat \<Rightarrow> string" where
  "host_padded host pad_len =
     (let host_str = ip_or_host_display host
      in if length host_str < MAX_LEN_WITH_PADDING then host_str @ replicate pad_len PADDING_CHAR else host_str)"

definition sealed_host_seal :: "ip_or_host \<Rightarrow> peer_id \<Rightarrow> nat \<Rightarrow> (sealed_host, network_type_error) res" where
  "sealed_host_seal host peer pad_len =
     map_err (\<lambda>e. NetworkOther (crypto_error_display e))
       (map_ok Sealed (seal_data (ascii_bytes (host_padded host pad_len)) peer))"

text \<open>What is read from an unsealed text.\<close>

definition host_unpadded :: "string \<Rightarrow> (ip_or_host, network_type_error) res" where
  "host_unpadded s = ip_or_host_from_str (trim_end_matches PADDING_CHAR s)"

text \<open>\<open>String::from_utf8\<close> is an argument.\<close>

fun sealed_host_unseal ::
  "(bytes \<Rightarrow> (string, string) res) \<Rightarrow> sealed_host \<Rightarrow> 'e offchain_keypair \<Rightarrow> (ip_or_host, network_type_error) res" where
  "sealed_host_unseal from_utf8 (Plain host) key = Ok host"
| "sealed_host_unseal from_utf8 (Sealed enc) key =
     and_then (map_err (\<lambda>e. NetworkOther (crypto_error_display e)) (unseal_data enc key)) (\<lambda>data.
     and_then (map_err NetworkOther (from_utf8 data)) host_unpadded)"

definition sealed_host_from :: "ip_or_host \<Rightarrow> sealed_host" where
  "sealed_host_from value = Plain value"

fun ip_or_host_try_from :: "sealed_host \<Rightarrow> (ip_or_host, network_type_error) res" where
  "ip_or_host_try_from (Plain host) = Ok host"
| "ip_or_host_try_from (Sealed _) = Err SealedTarget"

fun sealed_host_display :: "sealed_host \<Rightarrow> string" where
  "sealed_host_display (Plain h) = ip_or_host_display h"
| "sealed_host_display (Sealed _) = ''<redacted host>''"

section \<open>Sessions\<close>

type_synonym service_id = u32

datatype session_target =
    UdpStream sealed_host
  | TcpStream sealed_host
  | ExitNode service_id

end
