(* ===== verification/Hosts_Spec.thy ===== *)
theory Hosts_Spec
  imports Hosts
begin

text \<open>
  The texts of hosts are read back: the readers of \<open>core::net\<close> against their printers, for both
  kinds of addresses, and the DNS names whose text is not their own.
\<close>

section \<open>Numbers\<close>

lemma to_digit_10: "to_digit 10 c \<noteq> None \<longleftrightarrow> is_digit c" "is_digit c \<Longrightarrow> to_digit 10 c = Some (digit_val c)"
  by (auto simp: to_digit_def is_digit_def digit_val_def Let_def)

text \<open>A text that does not go on with a digit.\<close>

definition stops :: "nat \<Rightarrow> string \<Rightarrow> bool" where
  "stops radix s \<longleftrightarrow> (case s of [] \<Rightarrow> True | c # _ \<Rightarrow> to_digit radix c = None)"

lemma stops_simps [simp]: "stops radix []" "stops radix (c # s) \<longleftrightarrow> to_digit radix c = None"
  by (simp_all add: stops_def)

lemma digits_append:
  assumes "stops radix t"
  shows "takeWhile (\<lambda>c. to_digit radix c \<noteq> None) (s @ t) = takeWhile (\<lambda>c. to_digit radix c \<noteq> None) s"
    and "dropWhile (\<lambda>c. to_digit radix c \<noteq> None) (s @ t) = dropWhile (\<lambda>c. to_digit radix c \<noteq> None) s @ t"
  using assms by (induction s) (cases t; simp)+

lemma read_number_append:
  "stops radix t \<Longrightarrow> read_number radix m z b (s @ t) = map_option (\<lambda>(v, r). (v, r @ t)) (read_number radix m z b s)"
  by (simp add: read_number_def digits_append Let_def del: not_None_eq)

lemma read_number_rest:
  assumes "read_number radix m z b s = Some (v, r)"
  obtains ds where "s = ds @ r" "ds \<noteq> []" "\<forall>c \<in> set ds. to_digit radix c \<noteq> None"
proof
  let ?P = "\<lambda>c. to_digit radix c \<noteq> None"
  show "s = takeWhile ?P s @ r"
    using assms takeWhile_dropWhile_id [of ?P s] by (auto simp: read_number_def Let_def split: if_splits)
  show "takeWhile ?P s \<noteq> []"
    using assms by (auto simp: read_number_def Let_def split: if_splits)
  show "\<forall>c \<in> set (takeWhile ?P s). ?P c" by (auto dest: set_takeWhileD)
qed

lemma show_nat_nonempty: "show_nat n \<noteq> []"
  using show_nat_digits [of n] by (auto simp: is_digits_def)

lemma show_nat_head: "0 < n \<Longrightarrow> hd (show_nat n) \<noteq> CHR ''0''"
proof (induction n rule: show_nat.induct)
  case (1 n)
  then show ?case
    using show_nat_nonempty [of "n div 10"]
      digit_char [of n] is_digit_def
    by (cases "n < 10") (auto simp: show_nat.simps [of n] digit_val_def)
qed

lemma show_nat_length: "n < 10 ^ Suc k \<Longrightarrow> length (show_nat n) \<le> Suc k"
proof (induction k arbitrary: n)
  case 0
  then show ?case by (simp add: show_nat.simps [of n])
next
  case (Suc k)
  then have "n div 10 < 10 ^ Suc k" by (simp add: div_less_iff_less_mult mult.commute)
  with Suc.IH [of "n div 10"] show ?case by (simp add: show_nat.simps [of n])
qed

lemma digits_val_foldl:
  "\<forall>c \<in> set s. is_digit c \<Longrightarrow> foldl (\<lambda>a c. 10 * a + the (to_digit 10 c)) v s = foldl (\<lambda>a c. 10 * a + digit_val c) v s"
  by (induction s arbitrary: v) (simp_all add: to_digit_10)

lemma read_number_show_nat:
  assumes "stops 10 t" "n < b" "m = None \<or> m = Some 3 \<and> n < 1000"
  shows "read_number 10 m z b (show_nat n @ t) = Some (n, t)"
proof -
  have d: "\<forall>c \<in> set (show_nat n). is_digit c" "digits_val (show_nat n) = n"
    using show_nat_digits [of n] by (auto simp: is_digits_def)
  have tw: "takeWhile (\<lambda>c. to_digit 10 c \<noteq> None) (show_nat n) = show_nat n"
    "dropWhile (\<lambda>c. to_digit 10 c \<noteq> None) (show_nat n) = []"
    using d by (simp_all add: to_digit_10 del: not_None_eq)
  have v: "foldl (\<lambda>a c. 10 * a + the (to_digit 10 c)) 0 (show_nat n) = n"
    using digits_val_foldl [OF d(1), of 0] d(2) by (simp add: digits_val_def)
  have z: "hd (show_nat n) = CHR ''0'' \<longrightarrow> length (show_nat n) \<le> 1"
    using show_nat_head [of n] by (cases "n = 0") (simp_all add: show_nat.simps [of 0])
  have l: "m = Some 3 \<longrightarrow> length (show_nat n) \<le> 3"
    using show_nat_length [of n 2] assms(3) by auto
  have "read_number 10 m z b (show_nat n) = Some (n, [])"
    using z l assms(2,3) show_nat_nonempty [of n]
    unfolding read_number_def Let_def tw v by auto
  then show ?thesis using assms(1) by (simp add: read_number_append)
qed

section \<open>IPv4 addresses\<close>

lemma read_octet_append:
  assumes "stops 10 t" "t = [] \<or> hd t \<noteq> CHR ''.''"
  shows "read_octet i (s @ t) = map_option (\<lambda>(v, r). (v, r @ t)) (read_octet i s)"
proof (cases s)
  case Nil
  with assms show ?thesis
    using read_number_append [OF assms(1), of "Some 3" False 256 "[]"]
    by (cases t) (auto simp: read_octet_def read_separator_def read_number_def)
next
  case (Cons c s')
  then show ?thesis
    using read_number_append [OF assms(1)] by (simp add: read_octet_def read_separator_def del: append_Cons flip: append_Cons)
      (simp add: read_number_append [OF assms(1)])
qed

lemma read_ipv4_append:
  assumes "stops 10 t" "t = [] \<or> hd t \<noteq> CHR ''.''"
  shows "read_ipv4_addr (s @ t) = map_option (\<lambda>(v, r). (v, r @ t)) (read_ipv4_addr s)"
proof -
  have bind: "Option.bind (map_option (\<lambda>(v, r). (v, r @ t)) x) f = map_option (\<lambda>(v, r). (v, r @ t)) (Option.bind x g)"
    if "\<And>v r. f (v, r @ t) = map_option (\<lambda>(v, r). (v, r @ t)) (g (v, r))" for x :: "(nat \<times> string) option" and f g
    using that by (cases x) auto
  show ?thesis
    unfolding read_ipv4_addr_def read_octet_append [OF assms]
    by (rule bind, simp only: prod.case read_octet_append [OF assms])+ simp
qed

lemma read_octet_first: "stops 10 t \<Longrightarrow> read_octet 0 (show_nat (unat (b :: 8 word)) @ t) = Some (unat b, t)"
  using unat_byte_less [of b] by (simp add: read_octet_def read_separator_def read_number_show_nat)

lemma read_octet_next:
  "stops 10 t \<Longrightarrow> 0 < i \<Longrightarrow> read_octet i (CHR ''.'' # show_nat (unat (b :: 8 word)) @ t) = Some (unat b, t)"
  using unat_byte_less [of b] by (simp add: read_octet_def read_separator_def read_number_show_nat)

lemma to_digit_specials [simp]:
  "radix \<le> 16 \<Longrightarrow> to_digit radix (CHR ''.'') = None" "radix \<le> 16 \<Longrightarrow> to_digit radix (CHR '':'') = None"
  "radix \<le> 16 \<Longrightarrow> to_digit radix (CHR '']'') = None" "radix \<le> 16 \<Longrightarrow> to_digit radix (CHR ''%'') = None"
  "radix \<le> 16 \<Longrightarrow> to_digit radix (CHR ''['') = None" "radix \<le> 16 \<Longrightarrow> to_digit radix (CHR ''@'') = None"
  by (simp_all add: to_digit_def)

lemma read_ipv4_display:
  assumes "length ip = 4" "stops 10 t"
  shows "read_ipv4_addr (v4_display ip @ t) = Some (ip, t)"
proof -
  obtain a b c d where ip: "ip = [a, b, c, d]"
    using assms(1) by (auto simp: numeral_eq_Suc length_Suc_conv)
  show ?thesis
    using assms(2)
    by (simp add: ip v4_display_def read_ipv4_addr_def read_octet_first read_octet_next)
qed

lemma read_port_show: "stops 10 t \<Longrightarrow> read_port (CHR '':'' # show_nat (unat (p :: u16)) @ t) = Some (p, t)"
  using unat_less_2p [of p] by (simp add: read_port_def read_number_show_nat)

lemma u16_from_str_show: "u16_from_str (show_nat (unat (p :: u16))) = Some p"
proof -
  have d: "is_digits (show_nat (unat p))" "digits_val (show_nat (unat p)) = unat p"
    using show_nat_digits [of "unat p"] by auto
  then have "\<exists>c r. show_nat (unat p) = c # r \<and> c \<noteq> CHR ''+''"
    by (cases "show_nat (unat p)") (auto simp: is_digits_def is_digit_def)
  then show ?thesis using d unat_less_2p [of p] by (auto simp: u16_from_str_def)
qed

lemma socket_v4_roundtrip:
  assumes "length ip = 4"
  shows "socket_addr_from_str (v4_display ip @ CHR '':'' # show_nat (unat p)) = Some (SocketV4 ip p)"
  using read_ipv4_display [OF assms, of "CHR '':'' # show_nat (unat p)"] read_port_show [of "[]" p]
  by (simp add: socket_addr_from_str_def read_socket_addr_v4_def)

section \<open>What is not an address\<close>

text \<open>The colons of a text.\<close>

definition colons :: "string \<Rightarrow> nat" where
  "colons s = length (filter ((=) (CHR '':'')) s)"

lemma colons_simps [simp]:
  "colons [] = 0" "colons (c # s) = (if c = CHR '':'' then Suc (colons s) else colons s)" "colons (s @ t) = colons s + colons t"
  by (simp_all add: colons_def)

lemma colons_0: "colons s = 0 \<longleftrightarrow> CHR '':'' \<notin> set s"
  by (auto simp: colons_def filter_empty_conv)

lemma read_given_char_Some [simp]: "read_given_char c s = Some (u, r) \<longleftrightarrow> s = c # r"
  by (cases s) auto

lemma read_number_colons:
  assumes "read_number radix m z b s = Some (v, r)" "radix \<le> 16"
  shows "colons s = colons r" "set r \<subseteq> set s"
proof -
  obtain ds where ds: "s = ds @ r" "\<forall>c \<in> set ds. to_digit radix c \<noteq> None"
    using assms(1) by (rule read_number_rest)
  then have "CHR '':'' \<notin> set ds" using assms(2) by auto
  then show "colons s = colons r" "set r \<subseteq> set s" using ds(1) colons_0 [of ds] by auto
qed

lemma read_octet_colons:
  assumes "read_octet i s = Some (v, r)"
  shows "colons s = colons r" "set r \<subseteq> set s"
  using assms read_number_colons [of 10 "Some 3" False 256]
  by (auto simp: read_octet_def read_separator_def split: if_splits bind_splits) fastforce+

lemma read_ipv4_colons:
  assumes "read_ipv4_addr s = Some (ip, r)"
  shows "colons s = colons r" "set r \<subseteq> set s"
proof -
  obtain a b c d s1 s2 s3 where o: "read_octet 0 s = Some (a, s1)" "read_octet 1 s1 = Some (b, s2)"
    "read_octet 2 s2 = Some (c, s3)" "read_octet 3 s3 = Some (d, r)"
    using assms by (auto simp: read_ipv4_addr_def bind_eq_Some_conv)
  show "colons s = colons r" using o [THEN read_octet_colons(1)] by simp
  show "set r \<subseteq> set s" using o [THEN read_octet_colons(2)] by blast
qed

lemma read_separator_colons:
  assumes "read_separator (CHR '':'') i inner s = Some (x, r)" "\<And>s x r. inner s = Some (x, r) \<Longrightarrow> colons s = colons r"
  shows "colons s = colons r + (if 0 < i then 1 else 0)"
  using assms by (auto simp: read_separator_def split: if_splits bind_splits)

lemma read_groups_colons:
  assumes "read_groups limit i s = (gs, v4, r)"
  shows "colons r + length gs \<le> colons s + (if v4 then 1 else 0) + (if i = 0 then 1 else 0)
    \<and> colons r \<le> colons s \<and> (gs = [] \<longrightarrow> r = s)"
  using assms
proof (induction limit i s arbitrary: gs v4 r rule: read_groups.induct)
  case (1 limit i s)
  define v where "v = (if i < limit - 1 then read_separator (CHR '':'') i read_ipv4_addr s else None)"
  define n where "n = read_separator (CHR '':'') i (read_number 16 (Some 4) True 65536) s"
  note eq = read_groups.simps [of limit i s, folded v_def n_def]
  show ?case
  proof (cases "limit \<le> i")
    case True
    then show ?thesis using "1.prems" by (simp add: eq)
  next
    case False
    show ?thesis
    proof (cases v)
      case (Some x)
      obtain ip r' where x: "x = (ip, r')" by (cases x)
      then have "colons s = colons r' + (if 0 < i then 1 else 0)"
        using Some read_separator_colons [of i read_ipv4_addr s ip r'] read_ipv4_colons(1)
        by (auto simp: v_def split: if_splits)
      then show ?thesis using "1.prems" False Some x by (auto simp: eq)
    next
      case None
      show ?thesis
      proof (cases n)
        case None
        then show ?thesis using "1.prems" False \<open>v = None\<close> by (simp add: eq)
      next
        case (Some x)
        obtain g r' gs' v4' r'' where x: "x = (g, r')" and rec: "read_groups limit (Suc i) r' = (gs', v4', r'')"
          by (cases x, cases "read_groups limit (Suc i) (snd x)") auto
        have "colons s = colons r' + (if 0 < i then 1 else 0)"
          using Some x read_separator_colons [of i _ s g r'] read_number_colons(1)
          by (auto simp: n_def)
        moreover have "colons r'' + length gs' \<le> colons r' + (if v4' then 1 else 0) \<and> colons r'' \<le> colons r'"
          using "1.IH" [OF False _ _ _ rec] None Some x unfolding v_def n_def by fastforce
        ultimately show ?thesis using "1.prems" False None Some x rec by (auto simp: eq)
      qed
    qed
  qed
qed

lemma read_ipv6_colons:
  assumes "read_ipv6_addr s = Some (ip, r)"
  shows "colons r + 2 \<le> colons s"
proof -
  obtain head v4 t where h: "read_groups 8 0 s = (head, v4, t)" by (cases "read_groups 8 0 s")
  note c = read_groups_colons [OF h]
  show ?thesis
  proof (cases "length head = 8")
    case True
    then show ?thesis using assms h c by (auto simp: read_ipv6_addr_def split: if_splits)
  next
    case False
    then obtain t' where t': "t = CHR '':'' # CHR '':'' # t'" "\<not> v4"
      "r = snd (snd (read_groups (8 - (length head + 1)) 0 t'))"
      using assms h by (auto simp: read_ipv6_addr_def Let_def split: if_splits bind_splits prod.splits)
    obtain tail v4' r' where g: "read_groups (8 - (length head + 1)) 0 t' = (tail, v4', r')"
      by (cases "read_groups (8 - (length head + 1)) 0 t'")
    show ?thesis using c t' read_groups_colons [OF g] g by (cases head) (auto split: if_splits)
  qed
qed

lemma read_socket_v6_colons: "read_socket_addr_v6 s = Some x \<Longrightarrow> 2 \<le> colons s"
  by (auto simp: read_socket_addr_v6_def bind_eq_Some_conv dest: read_ipv6_colons)

text \<open>A name without colons is an address exactly when it is the text of an IPv4 address.\<close>

lemma socket_addr_of_name:
  assumes "CHR '':'' \<notin> set h"
  shows "socket_addr_from_str (h @ CHR '':'' # show_nat (unat p)) =
    (case read_ipv4_addr h of Some (ip, []) \<Rightarrow> Some (SocketV4 ip p) | _ \<Rightarrow> None)"
proof -
  let ?s = "h @ CHR '':'' # show_nat (unat p)"
  have "CHR '':'' \<notin> set (show_nat (unat p))"
    using show_nat_digits [of "unat p"] by (auto simp: is_digits_def is_digit_def)
  then have "colons ?s = 1" using assms by (simp add: colons_0 [THEN iffD2])
  then have v6: "read_socket_addr_v6 ?s = None"
    using read_socket_v6_colons [of ?s] by (cases "read_socket_addr_v6 ?s") auto
  have ip: "read_ipv4_addr ?s = map_option (\<lambda>(v, r). (v, r @ CHR '':'' # show_nat (unat p))) (read_ipv4_addr h)"
    by (rule read_ipv4_append) simp_all
  show ?thesis
  proof (cases "read_ipv4_addr h")
    case None
    then show ?thesis using v6 ip by (simp add: socket_addr_from_str_def read_socket_addr_v4_def)
  next
    case (Some x)
    then obtain a r where x: "read_ipv4_addr h = Some (a, r)" by (cases x) auto
    then have "CHR '':'' \<notin> set r" using read_ipv4_colons(2) assms by blast
    then have "r \<noteq> [] \<Longrightarrow> read_port (r @ CHR '':'' # show_nat (unat p)) = None"
      by (cases r) (auto simp: read_port_def)
    then show ?thesis
      using v6 ip x read_port_show [of "[]" p]
      by (cases r) (simp_all add: socket_addr_from_str_def read_socket_addr_v4_def)
  qed
qed

lemma split_once_first: "CHR '':'' \<notin> set h \<Longrightarrow> split_once (CHR '':'') (h @ CHR '':'' # t) = Some (h, t)"
proof -
  assume "CHR '':'' \<notin> set h"
  then have "dropWhile (\<lambda>d. d \<noteq> CHR '':'') (h @ CHR '':'' # t) = dropWhile (\<lambda>d. d \<noteq> CHR '':'') (CHR '':'' # t)"
    "takeWhile (\<lambda>d. d \<noteq> CHR '':'') (h @ CHR '':'' # t) = h @ takeWhile (\<lambda>d. d \<noteq> CHR '':'') (CHR '':'' # t)"
    by (intro dropWhile_append2 takeWhile_append2; blast)+
  then show ?thesis by (simp add: split_once_def)
qed

lemma split_once_host: "split_once c s = Some (h, t) \<Longrightarrow> c \<notin> set h"
  by (auto simp: split_once_def dest: set_takeWhileD split: list.splits)

lemma dns_roundtrip:
  "ip_or_host_from_str (h @ CHR '':'' # show_nat (unat p)) = Ok (Dns h p)
    \<longleftrightarrow> CHR '':'' \<notin> set h \<and> (\<forall>ip. read_ipv4_addr h \<noteq> Some (ip, []))"
proof (cases "CHR '':'' \<in> set h")
  case True
  then show ?thesis
    using split_once_host by (fastforce simp: ip_or_host_from_str_def split: option.splits)
next
  case False
  then show ?thesis
    using socket_addr_of_name [OF False] split_once_first [OF False] u16_from_str_show [of p]
    by (auto simp: ip_or_host_from_str_def split: option.splits list.splits)
qed

section \<open>IPv6 addresses\<close>

lemma hex_digit: "d < 16 \<Longrightarrow> to_digit 16 (hex_digit_char d) = Some d"
  by (simp add: to_digit_def hex_digit_char_def)

lemma show_hex:
  "(\<forall>c \<in> set (show_hex n). to_digit 16 c \<noteq> None)
   \<and> foldl (\<lambda>a c. 16 * a + the (to_digit 16 c)) 0 (show_hex n) = n \<and> show_hex n \<noteq> []"
proof (induction n rule: show_hex.induct)
  case (1 n)
  show ?case
    using 1 hex_digit [of n] hex_digit [of "n mod 16"]
    by (cases "n < 16") (auto simp: show_hex.simps [of n])
qed

lemma show_hex_length: "n < 16 ^ Suc k \<Longrightarrow> length (show_hex n) \<le> Suc k"
proof (induction k arbitrary: n)
  case 0
  then show ?case by (simp add: show_hex.simps [of n])
next
  case (Suc k)
  then have "n div 16 < 16 ^ Suc k" by (simp add: div_less_iff_less_mult mult.commute)
  with Suc.IH [of "n div 16"] show ?case by (simp add: show_hex.simps [of n])
qed

lemma show_hex_no_dot: "CHR ''.'' \<notin> set (show_hex n)"
  using show_hex [of n] by (metis to_digit_specials(1) order_refl)

lemma read_group_show:
  assumes "stops 16 t"
  shows "read_number 16 (Some 4) True 65536 (show_hex (unat (g :: u16)) @ t) = Some (unat g, t)"
proof -
  let ?P = "\<lambda>c. to_digit 16 c \<noteq> None"
  have tw: "takeWhile ?P (show_hex (unat g)) = show_hex (unat g)" "dropWhile ?P (show_hex (unat g)) = []"
    using show_hex [of "unat g"] by (simp_all del: not_None_eq)
  have l: "length (show_hex (unat g)) \<le> 4" using show_hex_length [of "unat g" 3] unat_less_2p [of g] by simp
  have "read_number 16 (Some 4) True 65536 (show_hex (unat g)) = Some (unat g, [])"
    using l show_hex [of "unat g"] unat_less_2p [of g] unfolding read_number_def Let_def tw by simp
  then show ?thesis using assms by (simp add: read_number_append)
qed

lemma read_ipv4_none:
  assumes "CHR ''.'' \<notin> set x" "stops 10 t" "t = [] \<or> hd t \<noteq> CHR ''.''"
  shows "read_ipv4_addr (x @ t) = None"
proof -
  have "read_octet 1 r = None" if "read_octet 0 x = Some (v, r)" for v r
  proof -
    have "read_number 10 (Some 3) False 256 x = Some (v, r)"
      using that by (simp add: read_octet_def read_separator_def)
    then obtain ds where "x = ds @ r" by (rule read_number_rest)
    then have "r = [] \<or> hd r \<noteq> CHR ''.''" using assms(1) by (cases r) auto
    then show ?thesis by (cases r) (auto simp: read_octet_def read_separator_def)
  qed
  then have "read_ipv4_addr x = None" by (auto simp: read_ipv4_addr_def split: bind_splits)
  then show ?thesis using read_ipv4_append [OF assms(2,3)] by simp
qed

lemma read_number_none: "stops radix t \<Longrightarrow> read_number radix m z b t = None"
  by (cases t) (auto simp: read_number_def)

text \<open>What can follow the groups of an address: the double colon, or the end of the address.\<close>

definition closes :: "string \<Rightarrow> bool" where
  "closes t \<longleftrightarrow> (\<exists>u. t = CHR '']'' # u \<or> t = CHR ''%'' # u \<or> t = CHR '':'' # CHR '':'' # u)"

lemma closes_stops: "closes t \<Longrightarrow> radix \<le> 16 \<Longrightarrow> stops radix t" "closes t \<Longrightarrow> hd t \<noteq> CHR ''.''"
  by (auto simp: closes_def)

definition colon_groups :: "u16 list \<Rightarrow> string" where
  "colon_groups gs = concat (map (\<lambda>g. CHR '':'' # show_hex (unat g)) gs)"

lemma colon_groups_simps [simp]:
  "colon_groups [] = []" "colon_groups (g # gs) = CHR '':'' # show_hex (unat g) @ colon_groups gs"
  by (simp_all add: colon_groups_def)

lemma groups_display_Cons: "groups_display (g # gs) = show_hex (unat g) @ colon_groups gs"
  by (induction gs arbitrary: g) (simp_all add: groups_display_def)

lemma colon_groups_stops:
  assumes "closes t" "radix \<le> 16"
  shows "stops radix (colon_groups gs @ t)" "hd (colon_groups gs @ t) \<noteq> CHR ''.''"
  using assms closes_stops [OF assms(1)] by (cases gs; simp)+

lemma read_ipv4_group: "closes t \<Longrightarrow> read_ipv4_addr (show_hex n @ colon_groups gs @ t) = None"
  using read_ipv4_none [OF show_hex_no_dot, of "colon_groups gs @ t" n] colon_groups_stops [of t 10 gs] by simp

lemma read_nothing:
  assumes "closes t"
  shows "0 < i \<Longrightarrow> read_separator (CHR '':'') i read_ipv4_addr t = None"
    and "0 < i \<Longrightarrow> read_separator (CHR '':'') i (read_number 16 m z b) t = None"
    and "read_ipv4_addr t = None" "read_number 16 m z b t = None"
proof -
  have c: "read_ipv4_addr (CHR '':'' # u) = None" "read_number 16 m z b (CHR '':'' # u) = None" for u
    using read_ipv4_none [of "[]" "CHR '':'' # u"] read_number_none [of 16 "CHR '':'' # u"] by simp_all
  show "0 < i \<Longrightarrow> read_separator (CHR '':'') i read_ipv4_addr t = None"
    "0 < i \<Longrightarrow> read_separator (CHR '':'') i (read_number 16 m z b) t = None"
    using assms c by (auto simp: closes_def read_separator_def)
  show "read_ipv4_addr t = None" "read_number 16 m z b t = None"
    using read_ipv4_none [of "[]" t] read_number_none [of 16 t] closes_stops [OF assms] by simp_all
qed

lemma read_groups_colon:
  assumes "closes t" "0 < i" "i + length gs \<le> limit"
  shows "read_groups limit i (colon_groups gs @ t) = (gs, False, t)"
  using assms(2,3)
proof (induction gs arbitrary: i)
  case Nil
  then show ?case using read_nothing [OF assms(1)] by (simp add: read_groups.simps [of limit i t])
next
  case (Cons g gs)
  let ?s = "CHR '':'' # show_hex (unat g) @ colon_groups gs @ t"
  have v: "read_separator (CHR '':'') i read_ipv4_addr ?s = None"
    using Cons.prems(1) read_ipv4_group [OF assms(1)] by (simp add: read_separator_def)
  have n: "read_separator (CHR '':'') i (read_number 16 (Some 4) True 65536) ?s = Some (unat g, colon_groups gs @ t)"
    using Cons.prems(1) read_group_show [OF colon_groups_stops(1) [OF assms(1)], of g gs] by (simp add: read_separator_def)
  show ?case
    using Cons.prems Cons.IH [of "Suc i"] v n by (simp add: read_groups.simps [of limit i ?s])
qed

lemma read_groups_display:
  assumes "closes t" "length gs \<le> limit"
  shows "read_groups limit 0 (groups_display gs @ t) = (gs, False, t)"
proof (cases gs)
  case Nil
  then show ?thesis
    using read_nothing [OF assms(1)]
    by (simp add: groups_display_def read_groups.simps [of limit 0 t] read_separator_def)
next
  case (Cons g gs')
  let ?s = "show_hex (unat g) @ colon_groups gs' @ t"
  have "read_separator (CHR '':'') 0 read_ipv4_addr ?s = None"
    using read_ipv4_group [OF assms(1)] by (simp add: read_separator_def)
  moreover have "read_separator (CHR '':'') 0 (read_number 16 (Some 4) True 65536) ?s = Some (unat g, colon_groups gs' @ t)"
    using read_group_show [OF colon_groups_stops(1) [OF assms(1)], of g gs'] by (simp add: read_separator_def)
  ultimately show ?thesis
    using assms(2) Cons read_groups_colon [OF assms(1), of 1 gs' limit]
    by (simp add: groups_display_Cons read_groups.simps [of limit 0 ?s])
qed

text \<open>The run of zeros that is left out is one.\<close>

definition zeros_at :: "u16 list \<Rightarrow> nat \<Rightarrow> nat \<times> nat \<Rightarrow> bool" where
  "zeros_at gs n run \<longleftrightarrow> fst run + snd run \<le> n \<and> (\<forall>k. fst run \<le> k \<and> k < fst run + snd run \<longrightarrow> gs ! k = 0)"

lemma zero_run:
  assumes "zeros_at (pre @ gs) i cur" "zeros_at (pre @ gs) i longest" "length pre = i" "snd cur = 0 \<or> fst cur + snd cur = i"
  shows "zeros_at (pre @ gs) (length (pre @ gs)) (zero_run i cur longest gs)"
  using assms
proof (induction gs arbitrary: pre i cur longest)
  case Nil
  then show ?case by (simp add: zeros_at_def)
next
  case (Cons g gs)
  let ?cur = "if g = 0 then (if snd cur = 0 then i else fst cur, snd cur + 1) else (0, 0)"
  have at: "(pre @ g # gs) ! i = g" using Cons.prems(3) by (simp add: nth_append)
  have cur: "zeros_at (pre @ g # gs) (Suc i) ?cur"
    using Cons.prems(1,4) at by (auto simp: zeros_at_def less_Suc_eq)
  have longest: "zeros_at (pre @ g # gs) (Suc i) longest" using Cons.prems(2) by (simp add: zeros_at_def)
  have "zeros_at ((pre @ [g]) @ gs) (length ((pre @ [g]) @ gs))
      (zero_run (Suc i) ?cur (if snd ?cur > snd longest then ?cur else longest) gs)"
    by (rule Cons.IH) (use cur longest Cons.prems(3,4) in auto)
  then show ?case by (cases "g = 0") (simp_all add: Let_def cong: if_cong)
qed

lemma zeros_at_split:
  assumes "zeros_at gs (length gs) (start, len)"
  shows "gs = take start gs @ replicate len 0 @ drop (start + len) gs"
proof -
  have "take len (drop start gs) = replicate len 0"
    using assms by (intro nth_equalityI) (auto simp: zeros_at_def)
  then show ?thesis by (metis append_take_drop_id drop_drop add.commute)
qed

lemma read_mapped:
  assumes "closes t" "length ip = 4"
  shows "read_groups 7 0 (''ffff:'' @ v4_display ip @ t)
    = ([0xffff, of_nat (from_be (slice_of 0 2 ip)), of_nat (from_be (slice_of 2 2 ip))], True, t)"
proof -
  let ?s = "''ffff:'' @ v4_display ip @ t"
  have "hex_digit_char 15 = CHR ''f''" by code_simp
  then have f: "show_hex 65535 = ''ffff''" by (simp add: show_hex.simps)
  have "read_ipv4_addr (''ffff'' @ CHR '':'' # v4_display ip @ t) = None"
    by (rule read_ipv4_none) simp_all
  then have v: "read_separator (CHR '':'') 0 read_ipv4_addr ?s = None" by (simp add: read_separator_def)
  have "read_number 16 (Some 4) True 65536 (show_hex (unat (0xffff :: u16)) @ CHR '':'' # v4_display ip @ t)
      = Some (65535, CHR '':'' # v4_display ip @ t)"
    using read_group_show [of "CHR '':'' # v4_display ip @ t" "0xffff"] by simp
  then have n: "read_separator (CHR '':'') 0 (read_number 16 (Some 4) True 65536) ?s = Some (65535, CHR '':'' # v4_display ip @ t)"
    by (simp add: read_separator_def f)
  have ip: "read_separator (CHR '':'') 1 read_ipv4_addr (CHR '':'' # v4_display ip @ t) = Some (ip, t)"
    using read_ipv4_display [OF assms(2) closes_stops(1) [OF assms(1)]] by (simp add: read_separator_def)
  have "read_groups 7 1 (CHR '':'' # v4_display ip @ t)
      = ([of_nat (from_be (slice_of 0 2 ip)), of_nat (from_be (slice_of 2 2 ip))], True, t)"
    using ip by (subst read_groups.simps) (simp del: One_nat_def)
  then show ?thesis using v n by (subst read_groups.simps) simp
qed

lemma read_double_colon:
  assumes "closes (''::'' @ s)" "length head < 8"
    and "read_groups (8 - (length head + 1)) 0 s = (tail, v4, t)"
  shows "read_ipv6_addr (groups_display head @ ''::'' @ s) = Some (head @ replicate (8 - length head - length tail) 0 @ tail, t)"
  using read_groups_display [OF assms(1), of head 8] assms(2,3) by (simp add: read_ipv6_addr_def)

lemma read_ipv6_display:
  assumes "length gs = 8" "closes t" "hd t \<noteq> CHR '':''"
  shows "read_ipv6_addr (v6_display gs @ t) = Some (gs, t)"
proof -
  have cc: "closes (''::'' @ s)" for s by (simp add: closes_def)
  show ?thesis
  proof (cases "take 6 gs = [0, 0, 0, 0, 0, 0xffff]")
    case True
    obtain g h where gh: "drop 6 gs = [g, h]"
      using assms(1) by (cases "drop 6 gs"; cases "tl (drop 6 gs)"; cases "tl (tl (drop 6 gs))") (auto dest: arg_cong [where f = length])
    then have gs: "gs = [0, 0, 0, 0, 0, 0xffff, g, h]" using True append_take_drop_id [of 6 gs] by simp
    have w: "of_nat (from_be (to_be 2 (unat g))) = g" for g :: u16
      using unat_less_2p [of g] by (simp add: from_be_to_be_id del: to_be.simps)
    have r5: "replicate 5 0 = [0, 0, 0, 0, 0 :: u16]" by (simp add: numeral_eq_Suc)
    let ?ip = "to_be 2 (unat g) @ to_be 2 (unat h)"
    have r: "read_groups (8 - (length ([] :: u16 list) + 1)) 0 (''ffff:'' @ v4_display ?ip @ t) = ([0xffff, g, h], True, t)"
      using read_mapped [OF assms(2), of ?ip] w [of g] w [of h]
      by (simp add: slice_append_left slice_append_right slice_all del: to_be.simps)
    have "v6_display gs = ''::ffff:'' @ v4_display ?ip"
      unfolding v6_display_def using True gh by simp
    then show ?thesis
      using read_double_colon [OF cc _ r] by (simp add: groups_display_def gs r5)
  next
    case False
    obtain start len where run: "zero_run 0 (0, 0) (0, 0) gs = (start, len)" by (cases "zero_run 0 (0, 0) (0, 0) gs")
    have z: "zeros_at gs (length gs) (start, len)"
      using zero_run [of "[]" gs 0 "(0, 0)" "(0, 0)"] run by (simp add: zeros_at_def)
    show ?thesis
    proof (cases "len > 1")
      case True
      define head tail where ht: "head = take start gs" "tail = drop (start + len) gs"
      have l: "length head = start" "length tail = 8 - start - len" "start + len \<le> 8"
        using z assms(1) by (auto simp: ht zeros_at_def)
      have "read_groups (8 - (length head + 1)) 0 (groups_display tail @ t) = (tail, False, t)"
        by (rule read_groups_display [OF assms(2)]) (use l True in simp)
      then have "read_ipv6_addr (groups_display head @ ''::'' @ groups_display tail @ t)
          = Some (head @ replicate (8 - length head - length tail) 0 @ tail, t)"
        by (rule read_double_colon [OF cc, rotated]) (use l True in simp)
      moreover have "head @ replicate (8 - length head - length tail) 0 @ tail = gs"
        using zeros_at_split [OF z] l unfolding ht [symmetric] by simp
      ultimately show ?thesis
        using False True run unfolding v6_display_def ht by simp
    next
      case no_run: False
      then have "v6_display gs = groups_display gs" using False run by (simp add: v6_display_def)
      then show ?thesis
        using read_groups_display [OF assms(2), of gs 8] assms(1) by (simp add: read_ipv6_addr_def)
    qed
  qed
qed

lemma socket_v6_roundtrip:
  assumes "length gs = 8"
  shows "socket_addr_from_str (socket_display (SocketV6 gs p f sc)) = Some (SocketV6 gs p 0 sc)"
proof -
  have v4: "read_socket_addr_v4 (CHR ''['' # s) = None" for s
    using read_ipv4_none [of "[]" "CHR ''['' # s"] by (simp add: read_socket_addr_v4_def)
  have ends: "closes (CHR '']'' # s)" "closes (CHR ''%'' # s)" for s by (simp_all add: closes_def)
  have scope: "read_scope_id (CHR ''%'' # show_nat (unat sc) @ CHR '']'' # s) = Some (sc, CHR '']'' # s)" for s
    using unat_less_2p [of sc] by (simp add: read_scope_id_def read_number_show_nat)
  have no_scope: "read_scope_id (CHR '']'' # s) = None" for s by (simp add: read_scope_id_def)
  show ?thesis
    using read_port_show [of "[]" p]
    by (cases "sc = 0")
      (simp_all add: socket_addr_from_str_def v4 read_socket_addr_v6_def read_ipv6_display [OF assms] ends scope no_scope)
qed

section \<open>Hosts\<close>

definition wf_ip_or_host :: "ip_or_host \<Rightarrow> bool" where
  "wf_ip_or_host host \<longleftrightarrow> (case host of Dns _ _ \<Rightarrow> True | Ip a \<Rightarrow> wf_socket_addr a)"

text \<open>A text of a host ends with a digit, so removing the padding gives it back.\<close>

lemma last_show_nat: "last (show_nat n) \<noteq> PADDING_CHAR"
proof -
  have "is_digit (last (show_nat n))"
    using show_nat_digits [of n] last_in_set [OF show_nat_nonempty, of n] by (simp add: is_digits_def)
  then show ?thesis by (auto simp: is_digit_def PADDING_CHAR_def)
qed

lemma last_host: "last (ip_or_host_display host) \<noteq> PADDING_CHAR"
proof -
  have "\<exists>x n. ip_or_host_display host = x @ CHR '':'' # show_nat n"
  proof (cases host)
    case (Dns h p)
    then show ?thesis by auto
  next
    case (Ip a)
    then show ?thesis by (cases a) (simp; metis append_Cons append_Nil append_assoc)+
  qed
  then show ?thesis using last_show_nat show_nat_nonempty by auto
qed

lemma unpad: "host_unpadded (host_padded host k) = ip_or_host_from_str (ip_or_host_display host)"
  using last_host [of host]
  by (simp add: host_unpadded_def host_padded_def Let_def trim_end_matches_replicate trim_end_matches_id)

text \<open>
  C22. The text of a host, padded to any length as for sealing, gives back the host exactly when the
  host is an IPv4 address, an IPv6 address without flow information, or a name that has no colon and
  is not itself the text of an IPv4 address. Every other name reads as another host or not at all.
\<close>

theorem host_text_roundtrip:
  assumes "wf_ip_or_host host"
  shows "host_unpadded (host_padded host pad_len) = Ok host \<longleftrightarrow>
    (case host of
       Dns h _ \<Rightarrow> CHR '':'' \<notin> set h \<and> (\<forall>ip. read_ipv4_addr h \<noteq> Some (ip, []))
     | Ip (SocketV4 _ _) \<Rightarrow> True
     | Ip (SocketV6 _ _ flowinfo _) \<Rightarrow> flowinfo = 0)"
proof (cases host)
  case (Dns h p)
  then show ?thesis using dns_roundtrip [of h p] by (simp add: unpad)
next
  case (Ip a)
  show ?thesis
  proof (cases a)
    case (SocketV4 ip p)
    then show ?thesis
      using Ip assms socket_v4_roundtrip [of ip p] by (simp add: unpad ip_or_host_from_str_def wf_ip_or_host_def wf_socket_addr_def)
  next
    case (SocketV6 gs p f sc)
    then show ?thesis
      using Ip assms socket_v6_roundtrip [of gs p f sc]
      by (auto simp: unpad ip_or_host_from_str_def wf_ip_or_host_def wf_socket_addr_def simp del: socket_display.simps)
  qed
qed

theorem host_text_roundtrip_witness:
  "host_unpadded (host_padded (Ip (SocketV6 [0xfe80, 0, 0, 0, 0, 0, 0, 1] 443 0 3)) 7) = Ok (Ip (SocketV6 [0xfe80, 0, 0, 0, 0, 0, 0, 1] 443 0 3))"
  by (subst host_text_roundtrip) (simp_all add: wf_ip_or_host_def wf_socket_addr_def)

end
