(* ===== verification/Telemetry.thy ===== *)
theory Telemetry
  imports Prelude
begin

text \<open>
  \<open>telemetry/metrics.rs\<close> and \<open>telemetry/guard.rs\<close>: the global registry of meter providers and the
  instruments. What the metrics package has been told is kept as a list; the arithmetic of doubles on
  their bit patterns is the record \<open>f64_ops\<close>.
\<close>

section \<open>The registry\<close>

datatype metric_error = MetricError string

record 'p prefix_provider =
  pp_prefix :: string
  pp_provider :: 'p

record ('x, 'p) global_metric_state =
  gm_exporter :: 'x
  gm_provider :: 'p
  gm_prefix_providers :: "'p prefix_provider list"

text \<open>The cell that is set once.\<close>

type_synonym ('x, 'p) global_cell = "('x, 'p) global_metric_state option"

definition init_with_provider :: "'x \<Rightarrow> 'p \<Rightarrow> ('x, 'p) global_cell \<Rightarrow> bool \<times> ('x, 'p) global_cell" where
  "init_with_provider exporter provider st =
     (case st of
        None \<Rightarrow> (True, Some \<lparr>gm_exporter = exporter, gm_provider = provider, gm_prefix_providers = []\<rparr>)
      | Some _ \<Rightarrow> (False, st))"

text \<open>The built-in exporter and provider are an argument.\<close>

definition global_state :: "'x \<times> 'p \<Rightarrow> ('x, 'p) global_cell \<Rightarrow> ('x, 'p) global_metric_state" where
  "global_state built st =
     (case st of
        None \<Rightarrow> \<lparr>gm_exporter = fst built, gm_provider = snd built, gm_prefix_providers = []\<rparr>
      | Some s \<Rightarrow> s)"

fun set_provider :: "string \<Rightarrow> 'p \<Rightarrow> 'p prefix_provider list \<Rightarrow> 'p prefix_provider list" where
  "set_provider prefix provider [] = []"
| "set_provider prefix provider (e # es) =
     (if pp_prefix e = prefix then e\<lparr>pp_provider := provider\<rparr> # es else e # set_provider prefix provider es)"

definition register_prefix_provider :: "string \<Rightarrow> 'p \<Rightarrow> ('x, 'p) global_cell \<Rightarrow> bool \<times> ('x, 'p) global_cell" where
  "register_prefix_provider prefix provider st =
     (if prefix = [] then (False, st)
      else case st of
        None \<Rightarrow> (False, st)
      | Some s \<Rightarrow>
          let es = gm_prefix_providers s in
          if \<exists>e \<in> set es. pp_prefix e = prefix
          then (True, Some (s\<lparr>gm_prefix_providers := set_provider prefix provider es\<rparr>))
          else (True, Some (s\<lparr>gm_prefix_providers :=
             sort_key (\<lambda>b. - int (length (pp_prefix b))) (es @ [\<lparr>pp_prefix = prefix, pp_provider = provider\<rparr>])\<rparr>)))"

definition starts_with :: "string \<Rightarrow> string \<Rightarrow> bool" where
  "starts_with name p \<longleftrightarrow> take (length p) name = p"

text \<open>The provider whose meter a metric gets, and the cell, set if it was not.\<close>

definition meter_for_metric :: "'x \<times> 'p \<Rightarrow> string \<Rightarrow> ('x, 'p) global_cell \<Rightarrow> 'p \<times> ('x, 'p) global_cell" where
  "meter_for_metric built metric_name st =
     (let s = global_state built st in
      (case List.find (\<lambda>e. starts_with metric_name (pp_prefix e)) (gm_prefix_providers s) of
         Some e \<Rightarrow> pp_provider e
       | None \<Rightarrow> gm_provider s, Some s))"

definition gather_all_metrics ::
  "('x \<Rightarrow> (bytes, string) res) \<Rightarrow> (bytes \<Rightarrow> (string, string) res) \<Rightarrow> 'x \<times> 'p \<Rightarrow> ('x, 'p) global_cell
    \<Rightarrow> (string, metric_error) res \<times> ('x, 'p) global_cell" where
  "gather_all_metrics export from_utf8 built st =
     (let s = global_state built st in
      (and_then (map_err MetricError (export (gm_exporter s))) (\<lambda>buf. map_err MetricError (from_utf8 buf)), Some s))"

section \<open>Doubles in an atomic word\<close>

record f64_ops =
  f_add :: "u64 \<Rightarrow> u64 \<Rightarrow> u64"
  f_sub :: "u64 \<Rightarrow> u64 \<Rightarrow> u64"
  f_neg :: "u64 \<Rightarrow> u64"

definition f64_zero :: u64 where
  "f64_zero = 0"

text \<open>
  The threads that work on one word. \<open>fetch_add\<close> loads the word and tries to exchange it for the sum,
  and starts again when the exchange fails: because another thread has changed the word, or for no
  reason, as a weak exchange may. The log names the operations in the order they took effect.
\<close>

datatype atomic_op = FetchAdd u64 | Swap u64

datatype atomic_thread =
    Waiting atomic_op
  | Loaded u64 u64
  | Returned u64

record atomic_f64 =
  af_cell :: u64
  af_threads :: "atomic_thread list"
  af_log :: "(nat \<times> atomic_op) list"

inductive atomic_step :: "f64_ops \<Rightarrow> bool \<Rightarrow> atomic_f64 \<Rightarrow> atomic_f64 \<Rightarrow> bool" for F where
  load: "i < length (af_threads s) \<Longrightarrow> af_threads s ! i = Waiting (FetchAdd delta)
    \<Longrightarrow> atomic_step F False s (s\<lparr>af_threads := (af_threads s)[i := Loaded delta (af_cell s)]\<rparr>)"
| exchange: "i < length (af_threads s) \<Longrightarrow> af_threads s ! i = Loaded delta current \<Longrightarrow> af_cell s = current
    \<Longrightarrow> atomic_step F False s (s\<lparr>af_cell := f_add F current delta, af_threads := (af_threads s)[i := Returned (f_add F current delta)],
          af_log := af_log s @ [(i, FetchAdd delta)]\<rparr>)"
| retry: "i < length (af_threads s) \<Longrightarrow> af_threads s ! i = Loaded delta current \<Longrightarrow> af_cell s \<noteq> current
    \<Longrightarrow> atomic_step F False s (s\<lparr>af_threads := (af_threads s)[i := Waiting (FetchAdd delta)]\<rparr>)"
| spurious: "i < length (af_threads s) \<Longrightarrow> af_threads s ! i = Loaded delta current
    \<Longrightarrow> atomic_step F True s (s\<lparr>af_threads := (af_threads s)[i := Waiting (FetchAdd delta)]\<rparr>)"
| swap: "i < length (af_threads s) \<Longrightarrow> af_threads s ! i = Waiting (Swap v)
    \<Longrightarrow> atomic_step F False s (s\<lparr>af_cell := v, af_threads := (af_threads s)[i := Returned (af_cell s)],
          af_log := af_log s @ [(i, Swap v)]\<rparr>)"

code_pred atomic_step .

definition atomic_start :: "u64 \<Rightarrow> atomic_op list \<Rightarrow> atomic_f64" where
  "atomic_start v ops = \<lparr>af_cell = v, af_threads = map Waiting ops, af_log = []\<rparr>"

text \<open>What the operations are, one at a time: the new value of the word and the result.\<close>

fun atomic_apply :: "f64_ops \<Rightarrow> atomic_op \<Rightarrow> u64 \<Rightarrow> u64 \<times> u64" where
  "atomic_apply F (FetchAdd delta) v = (f_add F v delta, f_add F v delta)"
| "atomic_apply F (Swap w) v = (w, v)"

section \<open>Instruments\<close>

type_synonym attributes = "(string \<times> string) list"

text \<open>A handle of the package: its provider, name, description, and what has been added or recorded.\<close>

record ('p, 'v) instrument =
  in_provider :: 'p
  in_name :: string
  in_description :: string
  in_adds :: "('v \<times> attributes) list"

definition build_instrument ::
  "'x \<times> 'p \<Rightarrow> string \<Rightarrow> string \<Rightarrow> ('x, 'p) global_cell \<Rightarrow> ('p, 'v) instrument \<times> ('x, 'p) global_cell" where
  "build_instrument built name description st =
     (let (p, st') = meter_for_metric built name st
      in (\<lparr>in_provider = p, in_name = name, in_description = description, in_adds = []\<rparr>, st'))"

definition instrument_add :: "'v \<Rightarrow> attributes \<Rightarrow> ('p, 'v) instrument \<Rightarrow> ('p, 'v) instrument" where
  "instrument_add v attrs ins = ins\<lparr>in_adds := in_adds ins @ [(v, attrs)]\<rparr>"

text \<open>The numbers of labels are compared in debug builds only.\<close>

definition labels_to_attributes :: "bool \<Rightarrow> string list \<Rightarrow> string list \<Rightarrow> (attributes, 'e) res" where
  "labels_to_attributes debug keys values =
     (if debug \<and> length keys \<noteq> length values then Panic else Ok (zip keys values))"

record 'p simple_counter =
  sc_name :: string
  sc_ctr :: "('p, u64) instrument"
  sc_shadow :: u64

definition simple_counter_new ::
  "'x \<times> 'p \<Rightarrow> string \<Rightarrow> string \<Rightarrow> ('x, 'p) global_cell \<Rightarrow> ('p simple_counter, metric_error) res \<times> ('x, 'p) global_cell" where
  "simple_counter_new built name description st =
     (let (ctr, st') = build_instrument built name description st
      in (Ok \<lparr>sc_name = name, sc_ctr = ctr, sc_shadow = 0\<rparr>, st'))"

definition simple_counter_get :: "'p simple_counter \<Rightarrow> u64" where
  "simple_counter_get c = sc_shadow c"

definition simple_counter_increment_by :: "u64 \<Rightarrow> 'p simple_counter \<Rightarrow> 'p simple_counter" where
  "simple_counter_increment_by n c = c\<lparr>sc_ctr := instrument_add n [] (sc_ctr c), sc_shadow := sc_shadow c + n\<rparr>"

definition simple_counter_increment :: "'p simple_counter \<Rightarrow> 'p simple_counter" where
  "simple_counter_increment c = simple_counter_increment_by 1 c"

record 'p multi_counter =
  mc_name :: string
  mc_labels :: "string list"
  mc_ctr :: "('p, u64) instrument"

definition no_label :: "('a, metric_error) res" where
  "no_label = Err (MetricError ''at least a single label must be specified'')"

definition multi_counter_new ::
  "'x \<times> 'p \<Rightarrow> string \<Rightarrow> string \<Rightarrow> string list \<Rightarrow> ('x, 'p) global_cell
    \<Rightarrow> ('p multi_counter, metric_error) res \<times> ('x, 'p) global_cell" where
  "multi_counter_new built name description labels st =
     (if labels = [] then (no_label, st)
      else let (ctr, st') = build_instrument built name description st
           in (Ok \<lparr>mc_name = name, mc_labels = labels, mc_ctr = ctr\<rparr>, st'))"

definition multi_counter_increment_by ::
  "bool \<Rightarrow> string list \<Rightarrow> u64 \<Rightarrow> 'p multi_counter \<Rightarrow> ('p multi_counter, 'e) res" where
  "multi_counter_increment_by debug label_values n c =
     and_then (labels_to_attributes debug (mc_labels c) label_values) (\<lambda>attrs.
       Ok (c\<lparr>mc_ctr := instrument_add n attrs (mc_ctr c)\<rparr>))"

definition multi_counter_increment :: "bool \<Rightarrow> string list \<Rightarrow> 'p multi_counter \<Rightarrow> ('p multi_counter, 'e) res" where
  "multi_counter_increment debug label_values c = multi_counter_increment_by debug label_values 1 c"

subsection \<open>Gauges\<close>

record 'p simple_gauge =
  sg_name :: string
  sg_gauge :: "('p, u64) instrument"
  sg_shadow :: u64

definition simple_gauge_new ::
  "'x \<times> 'p \<Rightarrow> string \<Rightarrow> string \<Rightarrow> ('x, 'p) global_cell \<Rightarrow> ('p simple_gauge, metric_error) res \<times> ('x, 'p) global_cell" where
  "simple_gauge_new built name description st =
     (let (g, st') = build_instrument built name description st
      in (Ok \<lparr>sg_name = name, sg_gauge = g, sg_shadow = f64_zero\<rparr>, st'))"

definition simple_gauge_increment :: "f64_ops \<Rightarrow> u64 \<Rightarrow> 'p simple_gauge \<Rightarrow> 'p simple_gauge" where
  "simple_gauge_increment F v g =
     g\<lparr>sg_gauge := instrument_add v [] (sg_gauge g), sg_shadow := fst (atomic_apply F (FetchAdd v) (sg_shadow g))\<rparr>"

definition simple_gauge_decrement :: "f64_ops \<Rightarrow> u64 \<Rightarrow> 'p simple_gauge \<Rightarrow> 'p simple_gauge" where
  "simple_gauge_decrement F v g =
     g\<lparr>sg_gauge := instrument_add (f_neg F v) [] (sg_gauge g),
       sg_shadow := fst (atomic_apply F (FetchAdd (f_neg F v)) (sg_shadow g))\<rparr>"

definition simple_gauge_set :: "f64_ops \<Rightarrow> u64 \<Rightarrow> 'p simple_gauge \<Rightarrow> 'p simple_gauge" where
  "simple_gauge_set F value g =
     (let (new, previous) = atomic_apply F (Swap value) (sg_shadow g)
      in g\<lparr>sg_gauge := instrument_add (f_sub F value previous) [] (sg_gauge g), sg_shadow := new\<rparr>)"

definition simple_gauge_get :: "'p simple_gauge \<Rightarrow> u64" where
  "simple_gauge_get g = sg_shadow g"

text \<open>A guard increments when it is made and decrements when it is dropped.\<close>

definition gauge_guard_new :: "f64_ops \<Rightarrow> u64 \<Rightarrow> 'p simple_gauge \<Rightarrow> u64 \<times> 'p simple_gauge" where
  "gauge_guard_new F v metric = (v, simple_gauge_increment F v metric)"

definition gauge_guard_drop :: "f64_ops \<Rightarrow> u64 \<Rightarrow> 'p simple_gauge \<Rightarrow> 'p simple_gauge" where
  "gauge_guard_drop F guard metric = simple_gauge_decrement F guard metric"

record 'p multi_gauge =
  mg_name :: string
  mg_labels :: "string list"
  mg_gauge :: "('p, u64) instrument"
  mg_shadow :: "string list \<Rightarrow> u64 option"

definition multi_gauge_new ::
  "'x \<times> 'p \<Rightarrow> string \<Rightarrow> string \<Rightarrow> string list \<Rightarrow> ('x, 'p) global_cell
    \<Rightarrow> ('p multi_gauge, metric_error) res \<times> ('x, 'p) global_cell" where
  "multi_gauge_new built name description labels st =
     (if labels = [] then (no_label, st)
      else let (g, st') = build_instrument built name description st
           in (Ok \<lparr>mg_name = name, mg_labels = labels, mg_gauge = g, mg_shadow = Map.empty\<rparr>, st'))"

definition ensure_shadow :: "string list \<Rightarrow> 'p multi_gauge \<Rightarrow> 'p multi_gauge" where
  "ensure_shadow key g =
     (if mg_shadow g key \<noteq> None then g else g\<lparr>mg_shadow := (mg_shadow g)(key \<mapsto> f64_zero)\<rparr>)"

text \<open>One change of a shadow value.\<close>

definition shadow_apply :: "f64_ops \<Rightarrow> atomic_op \<Rightarrow> string list \<Rightarrow> 'p multi_gauge \<Rightarrow> 'p multi_gauge" where
  "shadow_apply F a key g =
     (case mg_shadow g key of
        None \<Rightarrow> g
      | Some v \<Rightarrow> g\<lparr>mg_shadow := (mg_shadow g)(key \<mapsto> fst (atomic_apply F a v))\<rparr>)"

definition multi_gauge_increment ::
  "bool \<Rightarrow> f64_ops \<Rightarrow> string list \<Rightarrow> u64 \<Rightarrow> 'p multi_gauge \<Rightarrow> ('p multi_gauge, 'e) res" where
  "multi_gauge_increment debug F label_values v g =
     and_then (labels_to_attributes debug (mg_labels g) label_values) (\<lambda>attrs.
     let g = ensure_shadow label_values (g\<lparr>mg_gauge := instrument_add v attrs (mg_gauge g)\<rparr>)
     in Ok (shadow_apply F (FetchAdd v) label_values g))"

definition multi_gauge_decrement ::
  "bool \<Rightarrow> f64_ops \<Rightarrow> string list \<Rightarrow> u64 \<Rightarrow> 'p multi_gauge \<Rightarrow> ('p multi_gauge, 'e) res" where
  "multi_gauge_decrement debug F label_values v g =
     and_then (labels_to_attributes debug (mg_labels g) label_values) (\<lambda>attrs.
     let g = ensure_shadow label_values (g\<lparr>mg_gauge := instrument_add (f_neg F v) attrs (mg_gauge g)\<rparr>)
     in Ok (shadow_apply F (FetchAdd (f_neg F v)) label_values g))"

text \<open>Setting makes the shadow entry before the labels are compared.\<close>

definition multi_gauge_set ::
  "bool \<Rightarrow> f64_ops \<Rightarrow> string list \<Rightarrow> u64 \<Rightarrow> 'p multi_gauge \<Rightarrow> ('p multi_gauge, 'e) res" where
  "multi_gauge_set debug F label_values value g =
     (let g = ensure_shadow label_values g in
     and_then (labels_to_attributes debug (mg_labels g) label_values) (\<lambda>attrs.
       Ok (case mg_shadow g label_values of
             None \<Rightarrow> g
           | Some previous \<Rightarrow>
               (shadow_apply F (Swap value) label_values g)\<lparr>mg_gauge :=
                  instrument_add (f_sub F value previous) attrs (mg_gauge g)\<rparr>)))"

definition multi_gauge_get :: "string list \<Rightarrow> 'p multi_gauge \<Rightarrow> u64 option" where
  "multi_gauge_get label_values g = mg_shadow g label_values"

definition multi_gauge_guard_new ::
  "bool \<Rightarrow> f64_ops \<Rightarrow> string list \<Rightarrow> u64 \<Rightarrow> 'p multi_gauge \<Rightarrow> ((string list \<times> u64) \<times> 'p multi_gauge, 'e) res" where
  "multi_gauge_guard_new debug F labels v metric =
     map_ok (\<lambda>m. ((labels, v), m)) (multi_gauge_increment debug F labels v metric)"

definition multi_gauge_guard_drop ::
  "bool \<Rightarrow> f64_ops \<Rightarrow> string list \<times> u64 \<Rightarrow> 'p multi_gauge \<Rightarrow> ('p multi_gauge, 'e) res" where
  "multi_gauge_guard_drop debug F guard metric = multi_gauge_decrement debug F (fst guard) (snd guard) metric"

subsection \<open>Histograms\<close>

text \<open>A timer holds the instant of its start; the seconds elapsed since are an argument.\<close>

record 'i simple_timer =
  tm_start :: 'i
  tm_labels :: "attributes option"

record 'p simple_histogram =
  sh_name :: string
  sh_buckets :: "u64 list"
  sh_hh :: "('p, u64) instrument"

definition simple_histogram_new ::
  "'x \<times> 'p \<Rightarrow> string \<Rightarrow> string \<Rightarrow> u64 list \<Rightarrow> ('x, 'p) global_cell
    \<Rightarrow> ('p simple_histogram, metric_error) res \<times> ('x, 'p) global_cell" where
  "simple_histogram_new built name description buckets st =
     (let (h, st') = build_instrument built name description st
      in (Ok \<lparr>sh_name = name, sh_buckets = buckets, sh_hh = h\<rparr>, st'))"

definition simple_histogram_observe :: "u64 \<Rightarrow> 'p simple_histogram \<Rightarrow> 'p simple_histogram" where
  "simple_histogram_observe value h = h\<lparr>sh_hh := instrument_add value [] (sh_hh h)\<rparr>"

definition simple_histogram_start_measure :: "'i \<Rightarrow> 'p simple_histogram \<Rightarrow> 'i simple_timer" where
  "simple_histogram_start_measure instant h = \<lparr>tm_start = instant, tm_labels = None\<rparr>"

definition simple_histogram_record_measure ::
  "('i \<Rightarrow> u64) \<Rightarrow> 'i simple_timer \<Rightarrow> 'p simple_histogram \<Rightarrow> 'p simple_histogram" where
  "simple_histogram_record_measure elapsed timer h = h\<lparr>sh_hh := instrument_add (elapsed (tm_start timer)) [] (sh_hh h)\<rparr>"

definition cancel_measure :: "('i \<Rightarrow> u64) \<Rightarrow> 'i simple_timer \<Rightarrow> u64" where
  "cancel_measure elapsed timer = elapsed (tm_start timer)"

record 'p multi_histogram =
  mh_name :: string
  mh_labels :: "string list"
  mh_buckets :: "u64 list"
  mh_hh :: "('p, u64) instrument"

definition multi_histogram_new ::
  "'x \<times> 'p \<Rightarrow> string \<Rightarrow> string \<Rightarrow> u64 list \<Rightarrow> string list \<Rightarrow> ('x, 'p) global_cell
    \<Rightarrow> ('p multi_histogram, metric_error) res \<times> ('x, 'p) global_cell" where
  "multi_histogram_new built name description buckets labels st =
     (if labels = [] then (no_label, st)
      else let (h, st') = build_instrument built name description st
           in (Ok \<lparr>mh_name = name, mh_labels = labels, mh_buckets = buckets, mh_hh = h\<rparr>, st'))"

definition multi_histogram_start_measure ::
  "bool \<Rightarrow> 'i \<Rightarrow> string list \<Rightarrow> 'p multi_histogram \<Rightarrow> ('i simple_timer, metric_error) res" where
  "multi_histogram_start_measure debug instant label_values h =
     map_ok (\<lambda>attrs. \<lparr>tm_start = instant, tm_labels = Some attrs\<rparr>) (labels_to_attributes debug (mh_labels h) label_values)"

definition multi_histogram_observe ::
  "bool \<Rightarrow> string list \<Rightarrow> u64 \<Rightarrow> 'p multi_histogram \<Rightarrow> ('p multi_histogram, 'e) res" where
  "multi_histogram_observe debug label_values value h =
     map_ok (\<lambda>attrs. h\<lparr>mh_hh := instrument_add value attrs (mh_hh h)\<rparr>) (labels_to_attributes debug (mh_labels h) label_values)"

definition multi_histogram_record_measure ::
  "('i \<Rightarrow> u64) \<Rightarrow> 'i simple_timer \<Rightarrow> 'p multi_histogram \<Rightarrow> 'p multi_histogram" where
  "multi_histogram_record_measure elapsed timer h =
     h\<lparr>mh_hh := instrument_add (elapsed (tm_start timer)) (case tm_labels timer of None \<Rightarrow> [] | Some attrs \<Rightarrow> attrs) (mh_hh h)\<rparr>"

end
