(* ===== verification/Telemetry_Spec.thy ===== *)
theory Telemetry_Spec
  imports Telemetry "HOL-Library.Multiset"
begin

text \<open>
  Correctness of the metrics: the longest registered prefix decides the provider of a metric, and the
  compare-and-exchange loop on an atomic word takes effect as one addition and ends.
\<close>

section \<open>The longest prefix\<close>

text \<open>
  The registrations as a map from prefixes to providers, and the specification of the choice: the
  prefixes of the name, the longest first.
\<close>

definition registered :: "(string \<times> 'p) list \<Rightarrow> string \<Rightarrow> 'p option" where
  "registered regs = fold (\<lambda>(p, v) m. if p = [] then m else m(p \<mapsto> v)) regs Map.empty"

definition longest_match :: "(string \<Rightarrow> 'p option) \<Rightarrow> string \<Rightarrow> 'p option" where
  "longest_match m name =
     (case List.find (\<lambda>k. m (take k name) \<noteq> None) (rev [0..<Suc (length name)]) of
        None \<Rightarrow> None | Some k \<Rightarrow> m (take k name))"

definition providers_map :: "'p prefix_provider list \<Rightarrow> string \<Rightarrow> 'p option" where
  "providers_map es = map_of (map (\<lambda>e. (pp_prefix e, pp_provider e)) es)"

text \<open>What every registration keeps: no empty prefix, no prefix twice, the longest prefixes first.\<close>

definition wf_providers :: "'p prefix_provider list \<Rightarrow> bool" where
  "wf_providers es \<longleftrightarrow> [] \<notin> pp_prefix ` set es \<and> distinct (map pp_prefix es)
     \<and> sorted (map (\<lambda>b. - int (length (pp_prefix b))) es)"

lemma set_provider_prefixes: "map pp_prefix (set_provider p v es) = map pp_prefix es"
  by (induction es) auto

lemma set_provider_map:
  "p \<in> pp_prefix ` set es \<Longrightarrow> providers_map (set_provider p v es) = (providers_map es)(p \<mapsto> v)"
  by (induction es) (auto simp: providers_map_def)

lemma providers_map_perm:
  assumes "mset es = mset fs" "distinct (map pp_prefix es)"
  shows "providers_map es = providers_map fs"
proof -
  have "distinct (map pp_prefix fs)" using assms by (metis mset_map mset_eq_imp_distinct_iff)
  moreover have "set es = set fs" using assms(1) by (rule mset_eq_setD)
  ultimately show ?thesis
    unfolding providers_map_def using assms(2)
    by (subst map_of_inject_set) (simp_all add: comp_def)
qed

lemma wf_providers_set:
  assumes "wf_providers es"
  shows "wf_providers (set_provider p v es)"
proof -
  have "map (\<lambda>b. - int (length (pp_prefix b))) es = map (\<lambda>q. - int (length q)) (map pp_prefix es)" for es :: "'a prefix_provider list"
    by simp
  then show ?thesis
    using assms set_provider_prefixes [of p v es] unfolding wf_providers_def by (metis image_set)
qed

lemma register_wf:
  assumes "wf_providers (gm_prefix_providers s)"
  obtains ok s' where "register_prefix_provider p v (Some s) = (ok, Some s')"
    "wf_providers (gm_prefix_providers s')"
    "providers_map (gm_prefix_providers s') = (if p = [] then providers_map (gm_prefix_providers s)
       else (providers_map (gm_prefix_providers s))(p \<mapsto> v))"
    "gm_provider s' = gm_provider s"
proof (cases "p = []")
  case True
  then show ?thesis using that [of False s] assms by (simp add: register_prefix_provider_def)
next
  case False
  let ?es = "gm_prefix_providers s"
  show ?thesis
  proof (cases "\<exists>e \<in> set ?es. pp_prefix e = p")
    case True
    then have "p \<in> pp_prefix ` set ?es" by auto
    then show ?thesis
      using that [of True "s\<lparr>gm_prefix_providers := set_provider p v ?es\<rparr>"] False True wf_providers_set [OF assms]
      by (simp add: register_prefix_provider_def set_provider_map)
  next
    case new: False
    let ?e = "\<lparr>pp_prefix = p, pp_provider = v\<rparr>"
    let ?fs = "sort_key (\<lambda>b. - int (length (pp_prefix b))) (?es @ [?e])"
    have d: "distinct (map pp_prefix (?es @ [?e]))"
      using new assms by (auto simp: wf_providers_def)
    have m: "mset (?es @ [?e]) = mset ?fs" by (simp only: mset_sort)
    have "providers_map ?fs = providers_map (?es @ [?e])"
      using providers_map_perm [OF m d] ..
    also have "\<dots> = (providers_map ?es)(p \<mapsto> v)"
    proof -
      have "dom [p \<mapsto> v] \<inter> dom (providers_map ?es) = {}"
        using new by (auto simp: providers_map_def dom_map_of_conv_image_fst)
      then have "[p \<mapsto> v] ++ providers_map ?es = providers_map ?es ++ [p \<mapsto> v]" by (rule map_add_comm)
      then show ?thesis by (simp add: providers_map_def)
    qed
    finally have map: "providers_map ?fs = (providers_map ?es)(p \<mapsto> v)" .
    have "wf_providers ?fs"
      unfolding wf_providers_def
    proof (intro conjI)
      show "[] \<notin> pp_prefix ` set ?fs" using assms False by (simp add: wf_providers_def)
      have "mset (map pp_prefix ?fs) = mset (map pp_prefix (?es @ [?e]))" by (simp only: mset_map m)
      then show "distinct (map pp_prefix ?fs)" using d mset_eq_imp_distinct_iff by blast
    qed (rule sorted_sort_key)
    then show ?thesis
      using that [of True "s\<lparr>gm_prefix_providers := ?fs\<rparr>"] False new map
      by (simp add: register_prefix_provider_def Let_def)
  qed
qed

lemma rev_upt_nth: "j \<le> n \<Longrightarrow> rev [0..<Suc n] ! j = n - j"
  by (simp add: rev_nth del: upt_Suc)

text \<open>The first match of a sorted list is the longest.\<close>

lemma find_longest:
  assumes "wf_providers es"
  shows "map_option pp_provider (List.find (\<lambda>e. starts_with name (pp_prefix e)) es) = longest_match (providers_map es) name"
proof (cases "List.find (\<lambda>e. starts_with name (pp_prefix e)) es")
  case None
  have "providers_map es (take k name) = None" for k
  proof (rule ccontr)
    assume "providers_map es (take k name) \<noteq> None"
    then obtain e where "e \<in> set es" "pp_prefix e = take k name"
      by (auto simp: providers_map_def map_of_eq_None_iff)
    moreover have "starts_with name (take k name)" by (simp add: starts_with_def min_def)
    ultimately show False using None by (metis find_None_iff)
  qed
  then show ?thesis using None by (simp add: longest_match_def find_None_iff split: option.splits)
next
  case (Some e)
  then obtain i where i: "i < length es" "es ! i = e" "starts_with name (pp_prefix e)"
    "\<And>j. j < i \<Longrightarrow> \<not> starts_with name (pp_prefix (es ! j))"
    by (auto simp: find_Some_iff)
  let ?n = "length (pp_prefix e)"
  have take: "take ?n name = pp_prefix e" using i(3) by (simp add: starts_with_def)
  have le: "?n \<le> length name" using take by (metis length_take min.cobounded1)
  have hit: "providers_map es (pp_prefix e) = Some (pp_provider e)"
    using assms i(1,2) by (auto simp: providers_map_def wf_providers_def comp_def intro!: map_of_is_SomeI)
  have longer: "providers_map es (take k name) = None" if "?n < k" "k \<le> length name" for k
  proof (rule ccontr)
    assume "providers_map es (take k name) \<noteq> None"
    then obtain f where "f \<in> set es" "pp_prefix f = take k name"
      by (auto simp: providers_map_def map_of_eq_None_iff)
    then obtain j where j: "j < length es" "pp_prefix (es ! j) = take k name" by (metis in_set_conv_nth)
    then have s: "starts_with name (pp_prefix (es ! j))" by (simp add: starts_with_def min_def)
    then have "i \<le> j" using i(4) not_less by blast
    then have "- int (length (pp_prefix (es ! i))) \<le> - int (length (pp_prefix (es ! j)))"
      using assms sorted_nth_mono [of "map (\<lambda>b. - int (length (pp_prefix b))) es" i j] i(1) j(1)
      by (simp add: wf_providers_def)
    then show False using i(2) j(2) that by simp
  qed
  have "List.find (\<lambda>k. providers_map es (take k name) \<noteq> None) (rev [0..<Suc (length name)]) = Some ?n"
    unfolding find_Some_iff
    using hit take le longer by (intro exI [of _ "length name - ?n"]) (auto simp: rev_upt_nth simp del: upt_Suc)
  then show ?thesis using Some hit take by (simp add: longest_match_def)
qed

lemma register_all:
  assumes "wf_providers (gm_prefix_providers s)"
  shows "\<exists>s'. fold (\<lambda>(p, v) st. snd (register_prefix_provider p v st)) regs (Some s) = Some s'
    \<and> wf_providers (gm_prefix_providers s') \<and> gm_provider s' = gm_provider s
    \<and> providers_map (gm_prefix_providers s')
      = fold (\<lambda>(p, v) m. if p = [] then m else m(p \<mapsto> v)) regs (providers_map (gm_prefix_providers s))"
  using assms
proof (induction regs arbitrary: s)
  case (Cons r regs)
  obtain p v where r: "r = (p, v)" by (cases r)
  obtain ok s1 where s1: "register_prefix_provider p v (Some s) = (ok, Some s1)" "wf_providers (gm_prefix_providers s1)"
    "providers_map (gm_prefix_providers s1) = (if p = [] then providers_map (gm_prefix_providers s)
       else (providers_map (gm_prefix_providers s))(p \<mapsto> v))" "gm_provider s1 = gm_provider s"
    using Cons.prems by (rule register_wf)
  show ?case using Cons.IH [OF s1(2)] s1 by (auto simp: r)
qed simp

text \<open>
  C23. After any sequence of registrations, the meter of a metric comes from the provider last
  registered for the longest prefix of its name that was registered at all, and from the global
  provider when there is none; the kept list refines this map.
\<close>

theorem longest_prefix_provider:
  "fst (meter_for_metric built name
     (fold (\<lambda>(p, v) st. snd (register_prefix_provider p v st)) regs (snd (init_with_provider exporter provider None))))
   = (case longest_match (registered regs) name of None \<Rightarrow> provider | Some v \<Rightarrow> v)"
proof -
  let ?s = "\<lparr>gm_exporter = exporter, gm_provider = provider, gm_prefix_providers = []\<rparr>"
  have wf: "wf_providers (gm_prefix_providers ?s)" by (simp add: wf_providers_def)
  obtain s' where s': "fold (\<lambda>(p, v) st. snd (register_prefix_provider p v st)) regs (Some ?s) = Some s'"
    "wf_providers (gm_prefix_providers s')" "gm_provider s' = provider"
    "providers_map (gm_prefix_providers s') = registered regs"
    using register_all [OF wf, of regs] by (auto simp: providers_map_def registered_def)
  then show ?thesis
    using find_longest [OF s'(2), of name]
    by (auto simp: init_with_provider_def meter_for_metric_def global_state_def Let_def split: option.splits)
qed

section \<open>Atomic doubles\<close>

abbreviation atomic_run :: "f64_ops \<Rightarrow> atomic_f64 \<Rightarrow> atomic_f64 \<Rightarrow> bool" where
  "atomic_run F \<equiv> (\<lambda>s s'. \<exists>b. atomic_step F b s s')\<^sup>*\<^sup>*"

text \<open>The word after the operations of a log, one at a time.\<close>

definition replay :: "f64_ops \<Rightarrow> u64 \<Rightarrow> (nat \<times> atomic_op) list \<Rightarrow> u64" where
  "replay F v log = foldl (\<lambda>v (_, a). fst (atomic_apply F a v)) v log"

lemma replay_simps [simp]: "replay F v [] = v" "replay F v (log @ [(i, a)]) = fst (atomic_apply F a (replay F v log))"
  by (simp_all add: replay_def)

text \<open>The state of one thread against the log.\<close>

definition thread_ok :: "f64_ops \<Rightarrow> u64 \<Rightarrow> (nat \<times> atomic_op) list \<Rightarrow> nat \<Rightarrow> atomic_op \<Rightarrow> atomic_thread \<Rightarrow> bool" where
  "thread_ok F v log i a t \<longleftrightarrow>
     (case t of
        Waiting a' \<Rightarrow> a' = a \<and> i \<notin> fst ` set log
      | Loaded d _ \<Rightarrow> a = FetchAdd d \<and> i \<notin> fst ` set log
      | Returned r \<Rightarrow> \<exists>pre post. log = pre @ (i, a) # post \<and> r = snd (atomic_apply F a (replay F v pre)))"

definition atomic_inv :: "f64_ops \<Rightarrow> u64 \<Rightarrow> atomic_op list \<Rightarrow> atomic_f64 \<Rightarrow> bool" where
  "atomic_inv F v ops s \<longleftrightarrow>
     length (af_threads s) = length ops \<and> distinct (map fst (af_log s))
   \<and> (\<forall>(i, a) \<in> set (af_log s). i < length ops \<and> a = ops ! i)
   \<and> af_cell s = replay F v (af_log s)
   \<and> (\<forall>i < length ops. thread_ok F v (af_log s) i (ops ! i) (af_threads s ! i))"

lemma atomic_inv_start: "atomic_inv F v ops (atomic_start v ops)"
  by (simp add: atomic_inv_def atomic_start_def thread_ok_def)

lemma thread_ok_other: "j \<noteq> i \<Longrightarrow> thread_ok F v log j a t \<Longrightarrow> thread_ok F v (log @ [(i, b)]) j a t"
  by (cases t) (auto simp: thread_ok_def, metis append_assoc append_Cons)

text \<open>A step that changes one thread only, and a step that takes effect.\<close>

lemma atomic_inv_local:
  assumes "atomic_inv F v ops s" "thread_ok F v (af_log s) i (ops ! i) t"
  shows "atomic_inv F v ops (s\<lparr>af_threads := (af_threads s)[i := t]\<rparr>)"
proof -
  have "thread_ok F v (af_log s) j (ops ! j) ((af_threads s)[i := t] ! j)" if "j < length ops" for j
    using assms that by (cases "i = j") (simp_all add: atomic_inv_def)
  then show ?thesis using assms(1) by (simp add: atomic_inv_def)
qed

lemma atomic_inv_effect:
  assumes inv: "atomic_inv F v ops s" and i: "i < length (af_threads s)" "i \<notin> fst ` set (af_log s)"
    and w: "atomic_apply F (ops ! i) (af_cell s) = (w, r)"
  shows "atomic_inv F v ops (s\<lparr>af_cell := w, af_threads := (af_threads s)[i := Returned r], af_log := af_log s @ [(i, ops ! i)]\<rparr>)"
proof -
  have "thread_ok F v (af_log s @ [(i, ops ! i)]) i (ops ! i) (Returned r)"
    using w inv by (auto simp: thread_ok_def atomic_inv_def)
  then show ?thesis
    using inv i w by (auto simp: atomic_inv_def nth_list_update thread_ok_other)
qed

lemma atomic_inv_step:
  assumes "atomic_step F b s s'" "atomic_inv F v ops s"
  shows "atomic_inv F v ops s'"
proof -
  have ok: "thread_ok F v (af_log s) i (ops ! i) (af_threads s ! i)" if "i < length (af_threads s)" for i
    using assms(2) that by (simp add: atomic_inv_def)
  from assms(1) show ?thesis
  proof cases
    case (load i delta)
    then show ?thesis
      using ok [of i] by (auto intro!: atomic_inv_local [OF assms(2)] simp: thread_ok_def)
  next
    case (exchange i delta current)
    then have "i \<notin> fst ` set (af_log s)" "ops ! i = FetchAdd delta" using ok [of i] by (auto simp: thread_ok_def)
    then show ?thesis using atomic_inv_effect [OF assms(2) exchange(3)] exchange by simp
  next
    case (retry i delta current)
    then show ?thesis
      using ok [of i] by (auto intro!: atomic_inv_local [OF assms(2)] simp: thread_ok_def)
  next
    case (spurious i delta current)
    then show ?thesis
      using ok [of i] by (auto intro!: atomic_inv_local [OF assms(2)] simp: thread_ok_def)
  next
    case (swap i x)
    then have "i \<notin> fst ` set (af_log s)" "ops ! i = Swap x" using ok [of i] by (auto simp: thread_ok_def)
    then show ?thesis using atomic_inv_effect [OF assms(2) swap(3)] swap by simp
  qed
qed

lemma atomic_inv_run: "atomic_run F (atomic_start v ops) s \<Longrightarrow> atomic_inv F v ops s"
  by (induction rule: rtranclp_induct) (auto simp: atomic_inv_start intro: atomic_inv_step)

text \<open>
  C19. The loop is linearizable: however the threads interleave, and whenever the exchange fails, the
  word is what the operations of the log give one after another, no thread is in the log twice, and a
  thread that has returned has the result of its operation at its place in that order.
\<close>

theorem atomic_f64_linearizable:
  assumes "atomic_run F (atomic_start v ops) s"
  shows "af_cell s = replay F v (af_log s) \<and> distinct (map fst (af_log s))
    \<and> (\<forall>(i, a) \<in> set (af_log s). i < length ops \<and> a = ops ! i)
    \<and> (\<forall>i < length ops. \<forall>r. af_threads s ! i = Returned r \<longrightarrow>
        (\<exists>pre post. af_log s = pre @ (i, ops ! i) # post \<and> r = snd (atomic_apply F (ops ! i) (replay F v pre))))"
proof -
  have inv: "atomic_inv F v ops s" using assms by (rule atomic_inv_run)
  have "\<exists>pre post. af_log s = pre @ (i, ops ! i) # post \<and> r = snd (atomic_apply F (ops ! i) (replay F v pre))"
    if "i < length ops" "af_threads s ! i = Returned r" for i r
    using inv that by (fastforce simp: atomic_inv_def thread_ok_def)
  then show ?thesis using inv by (simp add: atomic_inv_def)
qed

section \<open>The loop ends\<close>

text \<open>What a thread can still cost: a load, an exchange, and a repetition for every other effect.\<close>

definition thread_cost :: "nat \<Rightarrow> u64 \<Rightarrow> atomic_thread \<Rightarrow> nat" where
  "thread_cost n c t =
     (case t of
        Waiting _ \<Rightarrow> 2 * n + 2
      | Loaded _ current \<Rightarrow> if current = c then 2 * n + 1 else 2 * n + 3
      | Returned _ \<Rightarrow> 0)"

definition run_cost :: "nat \<Rightarrow> u64 \<Rightarrow> atomic_thread list \<Rightarrow> nat" where
  "run_cost n c ts = sum_list (map (thread_cost n c) ts)"

lemma run_cost_update:
  "i < length ts \<Longrightarrow> run_cost n c (ts[i := t]) + thread_cost n c (ts ! i) = run_cost n c ts + thread_cost n c t"
  using member_le_sum_list [of "thread_cost n c (ts ! i)" "map (thread_cost n c) ts"]
  by (simp add: run_cost_def map_update sum_list_update nth_map)

lemma run_cost_change: "run_cost n c' ts \<le> run_cost n c ts + 2 * length ts"
proof (induction ts)
  case (Cons t ts)
  have "thread_cost n c' t \<le> thread_cost n c t + 2" by (simp add: thread_cost_def split: atomic_thread.splits)
  with Cons show ?case by (simp add: run_cost_def)
qed (simp add: run_cost_def)

lemma run_cost_effect:
  assumes "i < length ts" "length ts = n" "2 * n < thread_cost n c (ts ! i)"
  shows "run_cost n c' (ts[i := Returned r]) < run_cost n c ts"
  using run_cost_change [of n c' "ts[i := Returned r]" c] run_cost_update [OF assms(1), of n c "Returned r"] assms
  by (simp add: thread_cost_def)

lemma atomic_step_cost:
  assumes "atomic_step F False s s'" "length (af_threads s) = n"
  shows "run_cost n (af_cell s') (af_threads s') < run_cost n (af_cell s) (af_threads s) \<and> length (af_threads s') = n"
  using assms(1)
proof cases
  case (load i delta)
  then show ?thesis using run_cost_update [of i "af_threads s" n "af_cell s" "Loaded delta (af_cell s)"] assms(2)
    by (simp add: thread_cost_def)
next
  case (exchange i delta current)
  then show ?thesis
    using run_cost_effect [OF exchange(2), of n current "f_add F current delta"] assms(2) by (simp add: thread_cost_def)
next
  case (retry i delta current)
  then show ?thesis using run_cost_update [of i "af_threads s" n "af_cell s" "Waiting (FetchAdd delta)"] assms(2)
    by (simp add: thread_cost_def)
next
  case (swap i x)
  then show ?thesis
    using run_cost_effect [OF swap(2), of n "af_cell s" x] assms(2) by (simp add: thread_cost_def)
qed simp

lemma atomic_steps_cost:
  "(atomic_step F False ^^ k) s s' \<Longrightarrow> length (af_threads s) = n \<Longrightarrow>
     run_cost n (af_cell s') (af_threads s') + k \<le> run_cost n (af_cell s) (af_threads s) \<and> length (af_threads s') = n"
proof (induction k arbitrary: s')
  case (Suc k)
  then obtain u where "(atomic_step F False ^^ k) s u" "atomic_step F False u s'" by auto
  then show ?case using Suc.IH Suc.prems(2) atomic_step_cost by fastforce
qed simp

lemma atomic_progress:
  assumes "i < length (af_threads s)" "\<And>r. af_threads s ! i \<noteq> Returned r"
  shows "\<exists>s'. atomic_step F False s s'"
proof (cases "af_threads s ! i")
  case (Waiting a)
  then show ?thesis using assms(1) atomic_step.load atomic_step.swap by (cases a) blast+
next
  case (Loaded d c)
  then show ?thesis using assms(1) atomic_step.exchange atomic_step.retry by (cases "af_cell s = c") blast+
qed (use assms(2) in blast)

text \<open>
  C20. The loop ends: without spurious failures no run of n threads has more than 2 n (n + 1) steps,
  whatever the interleaving, and a run that cannot go on has let every thread return.
\<close>

theorem atomic_f64_terminates:
  assumes "(atomic_step F False ^^ k) (atomic_start v ops) s"
  shows "k \<le> 2 * length ops * (length ops + 1)
    \<and> ((\<exists>s'. atomic_step F False s s') \<or> (\<forall>t \<in> set (af_threads s). \<exists>r. t = Returned r))"
proof -
  have len: "length (af_threads (atomic_start v ops)) = length ops" by (simp add: atomic_start_def)
  have "run_cost (length ops) v (map Waiting ops) = length ops * (2 * length ops + 2)" for n :: nat
    by (simp add: run_cost_def thread_cost_def comp_def sum_list_triv)
  then have "k \<le> length ops * (2 * length ops + 2)"
    using atomic_steps_cost [OF assms len] by (simp add: atomic_start_def)
  then have "k \<le> 2 * length ops * (length ops + 1)" by (simp add: algebra_simps)
  then show ?thesis using atomic_progress by (metis in_set_conv_nth)
qed

text \<open>Two threads that race: the first exchange of the second fails.\<close>

definition ops_toy :: f64_ops where
  "ops_toy = \<lparr>f_add = (+), f_sub = (-), f_neg = uminus\<rparr>"

lemma race:
  "atomic_step ops_toy False (atomic_start 1 [FetchAdd 2, FetchAdd 3])
     \<lparr>af_cell = 1, af_threads = [Loaded 2 1, Waiting (FetchAdd 3)], af_log = []\<rparr>"
  "atomic_step ops_toy False \<lparr>af_cell = 1, af_threads = [Loaded 2 1, Waiting (FetchAdd 3)], af_log = []\<rparr>
     \<lparr>af_cell = 3, af_threads = [Returned 3, Waiting (FetchAdd 3)], af_log = [(0, FetchAdd 2)]\<rparr>"
  using atomic_step.load [of 0 "atomic_start 1 [FetchAdd 2, FetchAdd 3]" 2 ops_toy]
    atomic_step.exchange [of 0 "\<lparr>af_cell = 1, af_threads = [Loaded 2 1, Waiting (FetchAdd 3)], af_log = []\<rparr>" 2 1 ops_toy]
  by (simp_all add: atomic_start_def ops_toy_def)

theorem atomic_f64_linearizable_witness:
  "\<exists>s. atomic_run ops_toy (atomic_start 1 [FetchAdd 2, FetchAdd 3]) s \<and> af_cell s = 3 \<and> af_threads s ! 0 = Returned 3
     \<and> replay ops_toy 1 (af_log s) = 3"
proof -
  let ?s = "\<lparr>af_cell = 3, af_threads = [Returned 3, Waiting (FetchAdd 3)], af_log = [(0, FetchAdd 2)]\<rparr>"
  have "atomic_run ops_toy (atomic_start 1 [FetchAdd 2, FetchAdd 3]) ?s"
    using race by (blast intro: converse_rtranclp_into_rtranclp)
  then show ?thesis using atomic_f64_linearizable by fastforce
qed

theorem atomic_f64_terminates_witness:
  "\<exists>s. (atomic_step ops_toy False ^^ 2) (atomic_start 1 [FetchAdd 2, FetchAdd 3]) s \<and> (2 :: nat) \<le> 2 * 2 * (2 + 1)"
proof -
  have "(atomic_step ops_toy False ^^ 2) (atomic_start 1 [FetchAdd 2, FetchAdd 3])
      \<lparr>af_cell = 3, af_threads = [Returned 3, Waiting (FetchAdd 3)], af_log = [(0, FetchAdd 2)]\<rparr>"
    using race by (auto simp: numeral_2_eq_2)
  then show ?thesis using atomic_f64_terminates [of 2 ops_toy 1 "[FetchAdd 2, FetchAdd 3]"] by fastforce
qed

end
