(* ===== verification/Curvy.thy ===== *)
theory Curvy
  imports Pix_Keys
begin

text \<open>
  \<open>crypto/curvy.rs\<close>: the identity and the capability of the Curvy note discovery, and their encodings.
\<close>

definition CURVY_SCAN_PUBLIC_KEY_SIZE :: nat where
  "CURVY_SCAN_PUBLIC_KEY_SIZE = SIZE_COMPRESSED + BN254_SIZE"

definition CURVY_SCAN_SECRET_SIZE :: nat where
  "CURVY_SCAN_SECRET_SIZE = SECRET_KEY_LENGTH + SIZE_COMPRESSED"

section \<open>The public identity\<close>

record 'p curvy_scan_public_key =
  csp_spend_meta_key :: "'p public_key"
  csp_view_key :: bn254_public_key

definition curvy_public_new :: "'p public_key \<Rightarrow> bn254_public_key \<Rightarrow> 'p curvy_scan_public_key" where
  "curvy_public_new spend_meta_key view_key = \<lparr>csp_spend_meta_key = spend_meta_key, csp_view_key = view_key\<rparr>"

text \<open>Copying into the two parts of the buffer unwinds on another length.\<close>

definition curvy_public_into :: "'p curvy_scan_public_key \<Rightarrow> (bytes, 'e) res" where
  "curvy_public_into value =
     (let k = pk_compressed (csp_spend_meta_key value); v = bn254_bytes (csp_view_key value)
      in if length k = SIZE_COMPRESSED \<and> length v = BN254_SIZE then Ok (k @ v) else Panic)"

definition curvy_public_try_from :: "'p secp \<Rightarrow> bnlib \<Rightarrow> bytes \<Rightarrow> ('p curvy_scan_public_key, general_error) res" where
  "curvy_public_try_from L N value =
     (if length value \<noteq> CURVY_SCAN_PUBLIC_KEY_SIZE then Err (ParseError ''CurvyScanPublicKey'')
      else
        and_then (public_key_try_from L (take SIZE_COMPRESSED value)) (\<lambda>k.
        and_then (bn254_try_from N (drop SIZE_COMPRESSED value)) (\<lambda>v.
          Ok (curvy_public_new k v))))"

section \<open>The scan capability\<close>

record 'p curvy_scan_secret =
  css_view :: bn254_keypair
  css_spend_meta_key :: "'p public_key"

definition curvy_secret_new :: "bn254_keypair \<Rightarrow> 'p public_key \<Rightarrow> 'p curvy_scan_secret" where
  "curvy_secret_new view_pair spend_meta_key = \<lparr>css_view = view_pair, css_spend_meta_key = spend_meta_key\<rparr>"

definition curvy_secret_public :: "'p curvy_scan_secret \<Rightarrow> 'p curvy_scan_public_key" where
  "curvy_secret_public s = curvy_public_new (css_spend_meta_key s) (bn254_public (css_view s))"

definition curvy_secret_to_bytes :: "'p curvy_scan_secret \<Rightarrow> (secret_value, crypto_error) res" where
  "curvy_secret_to_bytes s =
     and_then (bn254_keypair_secret_be (css_view s)) (\<lambda>be.
       let k = pk_compressed (css_spend_meta_key s)
       in if length (secret_bytes be) = SECRET_KEY_LENGTH \<and> length k = SIZE_COMPRESSED
          then Ok (SecretValue (secret_bytes be @ k)) else Panic)"

definition curvy_secret_try_from :: "'p secp \<Rightarrow> bnlib \<Rightarrow> bytes \<Rightarrow> ('p curvy_scan_secret, general_error) res" where
  "curvy_secret_try_from L N value =
     (if length value \<noteq> CURVY_SCAN_SECRET_SIZE then Err (ParseError ''CurvyScanSecret'')
      else
        and_then (map_err (\<lambda>_. ParseError ''Curvy view scalar v'') (bn254_keypair_from_secret_be N (take SECRET_KEY_LENGTH value))) (\<lambda>view_pair.
        and_then (public_key_try_from L (drop SECRET_KEY_LENGTH value)) (\<lambda>k.
          Ok (curvy_secret_new view_pair k))))"

section \<open>Round trips\<close>

definition wf_curvy_public :: "'p secp \<Rightarrow> bnlib \<Rightarrow> 'p curvy_scan_public_key \<Rightarrow> bool" where
  "wf_curvy_public L N c \<longleftrightarrow> wf_public_key L (csp_spend_meta_key c) \<and> wf_bn254 N (csp_view_key c)"

text \<open>A capability whose key pair was made from its secret.\<close>

definition wf_curvy_secret :: "'p secp \<Rightarrow> bnlib \<Rightarrow> 'p curvy_scan_secret \<Rightarrow> bool" where
  "wf_curvy_secret L N s \<longleftrightarrow> wf_public_key L (css_spend_meta_key s)
     \<and> (\<exists>be. bn254_keypair_from_secret_be N be = Ok (css_view s))"

lemma compressed_length:
  assumes "secp_ok L" "wf_public_key L pk"
  shows "length (pk_compressed pk) = SIZE_COMPRESSED" "public_key_try_from L (pk_compressed pk) = Ok pk"
  using secp_ok_point(1) [OF assms(1)] wf_public_keyD [OF assms(2)] public_key_parse [OF assms]
  by (simp_all add: SIZE_COMPRESSED_def)

text \<open>
  Both encodings of the Curvy keys are read back: the identity gives 65 bytes that parse to it, the
  capability gives 65 bytes that parse to it and thus to the same identity; what parses is well
  formed.
\<close>

theorem curvy_roundtrip:
  assumes "secp_ok L" "bnlib_ok N"
  shows "(wf_curvy_public L N c \<longrightarrow>
      (\<exists>bs. curvy_public_into c = Ok bs \<and> length bs = 65 \<and> curvy_public_try_from L N bs = Ok c))
    \<and> (wf_curvy_secret L N s \<longrightarrow>
      (\<exists>bs. curvy_secret_to_bytes s = Ok (SecretValue bs) \<and> length bs = 65 \<and> curvy_secret_try_from L N bs = Ok s))
    \<and> (curvy_public_try_from L N value = Ok c \<longrightarrow> wf_curvy_public L N c)
    \<and> (curvy_secret_try_from L N value = Ok s \<longrightarrow> wf_curvy_secret L N s)"
proof (intro conjI impI)
  assume "wf_curvy_public L N c"
  then have k: "length (pk_compressed (csp_spend_meta_key c)) = SIZE_COMPRESSED"
    "public_key_try_from L (pk_compressed (csp_spend_meta_key c)) = Ok (csp_spend_meta_key c)"
    and v: "length (bn254_bytes (csp_view_key c)) = BN254_SIZE"
    "bn254_try_from N (bn254_bytes (csp_view_key c)) = Ok (csp_view_key c)"
    using compressed_length [OF assms(1)] bn254.try_from_as_ref by (auto simp: wf_curvy_public_def wf_bn254_def)
  show "\<exists>bs. curvy_public_into c = Ok bs \<and> length bs = 65 \<and> curvy_public_try_from L N bs = Ok c"
    using k v by (simp add: curvy_public_into_def curvy_public_try_from_def CURVY_SCAN_PUBLIC_KEY_SIZE_def
        SIZE_COMPRESSED_def BN254_SIZE_def curvy_public_new_def)
next
  assume wf: "wf_curvy_secret L N s"
  then obtain be where be: "bn254_keypair_from_secret_be N be = Ok (css_view s)" by (auto simp: wf_curvy_secret_def)
  then have s: "length be = 32" "bn254_keypair_secret_be (css_view s) = Ok (SecretValue be)"
    using bn254_keypair_endianness [OF assms(2), of be "css_view s"] by (auto simp: is_ok_iff)
  have k: "length (pk_compressed (css_spend_meta_key s)) = SIZE_COMPRESSED"
    "public_key_try_from L (pk_compressed (css_spend_meta_key s)) = Ok (css_spend_meta_key s)"
    using compressed_length [OF assms(1)] wf by (auto simp: wf_curvy_secret_def)
  show "\<exists>bs. curvy_secret_to_bytes s = Ok (SecretValue bs) \<and> length bs = 65 \<and> curvy_secret_try_from L N bs = Ok s"
    using s k be by (simp add: curvy_secret_to_bytes_def curvy_secret_try_from_def CURVY_SCAN_SECRET_SIZE_def
        SECRET_KEY_LENGTH_def SIZE_COMPRESSED_def curvy_secret_new_def)
next
  assume "curvy_public_try_from L N value = Ok c"
  then show "wf_curvy_public L N c"
    using public_key_try_from_wf [OF assms(1)] bn254.try_from_Ok
    by (auto simp: curvy_public_try_from_def wf_curvy_public_def curvy_public_new_def split: if_splits)
next
  assume "curvy_secret_try_from L N value = Ok s"
  then show "wf_curvy_secret L N s"
    using public_key_try_from_wf [OF assms(1)]
    by (auto simp: curvy_secret_try_from_def wf_curvy_secret_def curvy_secret_new_def split: if_splits)
qed

end
