(* ===== verification/Chain_Events.thy ===== *)
theory Chain_Events
  imports Accounts Services Ticket_Flow
begin

text \<open>
  \<open>chain/chain_events.rs\<close>: the events of the chain and their texts. The \<open>Debug\<close> text of a list of
  multiaddresses and the text of a double with eight decimals are arguments.
\<close>

section \<open>Texts of accounts\<close>

definition option_address_debug :: "hexlib \<Rightarrow> address option \<Rightarrow> string" where
  "option_address_debug h a =
     (case a of None \<Rightarrow> ''None'' | Some a \<Rightarrow> ''Some('' @ to_hex h address_bytes a @ '')'')"

definition account_type_display :: "('m list \<Rightarrow> string) \<Rightarrow> 'm account_type \<Rightarrow> string" where
  "account_type_display debug t =
     (case t of NotAnnounced \<Rightarrow> ''not announced'' | Announced ms \<Rightarrow> ''announced via '' @ debug ms)"

text \<open>A key that is not a point of the curve has no peer id, and printing it unwinds.\<close>

definition account_entry_display ::
  "'e edlib \<Rightarrow> hexlib \<Rightarrow> ('m list \<Rightarrow> string) \<Rightarrow> 'm account_entry \<Rightarrow> (string, 'x) res" where
  "account_entry_display E h debug a =
     map_ok (\<lambda>peer. ''account '' @ to_hex h key_ident_bytes (ae_key_id a) @ '' ('' @ to_hex h address_bytes (ae_chain_addr a) @ '':'' @ peer
         @ '') (safe: '' @ option_address_debug h (ae_safe_address a) @ '') '' @ account_type_display debug (ae_entry_type a))
       (expect (to_peerid_str E (ae_public_key a)))"

definition wp_display :: "(f64 \<Rightarrow> string) \<Rightarrow> winning_probability \<Rightarrow> string" where
  "wp_display decimals p = decimals (wp_as_f64 p)"

section \<open>Events\<close>

datatype 'm chain_event =
    AnnouncementEvent "'m account_entry"
  | ChannelOpened channel_entry
  | ChannelClosureInitiated channel_entry
  | ChannelClosed channel_entry
  | ChannelBalanceIncreased channel_entry hopr_balance
  | ChannelBalanceDecreased channel_entry hopr_balance
  | TicketRedeemed channel_entry "verified_ticket option"
  | WinningProbabilityIncreased winning_probability
  | WinningProbabilityDecreased winning_probability
  | TicketPriceChanged hopr_balance
  | ServiceRegistered service_entry
  | ServiceUpdated service_entry
  | ServiceDeregistered service_type address
  | ServiceTypeRegistered service_type address
  | ServiceTypeOwnerChanged service_type "address option"
  | ServiceTypeRequirementChanged service_type "address option"
  | ServiceTypeRegistrationBurnChanged service_type hopr_balance
  | ServiceTypeUpdateBurnChanged service_type hopr_balance
  | ServiceTypeRegistrationFeeChanged hopr_balance
  | ServiceRegistryPointerChanged address
  | SafeAllowanceChanged address hopr_balance

fun chain_event_display ::
  "'e edlib \<Rightarrow> hexlib \<Rightarrow> declib \<Rightarrow> ('m list \<Rightarrow> string) \<Rightarrow> (f64 \<Rightarrow> string) \<Rightarrow> 'm chain_event \<Rightarrow> (string, 'x) res" where
  "chain_event_display E h D debug decimals (AnnouncementEvent a) =
     map_ok (\<lambda>s. ''announcement event of '' @ s) (account_entry_display E h debug a)"
| "chain_event_display E h D debug decimals (ChannelOpened c) = Ok (''open channel event '' @ to_hex h hash_bytes (get_id c))"
| "chain_event_display E h D debug decimals (ChannelClosureInitiated c) =
     Ok (''close channel initiation event '' @ to_hex h hash_bytes (get_id c))"
| "chain_event_display E h D debug decimals (ChannelClosed c) = Ok (''close channel event '' @ to_hex h hash_bytes (get_id c))"
| "chain_event_display E h D debug decimals (ChannelBalanceIncreased c _) =
     Ok (''channel increase balance event '' @ to_hex h hash_bytes (get_id c))"
| "chain_event_display E h D debug decimals (ChannelBalanceDecreased c _) =
     Ok (''channel decrease balance event '' @ to_hex h hash_bytes (get_id c))"
| "chain_event_display E h D debug decimals (TicketRedeemed c _) =
     Ok (''ticket redeem event in channel '' @ to_hex h hash_bytes (get_id c))"
| "chain_event_display E h D debug decimals (WinningProbabilityIncreased p) =
     Ok (''winning probability increased to '' @ wp_display decimals p)"
| "chain_event_display E h D debug decimals (WinningProbabilityDecreased p) =
     Ok (''winning probability decreased to '' @ wp_display decimals p)"
| "chain_event_display E h D debug decimals (TicketPriceChanged p) =
     Ok (''ticket price changed to '' @ balance_display D wxhopr_currency p)"
| "chain_event_display E h D debug decimals (ServiceRegistered e) =
     Ok (''service registration event of '' @ service_entry_display h e)"
| "chain_event_display E h D debug decimals (ServiceUpdated e) = Ok (''service update event of '' @ service_entry_display h e)"
| "chain_event_display E h D debug decimals (ServiceDeregistered t node) =
     Ok (''service deregistration event of '' @ service_type_display h t @ '' for node '' @ to_hex h address_bytes node)"
| "chain_event_display E h D debug decimals (ServiceTypeRegistered t owner) =
     Ok (''service type '' @ service_type_display h t @ '' registered by '' @ to_hex h address_bytes owner)"
| "chain_event_display E h D debug decimals (ServiceTypeOwnerChanged t (Some owner)) =
     Ok (''service type '' @ service_type_display h t @ '' owner changed to '' @ to_hex h address_bytes owner)"
| "chain_event_display E h D debug decimals (ServiceTypeOwnerChanged t None) =
     Ok (''service type '' @ service_type_display h t @ '' abandoned'')"
| "chain_event_display E h D debug decimals (ServiceTypeRequirementChanged t (Some req)) =
     Ok (''service type '' @ service_type_display h t @ '' requirement changed to '' @ to_hex h address_bytes req)"
| "chain_event_display E h D debug decimals (ServiceTypeRequirementChanged t None) =
     Ok (''service type '' @ service_type_display h t @ '' requirement removed'')"
| "chain_event_display E h D debug decimals (ServiceTypeRegistrationBurnChanged t a) =
     Ok (''service type '' @ service_type_display h t @ '' registration burn changed to '' @ balance_display D wxhopr_currency a)"
| "chain_event_display E h D debug decimals (ServiceTypeUpdateBurnChanged t a) =
     Ok (''service type '' @ service_type_display h t @ '' update burn changed to '' @ balance_display D wxhopr_currency a)"
| "chain_event_display E h D debug decimals (ServiceTypeRegistrationFeeChanged a) =
     Ok (''service type registration fee changed to '' @ balance_display D wxhopr_currency a)"
| "chain_event_display E h D debug decimals (ServiceRegistryPointerChanged a) =
     Ok (''service registry node safe registry changed to '' @ to_hex h address_bytes a)"
| "chain_event_display E h D debug decimals (SafeAllowanceChanged safe allowance) =
     Ok (''safe '' @ to_hex h address_bytes safe @ '' allowance for channels changed to '' @ balance_display D wxhopr_currency allowance)"

end
