(* ===== verification/Ticket_Journey.thy ===== *)
theory Ticket_Journey
  imports Parser_Spec
begin

text \<open>
  The components together: the life of a ticket from the node that issues it, over the wire, through
  the proof of relay, to the transaction that redeems it and what the parser reads in it.
\<close>

section \<open>Issued, received, acknowledged, redeemable\<close>

lemma keypair_address:
  assumes "secp_ok L" "wf_chain_keypair L kp"
  shows "wf_address (chain_keypair_address kp)"
proof -
  have "affine_point_to_address L (pk_point (ckp_public kp)) = Some (chain_keypair_address kp)"
    using wf_public_keyD(3) [OF wf_chain_keypairD(1) [OF assms]]
    by (simp add: chain_keypair_address_def public_key_to_address_def)
  then show ?thesis by (metis address_of_point [OF assms(1)] option.inject)
qed

lemma tb_with_challenge_Some:
  "tb_with_challenge L c b0 = Some b \<longleftrightarrow> (\<exists>e. to_ethereum_challenge L c = Some e \<and> b = b0\<lparr>tb_challenge := Some e\<rparr>)"
  by (auto simp: tb_with_challenge_def)

lemma into_redeemable_winning_iff:
  "acknowledged_is_winning L W f rnd a kp dst = Some True \<Longrightarrow> chain_keypair_address kp \<noteq> vt_issuer (at_ticket a) \<Longrightarrow>
     \<exists>r. acknowledged_into_redeemable L W f rnd a kp dst = Ok r"
  unfolding into_redeemable_Ok acknowledged_is_winning_def is_winning_True by (metis redeemable_ticket.select_convs)

lemma steps4: "R a b \<Longrightarrow> R b c \<Longrightarrow> R c d \<Longrightarrow> R d e \<Longrightarrow> R\<^sup>*\<^sup>* a e"
  by (meson converse_rtranclp_into_rtranclp rtranclp.rtrancl_refl)

lemma challenge_solved:
  assumes L: "secp_ok L" and shares: "half_key_to_challenge L f k1 = Ok h1" "challenge_from_own_share_and_half_key L f h1 k2 = Ok c"
    and e: "to_ethereum_challenge L c = Some (ticket_challenge (vt_ticket v))"
  shows "\<exists>response. acknowledge L f' (into_unacknowledged v k1) k2 = Ok (into_acknowledged v response) \<and> wf_response response"
proof -
  have "and_then (half_key_to_challenge L f k1) (\<lambda>h1. challenge_from_own_share_and_half_key L f h1 k2) = Ok c"
    using shares by simp
  then obtain r where r: "response_from_half_keys L k1 k2 = Ok r" "response_to_challenge L f' r = Ok c"
    unfolding half_keys_combined [OF L, of f k1 k2 c f'] by blast
  have "acknowledge L f' (into_unacknowledged v k1) k2 = Ok (into_acknowledged v r)"
    using r e by (simp add: acknowledge_def into_unacknowledged_def)
  moreover have "wf_response r"
    using r(1) by (auto simp: response_from_half_keys_def Let_def wf_response_def RESPONSE_SIZE_def secp_okD(9) [OF L] split: if_splits)
  ultimately show ?thesis by blast
qed

text \<open>C2. The life of a ticket: an issuer that builds a ticket over the sum of the challenges of the
  relay's own share and of the next node's half-key, and signs it, obtains a ticket that can be sent;
  the relay that decodes the bytes gets the same ticket, verifies it under the issuer's address, and
  the half-key of the acknowledgement solves its challenge. With the probability \<open>ALWAYS\<close> the
  ticket wins whenever a VRF value can be derived; a winning ticket becomes redeemable with VRF
  parameters that verify for the relay, all by steps of the ticket state machine.\<close>

theorem ticket_journey:
  assumes ok: "ecdsalib_ok L X" "vrflib_ok L W" "wf_chain_keypair L ip" "wf_chain_keypair L kp" and E: "E = signature_engine L X f"
    and shares: "half_key_to_challenge L f k1 = Ok h1" "challenge_from_own_share_and_half_key L f h1 k2 = Ok c"
    and b: "wf_ticket_builder b0" "tb_with_challenge L c b0 = Some b" "tb_signature b = None" "ticket_build b = Ok t"
    and h: "h = snd (ticket_get_hash (keccak256 L) t (chain_keypair_address ip) dst)"
    and raw: "engine_sign E h ip = Ok (sig, rec)" "rec < 2 \<or> \<not> is_ok (engine_recover E (sig, rec AND 1) h)"
    and apart: "chain_keypair_address kp \<noteq> chain_keypair_address ip"
  shows "\<exists>v bs a. ticket_build_signed L E b ip dst = Ok v
    \<and> ticket_into_bytes (vt_ticket v) = Some bs \<and> ticket_try_from bs = Ok (vt_ticket v)
    \<and> ticket_verify L E (vt_ticket v) (chain_keypair_address ip) dst = Ok v
    \<and> acknowledge L f (into_unacknowledged v k1) k2 = Ok a
    \<and> (tb_win_prob b = WP_ALWAYS \<and> is_ok (derive_vrf_parameters L W f rnd (hash_bytes h) kp (hash_bytes dst)) \<longrightarrow>
        acknowledged_is_winning L W f rnd a kp dst = Some True)
    \<and> (acknowledged_is_winning L W f rnd a kp dst = Some True \<longrightarrow>
        (\<exists>r. acknowledged_into_redeemable L W f rnd a kp dst = Ok r
          \<and> (ticket_step L E W f)\<^sup>*\<^sup>* (Raw (vt_ticket v)) (Redeemable r)
          \<and> vrf_verify L W (rt_vrf_params r) (chain_keypair_address kp) (hash_bytes h) (hash_bytes dst) = Ok ()))"
proof -
  have L: "secp_ok L" by (rule ecdsa_engine_laws.valid_curve [OF signature_engine_laws ok(1)])
  obtain e where e: "to_ethereum_challenge L c = Some e" "b = b0\<lparr>tb_challenge := Some e\<rparr>"
    using b(2) by (auto simp: tb_with_challenge_Some)
  obtain p where "affine_point_to_address L (challenge_point c) = Some p" "wf_address p"
    by (rule address_of_point [OF L])
  then have "wf_ethereum_challenge e"
    using e(1) by (auto simp: to_ethereum_challenge_def wf_ethereum_challenge_def)
  then have "wf_ticket_builder b" using b(1) by (simp add: e(2) wf_ticket_builder_def)
  then have wf: "wf_ticket t" by (rule ticket_build_wf [OF b(4)])
  obtain v where v: "ticket_sign L E t ip dst = Some v"
    "(vt_ticket v)\<lparr>ticket_signature := None\<rparr> = t\<lparr>ticket_signature := None\<rparr>"
    "vt_hash v = h" "vt_issuer v = chain_keypair_address ip"
    "ticket_verify L E (vt_ticket v) (chain_keypair_address ip) dst = Ok v" "signed_ticket (vt_ticket v)"
    using ticket_signed_verifies [OF ok(1,3) E h raw] wf by blast
  obtain bs where bs: "ticket_into_bytes (vt_ticket v) = Some bs" "ticket_try_from bs = Ok (vt_ticket v)"
    using ticket_decode_encode [OF v(6)] by blast
  have same: "ticket_challenge (vt_ticket v) = ticket_challenge t" "ticket_win_prob (vt_ticket v) = ticket_win_prob t"
    using arg_cong [OF v(2), of ticket_challenge] arg_cong [OF v(2), of encoded_win_prob] by (simp_all add: ticket_win_prob_def)
  have "ticket_challenge t = e" using b(4) by (auto simp: ticket_build_Ok e(2))
  then obtain resp where a: "acknowledge L f (into_unacknowledged v k1) k2 = Ok (into_acknowledged v resp)"
    using challenge_solved [OF L shares, of v f] e(1) same(1) by auto
  let ?a = "into_acknowledged v resp"
  have at: "at_ticket ?a = v" "at_response ?a = resp" by (simp_all add: into_acknowledged_def)
  obtain s where s: "ticket_signature (vt_ticket v) = Some s" using v(6) by (auto simp: signed_ticket_def)
  have wins: "acknowledged_is_winning L W f rnd ?a kp dst = Some True"
    if "tb_win_prob b = WP_ALWAYS" "is_ok (derive_vrf_parameters L W f rnd (hash_bytes h) kp (hash_bytes dst))"
  proof -
    have "ticket_win_prob (vt_ticket v) = WP_ALWAYS" using that(1) b(4) same(2) by (simp add: ticket_build_Ok)
    then show ?thesis
      using that(2) s v(3) always_wins [OF L]
      by (cases "derive_vrf_parameters L W f rnd (hash_bytes h) kp (hash_bytes dst)")
        (simp_all add: acknowledged_is_winning_def verified_is_winning_def at)
  qed
  have redeem: "\<exists>r. acknowledged_into_redeemable L W f rnd ?a kp dst = Ok r
      \<and> (ticket_step L E W f)\<^sup>*\<^sup>* (Raw (vt_ticket v)) (Redeemable r)
      \<and> vrf_verify L W (rt_vrf_params r) (chain_keypair_address kp) (hash_bytes h) (hash_bytes dst) = Ok ()"
    if win: "acknowledged_is_winning L W f rnd ?a kp dst = Some True"
  proof -
    obtain r where r: "acknowledged_into_redeemable L W f rnd ?a kp dst = Ok r"
      using into_redeemable_winning_iff [OF win] apart v(4) by (auto simp: at)
    have "(ticket_step L E W f)\<^sup>*\<^sup>* (Raw (vt_ticket v)) (Redeemable r)"
      by (rule steps4 [of "ticket_step L E W f", OF ticket_step.verify [OF v(5)] ticket_step.unacknowledge ticket_step.ack [OF a] ticket_step.redeem [OF r]])
    moreover have "vrf_verify L W (rt_vrf_params r) (chain_keypair_address kp) (hash_bytes h) (hash_bytes dst) = Ok ()"
      using derive_vrf_verifies [OF ok(2,4)] r v(3) by (auto simp: into_redeemable_Ok at)
    ultimately show ?thesis using r by blast
  qed
  have "ticket_build_signed L E b ip dst = Ok v" using b(3,4) v(1) by (simp add: ticket_build_signed_def)
  with v(5) bs a wins redeem show ?thesis by blast
qed

section \<open>On the chain\<close>

lemma redeemable_wf:
  assumes "secp_ok L" "wf_ticket (vt_ticket (at_ticket a))" "wf_response (at_response a)"
    and "ticket_verify L E (vt_ticket (at_ticket a)) issuer dst = Ok (at_ticket a)"
    and "acknowledged_into_redeemable L W f rnd a kp dst = Ok r"
  shows "wf_redeemable r \<and> rt_ticket r = at_ticket a \<and> vt_issuer (at_ticket a) = issuer
    \<and> vt_channel_id (at_ticket a) = generate_channel_id (keccak256 L) issuer (counterparty (vt_ticket (at_ticket a)))"
proof -
  note r = assms(5) [unfolded into_redeemable_Ok] and wf = assms(2) [unfolded wf_ticket_def]
  have v: "at_ticket a = \<lparr>vt_ticket = vt_ticket (at_ticket a),
      vt_hash = snd (ticket_get_hash (keccak256 L) (vt_ticket (at_ticket a)) issuer dst), vt_issuer = issuer,
      vt_channel_id = generate_channel_id (keccak256 L) issuer (counterparty (vt_ticket (at_ticket a)))\<rparr>"
    using assms(4) by (simp add: ticket_verify_Ok)
  have h: "vt_issuer (at_ticket a) = issuer"
    "vt_channel_id (at_ticket a) = generate_channel_id (keccak256 L) issuer (counterparty (vt_ticket (at_ticket a)))"
    "wf_hash (vt_hash (at_ticket a))"
    using arg_cong [OF v, of vt_issuer] arg_cong [OF v, of vt_channel_id] arg_cong [OF v, of vt_hash] wf_ticket_hash [OF assms(1)]
    by simp_all
  have "wf_hash (vt_channel_id (at_ticket a))"
    unfolding h(2) by (simp add: generate_channel_id_def wf_hash_def HASH_BASE_SIZE_def hash_create_def secp_okD(11) [OF assms(1)])
  with h r wf assms(3) show ?thesis by (simp add: wf_redeemable_def)
qed

text \<open>C3. Redeeming on the chain: the transaction that the basic or the Safe generator of the relay makes for a
  redeemable ticket is read by the parser as the redemption of the channel from the ticket's issuer
  to the relay, with index and amount of the ticket; a closure of that incoming channel names the
  same channel. (Building the transaction panics if one of the points of the proof is the identity.)\<close>

theorem redemption_on_chain:
  assumes L: "secp_ok L" "wf_chain_keypair L kp" and me: "me = chain_keypair_address kp"
    and P: "parselib_ok A P" "wf_contracts cs" "contracts_apart cs" "wf_address m" "m \<notin> set (contract_list cs)"
    and t: "wf_ticket (vt_ticket (at_ticket a))" "wf_response (at_response a)" "counterparty (vt_ticket (at_ticket a)) = me"
    and v: "ticket_verify L E (vt_ticket (at_ticket a)) issuer dst = Ok (at_ticket a)" "wf_address issuer"
    and r: "acknowledged_into_redeemable L W f rnd a kp dst = Ok r" and ws: "redeem_ticket_words L W r me = Ok ws"
    and rb: "rb = read_back P (keccak256 L) m cs me"
  shows "rb (basic_redeem_ticket L W (basic_new me cs) r) = Ok (RedeemTicket (generate_channel_id (keccak256 L) issuer me)
        (ticket_index (vt_ticket (at_ticket a))) (ticket_amount (vt_ticket (at_ticket a))), me)
    \<and> rb (safe_redeem_ticket L W (safe_new kp cs m) r) = rb (basic_redeem_ticket L W (basic_new me cs) r)
    \<and> rb (basic_close_incoming_channel (basic_new me cs) issuer)
        = Ok (IncomingChannelClosure (generate_channel_id (keccak256 L) issuer me), me)"
proof -
  note wf = redeemable_wf [OF L(1) t(1,2) v(1) r]
  have a: "wf_address me" unfolding me by (rule keypair_address [OF L])
  have "issuer \<noteq> me" using r wf me by (auto simp: into_redeemable_Ok)
  have g: "wf_basic (basic_new me cs)" "wf_safe (safe_new kp cs m)" "bg_me (basic_new me cs) = me" "bg_contracts (basic_new me cs) = cs"
    "sg_me (safe_new kp cs m) = me" "sg_contracts (safe_new kp cs m) = cs" "sg_module (safe_new kp cs m) = m"
    using a P(2,4) by (simp_all add: wf_basic_def wf_safe_def basic_new_def safe_new_def me)
  have "rb (basic_redeem_ticket L W (basic_new me cs) r) = Ok (RedeemTicket (generate_channel_id (keccak256 L) issuer me)
        (ticket_index (vt_ticket (at_ticket a))) (ticket_amount (vt_ticket (at_ticket a))), me)"
    using basic_redeem_read [OF P(1) g(1) _ _ L(1) _ _, unfolded g, OF P(3,5) _ _ ws] wf t by (simp add: rb)
  moreover have "rb (safe_redeem_ticket L W (safe_new kp cs m) r) = Ok (RedeemTicket (generate_channel_id (keccak256 L) issuer me)
        (ticket_index (vt_ticket (at_ticket a))) (ticket_amount (vt_ticket (at_ticket a))), me)"
    using safe_redeem_read [OF P(1) g(2) _ L(1) _ _, unfolded g, OF P(3) _ _ ws] wf t by (simp add: rb)
  moreover have "rb (basic_close_incoming_channel (basic_new me cs) issuer)
      = Ok (IncomingChannelClosure (generate_channel_id (keccak256 L) issuer me), me)"
    using basic_close_incoming_read [OF P(1) g(1) _ _ v(2), unfolded g, OF P(3,5)] \<open>issuer \<noteq> me\<close> by (simp add: rb)
  ultimately show ?thesis by simp
qed

section \<open>A concrete journey\<close>

text \<open>A ticket of the node with the key 3 for the node with the key 5, over the half-keys 2 and 3.\<close>

theorem ticket_journey_witness:
  "\<exists>(v :: verified_ticket) bs r. ticket_into_bytes (vt_ticket v) = Some bs \<and> ticket_try_from bs = Ok (vt_ticket v)
     \<and> (ticket_step secp_toy (signature_engine secp_toy ecdsa_toy True) vrf_toy True)\<^sup>*\<^sup>* (Raw (vt_ticket v)) (Redeemable r)"
proof -
  obtain kp where kp: "wf_chain_keypair secp_toy kp" "chain_keypair_address kp = Address (to_be 20 5)"
    using keypair_example [of 5] by auto
  obtain ip where ip: "wf_chain_keypair secp_toy ip" "chain_keypair_address ip = Address (to_be 20 3)"
    "secret_bytes (ckp_secret ip) = to_be 32 3"
    using keypair_example [of 3] by auto
  have ne: "to_be 20 5 \<noteq> to_be 20 3"
  proof
    assume "to_be 20 5 = to_be 20 3"
    then have "from_be (to_be 20 5) = from_be (to_be 20 3)" by simp
    then show False by (simp add: from_be_to_be_id del: to_be.simps)
  qed
  have "and_then (half_key_to_challenge secp_toy True (HalfKey (to_be 32 2)))
      (\<lambda>h1. challenge_from_own_share_and_half_key secp_toy True h1 (HalfKey (to_be 32 3))) = Ok (Challenge 5)"
    unfolding half_keys_combined [OF secp_ok_toy, of True _ _ _ True] by (rule por_example)
  then obtain h1 where h1: "half_key_to_challenge secp_toy True (HalfKey (to_be 32 2)) = Ok h1"
    "challenge_from_own_share_and_half_key secp_toy True h1 (HalfKey (to_be 32 3)) = Ok (Challenge 5)"
    by auto
  obtain a where a: "affine_point_to_address secp_toy 5 = Some a" "wf_address a"
    by (rule address_of_point [OF secp_ok_toy])
  from a(1) have e: "to_ethereum_challenge secp_toy (Challenge 5) = Some (EthereumChallenge a)"
    by (simp add: to_ethereum_challenge_def)
  let ?b0 = "(ticket_builder_from ticket_example)\<lparr>tb_signature := None\<rparr>"
    and ?t = "ticket_example\<lparr>ticket_challenge := EthereumChallenge a\<rparr>"
  let ?b = "?b0\<lparr>tb_challenge := Some (EthereumChallenge a)\<rparr>"
  have b: "wf_ticket_builder ?b0" "tb_with_challenge secp_toy (Challenge 5) ?b0 = Some ?b" "tb_signature ?b = None"
    using wf_ticket_example e a(2)
    by (simp_all add: wf_ethereum_challenge_def wf_ticket_builder_def ticket_builder_from_def wf_ticket_def ticket_win_prob_def tb_with_challenge_def)
  have w: "tb_win_prob ?b = WP_ALWAYS"
    by (simp add: ticket_builder_from_def ticket_example_def WP_ALWAYS_def ENCODED_WIN_PROB_LENGTH_def)
  have t: "ticket_build ?b = Ok ?t"
    using wf_ticket_example
    by (simp add: ticket_build_Ok ticket_builder_from_def tb_checked_amount_Ok wf_ticket_def ticket_win_prob_def)
      (simp add: ticket_example_def)
  have s: "engine_sign (signature_engine secp_toy ecdsa_toy True) h ip = Ok (to_be 64 (from_be (to_be 32 3)), 0)" for h
    by (simp add: signature_engine_def k256_engine_def ecdsa_toy_def ip(3))
  have z: "(0 :: u8) < 2 \<or> Q" for Q by simp
  have d: "is_ok (derive_vrf_parameters secp_toy vrf_toy True [] m kp dst)" for m dst
    using derive_example [OF kp(1), of "[]" m dst] by auto
  have apart: "chain_keypair_address kp \<noteq> chain_keypair_address ip" using kp(2) ip(2) ne by simp
  have "\<exists>(v :: verified_ticket) bs a. ticket_into_bytes (vt_ticket v) = Some bs \<and> ticket_try_from bs = Ok (vt_ticket v)
      \<and> acknowledged_is_winning secp_toy vrf_toy True [] a kp hash_default = Some True
      \<and> (acknowledged_is_winning secp_toy vrf_toy True [] a kp hash_default = Some True \<longrightarrow>
          (\<exists>r. (ticket_step secp_toy (signature_engine secp_toy ecdsa_toy True) vrf_toy True)\<^sup>*\<^sup>*
            (Raw (vt_ticket v)) (Redeemable r)))"
    using ticket_journey [where rnd = "[]" and dst = hash_default, OF ecdsalib_ok_toy vrflib_ok_toy ip(1) kp(1) refl h1 b t refl s z apart]
    by (simp only: w d simp_thms) blast
  then show ?thesis by blast
qed

theorem redemption_on_chain_witness:
  "\<exists>me r i b. read_back parselib_std (keccak256 secp_toy) (Address (replicate 20 12)) contracts_example me
       (basic_redeem_ticket secp_toy vrf_toy (basic_new me contracts_example) r)
     = Ok (RedeemTicket (generate_channel_id (keccak256 secp_toy) (Address (to_be 20 3)) me) i b, me)"
proof -
  let ?me = "Address (to_be 20 5)" and ?resp = "Response (replicate 32 1)"
  let ?t = "ticket_example\<lparr>counterparty := ?me\<rparr>" and ?E = "signature_engine secp_toy ecdsa_toy True"
  have t: "wf_ticket ?t" "encoded_win_prob ?t = replicate 7 0xff"
    using wf_ticket_example by (simp_all add: wf_ticket_def wf_address_def ADDRESS_SIZE_def ticket_win_prob_def)
      (simp add: ticket_example_def)
  obtain kp v r where kp: "wf_chain_keypair secp_toy kp" "secret_bytes (ckp_secret kp) = to_be 32 5" "?me = chain_keypair_address kp"
    and v: "vt_issuer v = Address (to_be 20 3)" "(vt_ticket v)\<lparr>ticket_signature := None\<rparr> = ?t\<lparr>ticket_signature := None\<rparr>"
      "signed_ticket (vt_ticket v)" "ticket_verify secp_toy ?E (vt_ticket v) (vt_issuer v) hash_default = Ok v"
    and r: "acknowledged_into_redeemable secp_toy vrf_toy True [] (into_acknowledged v ?resp) kp hash_default = Ok r"
    using flow_example_for [OF t, of ?resp] by metis
  have a: "at_ticket (into_acknowledged v ?resp) = v" "at_response (into_acknowledged v ?resp) = ?resp"
    by (simp_all add: into_acknowledged_def)
  have f: "wf_ticket (vt_ticket v)" "wf_response ?resp" "counterparty (vt_ticket v) = ?me"
    using v(3) arg_cong [OF v(2), of counterparty] by (simp_all add: signed_ticket_def wf_response_def RESPONSE_SIZE_def)
  have "chain_keypair_scalar secp_toy kp = Ok 5"
    using chain_keypair_scalar_ok [OF secp_ok_toy kp(1)] by (simp add: kp(2) from_be_to_be_id del: to_be.simps)
  then have p: "rt_vrf_params r = \<lparr>vrf_V = 10, vrf_h = 4, vrf_s = 24, vrf_A = 5\<rparr>"
    using r by (auto simp: into_redeemable_Ok derive_vrf_parameters_def derive_vrf_k256_def)
      (simp add: vrf_toy_def secp_toy_def)
  have wf: "wf_redeemable r" "rt_ticket r = v"
    using redeemable_wf [of secp_toy "into_acknowledged v ?resp", unfolded a, OF secp_ok_toy f(1,2) v(4) r] r
    by (simp_all add: into_redeemable_Ok a)
  obtain s where s: "ticket_signature (vt_ticket (rt_ticket r)) = Some s" using v(3) wf(2) by (auto simp: signed_ticket_def)
  obtain ws where ws: "redeem_ticket_words secp_toy vrf_toy r ?me = Ok ws"
    using toy_words [OF s wf(1) _ refl, of ?me] p by auto
  have i: "wf_address (Address (to_be 20 3))" by (simp add: wf_address_def ADDRESS_SIZE_def)
  have m: "Address (replicate 20 12) \<notin> set (contract_list contracts_example)"
    by (rule contracts_example_apart(2)) simp
  note chain = redemption_on_chain [of secp_toy kp ?me ma_text parselib_std contracts_example "Address (replicate 20 12)" "into_acknowledged v ?resp",
      unfolded a, OF secp_ok_toy kp(1,3) parselib_ok_std wf_contracts_example contracts_example_apart(1) wf_address_20 m f
        v(4) [unfolded v(1)] i r ws refl]
  show ?thesis by (intro exI) (rule chain [THEN conjunct1])
qed

end
