(* ===== verification/Node_Identity.thy ===== *)
theory Node_Identity
  imports Ticket_Journey Key_Store_Spec
begin

text \<open>
  The components together: the identity a node keeps on disk, the binding of its two keys that it
  signs, the transaction that announces it, and what the parser and other nodes make of it.
\<close>

lemma announcement_new_binding:
  "announcement_new E A kb ma = Ok an \<Longrightarrow> an_key_binding an = kb"
proof (cases ma)
  case (Some x)
  assume *: "announcement_new E A kb ma = Ok an"
  then obtain peer where p: "peer_id_from E (kb_packet_key kb) = Some peer"
    using Some by (cases "peer_id_from E (kb_packet_key kb)") (auto simp: announcement_new_def split: if_splits)
  show ?thesis using * p Some by (cases "ma_with_p2p A x peer") (auto simp: announcement_new_def split: if_splits)
qed (auto simp: announcement_new_def)

lemma stored_keys_wf:
  assumes "wf_hopr_keys K keys" "secp_ok (kl_secp K)" "edlib_ok (kl_ed K)"
  shows "wf_offchain_keypair (kl_ed K) (hk_packet_key keys)" "wf_chain_keypair (kl_secp K) (hk_chain_key keys)"
    and "wf_opk (offchain_keypair_public (hk_packet_key keys))"
proof -
  show "wf_chain_keypair (kl_secp K) (hk_chain_key keys)"
    using assms(1) chain_keypair_from_secret_Ok [OF assms(2)] by (auto simp: wf_hopr_keys_def chain_key_from_secret_def)
  show wf: "wf_offchain_keypair (kl_ed K) (hk_packet_key keys)"
    using assms(1) by (auto simp: wf_hopr_keys_def packet_key_from_secret_def wf_offchain_keypair_def)
  then show "wf_opk (offchain_keypair_public (hk_packet_key keys))"
    using offchain_keypair_from_secret_total [OF assms(3) wf_hopr_keys_lengths(1) [OF assms(1)]]
    by (auto simp: wf_offchain_keypair_def)
qed

text \<open>C18. A node that starts from its identity file, binds its keys and announces itself: after a restart it
  has the same keys and thus the same binding; the parser reads its transaction as the announcement of
  its packet key, with the address it announced, by its chain address; and the three parts that end up
  on the chain pass the check of the binding.\<close>

theorem node_announcement:
  assumes Q: "storelib_ok Q" "wf_key_random K rnd" and K: "secp_ok (kl_secp K)" "edlib_ok (kl_ed K)" "eddsa_ok (kl_ed K) D"
    and init: "hopr_keys_init h Q K rnd fs (FromFile pw path) = Ok (keys, fs1)"
    and me: "me = chain_keypair_address (hk_chain_key keys)" and kb: "kb = key_binding_new D me (hk_packet_key keys)"
    and an: "announcement_new (kl_ed K) A kb ma = Ok an" "pred_option (\<lambda>a. \<not> ma_is_empty A a) (an_multiaddress an)"
      "length (announced_multiaddr A an) < 2 ^ 32"
    and P: "parselib_ok A P" "wf_contracts cs" "contracts_apart cs" "m \<notin> set (contract_list cs)"
  shows "hopr_keys_init h Q K rnd' fs1 (FromFile pw path) = Ok (keys, fs1)
    \<and> read_back P keccak m cs me (basic_announce A (basic_new me cs) an fee)
        = Ok (Announce (offchain_keypair_public (hk_packet_key keys)) (an_multiaddress an), me)
    \<and> key_binding_from_parts D me (offchain_keypair_public (hk_packet_key keys)) (kb_signature (an_key_binding an)) = Ok kb"
proof (intro conjI)
  show "hopr_keys_init h Q K rnd' fs1 (FromFile pw path) = Ok (keys, fs1)"
    by (rule hopr_keys_init_again [OF Q init])
  note keys = stored_keys_wf [OF hopr_keys_init_wf [OF Q(2) init] K(1,2)]
  note sig = offchain_sign_verify [OF K(3) keys(1)]
  have kb': "kb_chain_key kb = me" "kb_packet_key kb = offchain_keypair_public (hk_packet_key keys)"
    "kb_signature kb = offchain_sign_message D (kb_prepare_for_signing me (offchain_keypair_public (hk_packet_key keys))) (hk_packet_key keys)"
    by (simp_all add: kb key_binding_new_def Let_def)
  note b = announcement_new_binding [OF an(1)]
  have g: "wf_basic (basic_new me cs)" "bg_me (basic_new me cs) = me" "bg_contracts (basic_new me cs) = cs"
    using keypair_address [OF K(1) keys(2)] P(2) by (simp_all add: wf_basic_def basic_new_def me)
  show "read_back P keccak m cs me (basic_announce A (basic_new me cs) an fee)
      = Ok (Announce (offchain_keypair_public (hk_packet_key keys)) (an_multiaddress an), me)"
    using basic_announce_read [OF P(1) g(1), unfolded g, OF P(3,4) an(3) _ _ an(2)] keys(3) sig(2) by (simp add: b kb')
  show "key_binding_from_parts D me (offchain_keypair_public (hk_packet_key keys)) (kb_signature (an_key_binding an)) = Ok kb"
    using sig(1) kb' by (simp add: key_binding_from_parts_def b)
qed

theorem node_announcement_witness:
  "\<exists>keys fs an. hopr_keys_init hex_std storelib_toy keylibs_toy key_random_toy empty_disk (FromFile ''pw'' ''id'') = Ok (keys, fs)
     \<and> read_back parselib_std (keccak256 secp_toy) (Address (replicate 20 12)) contracts_example (chain_keypair_address (hk_chain_key keys))
        (basic_announce ma_text (basic_new (chain_keypair_address (hk_chain_key keys)) contracts_example) an (Balance 5 WxHOPR))
       = Ok (Announce (offchain_keypair_public (hk_packet_key keys)) None, chain_keypair_address (hk_chain_key keys))"
proof -
  have none: "fs_files empty_disk ''id'' = None" by (simp add: empty_disk_def)
  obtain keys fs where i: "hopr_keys_init hex_std storelib_toy keylibs_toy key_random_toy empty_disk (FromFile ''pw'' ''id'') = Ok (keys, fs)"
    using write_toy [of key_random_toy _ "''id''" "''pw''"] none unfolding hopr_keys_init_from_file by auto
  let ?kb = "key_binding_new eddsa_toy (chain_keypair_address (hk_chain_key keys)) (hk_packet_key keys)"
  let ?an = "\<lparr>an_multiaddress = None, an_key_binding = ?kb\<rparr> :: string announcement_data"
  have m: "Address (replicate 20 12) \<notin> set (contract_list contracts_example)"
    by (rule contracts_example_apart(2)) simp
  have k: "kl_secp keylibs_toy = secp_toy" "kl_ed keylibs_toy = ed_std" by (simp_all add: keylibs_toy_def)
  have a: "announcement_new (kl_ed keylibs_toy) ma_text ?kb None = Ok ?an" "pred_option (\<lambda>a. \<not> ma_is_empty ma_text a) (an_multiaddress ?an)"
    "length (announced_multiaddr ma_text ?an) < 2 ^ 32"
    by (simp_all add: announcement_new_def announced_multiaddr_def)
  have l: "secp_ok (kl_secp keylibs_toy)" "edlib_ok (kl_ed keylibs_toy)" "eddsa_ok (kl_ed keylibs_toy) eddsa_toy"
    unfolding k by (rule secp_ok_toy edlib_ok_std eddsa_ok_toy)+
  note r = node_announcement [OF storelib_ok_toy keys_toy_wf(2) l i refl refl a parselib_ok_std wf_contracts_example
      contracts_example_apart(1) m]
  show ?thesis using i r [THEN conjunct2, THEN conjunct1] by (intro exI conjI) (assumption, simp)
qed

end
