(* ===== verification/Parser_Meaning.thy ===== *)
theory Parser_Meaning
  imports Parser_Spec
begin

text \<open>
  What the calldata of a transaction means, as two relations with one rule for each contract function:
  \<open>call_means\<close> for a call of a contract, \<open>tx_means\<close> for a transaction. A rule names the values the call
  decodes to, in the ABI's encoding of the fields of the action. The parser computes the relation.
\<close>

section \<open>The decoders\<close>

text \<open>
  The documentation of the decoders: what they return has the types of the signature, and bytes they
  cannot decode are an error.
\<close>

definition parselib_typed :: "'m parselib \<Rightarrow> bool" where
  "parselib_typed P \<longleftrightarrow>
     (\<forall>f bs. pl_call P f bs \<noteq> Panic \<and> (\<forall>vs. pl_call P f bs = Ok vs \<longrightarrow> list_all2 has_type vs (fn_types f)))
   \<and> (\<forall>bs. pl_announce P bs \<noteq> Panic \<and> (\<forall>vs. pl_announce P bs = Ok vs \<longrightarrow> list_all2 has_type vs announce_types))"

lemma parselib_typedD:
  assumes "parselib_typed P"
  shows "pl_call P f bs \<noteq> Panic" "pl_call P f bs = Ok vs \<Longrightarrow> list_all2 has_type vs (fn_types f)"
    and "pl_announce P bs \<noteq> Panic" "pl_announce P bs = Ok vs \<Longrightarrow> list_all2 has_type vs announce_types"
  using assms by (auto simp: parselib_typed_def)

lemma read_word_typed: "read_word n pos data = Some w \<Longrightarrow> length w = 32 \<and> from_be w < 2 ^ n"
  by (auto simp: read_word_def read_at_def Option.bind_eq_Some_conv split: if_splits)

lemma read_words_typed: "read_words n k pos data = Some ws \<Longrightarrow> list_all (\<lambda>w. length w = 32 \<and> from_be w < 2 ^ n) ws"
  by (induction k arbitrary: pos ws) (auto simp: Option.bind_eq_Some_conv dest: read_word_typed)

lemma abi_read_typed: "abi_read t pos data = Some v \<Longrightarrow> has_type v t"
  by (cases t) (auto simp: has_type.simps Option.bind_eq_Some_conv dest!: read_word_typed read_words_typed split: if_splits)

lemma abi_decode_typed: "abi_decode ts data = Some vs \<Longrightarrow> list_all2 has_type vs ts"
proof -
  have "abi_decode_at pos ts data = Some vs \<Longrightarrow> list_all2 has_type vs ts" for pos
    by (induction ts arbitrary: pos vs) (auto simp: Option.bind_eq_Some_conv dest: abi_read_typed)
  then show "abi_decode ts data = Some vs \<Longrightarrow> list_all2 has_type vs ts" by (simp add: abi_decode_def)
qed

lemma parselib_typed_std: "parselib_typed parselib_std"
  by (auto simp: parselib_typed_def parselib_std_def read_call_def dest: abi_decode_typed split: option.splits if_splits)

section \<open>Meanings\<close>

text \<open>
  The values of a call of the channels contract: through the module the functions with the suffix
  \<open>Safe\<close>, whose first argument, the node, is not read.
\<close>

definition channel_call :: "'m parselib \<Rightarrow> bool \<Rightarrow> contract_fn \<Rightarrow> contract_fn \<Rightarrow> bytes \<Rightarrow> abi_value list \<Rightarrow> bool" where
  "channel_call P m f g d vs \<longleftrightarrow> (if m then \<exists>node. pl_call P g d = Ok (AWord node # vs) else pl_call P f d = Ok vs)"

text \<open>The words of an address and of an amount.\<close>

abbreviation address_value :: "address \<Rightarrow> abi_value" where
  "address_value a \<equiv> AWord (addr32 a)"

abbreviation number_value :: "nat \<Rightarrow> abi_value" where
  "number_value n \<equiv> AWord (be32 n)"

inductive call_means ::
  "'m parselib \<Rightarrow> (bytes \<Rightarrow> bytes) \<Rightarrow> contract_addresses \<Rightarrow> address \<Rightarrow> bool \<Rightarrow> address \<Rightarrow> bytes \<Rightarrow> 'm parsed_action \<Rightarrow> bool"
  for P keccak c s m where
  means_registration: "pl_call P FnRegisterSafeByNode d = Ok [address_value a] \<Longrightarrow> wf_address a
    \<Longrightarrow> call_means P keccak c s m (ca_node_safe_registry c) d (RegisterSafeAddress a)"
| means_funding: "channel_call P m FnFundChannel FnFundChannelSafe d [address_value a, number_value (wei b)] \<Longrightarrow> wf_address a
    \<Longrightarrow> call_means P keccak c s m (ca_channels c) d (FundChannel a b)"
| means_initiation:
    "channel_call P m FnInitiateOutgoingChannelClosure FnInitiateOutgoingChannelClosureSafe d [address_value a] \<Longrightarrow> wf_address a
    \<Longrightarrow> call_means P keccak c s m (ca_channels c) d (InitializeChannelClosure (generate_channel_id keccak s a))"
| means_finalization:
    "channel_call P m FnFinalizeOutgoingChannelClosure FnFinalizeOutgoingChannelClosureSafe d [address_value a] \<Longrightarrow> wf_address a
    \<Longrightarrow> call_means P keccak c s m (ca_channels c) d (FinalizeChannelClosure (generate_channel_id keccak s a))"
| means_incoming:
    "channel_call P m FnCloseIncomingChannel FnCloseIncomingChannelSafe d [address_value a] \<Longrightarrow> wf_address a
    \<Longrightarrow> call_means P keccak c s m (ca_channels c) d (IncomingChannelClosure (generate_channel_id keccak a s))"
| means_redemption:
    "channel_call P m FnRedeemTicket FnRedeemTicketSafe d
       (AWord (hash_bytes h) # number_value (wei b) # number_value (unat i) # map AWord ws)
    \<Longrightarrow> call_means P keccak c s m (ca_channels c) d (RedeemTicket h i b)"
| means_send: "pl_call P FnSend d = Ok [address_value a, number_value (wei b), ABytes payload] \<Longrightarrow> wf_address a
    \<Longrightarrow> a \<noteq> ca_announcements c
    \<Longrightarrow> call_means P keccak c s m (ca_token c) d (WithdrawToken a b (if m then SafePays else EoaPays))"
| means_announcement: "pl_call P FnSend d = Ok [address_value (ca_announcements c), fee, ABytes payload]
    \<Longrightarrow> pl_announce P (be32 32 @ payload) = Ok [caller, sig0, sig1, AWord (opk_bytes k), ABytes t]
    \<Longrightarrow> (if t = [] then x = None else x \<noteq> None \<and> pl_multiaddr P (bytes_string t) = x)
    \<Longrightarrow> call_means P keccak c s m (ca_token c) d (Announce k x)"
| means_approval: "pl_call P FnApprove d = Ok [address_value a, number_value (wei b)] \<Longrightarrow> wf_address a
    \<Longrightarrow> call_means P keccak c s m (ca_token c) d (Approve a b (if m then SafePays else EoaPays))"
| means_transfer: "pl_call P FnTransfer d = Ok [address_value a, number_value (wei b)] \<Longrightarrow> wf_address a
    \<Longrightarrow> call_means P keccak c s m (ca_token c) d (WithdrawToken a b (if m then SafePays else EoaPays))"

inductive tx_means ::
  "'m parselib \<Rightarrow> (bytes \<Rightarrow> bytes) \<Rightarrow> address \<Rightarrow> contract_addresses \<Rightarrow> decoded_tx \<Rightarrow> 'm parsed_action \<Rightarrow> address \<Rightarrow> bool"
  for P keccak module_addr c tx where
  means_module_native: "dt_signer tx = Ok s \<Longrightarrow> dt_to tx = Some module_addr
    \<Longrightarrow> pl_call P FnExecTransactionFromModule (dt_input tx) = Ok [address_value a, number_value (wei b), ABytes [], oper]
    \<Longrightarrow> wf_address a \<Longrightarrow> wei b > 0
    \<Longrightarrow> tx_means P keccak module_addr c tx (WithdrawNative a b SafePays) s"
| means_module_call: "dt_signer tx = Ok s \<Longrightarrow> dt_to tx = Some module_addr
    \<Longrightarrow> pl_call P FnExecTransactionFromModule (dt_input tx) = Ok [address_value t, number_value n, ABytes d, oper]
    \<Longrightarrow> n < 2 ^ 256 \<Longrightarrow> wf_address t \<Longrightarrow> n = 0 \<or> d \<noteq> []
    \<Longrightarrow> call_means P keccak c s True t d x
    \<Longrightarrow> tx_means P keccak module_addr c tx x s"
| means_direct: "dt_signer tx = Ok s \<Longrightarrow> dt_to tx = Some t \<Longrightarrow> t \<noteq> module_addr \<Longrightarrow> t \<in> set (contract_list c)
    \<Longrightarrow> call_means P keccak c s False t (dt_input tx) x
    \<Longrightarrow> tx_means P keccak module_addr c tx x s"
| means_native: "dt_signer tx = Ok s \<Longrightarrow> dt_to tx = Some a \<Longrightarrow> a \<notin> insert module_addr (set (contract_list c))
    \<Longrightarrow> dt_value tx = wei b \<Longrightarrow> wei b > 0
    \<Longrightarrow> tx_means P keccak module_addr c tx (WithdrawNative a b EoaPays) s"

section \<open>Words\<close>

lemma address_word:
  assumes "has_type (AWord w) (TWord 160)"
  shows "wf_address (word_address w)" "w = addr32 (word_address w)"
proof -
  have w: "length w = 32" "from_be w < 2 ^ 160" using assms by (simp_all add: has_type.simps)
  show wf: "wf_address (word_address w)" using w(1) by (simp add: word_address_def wf_address_def ADDRESS_SIZE_def)
  have "from_be w = from_be (take 12 w) * 256 ^ 20 + from_be (drop 12 w)"
    using from_be_append [of "take 12 w" "drop 12 w"] w(1) by simp
  moreover have "(256 :: nat) ^ 20 = 2 ^ 160" by simp
  ultimately have "from_be (take 12 w) = 0" using w(2) by (cases "from_be (take 12 w)") (simp_all del: power_numeral)
  then have "from_be (address_bytes (word_address w)) = from_be w"
    using \<open>from_be w = _\<close> by (simp add: word_address_def)
  then have "addr32 (word_address w) = be32 (from_be w)" by (simp add: addr32_eq [OF wf])
  then show "w = addr32 (word_address w)" using be32_from_be [OF w(1)] by simp
qed

lemma word_address_eq: "has_type (AWord w) (TWord 160) \<Longrightarrow> word_address w = a \<longleftrightarrow> wf_address a \<and> w = addr32 a"
  using address_word [of w] word_reads(1) [of a] by auto

lemma number_word:
  assumes "has_type (AWord w) (TWord (8 * n))" "n \<le> 32"
  shows "from_be (word_be n w) = from_be w" "w = be32 (from_be w)" "from_be w < 2 ^ 256"
proof -
  have w: "length w = 32" "from_be w < 2 ^ (8 * n)" using assms by (simp_all add: has_type.simps)
  have "(256 :: nat) ^ n = 2 ^ (8 * n)" by (simp add: power_mult)
  then show "from_be (word_be n w) = from_be w" using w(2) by (simp add: word_be_def from_be_to_be)
  show "w = be32 (from_be w)" using be32_from_be [OF w(1)] by simp
  show "from_be w < 2 ^ 256" using from_be_less [of w] w(1) by simp
qed

lemma word_amount_eq:
  assumes "has_type (AWord w) (TWord (8 * n))" "n \<le> 32"
  shows "word_balance wxhopr_currency n w = b \<longleftrightarrow> w = be32 (wei b)"
    "word_balance xdai_currency n w = x \<longleftrightarrow> w = be32 (wei x)"
proof -
  note n = number_word [OF assms]
  have l: "length (word_be n w) \<le> 32" using assms(2) by (simp add: word_be_def)
  have v: "(of_nat (from_be w) :: u256) = y \<longleftrightarrow> w = be32 (unat y)" for y
  proof
    assume "of_nat (from_be w) = y"
    then have "unat y = from_be w" using n(3) unat_of_nat_less [of "from_be w", where 'a = 256] by auto
    then show "w = be32 (unat y)" using n(2) by simp
  next
    assume w: "w = be32 (unat y)"
    have "from_be (be32 (unat y)) = unat y" using unat_less_2p [of y] by (intro from_be_be32) simp
    then have "from_be w = unat y" unfolding w .
    then show "of_nat (from_be w) = y" by simp
  qed
  show "word_balance wxhopr_currency n w = b \<longleftrightarrow> w = be32 (wei b)"
    using v l n(1) by (cases b; cases "balance_currency b")
      (simp add: word_balance_def balance_from_be_bytes_def u256_from_be_bytes_def wei_def wxhopr_currency_def)
  show "word_balance xdai_currency n w = x \<longleftrightarrow> w = be32 (wei x)"
    using v l n(1) by (cases x; cases "balance_currency x")
      (simp add: word_balance_def balance_from_be_bytes_def u256_from_be_bytes_def wei_def xdai_currency_def)
qed

lemma amount_word:
  assumes "has_type (AWord w) (TWord (8 * n))" "n \<le> 32"
  shows "w = be32 (wei (word_balance wxhopr_currency n w))" "w = be32 (wei (word_balance xdai_currency n w))"
  using word_amount_eq [OF assms] by blast+

lemma word_index_eq:
  assumes "has_type (AWord w) (TWord 48)"
  shows "(of_nat (from_be (word_be 6 w)) :: u64) = i \<longleftrightarrow> w = be32 (unat i)"
proof -
  have w: "length w = 32" "from_be w < 2 ^ 48" using assms by (simp_all add: has_type.simps)
  have n: "from_be (word_be 6 w) = from_be w" "w = be32 (from_be w)"
    using number_word [of w 6] assms by simp_all
  have "(2 :: nat) ^ 48 < 2 ^ 64" by simp
  then have u: "unat (of_nat (from_be w) :: u64) = from_be w"
    using less_trans [OF w(2)] by (intro unat_of_nat_less) simp
  have "unat i < 2 ^ 256" using less_trans [OF unat_less_2p [of i], of "2 ^ 256"] by simp
  then have "from_be (be32 (unat i)) = unat i" by (rule from_be_be32)
  then have "w = be32 (unat i) \<longleftrightarrow> from_be w = unat i" using n(2) by auto
  also have "\<dots> \<longleftrightarrow> of_nat (from_be w) = i" using u by auto
  finally show ?thesis unfolding n(1) by simp
qed

section \<open>Calls of the channels contract\<close>

text \<open>Calldata belongs to one function, so the order in which the functions are tried does not matter.\<close>

lemma only_call: "parselib_ok A P \<Longrightarrow> pl_call P f d = Ok vs \<Longrightarrow> pl_call P g d = Ok ws \<Longrightarrow> f = g"
  unfolding parselib_ok_def by (metis res.distinct(1) selector_inj)

lemma words_of_Some: "words_of vs = Some ws \<longleftrightarrow> vs = map AWord ws"
proof
  show "words_of vs = Some ws \<Longrightarrow> vs = map AWord ws"
    by (induction vs arbitrary: ws rule: words_of.induct) auto
qed simp

lemma call_words_iff: "call_words P f d = Some ws \<longleftrightarrow> pl_call P f d = Ok (map AWord ws)"
  by (cases "pl_call P f d") (simp_all add: call_words_def words_of_Some)

lemma first_call:
  assumes "parselib_ok A P" "distinct (map fst fs)"
  shows "first_some (map (\<lambda>(f, g). map_option g (call_words P f d)) fs) = Some x \<longleftrightarrow>
    (\<exists>(f, g) \<in> set fs. \<exists>ws. pl_call P f d = Ok (map AWord ws) \<and> x = g ws)"
  using assms(2)
proof (induction fs)
  case (Cons p fs)
  obtain f g where p: "p = (f, g)" by fastforce
  show ?case
  proof (cases "call_words P f d")
    case None
    then have "pl_call P f d \<noteq> Ok (map AWord ws)" for ws using call_words_iff [of P f d ws] by simp
    then show ?thesis using None Cons by (simp add: p)
  next
    case (Some ws)
    then have f: "pl_call P f d = Ok (map AWord ws)" by (simp only: call_words_iff)
    have "pl_call P f' d \<noteq> Ok vs" if "(f', g') \<in> set fs" for f' g' vs
    proof
      assume "pl_call P f' d = Ok vs"
      then have "f = f'" using only_call [OF assms(1) f] by simp
      then show False using that Cons.prems by (force simp: p)
    qed
    moreover have "map AWord ws = map AWord ws' \<longleftrightarrow> ws = ws'" for ws' by (simp add: inj_map_eq_map inj_def)
    ultimately show ?thesis using Some f by (auto simp: p)
  qed
qed simp

text \<open>The arguments of a function with words only.\<close>

lemma word_args:
  assumes "parselib_typed P" "pl_call P f d = Ok (map AWord ws)"
  shows "list_all2 (\<lambda>w t. has_type (AWord w) t) ws (fn_types f)"
  using parselib_typedD(2) [OF assms] by (simp add: list.rel_map)

lemma channel_call_words:
  "channel_call P m f g d (map AWord ws) \<longleftrightarrow>
    (if m then \<exists>node. pl_call P g d = Ok (map AWord (node # ws)) else pl_call P f d = Ok (map AWord ws))"
  by (simp add: channel_call_def)

lemma channel_args:
  assumes "parselib_typed P" "channel_call P m f g d (map AWord ws)" "fn_types g = TWord 160 # fn_types f"
  shows "list_all2 (\<lambda>w t. has_type (AWord w) t) ws (fn_types f)"
proof (cases m)
  case True
  then obtain node where "pl_call P g d = Ok (map AWord (node # ws))" using assms(2) unfolding channel_call_words by auto
  from word_args [OF assms(1) this] show ?thesis by (simp add: assms(3))
next
  case False
  then show ?thesis using assms(2) word_args [OF assms(1)] by (simp add: channel_call_def)
qed

text \<open>Without the node, the functions of the module take the arguments of the others.\<close>

lemma module_args:
  assumes "parselib_typed P" "fn_types g \<noteq> []"
  shows "(\<exists>ws. pl_call P g d = Ok (map AWord ws) \<and> Q ws) \<longleftrightarrow>
    (\<exists>ws node. pl_call P g d = Ok (map AWord (node # ws)) \<and> Q (node # ws))"
proof
  assume "\<exists>ws. pl_call P g d = Ok (map AWord ws) \<and> Q ws"
  then obtain ws where ws: "pl_call P g d = Ok (map AWord ws)" "Q ws" by blast
  have "ws \<noteq> []" using word_args [OF assms(1) ws(1)] assms(2) by auto
  with ws show "\<exists>ws node. pl_call P g d = Ok (map AWord (node # ws)) \<and> Q (node # ws)" by (metis list.exhaust)
qed blast

lemma channels_calls:
  assumes "parselib_ok A P" "parselib_typed P"
    and cc: "cc = (\<lambda>f g ws. channel_call P m f g d (map AWord ws))"
  shows "(if m then parse_channels_module P keccak s d else parse_channels_direct P keccak s d) = Ok x \<longleftrightarrow>
    (\<exists>ws. cc FnFundChannel FnFundChannelSafe ws \<and> x = FundChannel (word_address (ws ! 0)) (word_balance wxhopr_currency 12 (ws ! 1)))
  \<or> (\<exists>ws. cc FnInitiateOutgoingChannelClosure FnInitiateOutgoingChannelClosureSafe ws
        \<and> x = InitializeChannelClosure (generate_channel_id keccak s (word_address (ws ! 0))))
  \<or> (\<exists>ws. cc FnFinalizeOutgoingChannelClosure FnFinalizeOutgoingChannelClosureSafe ws
        \<and> x = FinalizeChannelClosure (generate_channel_id keccak s (word_address (ws ! 0))))
  \<or> (\<exists>ws. cc FnCloseIncomingChannel FnCloseIncomingChannelSafe ws
        \<and> x = IncomingChannelClosure (generate_channel_id keccak (word_address (ws ! 0)) s))
  \<or> (\<exists>ws. cc FnRedeemTicket FnRedeemTicketSafe ws \<and> x = redeem_action ws)"
proof (cases m)
  case False
  note first = first_call [OF assms(1), of
      "[(FnFundChannel, \<lambda>ws. FundChannel (word_address (ws ! 0)) (word_balance wxhopr_currency 12 (ws ! 1))),
        (FnInitiateOutgoingChannelClosure, \<lambda>ws. InitializeChannelClosure (generate_channel_id keccak s (word_address (ws ! 0)))),
        (FnFinalizeOutgoingChannelClosure, \<lambda>ws. FinalizeChannelClosure (generate_channel_id keccak s (word_address (ws ! 0)))),
        (FnCloseIncomingChannel, \<lambda>ws. IncomingChannelClosure (generate_channel_id keccak (word_address (ws ! 0)) s)),
        (FnRedeemTicket, redeem_action)]" d x]
  show ?thesis
    using first by (simp add: False cc channel_call_def parse_channels_direct_def del: first_some.simps)
next
  case True
  note first = first_call [OF assms(1), of
      "[(FnFundChannelSafe, \<lambda>ws. FundChannel (word_address (ws ! 1)) (word_balance wxhopr_currency 12 (ws ! 2))),
        (FnInitiateOutgoingChannelClosureSafe, \<lambda>ws. InitializeChannelClosure (generate_channel_id keccak s (word_address (ws ! 1)))),
        (FnFinalizeOutgoingChannelClosureSafe, \<lambda>ws. FinalizeChannelClosure (generate_channel_id keccak s (word_address (ws ! 1)))),
        (FnCloseIncomingChannelSafe, \<lambda>ws. IncomingChannelClosure (generate_channel_id keccak (word_address (ws ! 1)) s)),
        (FnRedeemTicketSafe, \<lambda>ws. redeem_action (tl ws))]" d x]
  show ?thesis
    using first by (simp add: True cc channel_call_words parse_channels_module_def module_args [OF assms(2)] del: first_some.simps)
qed

text \<open>What the words mean.\<close>

lemma closure_meaning:
  assumes "parselib_typed P" "fn_types f = [TWord 160]" "fn_types g = [TWord 160, TWord 160]"
    and cc: "cc = channel_call P m f g d"
  shows "(\<exists>ws. cc (map AWord ws) \<and> x = h (word_address (ws ! 0))) \<longleftrightarrow> (\<exists>a. cc [address_value a] \<and> wf_address a \<and> x = h a)"
proof
  assume "\<exists>ws. cc (map AWord ws) \<and> x = h (word_address (ws ! 0))"
  then obtain ws where ws: "cc (map AWord ws)" "x = h (word_address (ws ! 0))" by blast
  moreover obtain w where w: "ws = [w]" "has_type (AWord w) (TWord 160)"
    using channel_args [OF assms(1) ws(1) [unfolded cc]] assms(2,3) by (auto simp: list_all2_Cons2)
  ultimately show "\<exists>a. cc [address_value a] \<and> wf_address a \<and> x = h a"
    using address_word [OF w(2)] by (intro exI [of _ "word_address w"]) simp
next
  assume "\<exists>a. cc [address_value a] \<and> wf_address a \<and> x = h a"
  then obtain a where "cc [address_value a]" "wf_address a" "x = h a" by blast
  then show "\<exists>ws. cc (map AWord ws) \<and> x = h (word_address (ws ! 0))"
    by (intro exI [of _ "[addr32 a]"]) (simp add: word_reads(1))
qed

lemma funding_meaning:
  assumes "parselib_typed P"
    and cc: "cc = channel_call P m FnFundChannel FnFundChannelSafe d"
  shows "(\<exists>ws. cc (map AWord ws) \<and> x = FundChannel (word_address (ws ! 0)) (word_balance wxhopr_currency 12 (ws ! 1)))
    \<longleftrightarrow> (\<exists>a b. cc [address_value a, number_value (wei b)] \<and> wf_address a \<and> x = FundChannel a b)"
    (is "?parsed \<longleftrightarrow> ?means")
proof -
  have args: "\<exists>v w. ws = [v, w] \<and> has_type (AWord v) (TWord 160) \<and> has_type (AWord w) (TWord (8 * 12))"
    if "cc (map AWord ws)" for ws
    using channel_args [OF assms(1) that [unfolded cc]] by (auto simp: list_all2_Cons2)
  show ?thesis
  proof
    assume ?parsed
    then obtain ws where ws: "cc (map AWord ws)"
      "x = FundChannel (word_address (ws ! 0)) (word_balance wxhopr_currency 12 (ws ! 1))" by blast
    moreover obtain v w where w: "ws = [v, w]" "has_type (AWord v) (TWord 160)" "has_type (AWord w) (TWord (8 * 12))"
      using args [OF ws(1)] by blast
    ultimately show ?means
      using address_word [OF w(2)] amount_word(1) [OF w(3)]
      by (intro exI [of _ "word_address v"] exI [of _ "word_balance wxhopr_currency 12 w"]) simp
  next
    assume ?means
    then obtain a b where c: "cc (map AWord [addr32 a, be32 (wei b)])" "wf_address a" "x = FundChannel a b" by auto
    have "word_balance wxhopr_currency 12 (be32 (wei b)) = b" using args [OF c(1)] word_amount_eq(1) [of "be32 (wei b)" 12 b] by simp
    with c show ?parsed by (intro exI [of _ "[addr32 a, be32 (wei b)]"]) (simp add: word_reads(1))
  qed
qed

lemma redemption_meaning:
  assumes "parselib_typed P"
    and cc: "cc = channel_call P m FnRedeemTicket FnRedeemTicketSafe d"
  shows "(\<exists>ws. cc (map AWord ws) \<and> x = redeem_action ws)
    \<longleftrightarrow> (\<exists>h i b ws. cc (AWord (hash_bytes h) # number_value (wei b) # number_value (unat i) # map AWord ws) \<and> x = RedeemTicket h i b)"
    (is "?parsed \<longleftrightarrow> ?means")
proof -
  have args: "\<exists>u v w ws'. ws = u # v # w # ws' \<and> has_type (AWord v) (TWord (8 * 12)) \<and> has_type (AWord w) (TWord 48)"
    if "cc (map AWord ws)" for ws
    using channel_args [OF assms(1) that [unfolded cc]] by (auto simp: redeem_types_def list_all2_Cons2)
  show ?thesis
  proof
    assume ?parsed
    then obtain ws where ws: "cc (map AWord ws)" "x = redeem_action ws" by blast
    moreover obtain u v w ws' where w: "ws = u # v # w # ws'" "has_type (AWord v) (TWord (8 * 12))" "has_type (AWord w) (TWord 48)"
      using args [OF ws(1)] by blast
    moreover have "w = be32 (unat (of_nat (from_be (word_be 6 w)) :: u64))" using word_index_eq [OF w(3)] by blast
    ultimately show ?means
      using amount_word(1) [OF w(2)]
      by (intro exI [of _ "Hash u"] exI [of _ "of_nat (from_be (word_be 6 w))"] exI [of _ "word_balance wxhopr_currency 12 v"]
          exI [of _ ws']) (simp add: redeem_action_def)
  next
    assume ?means
    then obtain h i b ws where c: "cc (map AWord (hash_bytes h # be32 (wei b) # be32 (unat i) # ws))" "x = RedeemTicket h i b"
      by auto
    have "word_balance wxhopr_currency 12 (be32 (wei b)) = b" "of_nat (from_be (word_be 6 (be32 (unat i)))) = i"
      using args [OF c(1)] word_amount_eq(1) [of "be32 (wei b)" 12 b] word_index_eq [of "be32 (unat i)" i] by auto
    with c show ?parsed
      by (intro exI [of _ "hash_bytes h # be32 (wei b) # be32 (unat i) # ws"]) (simp add: redeem_action_def)
  qed
qed

inductive_simps call_means_iff: "call_means P keccak c s m t d x"

lemma channels_meaning:
  assumes "parselib_ok A P" "parselib_typed P" "contracts_apart c"
  shows "(if m then parse_channels_module P keccak s d else parse_channels_direct P keccak s d) = Ok x
    \<longleftrightarrow> call_means P keccak c s m (ca_channels c) d x"
proof -
  have n: "ca_channels c \<noteq> ca_node_safe_registry c" "ca_channels c \<noteq> ca_token c"
    using assms(3) by (auto simp: contracts_apart_def)
  note closure = closure_meaning [OF assms(2) _ _ refl]
  note closures =
    closure [OF fn_types.simps(15,16), where h = "\<lambda>a. InitializeChannelClosure (generate_channel_id keccak s a)"]
    closure [OF fn_types.simps(17,18), where h = "\<lambda>a. FinalizeChannelClosure (generate_channel_id keccak s a)"]
    closure [OF fn_types.simps(13,14), where h = "\<lambda>a. IncomingChannelClosure (generate_channel_id keccak a s)"]
  show ?thesis
    unfolding channels_calls [OF assms(1,2) refl] funding_meaning [OF assms(2) refl] redemption_meaning [OF assms(2) refl]
      closures call_means_iff
    using n by auto
qed

section \<open>Calls of the token and of the registry\<close>

text \<open>The values of a call, by the types of its signature.\<close>

lemma call_shapes:
  assumes "parselib_typed P"
  shows "pl_call P FnRegisterSafeByNode d = Ok vs \<Longrightarrow> \<exists>w. vs = [AWord w] \<and> has_type (AWord w) (TWord 160)"
    "pl_call P FnApprove d = Ok vs \<or> pl_call P FnTransfer d = Ok vs \<Longrightarrow>
      \<exists>v w. vs = [AWord v, AWord w] \<and> has_type (AWord v) (TWord 160) \<and> has_type (AWord w) (TWord (8 * 32))"
    "pl_call P FnSend d = Ok vs \<Longrightarrow>
      \<exists>v w p. vs = [AWord v, AWord w, ABytes p] \<and> has_type (AWord v) (TWord 160) \<and> has_type (AWord w) (TWord (8 * 32))"
    "pl_call P FnExecTransactionFromModule d = Ok vs \<Longrightarrow>
      \<exists>v w p u. vs = [AWord v, AWord w, ABytes p, AWord u] \<and> has_type (AWord v) (TWord 160) \<and> has_type (AWord w) (TWord (8 * 32))"
    "pl_announce P d = Ok vs \<Longrightarrow> \<exists>v0 v1 v2 w p. vs = [AWord v0, AWord v1, AWord v2, AWord w, ABytes p] \<and> length w = 32"
proof -
  have w: "has_type v (TWord n) \<longleftrightarrow> (\<exists>w. v = AWord w \<and> length w = 32 \<and> from_be w < 2 ^ n)" for v n
    by (cases v) (simp_all add: has_type.simps)
  have b: "has_type v TBytes \<longleftrightarrow> (\<exists>p. v = ABytes p)" for v by (cases v) (simp_all add: has_type.simps)
  note shape = w b list_all2_Cons2 has_type.simps announce_types_def
  show "pl_call P FnRegisterSafeByNode d = Ok vs \<Longrightarrow> \<exists>w. vs = [AWord w] \<and> has_type (AWord w) (TWord 160)"
    using parselib_typedD(2) [OF assms, of FnRegisterSafeByNode d vs] by (auto simp: shape)
  show "pl_call P FnApprove d = Ok vs \<or> pl_call P FnTransfer d = Ok vs \<Longrightarrow>
      \<exists>v w. vs = [AWord v, AWord w] \<and> has_type (AWord v) (TWord 160) \<and> has_type (AWord w) (TWord (8 * 32))"
    using parselib_typedD(2) [OF assms, of FnApprove d vs] parselib_typedD(2) [OF assms, of FnTransfer d vs] by (auto simp: shape)
  show "pl_call P FnSend d = Ok vs \<Longrightarrow>
      \<exists>v w p. vs = [AWord v, AWord w, ABytes p] \<and> has_type (AWord v) (TWord 160) \<and> has_type (AWord w) (TWord (8 * 32))"
    using parselib_typedD(2) [OF assms, of FnSend d vs] by (auto simp: shape)
  show "pl_call P FnExecTransactionFromModule d = Ok vs \<Longrightarrow>
      \<exists>v w p u. vs = [AWord v, AWord w, ABytes p, AWord u] \<and> has_type (AWord v) (TWord 160) \<and> has_type (AWord w) (TWord (8 * 32))"
    using parselib_typedD(2) [OF assms, of FnExecTransactionFromModule d vs] by (auto simp: shape)
  show "pl_announce P d = Ok vs \<Longrightarrow> \<exists>v0 v1 v2 w p. vs = [AWord v0, AWord v1, AWord v2, AWord w, ABytes p] \<and> length w = 32"
    using parselib_typedD(4) [OF assms, of d vs] by (auto simp: shape)
qed

lemma registration_meaning:
  assumes "parselib_typed P" "contracts_apart c"
  shows "parse_target P keccak c s (ca_node_safe_registry c) d m = Ok x \<longleftrightarrow> call_means P keccak c s m (ca_node_safe_registry c) d x"
proof -
  have n: "ca_node_safe_registry c \<noteq> ca_channels c" "ca_node_safe_registry c \<noteq> ca_token c"
    using assms(2) by (auto simp: contracts_apart_def)
  show ?thesis
  proof (cases "pl_call P FnRegisterSafeByNode d")
    case (Ok vs)
    then obtain w where w: "vs = [AWord w]" "has_type (AWord w) (TWord 160)" using call_shapes(1) [OF assms(1)] by blast
    have "x = RegisterSafeAddress (word_address w) \<longleftrightarrow> (\<exists>a. x = RegisterSafeAddress a \<and> wf_address a \<and> w = addr32 a)"
      using word_address_eq [OF w(2)] by metis
    then show ?thesis using n by (auto simp: parse_target_def call_means_iff Ok w(1))
  qed (use n in \<open>simp_all add: parse_target_def call_means_iff\<close>)
qed

lemma announcement_meaning:
  assumes "parselib_typed P"
  shows "parse_announcement P payload = Ok x \<longleftrightarrow>
    (\<exists>caller sig0 sig1 k t y. pl_announce P (be32 32 @ payload) = Ok [caller, sig0, sig1, AWord (opk_bytes k), ABytes t]
      \<and> (if t = [] then y = None else y \<noteq> None \<and> pl_multiaddr P (bytes_string t) = y) \<and> x = Announce k y)"
proof -
  have h: "be32 32 = replicate 31 0 @ [32]" using to_be_pad [of 32 1 31] by (simp add: be32_def)
  show ?thesis
  proof (cases "pl_announce P (be32 32 @ payload)")
    case (Ok vs)
    then obtain v0 v1 v2 w t where vs: "vs = [AWord v0, AWord v1, AWord v2, AWord w, ABytes t]" "length w = 32"
      using call_shapes(5) [OF assms] by blast
    have k: "opk_try_from w = Ok (OffchainPublicKey w)" using vs(2) by (simp add: opk_try_from_def array_try_from_def OPK_SIZE_def)
    have "opk_bytes k = w \<longleftrightarrow> k = OffchainPublicKey w" for k by (cases k) simp
    then show ?thesis
      using Ok k by (cases "pl_multiaddr P (bytes_string t)") (auto simp: parse_announcement_def h vs(1))
  qed (simp_all add: parse_announcement_def h)
qed

text \<open>A recipient and an amount, read and encoded.\<close>

lemma payment_meaning:
  assumes "has_type (AWord v) (TWord 160)" "has_type (AWord w) (TWord (8 * 32))"
  shows "x = f (word_address v) (word_balance wxhopr_currency 32 w) \<longleftrightarrow>
    (\<exists>a b. x = f a b \<and> wf_address a \<and> v = addr32 a \<and> w = be32 (wei b))"
  using word_address_eq [OF assms(1)] word_amount_eq(1) [OF assms(2)] by (metis order_refl)

lemma ok_None: "ok r = None \<longleftrightarrow> (\<forall>v. r \<noteq> Ok v)"
  by (cases r) simp_all

lemma call_words_None: "\<forall>vs. pl_call P f d \<noteq> Ok vs \<Longrightarrow> call_words P f d = None"
  by (cases "call_words P f d") (simp_all add: call_words_iff)

lemma token_meaning:
  assumes "parselib_ok A P" "parselib_typed P" "contracts_apart c" "wf_address (ca_announcements c)"
  shows "parse_token P c d m = Ok x \<longleftrightarrow> call_means P keccak c s m (ca_token c) d x"
proof -
  have n: "ca_token c \<noteq> ca_channels c" "ca_token c \<noteq> ca_node_safe_registry c"
    using assms(3) by (auto simp: contracts_apart_def)
  note other = only_call [OF assms(1), of _ d]
  consider (send) vs where "pl_call P FnSend d = Ok vs" | (approve) vs where "pl_call P FnApprove d = Ok vs"
    | (transfer) vs where "pl_call P FnTransfer d = Ok vs"
    | (none) "\<And>f vs. f \<in> {FnSend, FnApprove, FnTransfer} \<Longrightarrow> pl_call P f d \<noteq> Ok vs" by blast
  then show ?thesis
  proof cases
    case send
    obtain v w p where vs: "vs = [AWord v, AWord w, ABytes p]" and t: "has_type (AWord v) (TWord 160)" "has_type (AWord w) (TWord (8 * 32))"
      using call_shapes(3) [OF assms(2) send] by blast
    have o: "pl_call P FnApprove d \<noteq> Ok us" "pl_call P FnTransfer d \<noteq> Ok us" for us using other [OF send] by blast+
    have v: "v = addr32 (ca_announcements c) \<longleftrightarrow> word_address v = ca_announcements c"
      using word_address_eq [OF t(1)] assms(4) by auto
    show ?thesis
    proof (cases "word_address v = ca_announcements c")
      case True
      then have e: "v = addr32 (ca_announcements c)" and no: "wf_address a \<Longrightarrow> v = addr32 a \<Longrightarrow> a = ca_announcements c" for a
        using v word_reads(1) [of a] by auto
      have "call_means P keccak c s m (ca_token c) d x" if "parse_announcement P p = Ok x"
        using that send unfolding announcement_meaning [OF assms(2)] vs e by (auto intro: means_announcement)
      moreover have "parse_announcement P p = Ok x" if "call_means P keccak c s m (ca_token c) d x"
        using that
      proof cases
        case (means_send a b payload)
        then show ?thesis using send vs no by auto
      next
        case (means_announcement fee payload caller sig0 sig1 k t y)
        then have "payload = p" using send vs by simp
        with means_announcement(1,3,4) show ?thesis unfolding announcement_meaning [OF assms(2)] by (intro exI conjI) simp_all
      qed (use n o in simp_all)
      ultimately show ?thesis using True by (auto simp: parse_token_def send vs)
    next
      case False
      have parsed: "parse_token P c d m = Ok x \<longleftrightarrow>
          x = WithdrawToken (word_address v) (word_balance wxhopr_currency 32 w) (if m then SafePays else EoaPays)"
        using False by (auto simp: parse_token_def send vs payer_of_def)
      have "call_means P keccak c s m (ca_token c) d (WithdrawToken (word_address v) (word_balance wxhopr_currency 32 w)
          (if m then SafePays else EoaPays))"
        by (rule means_send) (use send vs address_word [OF t(1)] amount_word(1) [OF t(2)] False in simp_all)
      moreover have "parse_token P c d m = Ok x" if "call_means P keccak c s m (ca_token c) d x"
        using that
      proof cases
        case (means_send a b payload)
        then have "word_address v = a" "word_balance wxhopr_currency 32 w = b"
          using send vs word_address_eq [OF t(1), of a] word_amount_eq(1) [OF t(2), of b] by simp_all
        then show ?thesis using means_send(1) unfolding parsed by simp
      qed (use n o send vs v False in simp_all)
      ultimately show ?thesis using parsed by blast
    qed
  next
    case approve
    obtain v w where vs: "vs = [AWord v, AWord w]" and t: "has_type (AWord v) (TWord 160)" "has_type (AWord w) (TWord (8 * 32))"
      using call_shapes(2) [OF assms(2)] approve by blast
    have o: "pl_call P FnSend d \<noteq> Ok us" "pl_call P FnTransfer d \<noteq> Ok us" for us using other [OF approve] by blast+
    have "call_words P FnApprove d = Some [v, w]" using approve vs by (simp add: call_words_iff)
    moreover have "ok (pl_call P FnSend d) = None" by (simp add: ok_None o)
    ultimately show ?thesis
      using n o payment_meaning [OF t, of x "\<lambda>a b. Approve a b (if m then SafePays else EoaPays)"]
      by (auto simp: parse_token_def approve vs payer_of_def call_means_iff)
  next
    case transfer
    obtain v w where vs: "vs = [AWord v, AWord w]" and t: "has_type (AWord v) (TWord 160)" "has_type (AWord w) (TWord (8 * 32))"
      using call_shapes(2) [OF assms(2)] transfer by blast
    have o: "pl_call P FnSend d \<noteq> Ok us" "pl_call P FnApprove d \<noteq> Ok us" for us using other [OF transfer] by blast+
    have "call_words P FnApprove d = None" by (simp add: call_words_None o)
    moreover have "ok (pl_call P FnSend d) = None" by (simp add: ok_None o)
    ultimately show ?thesis
      using n o payment_meaning [OF t, of x "\<lambda>a b. WithdrawToken a b (if m then SafePays else EoaPays)"]
      by (auto simp: parse_token_def transfer vs payer_of_def call_means_iff)
  next
    case none
    have "call_words P FnApprove d = None" by (simp add: call_words_None none)
    moreover have "ok (pl_call P FnSend d) = None" by (simp add: ok_None none)
    ultimately show ?thesis
      using n none by (cases "pl_call P FnTransfer d") (simp_all add: parse_token_def call_means_iff)
  qed
qed

lemma target_meaning:
  assumes "parselib_ok A P" "parselib_typed P" "contracts_apart c" "wf_address (ca_announcements c)"
  shows "parse_target P keccak c s t d m = Ok x \<longleftrightarrow> call_means P keccak c s m t d x"
proof -
  note apart = parse_target_apart [OF assms(3), of P keccak s]
  consider "t = ca_node_safe_registry c" | "t = ca_channels c" | "t = ca_token c"
    | "t \<notin> {ca_node_safe_registry c, ca_channels c, ca_token c}" by blast
  then show ?thesis
  proof cases
    case 1
    then show ?thesis using registration_meaning [OF assms(2,3)] by simp
  next
    case 2
    then show ?thesis using channels_meaning [OF assms(1-3), of m keccak s d x] by (cases m) (simp_all add: apart)
  next
    case 3
    then show ?thesis using token_meaning [OF assms] by (simp add: apart)
  next
    case 4
    then show ?thesis by (simp add: parse_target_def call_means_iff)
  qed
qed

section \<open>Transactions\<close>

inductive_simps tx_means_iff: "tx_means P keccak module_addr c tx x s"

lemma native_balance_iff: "v < 2 ^ 256 \<Longrightarrow> native_balance v = b \<longleftrightarrow> v = wei b"
proof -
  assume v: "v < 2 ^ 256"
  have "has_type (AWord (be32 v)) (TWord (8 * 32))" using v by (simp add: has_type.simps from_be_be32 del: power_numeral)
  moreover have "be32 v = be32 (wei b) \<longleftrightarrow> v = wei b"
  proof -
    have "wei b < 2 ^ 256" using unat_less_2p [of "balance_wei b"] by (simp add: wei_def)
    then show ?thesis using v by (metis from_be_be32)
  qed
  ultimately show "native_balance v = b \<longleftrightarrow> v = wei b" using word_amount_eq(2) [of "be32 v" 32 b] by (simp add: native_balance_def)
qed

text \<open>C30. The parser reads exactly what the calldata says. For decoders that return typed values and keep the
  functions apart, a transaction is parsed to an action with a signer if and only if it means that action:
  through the module or directly, it decodes to the one function for the action, whose words are the
  encodings of the action's fields - recipient and amount, the channel id, index and amount of the
  ticket, the announced key and multiaddress; a closure names the channel between the signer and the
  given node, in the direction of the function; the Safe pays exactly for calls through the module. No
  number is cut off, nothing else is accepted, and no transaction means two actions.\<close>

theorem parse_exact:
  assumes "parselib_ok A P" "parselib_typed P" "contracts_apart c" "wf_address (ca_announcements c)" "dt_value tx < 2 ^ 256"
  shows "parse_transaction P keccak module_addr c tx = Ok (x, s) \<longleftrightarrow> tx_means P keccak module_addr c tx x s"
proof -
  note target = target_meaning [OF assms(1-4)]
  have mem: "list_ex (\<lambda>y. y = t) (contract_list c) \<longleftrightarrow> t \<in> set (contract_list c)" for t by (auto simp: list_ex_iff)
  have wei_bound: "wei b < 2 ^ 256" for b :: "'z balance" using unat_less_2p [of "balance_wei b"] by (simp add: wei_def)
  have native: "(\<exists>b. x = WithdrawNative a b p \<and> v = wei b \<and> 0 < wei b) \<longleftrightarrow> x = WithdrawNative a (native_balance v) p \<and> 0 < v"
    if "v < 2 ^ 256" for v a p
    using native_balance_iff [OF that] by metis
  consider (unreadable) "\<not> is_ok (dt_signer tx) \<or> dt_to tx = None"
    | (module) s' where "dt_signer tx = Ok s'" "dt_to tx = Some module_addr"
    | (other) s' t where "dt_signer tx = Ok s'" "dt_to tx = Some t" "t \<noteq> module_addr"
    by (metis is_ok_iff option.exhaust)
  then show ?thesis
  proof cases
    case unreadable
    then show ?thesis by (cases "dt_signer tx") (auto simp: parse_transaction_def tx_means_iff)
  next
    case other
    then show ?thesis
      using native [OF assms(5)] by (auto simp: parse_transaction_def tx_means_iff target mem)
  next
    case module
    show ?thesis
    proof (cases "pl_call P FnExecTransactionFromModule (dt_input tx)")
      case (Ok vs)
      then obtain v w d u where vs: "vs = [AWord v, AWord w, ABytes d, AWord u]"
        and t: "has_type (AWord v) (TWord 160)" "has_type (AWord w) (TWord (8 * 32))"
        using call_shapes(4) [OF assms(2)] by blast
      define a n where an: "a = word_address v" "n = from_be w"
      have a: "wf_address a" "v = addr32 a" and n: "n < 2 ^ 256" "w = be32 n"
        using address_word [OF t(1)] number_word [OF t(2)] unfolding an by simp_all
      have call: "pl_call P FnExecTransactionFromModule (dt_input tx) = Ok [address_value a, number_value n, ABytes d, AWord u]"
        using Ok vs a(2) n(2) by simp
      have av: "b = a" if "addr32 b = addr32 a" "wf_address b" for b using that a(1) by (metis word_reads(1))
      have nv: "k = n" if "be32 k = be32 n" "k < 2 ^ 256" for k using that n(1) by (metis from_be_be32)
      have "tx_means P keccak module_addr c tx x s \<longleftrightarrow> s = s'
          \<and> (d = [] \<and> (\<exists>b. x = WithdrawNative a b SafePays \<and> n = wei b \<and> 0 < wei b)
            \<or> (n = 0 \<or> d \<noteq> []) \<and> call_means P keccak c s True a d x)" (is "?tx \<longleftrightarrow> ?meaning")
      proof
        assume ?tx
        then show ?meaning
        proof cases
          case (means_module_native b v')
          with call module have "b = a" "wei v' = n" "d = []" using av [of b] nv [OF _ wei_bound, of v'] by simp_all
          moreover have "s = s'" using means_module_native module by simp
          ultimately show ?thesis using means_module_native(1,6) by auto
        next
          case (means_module_call t k e)
          with call module have "t = a" "k = n" "e = d" using av [of t] nv [of k] by simp_all
          with means_module_call module show ?thesis by simp
        qed (use module in simp_all)
      next
        assume ?meaning
        then show ?tx using call module a(1) n(1) by (auto intro: means_module_native means_module_call)
      qed
      also have "\<dots> \<longleftrightarrow> parse_transaction P keccak module_addr c tx = Ok (x, s)"
        unfolding native [OF n(1)]
        by (auto simp: parse_transaction_def module_call_of_def module Ok vs a target from_be_be32 [OF n(1)] n(2) word_reads(1))
      finally show ?thesis by simp
    qed (use module in \<open>simp_all add: parse_transaction_def module_call_of_def tx_means_iff\<close>)
  qed
qed

text \<open>The node \<open>11\<close> funds the channel to \<open>13\<close> with 7 wei.\<close>

theorem parse_exact_witness:
  "parse_transaction parselib_std (keccak256 secp_toy) (Address (replicate 20 12)) contracts_example
     \<lparr>dt_signer = Ok (Address (replicate 20 11)), dt_to = Some (ca_channels contracts_example),
      dt_input = call_data FnFundChannel [address_value (Address (replicate 20 13)), number_value 7], dt_value = 0\<rparr>
   = Ok (FundChannel (Address (replicate 20 13)) (Balance 7 WxHOPR), Address (replicate 20 11))"
proof -
  let ?d = "call_data FnFundChannel [address_value (Address (replicate 20 13)), number_value 7]"
  let ?tx = "\<lparr>dt_signer = Ok (Address (replicate 20 11)), dt_to = Some (ca_channels contracts_example), dt_input = ?d, dt_value = 0\<rparr>"
  have "from_be (be32 7) = 7" by (rule from_be_be32) simp
  then have "has_type (number_value 7) (TWord 96)" by (simp add: has_type.simps)
  then have "pl_call parselib_std FnFundChannel (call_data FnFundChannel (map AWord [addr32 (Address (replicate 20 13)), be32 7]))
      = Ok (map AWord [addr32 (Address (replicate 20 13)), be32 7])"
    by (intro decoded_call [OF parselib_ok_std _ length_words_short]) (simp_all add: value_types wf_address_20 addr32_word(1))
  then have "call_means parselib_std (keccak256 secp_toy) contracts_example (Address (replicate 20 11)) False (ca_channels contracts_example) ?d
      (FundChannel (Address (replicate 20 13)) (Balance 7 WxHOPR))"
    by (intro means_funding) (simp_all add: channel_call_def wf_address_20 wei_def)
  moreover have "ca_channels contracts_example \<noteq> Address (replicate 20 12)"
    using contracts_example_apart(2) [of 12] contract_members(2) [of contracts_example] by auto
  ultimately have "tx_means parselib_std (keccak256 secp_toy) (Address (replicate 20 12)) contracts_example ?tx
      (FundChannel (Address (replicate 20 13)) (Balance 7 WxHOPR)) (Address (replicate 20 11))"
    by (intro means_direct) (simp_all add: contract_members)
  moreover have "wf_address (ca_announcements contracts_example)" "dt_value ?tx < 2 ^ 256"
    by (simp_all add: contracts_example_def wf_address_20)
  ultimately show ?thesis
    using parse_exact [OF parselib_ok_std parselib_typed_std contracts_example_apart(1), of ?tx] by blast
qed

end
