(* ===== verification/Cipher_Keys.thy ===== *)
theory Cipher_Keys
  imports Lioness
begin

text \<open>
  \<open>IvKey\<close> of \<open>crypto/primitives.rs\<close>: a key and an initial vector in one buffer, from which a cipher is
  made; and the sizes of the wide-block cipher of \<open>crypto/lioness.rs\<close> that such a buffer has to fit.
\<close>

section \<open>The buffer\<close>

text \<open>The initial vector stands in front. The sizes are those of the cipher, an argument.\<close>

datatype iv_key = IvKey (iv_key_bytes: bytes)

record cipher_sizes =
  key_size :: nat
  iv_size :: nat

definition IV_KEY_SIZE :: "cipher_sizes \<Rightarrow> nat" where
  "IV_KEY_SIZE T = key_size T + iv_size T"

definition iv_key_new :: "bytes \<Rightarrow> bytes \<Rightarrow> iv_key" where
  "iv_key_new key iv = IvKey (iv @ key)"

definition iv_key_default :: "cipher_sizes \<Rightarrow> iv_key" where
  "iv_key_default T = IvKey (replicate (IV_KEY_SIZE T) 0)"

text \<open>A slice beyond the buffer and a part of another length are panics.\<close>

definition iv_key_iv :: "cipher_sizes \<Rightarrow> iv_key \<Rightarrow> bytes option" where
  "iv_key_iv T k = (if iv_size T \<le> length (iv_key_bytes k) then Some (take (iv_size T) (iv_key_bytes k)) else None)"

definition iv_key_key :: "cipher_sizes \<Rightarrow> iv_key \<Rightarrow> bytes option" where
  "iv_key_key T k =
     (if length (drop (iv_size T) (iv_key_bytes k)) = key_size T \<and> iv_size T \<le> length (iv_key_bytes k)
      then Some (drop (iv_size T) (iv_key_bytes k)) else None)"

text \<open>Writing through the mutable slices: \<open>f\<close> is what the caller does with the slice, which keeps its length.\<close>

definition iv_key_iv_mut :: "cipher_sizes \<Rightarrow> (bytes \<Rightarrow> bytes) \<Rightarrow> iv_key \<Rightarrow> iv_key" where
  "iv_key_iv_mut T f k = IvKey (f (take (iv_size T) (iv_key_bytes k)) @ drop (iv_size T) (iv_key_bytes k))"

definition iv_key_key_mut :: "cipher_sizes \<Rightarrow> (bytes \<Rightarrow> bytes) \<Rightarrow> iv_key \<Rightarrow> iv_key" where
  "iv_key_key_mut T f k = IvKey (take (iv_size T) (iv_key_bytes k) @ f (drop (iv_size T) (iv_key_bytes k)))"

definition iv_key_into_init :: "cipher_sizes \<Rightarrow> (bytes \<Rightarrow> bytes \<Rightarrow> 'v) \<Rightarrow> iv_key \<Rightarrow> 'v option" where
  "iv_key_into_init T new k =
     (case (iv_key_key T k, iv_key_iv T k) of (Some key, Some iv) \<Rightarrow> Some (new key iv) | _ \<Rightarrow> None)"

section \<open>Laws\<close>

definition wf_iv_key :: "cipher_sizes \<Rightarrow> iv_key \<Rightarrow> bool" where
  "wf_iv_key T k \<longleftrightarrow> length (iv_key_bytes k) = IV_KEY_SIZE T"

lemma iv_key_parts:
  assumes "wf_iv_key T k"
  shows "\<exists>iv key. iv_key_iv T k = Some iv \<and> iv_key_key T k = Some key \<and> length iv = iv_size T \<and> length key = key_size T
    \<and> k = iv_key_new key iv"
  using assms by (cases k) (auto simp: wf_iv_key_def IV_KEY_SIZE_def iv_key_iv_def iv_key_key_def iv_key_new_def)

text \<open>
  The buffer is its two parts: building it from them is inverse to reading them, writing one part leaves
  the other, and the cipher made from the buffer is the one made from the parts.
\<close>

lemma iv_key_laws:
  assumes "length key = key_size T" "length iv = iv_size T"
  shows "wf_iv_key T (iv_key_new key iv)" "wf_iv_key T (iv_key_default T)"
    and "iv_key_iv T (iv_key_new key iv) = Some iv" "iv_key_key T (iv_key_new key iv) = Some key"
    and "iv_key_iv_mut T f (iv_key_new key iv) = iv_key_new key (f iv)"
    and "iv_key_key_mut T f (iv_key_new key iv) = iv_key_new (f key) iv"
    and "iv_key_into_init T new (iv_key_new key iv) = Some (new key iv)"
  using assms by (simp_all add: wf_iv_key_def IV_KEY_SIZE_def iv_key_iv_def iv_key_key_def iv_key_new_def
      iv_key_default_def iv_key_iv_mut_def iv_key_key_mut_def iv_key_into_init_def)

section \<open>The wide-block cipher\<close>

definition lioness_key_size :: "nat \<Rightarrow> nat" where
  "lioness_key_size k = k * 4"

definition lioness_iv_size :: "nat \<Rightarrow> nat" where
  "lioness_iv_size i = i * 2"

definition lioness_alg_name :: "string \<Rightarrow> string \<Rightarrow> string" where
  "lioness_alg_name h s = ''Lioness<'' @ h @ '', '' @ s @ ''>''"

text \<open>A buffer of the sizes of the cipher makes a well-formed cipher, whatever its bytes.\<close>

lemma iv_key_lioness:
  assumes "wf_iv_key \<lparr>key_size = lioness_key_size k, iv_size = lioness_iv_size i\<rparr> b"
  shows "\<exists>c. iv_key_into_init \<lparr>key_size = lioness_key_size k, iv_size = lioness_iv_size i\<rparr> (lioness_new k i) b = Some c
    \<and> wf_lioness k c \<and> length (iv1 c) = i \<and> length (iv2 c) = i"
proof -
  obtain iv key where "iv_key_iv \<lparr>key_size = lioness_key_size k, iv_size = lioness_iv_size i\<rparr> b = Some iv"
    "iv_key_key \<lparr>key_size = lioness_key_size k, iv_size = lioness_iv_size i\<rparr> b = Some key"
    "length iv = i * 2" "length key = k * 4"
    using iv_key_parts [OF assms] by (auto simp: lioness_key_size_def lioness_iv_size_def)
  then show ?thesis
    by (simp add: iv_key_into_init_def lioness_new_def wf_lioness_def slice_of_def)
qed

end
