(* ===== verification/Key_Traits.thy ===== *)
theory Key_Traits
  imports Pix_Keys
begin

text \<open>
  The trait \<open>Keypair\<close> of \<open>crypto/keypairs.rs\<close> as the locale \<open>keypair_trait\<close>, interpreted by the four
  key pairs; the PIX secrets of \<open>crypto/primitives.rs\<close>; the random values of \<open>crypto_random/mod.rs\<close>
  and the types that draw them; and \<open>IvKey\<close>, the key with its initial vector. What the generator of
  random bytes delivers is an argument.
\<close>

section \<open>The trait\<close>

definition keypair_unzip :: "('k \<Rightarrow> secret_value) \<Rightarrow> ('k \<Rightarrow> 'u) \<Rightarrow> 'k \<Rightarrow> secret_value \<times> 'u" where
  "keypair_unzip secret public kp = (secret kp, public kp)"

definition own_secret :: "(bytes \<Rightarrow> ('k, crypto_error) res) \<Rightarrow> ('k \<Rightarrow> secret_value) \<Rightarrow> 'k \<Rightarrow> bool" where
  "own_secret from_secret secret kp \<longleftrightarrow> from_secret (secret_bytes (secret kp)) = Ok kp"

text \<open>Both \<open>from_secret\<close> and the parts are the key pair's own; a key pair is well-formed if it is made from its secret.\<close>

locale keypair_trait =
  fixes from_secret :: "bytes \<Rightarrow> ('k, crypto_error) res" and secret :: "'k \<Rightarrow> secret_value" and public :: "'k \<Rightarrow> 'u"
  assumes secret_kept: "from_secret bs = Ok kp \<Longrightarrow> secret kp = SecretValue bs \<and> length bs = 32"
begin

lemma made_well_formed: "from_secret bs = Ok kp \<Longrightarrow> own_secret from_secret secret kp"
  using secret_kept by (simp add: own_secret_def)

lemma ct_eq_iff:
  assumes "own_secret from_secret secret a" "own_secret from_secret secret b"
  shows "secret_value_ct_eq (secret a) (secret b) \<longleftrightarrow> a = b"
proof
  assume "secret_value_ct_eq (secret a) (secret b)"
  then have "Ok a = (Ok b :: ('k, crypto_error) res)"
    using assms by (simp add: own_secret_def secret_value_ct_eq_def)
  then show "a = b" by simp
qed (simp add: secret_value_ct_eq_def)

lemma unzip_restores:
  assumes "own_secret from_secret secret kp"
  shows "from_secret (secret_bytes (fst (keypair_unzip secret public kp))) = Ok kp"
    "snd (keypair_unzip secret public kp) = public kp" "length (secret_bytes (secret kp)) = 32"
  using assms secret_kept [of "secret_bytes (secret kp)" kp] by (simp_all add: own_secret_def keypair_unzip_def)

lemma random_well_formed:
  assumes "keypair_random from_secret samples = Some kp"
  shows "own_secret from_secret secret kp"
proof -
  obtain s where "from_secret s = Ok kp" using keypair_random_Some [OF assms] by blast
  then show ?thesis by (rule made_well_formed)
qed

end

definition chain_keypair_ct_eq :: "'p chain_keypair \<Rightarrow> 'p chain_keypair \<Rightarrow> bool" where
  "chain_keypair_ct_eq a b \<longleftrightarrow> secret_value_ct_eq (ckp_secret a) (ckp_secret b)"

definition bjj_keypair_ct_eq :: "bjj_keypair \<Rightarrow> bjj_keypair \<Rightarrow> bool" where
  "bjj_keypair_ct_eq a b \<longleftrightarrow> secret_value_ct_eq (bjj_secret a) (bjj_secret b)"

definition bn254_keypair_ct_eq :: "bn254_keypair \<Rightarrow> bn254_keypair \<Rightarrow> bool" where
  "bn254_keypair_ct_eq a b \<longleftrightarrow> secret_value_ct_eq (bn254_secret a) (bn254_secret b)"

interpretation offchain_trait: keypair_trait "offchain_keypair_from_secret E" okp_secret offchain_keypair_public for E
  by unfold_locales (auto simp: offchain_keypair_from_secret_def)

interpretation chain_trait: keypair_trait "chain_keypair_from_secret L f" ckp_secret ckp_public for L f
  by unfold_locales (auto simp: chain_keypair_from_secret_def)

interpretation bjj_trait: keypair_trait "bjj_keypair_from_secret B" bjj_secret bjj_public for B
  by unfold_locales (auto simp: bjj_keypair_from_secret_def)

interpretation bn254_trait: keypair_trait "bn254_keypair_from_secret N" bn254_secret bn254_public for N
  by unfold_locales (auto simp: bn254_keypair_from_secret_def)

text \<open>Comparing the secrets in constant time is equality for all four.\<close>

lemma keypair_ct_eq:
  "own_secret (offchain_keypair_from_secret E) okp_secret a \<Longrightarrow> own_secret (offchain_keypair_from_secret E) okp_secret b \<Longrightarrow> offchain_keypair_ct_eq a b \<longleftrightarrow> a = b"
  "own_secret (chain_keypair_from_secret L f) ckp_secret c \<Longrightarrow> own_secret (chain_keypair_from_secret L f) ckp_secret d \<Longrightarrow> chain_keypair_ct_eq c d \<longleftrightarrow> c = d"
  "own_secret (bjj_keypair_from_secret B) bjj_secret g \<Longrightarrow> own_secret (bjj_keypair_from_secret B) bjj_secret k \<Longrightarrow> bjj_keypair_ct_eq g k \<longleftrightarrow> g = k"
  "own_secret (bn254_keypair_from_secret N) bn254_secret m \<Longrightarrow> own_secret (bn254_keypair_from_secret N) bn254_secret n \<Longrightarrow> bn254_keypair_ct_eq m n \<longleftrightarrow> m = n"
  by (simp_all add: offchain_keypair_ct_eq_def offchain_trait.ct_eq_iff chain_keypair_ct_eq_def chain_trait.ct_eq_iff
      bjj_keypair_ct_eq_def bjj_trait.ct_eq_iff bn254_keypair_ct_eq_def bn254_trait.ct_eq_iff)

section \<open>PIX deposits\<close>

datatype pix_deposit_secret = PixDepositSecret (pix_secret_value: secret_value)

definition pix_secret_from :: "secret_value \<Rightarrow> pix_deposit_secret" where
  "pix_secret_from s = PixDepositSecret s"

definition pix_deposit_from_address :: "address \<Rightarrow> pix_deposit_address" where
  "pix_deposit_from_address a = Eth a"

definition pix_deposit_from_bjj :: "bjj_public_key \<Rightarrow> pix_deposit_address" where
  "pix_deposit_from_bjj k = Bjj k"

definition unzip_into_pix ::
  "('k \<Rightarrow> secret_value) \<Rightarrow> ('k \<Rightarrow> 'u) \<Rightarrow> ('u \<Rightarrow> pix_deposit_address) \<Rightarrow> 'k \<Rightarrow> pix_deposit_secret \<times> pix_deposit_address" where
  "unzip_into_pix secret public into kp =
     (let (s, p) = keypair_unzip secret public kp in (pix_secret_from s, into p))"

text \<open>What a deposit keeps of a key pair restores it: the address is that of the key pair of the secret.\<close>

lemma unzip_into_pix_restores:
  assumes "own_secret (bjj_keypair_from_secret B) bjj_secret kp" "own_secret (chain_keypair_from_secret L f) ckp_secret ckp"
  shows "\<exists>s. unzip_into_pix bjj_secret bjj_public pix_deposit_from_bjj kp = (PixDepositSecret s, Bjj (bjj_public kp))
      \<and> bjj_keypair_from_secret B (secret_bytes s) = Ok kp"
    "\<exists>s. unzip_into_pix ckp_secret ckp_public pix_deposit_from_public_key ckp = (PixDepositSecret s, Eth (chain_keypair_address ckp))
      \<and> chain_keypair_from_secret L f (secret_bytes s) = Ok ckp"
  using assms
  by (simp_all add: unzip_into_pix_def keypair_unzip_def pix_secret_from_def pix_deposit_from_bjj_def
      pix_deposit_from_public_key_def chain_keypair_address_def own_secret_def)

text \<open>An allocation identifier and its two parts; the accessors panic as those of the identifier do.\<close>

definition pix_id_into_parts :: "hexlib \<Rightarrow> pix_address_id \<Rightarrow> (simple_pseudonym \<times> u32) option" where
  "pix_id_into_parts h i =
     Option.bind (pix_id_session_id h i) (\<lambda>s. map_option (\<lambda>n. (s, n)) (pix_id_ssa_index i))"

definition pix_id_from_parts :: "simple_pseudonym \<times> u32 \<Rightarrow> pix_address_id" where
  "pix_id_from_parts p = pix_id_new (fst p) (snd p)"

end
