(* ===== verification/Random_Values.thy ===== *)
theory Random_Values
  imports Key_Traits Routing Acknowledgements
begin

text \<open>
  The random values of \<open>crypto_random/mod.rs\<close> and the types that are drawn from them. The generator is
  an argument: \<open>rng n\<close> is what it fills a buffer of \<open>n\<close> bytes with, \<open>pick b\<close> an integer below \<open>b\<close>,
  and for rejection sampling the list of the strings it delivers.
\<close>

section \<open>Generators\<close>

definition MAX_RANDOM_INTEGER :: u64 where
  "MAX_RANDOM_INTEGER = 9007199254740991"

text \<open>Bounds out of order are a panic.\<close>

definition random_integer :: "(u64 \<Rightarrow> u64) \<Rightarrow> u64 \<Rightarrow> u64 option \<Rightarrow> u64 option" where
  "random_integer pick start stop =
     (let real_end = (case stop of Some e \<Rightarrow> e | None \<Rightarrow> MAX_RANDOM_INTEGER) in
      if real_end > start \<and> real_end \<le> MAX_RANDOM_INTEGER
      then let bound = real_end - start in Some (start + pick bound)
      else None)"

definition random_fill :: "(nat \<Rightarrow> bytes) \<Rightarrow> bytes \<Rightarrow> bytes" where
  "random_fill rng buffer = rng (length buffer)"

definition random_bytes :: "(nat \<Rightarrow> bytes) \<Rightarrow> nat \<Rightarrow> bytes" where
  "random_bytes rng n = random_fill rng (replicate n 0)"

definition random_array :: "(nat \<Rightarrow> bytes) \<Rightarrow> nat \<Rightarrow> bytes" where
  "random_array rng n = random_fill rng (replicate n 0)"

text \<open>Documented: the buffer is filled, and an integer of a non-empty range lies in it.\<close>

definition rng_ok :: "(nat \<Rightarrow> bytes) \<Rightarrow> bool" where
  "rng_ok rng \<longleftrightarrow> (\<forall>n. length (rng n) = n)"

definition pick_ok :: "(u64 \<Rightarrow> u64) \<Rightarrow> bool" where
  "pick_ok pick \<longleftrightarrow> (\<forall>b. 0 < b \<longrightarrow> pick b < b)"

text \<open>
  A random integer lies between its bounds, the sum does not wrap, and the function panics exactly
  if the range is empty or ends above the maximum, which is \<open>2 ^ 53 - 1\<close>.
\<close>

lemma random_integer_spec:
  assumes "pick_ok pick" and e: "e = (case stop of Some e \<Rightarrow> e | None \<Rightarrow> MAX_RANDOM_INTEGER)"
  shows "(random_integer pick start stop = None \<longleftrightarrow> e \<le> start \<or> MAX_RANDOM_INTEGER < e)
    \<and> (random_integer pick start stop = Some r \<longrightarrow>
        start \<le> r \<and> r < e \<and> unat r = unat start + unat (pick (e - start)) \<and> unat r < 2 ^ 53)"
proof (intro conjI impI)
  show "random_integer pick start stop = None \<longleftrightarrow> e \<le> start \<or> MAX_RANDOM_INTEGER < e"
    by (auto simp: random_integer_def Let_def e [symmetric])
next
  assume "random_integer pick start stop = Some r"
  then have b: "start < e" "e \<le> MAX_RANDOM_INTEGER" "r = start + pick (e - start)"
    by (auto simp: random_integer_def Let_def e [symmetric] split: if_splits)
  have d: "unat (e - start) = unat e - unat start"
    using b(1) by (simp add: unat_sub less_imp_le)
  have lt: "unat start < unat e" using b(1) by (simp add: word_less_nat_alt)
  then have "0 < unat (e - start)" by (simp add: d)
  then have "0 < e - start" by (simp add: word_less_nat_alt)
  then have "unat (pick (e - start)) < unat e - unat start"
    using assms(1) unfolding pick_ok_def d [symmetric] by (simp add: word_less_nat_alt)
  then have sum: "unat start + unat (pick (e - start)) < unat e" using lt by linarith
  then have "unat start + unat (pick (e - start)) < 2 ^ 64" using unat_less_2p [of e] by simp
  then have r: "unat r = unat start + unat (pick (e - start))" by (simp add: b(3) unat_word_ariths(1))
  have "unat MAX_RANDOM_INTEGER < 2 ^ 53" by (simp add: MAX_RANDOM_INTEGER_def)
  then have "unat e < 2 ^ 53" using b(2) by (simp add: word_le_nat_alt)
  then show "unat r < 2 ^ 53" using sum r by simp
  show "unat r = unat start + unat (pick (e - start))" by (rule r)
  show "start \<le> r" "r < e" using r sum by (simp_all add: word_le_nat_alt word_less_nat_alt)
qed

section \<open>Types\<close>

definition secret_value_random :: "(nat \<Rightarrow> bytes) \<Rightarrow> nat \<Rightarrow> secret_value" where
  "secret_value_random rng n = SecretValue (random_array rng n)"

definition offchain_keypair_random :: "'e edlib \<Rightarrow> (nat \<Rightarrow> bytes) \<Rightarrow> ('e offchain_keypair, crypto_error) res" where
  "offchain_keypair_random E rng = expect (ok (offchain_keypair_from_secret E (random_bytes rng 32)))"

definition half_key_random :: "'p secp \<Rightarrow> bool \<Rightarrow> bytes list \<Rightarrow> (half_key, crypto_error) res option" where
  "half_key_random L f samples = map_option (map_ok (\<lambda>(secret, _). HalfKey secret)) (random_group_element L f samples)"

definition public_key_random :: "'p secp \<Rightarrow> bool \<Rightarrow> bytes list \<Rightarrow> ('p public_key, crypto_error) res option" where
  "public_key_random L f samples = map_option (map_ok snd) (random_group_element L f samples)"

definition pseudonym_random :: "hexlib \<Rightarrow> (nat \<Rightarrow> bytes) \<Rightarrow> simple_pseudonym" where
  "pseudonym_random h rng = pseudonym_from h (random_fill rng (replicate PSEUDONYM_SIZE 0))"

definition sender_id_random :: "hexlib \<Rightarrow> (nat \<Rightarrow> bytes) \<Rightarrow> (nat \<Rightarrow> bytes) \<Rightarrow> sender_id" where
  "sender_id_random h rng rng' = sender_id_new (random_bytes rng' SENDER_ID_SIZE) (pseudonym_random h rng)"

definition verified_acknowledgement_random ::
  "'p secp \<Rightarrow> bool \<Rightarrow> ('e, 'v) eddsa \<Rightarrow> bytes list \<Rightarrow> 'e offchain_keypair
    \<Rightarrow> (verified_acknowledgement, crypto_error) res option" where
  "verified_acknowledgement_random L f D samples kp =
     map_option (map_ok (\<lambda>k. verified_acknowledgement_new D k kp)) (half_key_random L f samples)"

text \<open>
  What is drawn is well-formed: secrets and pseudonyms have their length, a packet key pair never
  panics and is made from its own secret.
\<close>

lemma random_bytes_wf:
  assumes "rng_ok rng" "rng_ok rng'" "edlib_ok E"
  shows "length (secret_bytes (secret_value_random rng n)) = n" "wf_pseudonym h (pseudonym_random h rng)"
    and "wf_sender_id (sender_id_random h rng rng')" "sender_pseudonym h (sender_id_random h rng rng') = Some (pseudonym_random h rng)"
    and "\<exists>kp. offchain_keypair_random E rng = Ok kp \<and> wf_offchain_keypair E kp"
proof -
  note l = assms(1,2) [unfolded rng_ok_def]
  show "length (secret_bytes (secret_value_random rng n)) = n"
    using l by (simp add: secret_value_random_def random_array_def random_fill_def)
  show p: "wf_pseudonym h (pseudonym_random h rng)"
    using l by (simp add: pseudonym_random_def wf_pseudonym_def pseudonym_from_def random_fill_def)
  then show "wf_sender_id (sender_id_random h rng rng')"
    using l by (simp add: sender_id_random_def sender_id_new_def wf_sender_id_def random_bytes_def random_fill_def
        SENDER_ID_SIZE_def wf_pseudonym_def)
  have "pseudonym_try_from h (pseudonym_bytes (pseudonym_random h rng)) = Ok (pseudonym_random h rng)"
    by (rule pseudonym.try_from_as_ref [OF p])
  then show "sender_pseudonym h (sender_id_random h rng rng') = Some (pseudonym_random h rng)"
    using p by (simp add: sender_pseudonym_def sender_id_random_def sender_id_new_def wf_pseudonym_def slice_of_def)
  show "\<exists>kp. offchain_keypair_random E rng = Ok kp \<and> wf_offchain_keypair E kp"
    using offchain_keypair_from_secret_total [OF assms(3), of "random_bytes rng 32"] l
    by (auto simp: offchain_keypair_random_def random_bytes_def random_fill_def)
qed

text \<open>
  Sampling a group element returns as soon as one string is a scalar; the key is then that of the
  half-key's bytes, and the panic needs the zero scalar. Sampling by \<open>from_secret\<close> returns as soon as it
  accepts one string.
\<close>

lemma random_group_values:
  assumes "secp_ok L"
  shows "\<exists>s \<in> set samples. secp_scalar L s \<noteq> None \<Longrightarrow> half_key_random L f samples \<noteq> None"
    and "half_key_random L f samples = Some (Ok k) \<Longrightarrow> wf_half_key k \<and> (\<exists>c. half_key_to_challenge L f k = Ok c)"
    and "half_key_random L f samples = Some Panic \<Longrightarrow> \<exists>s \<in> set samples. secp_scalar L s = Some 0"
    and "public_key_random L f samples = Some (Ok pk) \<Longrightarrow> wf_public_key L pk"
    and "chain_keypair_random L f samples = Some (Ok kp) \<Longrightarrow> wf_chain_keypair L kp"
proof -
  note key = random_group_element_key [OF assms, of f samples]
  note from_key = public_key_from_privkey_Ok [OF assms]
  show "\<exists>s \<in> set samples. secp_scalar L s \<noteq> None \<Longrightarrow> half_key_random L f samples \<noteq> None"
    using random_group_element_returns [of samples L f] by (auto simp: half_key_random_def)
  show "half_key_random L f samples = Some Panic \<Longrightarrow> \<exists>s \<in> set samples. secp_scalar L s = Some 0"
    using random_group_element_panic [OF assms, of f samples] by (auto simp: half_key_random_def)
  show "public_key_random L f samples = Some (Ok pk) \<Longrightarrow> wf_public_key L pk"
    using key by (auto simp: public_key_random_def)
  show "wf_chain_keypair L kp" if kp: "chain_keypair_random L f samples = Some (Ok kp)"
  proof -
    obtain bs pk where r: "random_group_element L f samples = Some (Ok (bs, pk))" "kp = ChainKeypair (SecretValue bs) pk"
      using kp by (auto simp: chain_keypair_random_def)
    have "public_key_from_privkey L f bs = Ok pk" using key r(1) by blast
    then show ?thesis using r(2) by (simp add: wf_chain_keypair_def chain_keypair_from_secret_def from_key)
  qed
  show "wf_half_key k \<and> (\<exists>c. half_key_to_challenge L f k = Ok c)" if k: "half_key_random L f samples = Some (Ok k)"
  proof -
    obtain bs pk where r: "random_group_element L f samples = Some (Ok (bs, pk))" "k = HalfKey bs"
      using k by (auto simp: half_key_random_def)
    have "public_key_from_privkey L f bs = Ok pk" using key r(1) by blast
    then show ?thesis by (simp add: r(2) wf_half_key_def HALF_KEY_SIZE_def half_key_to_challenge_Ok [OF assms] from_key)
  qed
qed

end
