(* ===== verification/Texts.thy ===== *)
theory Texts
  imports Random_Values Chain_Events
begin

text \<open>
  The texts (\<open>Display\<close>, \<open>FromStr\<close>) of the remaining types: hashes, keys, responses, logs, tickets in
  each of their states, channels and paths.
\<close>

section \<open>Hexadecimal texts\<close>

definition address_display :: "hexlib \<Rightarrow> address \<Rightarrow> string" where
  "address_display h a = to_hex h address_bytes a"

definition key_ident_display :: "hexlib \<Rightarrow> key_ident \<Rightarrow> string" where
  "key_ident_display h i = to_hex h key_ident_bytes i"

definition hash_display :: "hexlib \<Rightarrow> hash \<Rightarrow> string" where
  "hash_display h x = to_hex h hash_bytes x"

definition hash_from_str :: "hexlib \<Rightarrow> string \<Rightarrow> (hash, general_error) res" where
  "hash_from_str h s = from_hex h hash_try_from s"

definition half_key_challenge_display :: "hexlib \<Rightarrow> half_key_challenge \<Rightarrow> string" where
  "half_key_challenge_display h c = to_hex h half_key_challenge_bytes c"

definition response_display :: "hexlib \<Rightarrow> response \<Rightarrow> string" where
  "response_display h r = to_hex h response_bytes r"

definition opk_display :: "hexlib \<Rightarrow> offchain_public_key \<Rightarrow> string" where
  "opk_display h k = to_hex h opk_bytes k"

definition public_key_display :: "hexlib \<Rightarrow> 'p public_key \<Rightarrow> string" where
  "public_key_display h k = to_hex h pk_compressed k"

definition bjj_display :: "hexlib \<Rightarrow> bjj_public_key \<Rightarrow> string" where
  "bjj_display h k = to_hex h bjj_bytes k"

definition bjj_from_str :: "hexlib \<Rightarrow> 'b bjjlib \<Rightarrow> string \<Rightarrow> (bjj_public_key, general_error) res" where
  "bjj_from_str h B s = from_hex h (bjj_try_from B) s"

definition bn254_display :: "hexlib \<Rightarrow> bn254_public_key \<Rightarrow> string" where
  "bn254_display h k = to_hex h bn254_bytes k"

definition bn254_from_str :: "hexlib \<Rightarrow> bnlib \<Rightarrow> string \<Rightarrow> (bn254_public_key, general_error) res" where
  "bn254_from_str h N s = from_hex h (bn254_try_from N) s"

text \<open>Every type with both directions reads back what it prints.\<close>

lemma hex_texts:
  assumes "hex_ok h"
  shows "wf_address a \<Longrightarrow> address_from_str h (address_display h a) = Ok a"
    and "wf_hash x \<Longrightarrow> hash_from_str h (hash_display h x) = Ok x"
    and "wf_half_key_challenge c \<Longrightarrow> half_key_challenge_from_str h (half_key_challenge_display h c) = Ok c"
    and "wf_opk k \<Longrightarrow> opk_from_str h (opk_display h k) = Ok k"
    and "wf_bjj B j \<Longrightarrow> bjj_from_str h B (bjj_display h j) = Ok j"
    and "wf_bn254 N n \<Longrightarrow> bn254_from_str h N (bn254_display h n) = Ok n"
  using address.hex_roundtrip [OF assms] hash.hex_roundtrip [OF assms] half_key_challenge.hex_roundtrip [OF assms]
    opk.hex_roundtrip [OF assms] bjj.hex_roundtrip [OF assms] bn254.hex_roundtrip [OF assms]
  by (simp_all add: address_from_str_def address_display_def hash_from_str_def hash_display_def half_key_challenge_from_str_def
      half_key_challenge_display_def opk_from_str_def opk_display_def bjj_from_str_def bjj_display_def bn254_from_str_def
      bn254_display_def)

section \<open>Logs and amounts\<close>

definition log_display :: "hexlib \<Rightarrow> serializable_log \<Rightarrow> string" where
  "log_display h l =
     ''log #'' @ show_nat (unat (log_log_index l)) @ '' in tx #'' @ show_nat (unat (log_tx_index l))
     @ '' in block #'' @ show_nat (unat (log_block_number l)) @ '' of address '' @ address_display h (log_address l)
     @ '' with '' @ show_nat (length (log_topics l)) @ '' topics''"

section \<open>Tickets\<close>

definition ticket_id_display :: "hexlib \<Rightarrow> ticket_id \<Rightarrow> string" where
  "ticket_id_display h i =
     ''ticket #'' @ show_nat (unat (tid_index i)) @ '', epoch '' @ show_nat (unat (tid_epoch i))
     @ '' in channel '' @ hash_display h (tid_channel i)"

definition ticket_display :: "hexlib \<Rightarrow> declib \<Rightarrow> ticket \<Rightarrow> string" where
  "ticket_display h D t =
     ''ticket #'' @ show_nat (unat (ticket_index t)) @ '', amount '' @ balance_display D wxhopr_currency (ticket_amount t)
     @ '', epoch '' @ show_nat (unat (ticket_epoch t)) @ '' with '' @ address_display h (counterparty t)"

definition verified_ticket_display :: "hexlib \<Rightarrow> declib \<Rightarrow> verified_ticket \<Rightarrow> string" where
  "verified_ticket_display h D v =
     ''verified '' @ ticket_display h D (vt_ticket v) @ '' in channel '' @ hash_display h (vt_channel_id v)"

definition unacknowledged_ticket_display :: "hexlib \<Rightarrow> declib \<Rightarrow> unacknowledged_ticket \<Rightarrow> string" where
  "unacknowledged_ticket_display h D u = ''unacknowledged '' @ verified_ticket_display h D (ut_ticket u)"

fun ack_status_display :: "acknowledged_ticket_status \<Rightarrow> string" where
  "ack_status_display Untouched = ''Untouched''"
| "ack_status_display BeingRedeemed = ''BeingRedeemed''"

definition ack_status_from_str :: "string \<Rightarrow> acknowledged_ticket_status option" where
  "ack_status_from_str s =
     (if s = ''Untouched'' then Some Untouched else if s = ''BeingRedeemed'' then Some BeingRedeemed else None)"

definition acknowledged_ticket_display :: "hexlib \<Rightarrow> declib \<Rightarrow> acknowledged_ticket \<Rightarrow> string" where
  "acknowledged_ticket_display h D a =
     ''acknowledged '' @ verified_ticket_display h D (at_ticket a) @ '' in state '' @ [CHR 0x27]
     @ ack_status_display (at_status a) @ [CHR 0x27]"

definition redeemable_ticket_display :: "hexlib \<Rightarrow> declib \<Rightarrow> 'p redeemable_ticket \<Rightarrow> string" where
  "redeemable_ticket_display h D r = ''redeemable '' @ verified_ticket_display h D (rt_ticket r)"

lemma ack_status_texts: "ack_status_from_str s = Some x \<longleftrightarrow> s = ack_status_display x"
  by (cases x) (auto simp: ack_status_from_str_def)

section \<open>Channels\<close>

fun channel_status_display :: "channel_status \<Rightarrow> string" where
  "channel_status_display Closed = ''Closed''"
| "channel_status_display Open = ''Open''"
| "channel_status_display (PendingToClose _) = ''PendingToClose''"

definition channel_entry_display :: "hexlib \<Rightarrow> channel_entry \<Rightarrow> string" where
  "channel_entry_display h c = channel_status_display (channel_status c) @ '' channel '' @ hash_display h (get_id c)"

section \<open>Paths\<close>

fun join_strings :: "string \<Rightarrow> string list \<Rightarrow> string" where
  "join_strings sep [] = []"
| "join_strings sep [x] = x"
| "join_strings sep (x # y # ys) = x @ sep @ join_strings sep (y # ys)"

definition chain_path_display :: "hexlib \<Rightarrow> chain_path \<Rightarrow> string" where
  "chain_path_display h p = ''chain path ['' @ join_strings '', '' (map (to_hex h address_bytes) (chain_hops p)) @ '']''"

definition validated_path_display :: "hexlib \<Rightarrow> validated_path \<Rightarrow> string" where
  "validated_path_display h p =
     ''validated path ['' @ join_strings '', '' (map (to_hex h address_bytes) (chain_hops (validated_chain p))) @ '']''"

section \<open>Announcements\<close>

definition key_binding_display :: "hexlib \<Rightarrow> key_binding \<Rightarrow> string" where
  "key_binding_display h b =
     ''keybinding '' @ address_display h (kb_chain_key b) @ '' <-> '' @ opk_display h (kb_packet_key b)"

definition announcement_display :: "hexlib \<Rightarrow> 'm malib \<Rightarrow> 'm announcement_data \<Rightarrow> string" where
  "announcement_display h A d =
     (case an_multiaddress d of
        Some m \<Rightarrow> ''announcement of '' @ ma_display A m @ '' with '' @ key_binding_display h (an_key_binding d)
      | None \<Rightarrow> ''announcement of key binding only '' @ key_binding_display h (an_key_binding d))"

text \<open>The text of a binding names both of its keys, and no others.\<close>

lemma key_binding_text:
  assumes "hex_ok h" "wf_address (kb_chain_key a)" "wf_address (kb_chain_key b)" "wf_opk (kb_packet_key a)" "wf_opk (kb_packet_key b)"
  shows "key_binding_display h a = key_binding_display h b \<longleftrightarrow> kb_chain_key a = kb_chain_key b \<and> kb_packet_key a = kb_packet_key b"
proof -
  have texts: "to_hex h address_bytes x = to_hex h address_bytes y \<longleftrightarrow> x = y" if "wf_address x" "wf_address y" for x y
    using address.hex_roundtrip [OF assms(1)] that by (metis res.inject(1))
  have keys: "to_hex h opk_bytes x = to_hex h opk_bytes y \<longleftrightarrow> x = y" if "wf_opk x" "wf_opk y" for x y
    using opk.hex_roundtrip [OF assms(1)] that by (metis res.inject(1))
  have "length (to_hex h address_bytes (kb_chain_key a)) = length (to_hex h address_bytes (kb_chain_key b))"
    using address.length_to_hex [OF assms(1)] assms by simp
  then show ?thesis using texts keys assms by (simp add: key_binding_display_def address_display_def opk_display_def)
qed

end
