(* ===== verification/Payload_Interface.thy ===== *)
theory Payload_Interface
  imports Parser_Spec
begin

text \<open>
  The trait \<open>PayloadGenerator\<close> of \<open>chain/payload/mod.rs\<close>, as the record of its methods and as a locale
  of what its implementations promise: what is read back from the request of a call is the action of
  that call. Both static generators and both generators over the bindings are instances of it; what
  follows from the contract alone, such as that one transaction is never the request of two different
  actions, is proved once.
\<close>

section \<open>The methods\<close>

text \<open>
  The methods of an implementation with their receiver. \<open>transfer\<close> is generic in the currency; it is
  held at the two currencies it accepts.
\<close>

record ('q, 'p, 'm) payload_ops =
  po_approve :: "address \<Rightarrow> hopr_balance \<Rightarrow> ('q, chain_types_error) res"
  po_transfer_token :: "address \<Rightarrow> hopr_balance \<Rightarrow> ('q, chain_types_error) res"
  po_transfer_native :: "address \<Rightarrow> xdai_balance \<Rightarrow> ('q, chain_types_error) res"
  po_send_erc777 :: "address \<Rightarrow> hopr_balance \<Rightarrow> erc777_payload \<Rightarrow> ('q, chain_types_error) res"
  po_announce :: "'m announcement_data \<Rightarrow> hopr_balance \<Rightarrow> ('q, chain_types_error) res"
  po_fund_channel :: "address \<Rightarrow> hopr_balance \<Rightarrow> ('q, chain_types_error) res"
  po_close_incoming_channel :: "address \<Rightarrow> ('q, chain_types_error) res"
  po_initiate_outgoing_channel_closure :: "address \<Rightarrow> ('q, chain_types_error) res"
  po_finalize_outgoing_channel_closure :: "address \<Rightarrow> ('q, chain_types_error) res"
  po_redeem_ticket :: "'p redeemable_ticket \<Rightarrow> ('q, chain_types_error) res"
  po_register_safe_by_node :: "address \<Rightarrow> ('q, chain_types_error) res"
  po_deregister_node_by_safe :: "('q, chain_types_error) res"
  po_register_service :: "service_type \<Rightarrow> service_metadata \<Rightarrow> hopr_balance \<Rightarrow> ('q, chain_types_error) res"
  po_update_service :: "service_type \<Rightarrow> service_metadata \<Rightarrow> hopr_balance \<Rightarrow> ('q, chain_types_error) res"
  po_deregister_service :: "service_type \<Rightarrow> ('q, chain_types_error) res"
  po_deploy_safe :: "hopr_balance \<Rightarrow> address list \<Rightarrow> bool \<Rightarrow> bytes \<Rightarrow> ('q, chain_types_error) res"

definition basic_ops ::
  "'p secp \<Rightarrow> 'p vrflib \<Rightarrow> 'm malib \<Rightarrow> basic_generator \<Rightarrow> (tx_request, 'p, 'm) payload_ops" where
  "basic_ops L W A g =
     \<lparr>po_approve = basic_approve g, po_transfer_token = basic_transfer wxhopr_currency g,
      po_transfer_native = basic_transfer xdai_currency g, po_send_erc777 = basic_send_erc777 g,
      po_announce = basic_announce A g, po_fund_channel = basic_fund_channel g,
      po_close_incoming_channel = basic_close_incoming_channel g,
      po_initiate_outgoing_channel_closure = basic_initiate_outgoing_channel_closure g,
      po_finalize_outgoing_channel_closure = basic_finalize_outgoing_channel_closure g,
      po_redeem_ticket = basic_redeem_ticket L W g, po_register_safe_by_node = basic_register_safe_by_node g,
      po_deregister_node_by_safe = basic_deregister_node_by_safe g, po_register_service = basic_register_service g,
      po_update_service = basic_update_service g, po_deregister_service = basic_deregister_service g,
      po_deploy_safe = basic_deploy_safe g\<rparr>"

definition safe_ops ::
  "'p secp \<Rightarrow> 'p vrflib \<Rightarrow> 'm malib \<Rightarrow> safe_generator \<Rightarrow> (tx_request, 'p, 'm) payload_ops" where
  "safe_ops L W A g =
     \<lparr>po_approve = safe_approve g, po_transfer_token = safe_transfer wxhopr_currency g,
      po_transfer_native = safe_transfer xdai_currency g, po_send_erc777 = safe_send_erc777 g,
      po_announce = safe_announce A g, po_fund_channel = safe_fund_channel g,
      po_close_incoming_channel = safe_close_incoming_channel g,
      po_initiate_outgoing_channel_closure = safe_initiate_outgoing_channel_closure g,
      po_finalize_outgoing_channel_closure = safe_finalize_outgoing_channel_closure g,
      po_redeem_ticket = safe_redeem_ticket L W g, po_register_safe_by_node = safe_register_safe_by_node g,
      po_deregister_node_by_safe = safe_deregister_node_by_safe g, po_register_service = safe_register_service g,
      po_update_service = safe_update_service g, po_deregister_service = safe_deregister_service g,
      po_deploy_safe = safe_deploy_safe g\<rparr>"

definition al_basic_ops ::
  "'k alloylib \<Rightarrow> 'p secp \<Rightarrow> 'p vrflib \<Rightarrow> 'm malib \<Rightarrow> basic_generator \<Rightarrow> (al_request, 'p, 'm) payload_ops" where
  "al_basic_ops M L W A g =
     \<lparr>po_approve = al_basic_approve M g, po_transfer_token = al_basic_transfer M wxhopr_currency g,
      po_transfer_native = al_basic_transfer M xdai_currency g, po_send_erc777 = al_basic_send_erc777 M g,
      po_announce = al_basic_announce M A g, po_fund_channel = al_basic_fund_channel M g,
      po_close_incoming_channel = al_basic_close_incoming_channel M g,
      po_initiate_outgoing_channel_closure = al_basic_initiate_outgoing_channel_closure M g,
      po_finalize_outgoing_channel_closure = al_basic_finalize_outgoing_channel_closure M g,
      po_redeem_ticket = al_basic_redeem_ticket M L W g, po_register_safe_by_node = al_basic_register_safe_by_node M g,
      po_deregister_node_by_safe = al_basic_deregister_node_by_safe g, po_register_service = al_basic_register_service M g,
      po_update_service = al_basic_update_service M g, po_deregister_service = al_basic_deregister_service M g,
      po_deploy_safe = al_basic_deploy_safe M g\<rparr>"

definition al_safe_ops ::
  "'k alloylib \<Rightarrow> 'p secp \<Rightarrow> 'p vrflib \<Rightarrow> 'm malib \<Rightarrow> safe_generator \<Rightarrow> (al_request, 'p, 'm) payload_ops" where
  "al_safe_ops M L W A g =
     \<lparr>po_approve = al_safe_approve M g, po_transfer_token = al_safe_transfer M wxhopr_currency g,
      po_transfer_native = al_safe_transfer M xdai_currency g, po_send_erc777 = al_safe_send_erc777 M g,
      po_announce = al_safe_announce M A g, po_fund_channel = al_safe_fund_channel M g,
      po_close_incoming_channel = al_safe_close_incoming_channel M g,
      po_initiate_outgoing_channel_closure = al_safe_initiate_outgoing_channel_closure M g,
      po_finalize_outgoing_channel_closure = al_safe_finalize_outgoing_channel_closure M g,
      po_redeem_ticket = al_safe_redeem_ticket M L W g, po_register_safe_by_node = al_safe_register_safe_by_node M g,
      po_deregister_node_by_safe = al_safe_deregister_node_by_safe M g, po_register_service = al_safe_register_service M g,
      po_update_service = al_safe_update_service M g, po_deregister_service = al_safe_deregister_service M g,
      po_deploy_safe = al_safe_deploy_safe g\<rparr>"

section \<open>Calls\<close>

datatype ('p, 'm) payload_call =
    CallApprove address hopr_balance
  | CallTransferToken address hopr_balance
  | CallTransferNative address xdai_balance
  | CallSendErc777 address hopr_balance erc777_payload
  | CallAnnounce "'m announcement_data" hopr_balance
  | CallFundChannel address hopr_balance
  | CallCloseIncomingChannel address
  | CallInitiateOutgoingChannelClosure address
  | CallFinalizeOutgoingChannelClosure address
  | CallRedeemTicket "'p redeemable_ticket"
  | CallRegisterSafeByNode address
  | CallDeregisterNodeBySafe
  | CallRegisterService service_type service_metadata hopr_balance
  | CallUpdateService service_type service_metadata hopr_balance
  | CallDeregisterService service_type
  | CallDeploySafe hopr_balance "address list" bool bytes

fun perform :: "('q, 'p, 'm) payload_ops \<Rightarrow> ('p, 'm) payload_call \<Rightarrow> ('q, chain_types_error) res" where
  "perform ops (CallApprove spender amount) = po_approve ops spender amount"
| "perform ops (CallTransferToken destination amount) = po_transfer_token ops destination amount"
| "perform ops (CallTransferNative destination amount) = po_transfer_native ops destination amount"
| "perform ops (CallSendErc777 recipient amount payload) = po_send_erc777 ops recipient amount payload"
| "perform ops (CallAnnounce announcement fee) = po_announce ops announcement fee"
| "perform ops (CallFundChannel dest amount) = po_fund_channel ops dest amount"
| "perform ops (CallCloseIncomingChannel source) = po_close_incoming_channel ops source"
| "perform ops (CallInitiateOutgoingChannelClosure dest) = po_initiate_outgoing_channel_closure ops dest"
| "perform ops (CallFinalizeOutgoingChannelClosure dest) = po_finalize_outgoing_channel_closure ops dest"
| "perform ops (CallRedeemTicket acked_ticket) = po_redeem_ticket ops acked_ticket"
| "perform ops (CallRegisterSafeByNode safe_addr) = po_register_safe_by_node ops safe_addr"
| "perform ops CallDeregisterNodeBySafe = po_deregister_node_by_safe ops"
| "perform ops (CallRegisterService ty metadata burn) = po_register_service ops ty metadata burn"
| "perform ops (CallUpdateService ty metadata burn) = po_update_service ops ty metadata burn"
| "perform ops (CallDeregisterService ty) = po_deregister_service ops ty"
| "perform ops (CallDeploySafe amount admins include_node nonce) = po_deploy_safe ops amount admins include_node nonce"

text \<open>
  The action of the parser for a call of the node \<open>me\<close>, with \<open>payer\<close> as the account that pays. The parser has
  no action for the other five methods. Its action for a redemption holds the channel, the index and
  the amount of the ticket, but not the epoch, which belongs to the ticket's identity.
\<close>

fun action_of :: "(bytes \<Rightarrow> bytes) \<Rightarrow> address \<Rightarrow> payer \<Rightarrow> ('p, 'm) payload_call \<Rightarrow> 'm parsed_action option" where
  "action_of keccak me payer (CallApprove a b) = Some (Approve a b payer)"
| "action_of keccak me payer (CallTransferToken a b) = Some (WithdrawToken a b payer)"
| "action_of keccak me payer (CallTransferNative a b) = Some (WithdrawNative a b payer)"
| "action_of keccak me payer (CallSendErc777 a b p) = Some (WithdrawToken a b payer)"
| "action_of keccak me payer (CallAnnounce an fee) = Some (Announce (kb_packet_key (an_key_binding an)) (an_multiaddress an))"
| "action_of keccak me payer (CallFundChannel a b) = Some (FundChannel a b)"
| "action_of keccak me payer (CallCloseIncomingChannel a) = Some (IncomingChannelClosure (generate_channel_id keccak a me))"
| "action_of keccak me payer (CallInitiateOutgoingChannelClosure a) =
     Some (InitializeChannelClosure (generate_channel_id keccak me a))"
| "action_of keccak me payer (CallFinalizeOutgoingChannelClosure a) =
     Some (FinalizeChannelClosure (generate_channel_id keccak me a))"
| "action_of keccak me payer (CallRedeemTicket r) =
     Some (RedeemTicket (vt_channel_id (rt_ticket r)) (ticket_index (vt_ticket (rt_ticket r)))
       (ticket_amount (vt_ticket (rt_ticket r))))"
| "action_of keccak me payer (CallRegisterSafeByNode a) = Some (RegisterSafeAddress a)"
| "action_of keccak me payer _ = None"

text \<open>The ticket a call redeems: its channel, epoch and index.\<close>

fun redeemed_ticket :: "('p, 'm) payload_call \<Rightarrow> ticket_id option" where
  "redeemed_ticket (CallRedeemTicket r) = Some (ticket_id_of (rt_ticket r))"
| "redeemed_ticket _ = None"

section \<open>The contract\<close>

text \<open>
  \<open>read_back_call\<close>: a call that is \<open>valid\<close> and has an action makes a request, and what \<open>read\<close> gets from it
  is the action, signed by \<open>me\<close>; a failed call has nothing to read. \<open>same_epoch\<close>: what the action of a
  redemption leaves open, the epoch of the ticket, is fixed by the request.
\<close>

locale payload_generator =
  fixes ops :: "('q, 'p, 'm) payload_ops"
    and read :: "('q, chain_types_error) res \<Rightarrow> ('m parsed_action \<times> address, chain_types_error) res"
    and valid :: "('p, 'm) payload_call \<Rightarrow> bool"
    and keccak :: "bytes \<Rightarrow> bytes" and me :: address and payer :: payer
  assumes read_back_call: "valid c \<Longrightarrow> action_of keccak me payer c = Some x \<Longrightarrow> read (perform ops c) = Ok (x, me)"
    and read_failed: "\<not> is_ok r \<Longrightarrow> \<not> is_ok (read r)"
    and same_epoch: "valid (CallRedeemTicket t) \<Longrightarrow> valid (CallRedeemTicket t')
      \<Longrightarrow> perform ops (CallRedeemTicket t) = perform ops (CallRedeemTicket t')
      \<Longrightarrow> ticket_epoch (vt_ticket (rt_ticket t)) = ticket_epoch (vt_ticket (rt_ticket t'))"
begin

lemma makes_request:
  assumes "valid c" "action_of keccak me payer c = Some x"
  shows "\<exists>q. perform ops c = Ok q"
  using read_failed [of "perform ops c"] by (auto simp: read_back_call [OF assms] is_ok_iff)

lemma same_request:
  assumes "valid c" "action_of keccak me payer c = Some x" "valid d" "action_of keccak me payer d = Some y"
    and "perform ops c = perform ops d"
  shows "x = y \<and> redeemed_ticket c = redeemed_ticket d"
proof
  show x: "x = y" using read_back_call [OF assms(1,2)] read_back_call [OF assms(3,4)] assms(5) by simp
  show "redeemed_ticket c = redeemed_ticket d"
  proof (cases "\<exists>r r'. c = CallRedeemTicket r \<and> d = CallRedeemTicket r'")
    case True
    then obtain r r' where cd: "c = CallRedeemTicket r" "d = CallRedeemTicket r'" by blast
    moreover have "ticket_epoch (vt_ticket (rt_ticket r)) = ticket_epoch (vt_ticket (rt_ticket r'))"
      using same_epoch assms(1,3,5) unfolding cd by blast
    ultimately show ?thesis using x assms(2,4) by (auto simp: ticket_id_of_def)
  next
    case False
    then show ?thesis using x assms(2,4) by (cases c; cases d) auto
  qed
qed

end

text \<open>
  A second implementation whose requests are those of the first, read through \<open>convert\<close>, keeps the
  contract.
\<close>

locale translated_generator = payload_generator ops read valid keccak me payer
  for ops :: "('q, 'p, 'm) payload_ops" and read valid keccak me payer +
  fixes ops' :: "('r, 'p, 'm) payload_ops" and convert :: "'r \<Rightarrow> 'q"
  assumes agrees: "valid c \<Longrightarrow> action_of keccak me payer c = Some x \<Longrightarrow> map_ok convert (perform ops' c) = perform ops c"
begin

lemma same_calls:
  assumes "valid c" "action_of keccak me payer c = Some x"
  shows "\<exists>q. perform ops' c = Ok q \<and> perform ops c = Ok (convert q) \<and> read (Ok (convert q)) = Ok (x, me)"
proof -
  obtain q where q: "map_ok convert (perform ops' c) = Ok q" "perform ops c = Ok q"
    using makes_request [OF assms] agrees [OF assms] by auto
  then have "read (Ok q) = Ok (x, me)" using read_back_call [OF assms] by simp
  with q show ?thesis by (cases "perform ops' c") auto
qed

end

sublocale translated_generator \<subseteq> translated: payload_generator ops' "\<lambda>r. read (map_ok convert r)" valid keccak me payer
proof
  show "read (map_ok convert (perform ops' c)) = Ok (x, me)" if "valid c" "action_of keccak me payer c = Some x" for c x
    by (simp add: agrees [OF that] read_back_call [OF that])
  show "\<not> is_ok (read (map_ok convert r))" if "\<not> is_ok r" for r
    using that by (intro read_failed) (cases r, simp_all)
  show "ticket_epoch (vt_ticket (rt_ticket r)) = ticket_epoch (vt_ticket (rt_ticket r'))"
    if "valid (CallRedeemTicket r)" "valid (CallRedeemTicket r')"
      and "perform ops' (CallRedeemTicket r) = perform ops' (CallRedeemTicket r')" for r r'
    using same_epoch [OF that(1,2)] agrees [OF that(1) action_of.simps(10)] agrees [OF that(2) action_of.simps(10)] that(3)
    by simp
qed

section \<open>The generators keep it\<close>

text \<open>
  Calls whose request the parser reads: arguments of the sizes of their types, no channel of the node
  with itself, amounts within the funding limit, native transfers of something to an account that is
  not a contract, ERC777 sends that are not announcements, and tickets whose calldata can be computed.
\<close>

fun call_readable ::
  "'p secp \<Rightarrow> 'p vrflib \<Rightarrow> 'm malib \<Rightarrow> address \<Rightarrow> contract_addresses \<Rightarrow> address \<Rightarrow> ('p, 'm) payload_call \<Rightarrow> bool" where
  "call_readable L W A me c m (CallTransferNative a b) \<longleftrightarrow>
     wf_address a \<and> a \<notin> insert m (set (contract_list c)) \<and> \<not> balance_is_zero b"
| "call_readable L W A me c m (CallSendErc777 a b p) \<longleftrightarrow>
     wf_address a \<and> a \<noteq> ca_announcements c \<and> (case p of Curvy q \<Rightarrow> wf_address (ds_aggregator q))"
| "call_readable L W A me c m (CallAnnounce an fee) \<longleftrightarrow>
     length (announced_multiaddr A an) < 2 ^ 32 \<and> wf_offchain_signature (kb_signature (an_key_binding an))
     \<and> wf_opk (kb_packet_key (an_key_binding an)) \<and> pred_option (\<lambda>x. \<not> ma_is_empty A x) (an_multiaddress an)"
| "call_readable L W A me c m (CallFundChannel a b) \<longleftrightarrow> wf_address a \<and> a \<noteq> me \<and> wei b \<le> MAX_FUNDING_AMOUNT"
| "call_readable L W A me c m (CallCloseIncomingChannel a) \<longleftrightarrow> wf_address a \<and> a \<noteq> me"
| "call_readable L W A me c m (CallInitiateOutgoingChannelClosure a) \<longleftrightarrow> wf_address a \<and> a \<noteq> me"
| "call_readable L W A me c m (CallFinalizeOutgoingChannelClosure a) \<longleftrightarrow> wf_address a \<and> a \<noteq> me"
| "call_readable L W A me c m (CallRedeemTicket r) \<longleftrightarrow>
     wf_redeemable r \<and> wf_ticket (vt_ticket (rt_ticket r)) \<and> is_ok (redeem_ticket_words L W r me)"
| "call_readable L W A me c m (CallApprove a b) \<longleftrightarrow> wf_address a"
| "call_readable L W A me c m (CallTransferToken a b) \<longleftrightarrow> wf_address a"
| "call_readable L W A me c m (CallRegisterSafeByNode a) \<longleftrightarrow> wf_address a"
| "call_readable L W A me c m _ \<longleftrightarrow> False"

definition basic_call_ok ::
  "'k alloylib \<Rightarrow> 'm parselib \<Rightarrow> 'p secp \<Rightarrow> 'p vrflib \<Rightarrow> 'm malib \<Rightarrow> basic_generator \<Rightarrow> address \<Rightarrow> ('p, 'm) payload_call \<Rightarrow> bool" where
  "basic_call_ok M P L W A g m c \<longleftrightarrow> alloy_ok M \<and> parselib_ok A P \<and> secp_ok L \<and> wf_basic g
     \<and> contracts_apart (bg_contracts g) \<and> m \<notin> set (contract_list (bg_contracts g))
     \<and> call_readable L W A (bg_me g) (bg_contracts g) m c"

definition safe_call_ok ::
  "'k alloylib \<Rightarrow> 'm parselib \<Rightarrow> 'p secp \<Rightarrow> 'p vrflib \<Rightarrow> 'm malib \<Rightarrow> safe_generator \<Rightarrow> ('p, 'm) payload_call \<Rightarrow> bool" where
  "safe_call_ok M P L W A g c \<longleftrightarrow> alloy_ok M \<and> parselib_ok A P \<and> secp_ok L \<and> wf_safe g
     \<and> contracts_apart (sg_contracts g) \<and> sg_module g \<notin> set (contract_list (sg_contracts g))
     \<and> call_readable L W A (sg_me g) (sg_contracts g) (sg_module g) c"

lemma read_back_failed: "\<not> is_ok r \<Longrightarrow> \<not> is_ok (read_back P keccak m c s r)"
  by (cases r) (simp_all add: read_back_def)

lemma funding_exact: "wei b \<le> MAX_FUNDING_AMOUNT \<Longrightarrow> Balance (of_nat (wei b mod 2 ^ 96)) WxHOPR = b"
  by (cases b; cases "balance_currency b") (auto simp: wei_def balance_amount_def MAX_FUNDING_AMOUNT_def)

lemma basic_call_read:
  assumes "basic_call_ok M P L W A g m c" "action_of (keccak256 L) (bg_me g) EoaPays c = Some x"
  shows "read_back P (keccak256 L) m (bg_contracts g) (bg_me g) (perform (basic_ops L W A g) c) = Ok (x, bg_me g)"
proof -
  note ok = assms(1) [unfolded basic_call_ok_def]
  have env: "parselib_ok A P" "wf_basic g" "contracts_apart (bg_contracts g)" "m \<notin> set (contract_list (bg_contracts g))"
    "secp_ok L" using ok by auto
  note reads = basic_account_reads [OF env(1-4) _ refl] basic_announce_read [OF env(1-4)] basic_redeem_read [OF env]
  show ?thesis
    using assms(2) ok by (cases c) (auto simp: basic_ops_def reads funding_exact [simplified] is_ok_iff)
qed

lemma safe_call_read:
  assumes "safe_call_ok M P L W A g c" "action_of (keccak256 L) (sg_me g) SafePays c = Some x"
  shows "read_back P (keccak256 L) (sg_module g) (sg_contracts g) (sg_me g) (perform (safe_ops L W A g) c) = Ok (x, sg_me g)"
proof -
  note ok = assms(1) [unfolded safe_call_ok_def]
  have env: "parselib_ok A P" "wf_safe g" "contracts_apart (sg_contracts g)" "sg_module g \<notin> set (contract_list (sg_contracts g))"
    "secp_ok L" using ok by auto
  note reads = safe_account_reads [OF env(1-4) _ refl] safe_announce_read [OF env(1-3)] safe_redeem_read [OF env(1-3,5)]
  show ?thesis
    using assms(2) ok by (cases c) (auto simp: safe_ops_def reads is_ok_iff)
qed

text \<open>The fourth word of a redemption is the epoch, and the request determines the words.\<close>

lemma redeem_words_epoch:
  assumes "redeem_ticket_words L W r me = Ok ws" "wf_ticket (vt_ticket (rt_ticket r))"
  shows "from_be (ws ! 3) = unat (ticket_epoch (vt_ticket (rt_ticket r)))"
proof -
  let ?e = "unat (ticket_epoch (vt_ticket (rt_ticket r)))"
  obtain a b where ab: "redeemable_ticket_words r = Ok a" "ws = a @ b"
    using assms(1) by (auto simp: redeem_ticket_words_def)
  have "length a = 8" "a ! 3 = truncated_word (to_be 4 ?e) 3"
    using ab(1) by (auto simp: redeemable_ticket_words_def Let_def expect_def split: option.splits)
  moreover have e: "?e < 2 ^ 24" using assms(2) by (simp add: wf_ticket_def)
  moreover have "?e < 2 ^ 256" by (rule less_trans [OF e]) simp
  ultimately show ?thesis by (simp add: ab(2) nth_append truncated_word_eq from_be_be32)
qed

lemma basic_same_epoch:
  assumes "basic_call_ok M P L W A g m (CallRedeemTicket r)" "basic_call_ok M P L W A g m (CallRedeemTicket r')"
    and "perform (basic_ops L W A g) (CallRedeemTicket r) = perform (basic_ops L W A g) (CallRedeemTicket r')"
  shows "ticket_epoch (vt_ticket (rt_ticket r)) = ticket_epoch (vt_ticket (rt_ticket r'))"
proof -
  have ok: "parselib_ok A P" "secp_ok L" using assms(1) by (auto simp: basic_call_ok_def)
  have words: "\<exists>ws. redeem_ticket_words L W q (bg_me g) = Ok ws \<and> from_be (ws ! 3) = unat (ticket_epoch (vt_ticket (rt_ticket q)))
      \<and> map_ok tx_input (basic_redeem_ticket L W g q) = Ok (call_data FnRedeemTicket (map AWord ws))
      \<and> call_words P FnRedeemTicket (call_data FnRedeemTicket (map AWord ws)) = Some ws"
    if q: "basic_call_ok M P L W A g m (CallRedeemTicket q)" for q
  proof -
    obtain ws where ws: "redeem_ticket_words L W q (bg_me g) = Ok ws" and wf: "wf_redeemable q" "wf_ticket (vt_ticket (rt_ticket q))"
      using q by (auto simp: basic_call_ok_def is_ok_iff)
    have "call_words P FnRedeemTicket (call_data FnRedeemTicket (map AWord ws)) = Some ws"
      by (rule call_words_data [OF ok(1)]) (use al_redeem_eq(2) [OF ok(2) wf(1) ws] redeem_words(1) [OF ws] in simp_all)
    then show ?thesis
      using ws redeem_words_epoch [OF ws wf(2)] by (simp add: basic_redeem_ticket_def encode_redeem request_simps)
  qed
  show ?thesis using words [OF assms(1)] words [OF assms(2)] assms(3) by (auto simp: basic_ops_def word_unat_eq_iff)
qed

lemma safe_same_epoch:
  assumes "safe_call_ok M P L W A g (CallRedeemTicket r)" "safe_call_ok M P L W A g (CallRedeemTicket r')"
    and "perform (safe_ops L W A g) (CallRedeemTicket r) = perform (safe_ops L W A g) (CallRedeemTicket r')"
  shows "ticket_epoch (vt_ticket (rt_ticket r)) = ticket_epoch (vt_ticket (rt_ticket r'))"
proof -
  have ok: "parselib_ok A P" "secp_ok L" "wf_safe g" using assms(1) by (auto simp: safe_call_ok_def)
  note c = wf_contracts_members [OF wf_generators(4) [OF ok(3)]] and me = wf_generators(3) [OF ok(3)]
  have words: "\<exists>ws. redeem_ticket_words L W q (sg_me g) = Ok ws \<and> from_be (ws ! 3) = unat (ticket_epoch (vt_ticket (rt_ticket q)))
      \<and> map_ok (\<lambda>t. module_call_of P (tx_input t)) (safe_redeem_ticket L W g q)
        = Ok (Ok (ca_channels (sg_contracts g), 0, call_data FnRedeemTicketSafe (map AWord (addr32 (sg_me g) # ws))))
      \<and> call_words P FnRedeemTicketSafe (call_data FnRedeemTicketSafe (map AWord (addr32 (sg_me g) # ws))) = Some (addr32 (sg_me g) # ws)"
    if q: "safe_call_ok M P L W A g (CallRedeemTicket q)" for q
  proof -
    obtain ws where ws: "redeem_ticket_words L W q (sg_me g) = Ok ws" and wf: "wf_redeemable q" "wf_ticket (vt_ticket (rt_ticket q))"
      using q by (auto simp: safe_call_ok_def is_ok_iff)
    have "call_words P FnRedeemTicketSafe (call_data FnRedeemTicketSafe (map AWord (addr32 (sg_me g) # ws))) = Some (addr32 (sg_me g) # ws)"
      by (rule call_words_data [OF ok(1)])
        (use al_redeem_eq(2) [OF ok(2) wf(1) ws] redeem_words(1) [OF ws] me in \<open>simp_all add: value_types\<close>)
    moreover have "length (call_data FnRedeemTicketSafe (map AWord (addr32 (sg_me g) # ws))) < 2 ^ 63"
      by (rule words_call_short) (use redeem_words [OF ws] in auto)
    ultimately show ?thesis
      using ws redeem_words_epoch [OF ws wf(2)]
      by (simp add: safe_redeem_ticket_def encode_redeem read_module_call [OF ok(1) c(2)] zero_word_type)
  qed
  obtain us where us: "from_be (us ! 3) = unat (ticket_epoch (vt_ticket (rt_ticket r)))"
      "map_ok (\<lambda>t. module_call_of P (tx_input t)) (safe_redeem_ticket L W g r)
        = Ok (Ok (ca_channels (sg_contracts g), 0, call_data FnRedeemTicketSafe (map AWord (addr32 (sg_me g) # us))))"
      "call_words P FnRedeemTicketSafe (call_data FnRedeemTicketSafe (map AWord (addr32 (sg_me g) # us))) = Some (addr32 (sg_me g) # us)"
    using words [OF assms(1)] by blast
  obtain vs where vs: "from_be (vs ! 3) = unat (ticket_epoch (vt_ticket (rt_ticket r')))"
      "map_ok (\<lambda>t. module_call_of P (tx_input t)) (safe_redeem_ticket L W g r')
        = Ok (Ok (ca_channels (sg_contracts g), 0, call_data FnRedeemTicketSafe (map AWord (addr32 (sg_me g) # vs))))"
      "call_words P FnRedeemTicketSafe (call_data FnRedeemTicketSafe (map AWord (addr32 (sg_me g) # vs))) = Some (addr32 (sg_me g) # vs)"
    using words [OF assms(2)] by blast
  have "Some (addr32 (sg_me g) # us) = Some (addr32 (sg_me g) # vs)"
    using us(2,3) vs(2,3) assms(3) unfolding safe_ops_def perform.simps payload_ops.simps by (metis Pair_inject res.inject(1))
  then show ?thesis using us(1) vs(1) by (simp add: word_unat_eq_iff)
qed

lemma basic_call_agrees:
  assumes "basic_call_ok M P L W A g m c" "action_of keccak me payer c = Some x"
  shows "map_ok request_of (perform (al_basic_ops M L W A g) c) = perform (basic_ops L W A g) c"
proof -
  note ok = assms(1) [unfolded basic_call_ok_def]
  have env: "alloy_ok M" "wf_basic g" "secp_ok L" using ok by auto
  note eqs = al_basic_account_eq [OF env(1,2)] al_basic_send_erc777_eq [OF env(1,2)] al_basic_announce_eq [OF env(1,2)]
    al_basic_redeem_request_eq [OF env]
  have "map_ok request_of (al_basic_redeem_ticket M L W g r) = basic_redeem_ticket L W g r"
    if "wf_redeemable r" "redeem_ticket_words L W r (bg_me g) = Ok ws" for r ws
    using that by (simp add: eqs panic_on_witness_def basic_redeem_ticket_def encode_redeem)
  then show ?thesis
    using assms(2) ok by (cases c) (auto simp: basic_ops_def al_basic_ops_def eqs is_ok_iff split: erc777_payload.splits)
qed

lemma safe_call_agrees:
  assumes "safe_call_ok M P L W A g c" "action_of keccak me payer c = Some x"
  shows "map_ok request_of (perform (al_safe_ops M L W A g) c) = perform (safe_ops L W A g) c"
proof -
  note ok = assms(1) [unfolded safe_call_ok_def]
  have env: "alloy_ok M" "wf_safe g" "secp_ok L" using ok by auto
  note eqs = al_safe_account_eq [OF env(1,2)] al_safe_send_erc777_eq [OF env(1,2)] al_safe_announce_eq [OF env(1,2)]
    al_safe_redeem_request_eq [OF env]
  have "map_ok request_of (al_safe_redeem_ticket M L W g r) = safe_redeem_ticket L W g r"
    if "wf_redeemable r" "redeem_ticket_words L W r (sg_me g) = Ok ws" for r ws
    using that by (simp add: eqs panic_on_witness_def safe_redeem_ticket_def encode_redeem)
  then show ?thesis
    using assms(2) ok by (cases c) (auto simp: safe_ops_def al_safe_ops_def eqs is_ok_iff split: erc777_payload.splits)
qed

interpretation basic_payload: translated_generator "basic_ops L W A g" "read_back P (keccak256 L) m (bg_contracts g) (bg_me g)"
  "basic_call_ok M P L W A g m" "keccak256 L" "bg_me g" EoaPays "al_basic_ops M L W A g" request_of for L W A g P m M
  by unfold_locales (auto simp: basic_call_read basic_call_agrees dest: read_back_failed basic_same_epoch)

interpretation safe_payload: translated_generator "safe_ops L W A g"
  "read_back P (keccak256 L) (sg_module g) (sg_contracts g) (sg_me g)"
  "safe_call_ok M P L W A g" "keccak256 L" "sg_me g" SafePays "al_safe_ops M L W A g" request_of for L W A g P M
  by unfold_locales (auto simp: safe_call_read safe_call_agrees dest: read_back_failed safe_same_epoch)

section \<open>One transaction, one action\<close>

text \<open>C31. Whichever of the four generators makes it, a transaction stands for one action. This is about the
  eleven methods that the parser has an action for; it has none for the deregistration of a node, the
  three writes of the service registry and the deployment of a Safe. Every such call within the documented
  limits makes a request; the request over the bindings is the one encoded by hand, and the parser
  reads it as the action of the call, with the node as the signer. Two calls whose requests are equal
  ask for the same action, and if they redeem tickets, for the same ticket: channel, index and amount
  agree by the action, and the epoch, which the action does not hold, by the calldata.\<close>

theorem requests_determine_actions:
  assumes "basic_call_ok M P L W A g m c" "action_of (keccak256 L) (bg_me g) EoaPays c = Some x"
    and "basic_call_ok M P L W A g m d" "action_of (keccak256 L) (bg_me g) EoaPays d = Some y"
    and "safe_call_ok M P L W A s u" "action_of (keccak256 L) (sg_me s) SafePays u = Some v"
    and "safe_call_ok M P L W A s w" "action_of (keccak256 L) (sg_me s) SafePays w = Some z"
  shows "(\<exists>q. perform (al_basic_ops M L W A g) c = Ok q \<and> perform (basic_ops L W A g) c = Ok (request_of q)
        \<and> read_back P (keccak256 L) m (bg_contracts g) (bg_me g) (Ok (request_of q)) = Ok (x, bg_me g))
    \<and> (\<exists>q. perform (al_safe_ops M L W A s) u = Ok q \<and> perform (safe_ops L W A s) u = Ok (request_of q)
        \<and> read_back P (keccak256 L) (sg_module s) (sg_contracts s) (sg_me s) (Ok (request_of q)) = Ok (v, sg_me s))
    \<and> (perform (basic_ops L W A g) c = perform (basic_ops L W A g) d
        \<or> perform (al_basic_ops M L W A g) c = perform (al_basic_ops M L W A g) d
        \<longrightarrow> x = y \<and> redeemed_ticket c = redeemed_ticket d)
    \<and> (perform (safe_ops L W A s) u = perform (safe_ops L W A s) w
        \<or> perform (al_safe_ops M L W A s) u = perform (al_safe_ops M L W A s) w
        \<longrightarrow> v = z \<and> redeemed_ticket u = redeemed_ticket w)"
  using basic_payload.same_calls [OF assms(1,2)] safe_payload.same_calls [OF assms(5,6)]
    basic_payload.same_request [OF assms(1-4)] basic_payload.translated.same_request [OF assms(1-4)]
    safe_payload.same_request [OF assms(5-8)] safe_payload.translated.same_request [OF assms(5-8)]
  by blast

text \<open>A redemption by the node \<open>11\<close> and an approval by its Safe.\<close>

theorem requests_determine_actions_witness:
  "\<exists>q. perform (al_basic_ops alloy_std secp_toy vrf_toy ma_text (basic_new (Address (replicate 20 11)) contracts_example))
        (CallRedeemTicket signed_example) = Ok q
     \<and> read_back parselib_std (keccak256 secp_toy) (Address (replicate 20 12)) contracts_example (Address (replicate 20 11))
         (Ok (request_of q))
       = Ok (RedeemTicket (vt_channel_id (rt_ticket signed_example)) (ticket_index (vt_ticket (rt_ticket signed_example)))
           (ticket_amount (vt_ticket (rt_ticket signed_example))), Address (replicate 20 11))"
proof -
  let ?g = "basic_new (Address (replicate 20 11)) contracts_example"
  have g: "bg_contracts ?g = contracts_example" "bg_me ?g = Address (replicate 20 11)" by (simp_all add: basic_new_def)
  have s: "sg_contracts safe_example = contracts_example" "sg_module safe_example = Address (replicate 20 12)"
    by (simp_all add: safe_example_def)
  have w: "is_ok (redeem_ticket_words secp_toy vrf_toy signed_example (Address (replicate 20 11)))"
    using signed_example_words by (auto simp: is_ok_iff)
  have b: "basic_call_ok alloy_std parselib_std secp_toy vrf_toy ma_text ?g (Address (replicate 20 12)) (CallRedeemTicket signed_example)"
    using w by (simp add: basic_call_ok_def alloy_ok_std parselib_ok_std secp_ok_toy generator_examples g contracts_example_apart wf_signed_example)
  let ?c = "CallApprove (Address (replicate 20 13)) (Balance 5 WxHOPR)"
  have c: "safe_call_ok alloy_std parselib_std secp_toy vrf_toy ma_text safe_example ?c"
    by (simp add: safe_call_ok_def alloy_ok_std parselib_ok_std secp_ok_toy generator_examples s contracts_example_apart wf_address_20)
  from requests_determine_actions [OF b action_of.simps(10) b action_of.simps(10) c action_of.simps(1) c action_of.simps(1)]
  show ?thesis unfolding g by blast
qed

end
