(* ===== verification/Comparisons.thy ===== *)
theory Comparisons
  imports Ticket_Flow Paths
begin

text \<open>
  What the standard collections rely on: the equalities, hashes and orders that the crate writes by
  hand (\<open>impl Hash\<close>, \<open>impl PartialEq\<close>, \<open>impl Ord\<close> of \<open>crypto/types.rs\<close>, \<open>internal/channels.rs\<close>,
  \<open>internal/tickets.rs\<close>, \<open>primitive/primitives.rs\<close>). The contracts of the standard library are the locales
  \<open>hash_eq\<close>, \<open>hash_key\<close>, \<open>rust_ord\<close> and \<open>rust_ord_eq\<close>; what a hash set and an ordered set make of values
  that keep them is proved once, in the locales.
\<close>

section \<open>What is fed to a hasher\<close>

text \<open>A byte array, with its length in front, and integers of their width.\<close>

datatype hash_item = HashBytes bytes | HashI8 "8 word" | HashU32 u32

definition hash_base_feed :: "hash \<Rightarrow> hash_item list" where
  "hash_base_feed h = [HashBytes (hash_bytes h)]"

definition public_key_feed :: "'p public_key \<Rightarrow> hash_item list" where
  "public_key_feed pk = [HashBytes (pk_compressed pk)]"

definition pseudonym_feed :: "simple_pseudonym \<Rightarrow> hash_item list" where
  "pseudonym_feed p = [HashBytes (pseudonym_bytes p)]"

definition channel_status_feed :: "channel_status \<Rightarrow> hash_item list" where
  "channel_status_feed s = [HashI8 (channel_status_into_i8 s)]"

definition channel_entry_feed :: "channel_entry \<Rightarrow> hash_item list" where
  "channel_entry_feed c = hash_base_feed (channel_id c) @ [HashU32 (channel_epoch c)]"

text \<open>Digests are equal if their bytes are, whatever their phantom type.\<close>

definition hash_base_eq :: "hash \<Rightarrow> hash \<Rightarrow> bool" where
  "hash_base_eq a b \<longleftrightarrow> hash_bytes a = hash_bytes b"

section \<open>Hash sets\<close>

text \<open>
  A set with the entries in the order they came. An entry is found by its hash, then by equality; a
  value that is found is not inserted again.
\<close>

definition hash_contains :: "('a \<Rightarrow> 'a \<Rightarrow> bool) \<Rightarrow> ('a \<Rightarrow> u64) \<Rightarrow> 'a list \<Rightarrow> 'a \<Rightarrow> bool" where
  "hash_contains eq h s x = list_ex (\<lambda>y. h y = h x \<and> eq y x) s"

definition hash_insert :: "('a \<Rightarrow> 'a \<Rightarrow> bool) \<Rightarrow> ('a \<Rightarrow> u64) \<Rightarrow> 'a list \<Rightarrow> 'a \<Rightarrow> 'a list" where
  "hash_insert eq h s x = (if hash_contains eq h s x then s else s @ [x])"

definition hash_from_iter :: "('a \<Rightarrow> 'a \<Rightarrow> bool) \<Rightarrow> ('a \<Rightarrow> u64) \<Rightarrow> 'a list \<Rightarrow> 'a list" where
  "hash_from_iter eq h xs = foldl (hash_insert eq h) [] xs"

lemma hash_from_iter_simps [simp]:
  "hash_from_iter eq h [] = []" "hash_from_iter eq h (xs @ [x]) = hash_insert eq h (hash_from_iter eq h xs) x"
  by (simp_all add: hash_from_iter_def)

lemma set_hash_from_iter: "set (hash_from_iter eq h xs) \<subseteq> set xs"
  by (induction xs rule: rev_induct) (auto simp: hash_insert_def)

lemma distinct_iff_sorted_wrt: "distinct xs \<longleftrightarrow> sorted_wrt (\<noteq>) xs"
  by (induction xs) auto

text \<open>\<open>Hash\<close> next to \<open>PartialEq\<close>: equal values feed the same to the hasher.\<close>

locale hash_eq =
  fixes eq :: "'a \<Rightarrow> 'a \<Rightarrow> bool" and feed :: "'a \<Rightarrow> hash_item list"
  assumes eq_refl: "eq a a" and eq_sym: "eq a b \<Longrightarrow> eq b a" and eq_feed: "eq a b \<Longrightarrow> feed a = feed b"
begin

lemma contains_eq: "hash_contains eq (\<lambda>a. hasher (feed a)) s x \<longleftrightarrow> (\<exists>y \<in> set s. eq y x)"
  unfolding hash_contains_def list_ex_iff by (metis eq_feed)

text \<open>Every value given is found, whatever the hasher, and no two entries are equal.\<close>

lemma from_iter_covers: "x \<in> set xs \<Longrightarrow> hash_contains eq (\<lambda>a. hasher (feed a)) (hash_from_iter eq (\<lambda>a. hasher (feed a)) xs) x"
  by (induction xs rule: rev_induct) (auto simp: contains_eq hash_insert_def eq_refl)

lemma from_iter_apart: "sorted_wrt (\<lambda>a b. \<not> eq a b) (hash_from_iter eq (\<lambda>a. hasher (feed a)) xs)"
  by (induction xs rule: rev_induct) (auto simp: contains_eq hash_insert_def sorted_wrt_append)

lemma from_iter_hasher: "hash_from_iter eq (\<lambda>a. hasher (feed a)) xs = hash_from_iter eq (\<lambda>a. hasher' (feed a)) xs"
  by (induction xs rule: rev_induct) (simp_all add: hash_insert_def contains_eq)

end

text \<open>With \<open>Eq\<close>, an equivalence: a value is found exactly if an equal one was given.\<close>

locale hash_key = hash_eq +
  assumes eq_trans: "eq a b \<Longrightarrow> eq b c \<Longrightarrow> eq a c"
begin

lemma contains_from_iter:
  "hash_contains eq (\<lambda>a. hasher (feed a)) (hash_from_iter eq (\<lambda>a. hasher (feed a)) xs) x \<longleftrightarrow> (\<exists>y \<in> set xs. eq y x)"
proof
  show "hash_contains eq (\<lambda>a. hasher (feed a)) (hash_from_iter eq (\<lambda>a. hasher (feed a)) xs) x" if "\<exists>y \<in> set xs. eq y x"
    using that from_iter_covers [of _ xs hasher] by (metis contains_eq eq_trans)
qed (use set_hash_from_iter [of eq "\<lambda>a. hasher (feed a)" xs] in \<open>auto simp: contains_eq\<close>)

text \<open>When equality is that of a part of the values, the set has one entry for each such part.\<close>

lemma length_from_iter:
  assumes "\<And>a b. eq a b \<longleftrightarrow> key a = key b"
  shows "length (hash_from_iter eq (\<lambda>a. hasher (feed a)) xs) = card (key ` set xs)"
proof -
  let ?s = "hash_from_iter eq (\<lambda>a. hasher (feed a)) xs"
  have "sorted_wrt (\<lambda>a b. key a \<noteq> key b) ?s"
    using from_iter_apart [of hasher xs] by (simp add: assms)
  then have "distinct (map key ?s)" by (simp add: distinct_iff_sorted_wrt sorted_wrt_map)
  moreover have "key ` set ?s = key ` set xs"
  proof
    show "key ` set ?s \<subseteq> key ` set xs" by (intro image_mono set_hash_from_iter)
    have "\<exists>y \<in> set ?s. key y = key x" if "x \<in> set xs" for x
      using from_iter_covers [OF that, of hasher] by (simp add: contains_eq assms)
    then show "key ` set xs \<subseteq> key ` set ?s" unfolding subset_iff image_iff by metis
  qed
  ultimately show ?thesis by (metis distinct_card length_map list.set_map)
qed

end

text \<open>A derived \<open>Hash\<close> next to a derived \<open>Eq\<close> keeps the contract whatever it feeds.\<close>

interpretation derived_key: hash_key "(=)" feed for feed
  by unfold_locales auto

interpretation hash_base_key: hash_key hash_base_eq hash_base_feed
  by unfold_locales (auto simp: hash_base_eq_def hash_base_feed_def)

interpretation public_key_key: hash_key public_key_eq public_key_feed
  by unfold_locales (auto simp: public_key_eq_def public_key_feed_def)

interpretation pseudonym_key: hash_key pseudonym_eq pseudonym_feed
  by unfold_locales (auto simp: pseudonym_eq_def pseudonym_feed_def)

text \<open>The statuses and the entries of channels keep only the weaker contract.\<close>

interpretation channel_status_hash: hash_eq channel_status_eq channel_status_feed
  by unfold_locales (auto simp: channel_status_feed_def channel_status_eq_hash channel_status_eq_sym)

interpretation channel_entry_hash: hash_eq channel_entry_eq channel_entry_feed
  by unfold_locales (auto simp: channel_entry_feed_def channel_entry_eq_def channel_status_eq_sym)

section \<open>Ordered sets\<close>

text \<open>The entries in their order; a value that compares equal to an entry is dropped.\<close>

fun btree_insert :: "('a \<Rightarrow> 'a \<Rightarrow> ordering) \<Rightarrow> 'a list \<Rightarrow> 'a \<Rightarrow> 'a list" where
  "btree_insert cmp [] x = [x]"
| "btree_insert cmp (y # ys) x =
     (case cmp x y of Less \<Rightarrow> x # y # ys | Equal \<Rightarrow> y # ys | Greater \<Rightarrow> y # btree_insert cmp ys x)"

definition btree_from_iter :: "('a \<Rightarrow> 'a \<Rightarrow> ordering) \<Rightarrow> 'a list \<Rightarrow> 'a list" where
  "btree_from_iter cmp xs = foldl (btree_insert cmp) [] xs"

lemma btree_from_iter_simps [simp]:
  "btree_from_iter cmp [] = []" "btree_from_iter cmp (xs @ [x]) = btree_insert cmp (btree_from_iter cmp xs) x"
  by (simp_all add: btree_from_iter_def)

text \<open>
  What an order promises: the comparison of two values decides that of the swapped ones, it is
  transitive, and a chain with a strict step is strict. An ordered set of values: it is strictly
  ascending, and of each class of values with the same part it holds exactly the first that came.
\<close>

definition lawful_order :: "('a \<Rightarrow> 'a \<Rightarrow> ordering) \<Rightarrow> bool" where
  "lawful_order cmp \<longleftrightarrow>
     (\<forall>a b. cmp b a = ord_reverse (cmp a b))
   \<and> (\<forall>a b c. cmp a b \<noteq> Greater \<longrightarrow> cmp b c \<noteq> Greater \<longrightarrow>
        cmp a c = (if cmp a b = Equal \<and> cmp b c = Equal then Equal else Less))"

definition set_of_firsts :: "('a \<Rightarrow> 'a \<Rightarrow> ordering) \<Rightarrow> ('a \<Rightarrow> 'k) \<Rightarrow> 'a list \<Rightarrow> bool" where
  "set_of_firsts cmp ident xs \<longleftrightarrow>
     sorted_wrt (\<lambda>a b. cmp a b = Less) (btree_from_iter cmp xs)
   \<and> (\<forall>x. x \<in> set (btree_from_iter cmp xs) \<longleftrightarrow> find (\<lambda>y. ident y = ident x) xs = Some x)"

text \<open>\<open>Ord\<close>: a total order of the values up to \<open>ident\<close>, the part of a value that is compared.\<close>

locale rust_ord =
  fixes cmp :: "'a \<Rightarrow> 'a \<Rightarrow> ordering" and ident :: "'a \<Rightarrow> 'k"
  assumes cmp_swap: "cmp b a = ord_reverse (cmp a b)"
    and cmp_Equal: "cmp a b = Equal \<longleftrightarrow> ident a = ident b"
    and cmp_trans: "cmp a b = Less \<Longrightarrow> cmp b c = Less \<Longrightarrow> cmp a c = Less"
begin

lemma cmp_Greater: "cmp a b = Greater \<longleftrightarrow> cmp b a = Less"
  unfolding cmp_swap [of b a] by (cases "cmp a b") simp_all

lemma Less_ident: "cmp a b = Less \<Longrightarrow> ident b = ident c \<Longrightarrow> cmp a c = Less"
proof (cases "cmp a c")
  case Greater
  assume "cmp a b = Less" "ident b = ident c"
  then show ?thesis using cmp_trans [of c a b] Greater cmp_Equal [of c b] by (simp add: cmp_Greater)
qed (use cmp_Equal [of a c] cmp_Equal [of a b] in auto)

lemma ident_Less: "ident a = ident b \<Longrightarrow> cmp b c = Less \<Longrightarrow> cmp a c = Less"
  using Less_ident [of c b a] Less_ident [of a c] cmp_Greater cmp_swap cmp_trans cmp_Equal
  by (metis ordering.exhaust)

lemma insert_sorted:
  assumes "sorted_wrt (\<lambda>a b. cmp a b = Less) ys"
  shows "sorted_wrt (\<lambda>a b. cmp a b = Less) (btree_insert cmp ys x)
    \<and> set (btree_insert cmp ys x) = (if ident x \<in> ident ` set ys then set ys else insert x (set ys))"
  using assms
proof (induction ys)
  case (Cons y ys)
  show ?case
  proof (cases "cmp x y")
    case Less
    then have less: "cmp x z = Less" if "z \<in> set (y # ys)" for z
      using Cons.prems that cmp_trans [of x y z] by auto
    then have "ident x \<notin> ident ` set (y # ys)" by (auto simp: cmp_Equal [symmetric])
    then show ?thesis using Less less Cons.prems by simp
  next
    case Equal
    then have "ident x = ident y" by (simp add: cmp_Equal)
    then show ?thesis using Equal Cons.prems by auto
  next
    case Greater
    then have "ident x \<noteq> ident y" using cmp_Equal [of x y] by simp
    then show ?thesis using Greater Cons cmp_Greater [of x y] by auto
  qed
qed simp

lemma from_iter_set:
  "sorted_wrt (\<lambda>a b. cmp a b = Less) (btree_from_iter cmp xs)"
  "x \<in> set (btree_from_iter cmp xs) \<longleftrightarrow> find (\<lambda>y. ident y = ident x) xs = Some x"
proof -
  have "sorted_wrt (\<lambda>a b. cmp a b = Less) (btree_from_iter cmp xs)
    \<and> set (btree_from_iter cmp xs) = {x. find (\<lambda>y. ident y = ident x) xs = Some x}
    \<and> ident ` set (btree_from_iter cmp xs) = ident ` set xs"
  proof (induction xs rule: rev_induct)
    case (snoc z xs)
    let ?s = "btree_from_iter cmp xs"
    have z: "find (\<lambda>y. ident y = ident x) (xs @ [z]) = Some x \<longleftrightarrow>
        find (\<lambda>y. ident y = ident x) xs = Some x \<or> ident z \<notin> ident ` set xs \<and> x = z" for x
      by (induction xs) auto
    have "set (btree_insert cmp ?s z) = (if ident z \<in> ident ` set xs then set ?s else insert z (set ?s))"
      "sorted_wrt (\<lambda>a b. cmp a b = Less) (btree_insert cmp ?s z)"
      using insert_sorted [of ?s z] snoc by auto
    then show ?case using snoc by (auto simp: z)
  qed simp
  then show "sorted_wrt (\<lambda>a b. cmp a b = Less) (btree_from_iter cmp xs)"
    "x \<in> set (btree_from_iter cmp xs) \<longleftrightarrow> find (\<lambda>y. ident y = ident x) xs = Some x"
    by auto
qed

lemma lawful: "lawful_order cmp"
  unfolding lawful_order_def using cmp_swap cmp_trans cmp_Equal Less_ident ident_Less
  by (metis ordering.exhaust)

lemma firsts: "set_of_firsts cmp ident xs"
  by (simp add: set_of_firsts_def from_iter_set)

end

text \<open>With \<open>Eq\<close>: equal values compare equal. The converse, which the standard library asks for, is \<open>rust_ord_exact\<close>.\<close>

locale rust_ord_eq = rust_ord +
  fixes eq :: "'a \<Rightarrow> 'a \<Rightarrow> bool"
  assumes eq_ident: "eq a b \<Longrightarrow> ident a = ident b"

locale rust_ord_exact = rust_ord_eq +
  assumes ident_eq: "ident a = ident b \<Longrightarrow> eq a b"
begin

lemma Equal_iff_eq: "cmp a b = Equal \<longleftrightarrow> eq a b"
  using cmp_Equal eq_ident ident_eq by blast

end

text \<open>Comparison by parts: of integers, of byte strings, of one part and then another.\<close>

lemma rust_ord_cmp_of: "rust_ord (\<lambda>a b. cmp_of (f a) (f b)) f"
  by unfold_locales (auto simp flip: cmp_of_swap)

lemma rust_ord_cmp_bytes: "rust_ord (\<lambda>a b. cmp_bytes (f a) (f b)) f"
  by unfold_locales (auto simp flip: cmp_bytes_swap intro: cmp_bytes_trans)

lemma rust_ord_then:
  assumes "rust_ord c i" "rust_ord d j"
  shows "rust_ord (\<lambda>a b. ord_then (c a b) (d a b)) (\<lambda>a. (i a, j a))"
proof -
  note C = rust_ord.cmp_Equal [OF assms(1)] and D = rust_ord.cmp_Equal [OF assms(2)]
  show ?thesis
  proof
    fix a b e
    show "ord_then (c b a) (d b a) = ord_reverse (ord_then (c a b) (d a b))"
      by (simp add: ord_then_reverse flip: rust_ord.cmp_swap [OF assms(1)] rust_ord.cmp_swap [OF assms(2)])
    show "ord_then (c a b) (d a b) = Equal \<longleftrightarrow> (i a, j a) = (i b, j b)" by (simp add: C D)
    show "ord_then (c a e) (d a e) = Less" if "ord_then (c a b) (d a b) = Less" "ord_then (c b e) (d b e) = Less"
      using that rust_ord.cmp_trans [OF assms(1), of a b e] rust_ord.Less_ident [OF assms(1), of a b e]
        rust_ord.ident_Less [OF assms(1), of a b e] rust_ord.cmp_trans [OF assms(2), of a b e]
      by (auto simp: C)
  qed
qed

lemma rust_ord_ident: "rust_ord c i \<Longrightarrow> (\<And>a b. i a = i b \<longleftrightarrow> k a = k b) \<Longrightarrow> rust_ord c k"
  unfolding rust_ord_def by blast

lemma rust_ord_key: "rust_ord c i \<Longrightarrow> rust_ord (\<lambda>a b. c (f a) (f b)) (\<lambda>a. i (f a))"
  unfolding rust_ord_def by blast

lemma rust_ord_eqI: "rust_ord c i \<Longrightarrow> (\<And>a b. e a b \<Longrightarrow> i a = i b) \<Longrightarrow> rust_ord_eq c i e"
  by (simp add: rust_ord_eq_def rust_ord_eq_axioms_def)

lemma rust_ord_exactI: "rust_ord c i \<Longrightarrow> (\<And>a b. e a b \<longleftrightarrow> i a = i b) \<Longrightarrow> rust_ord_exact c i e"
  using rust_ord_eqI [of c i e] by (simp add: rust_ord_exact_def rust_ord_exact_axioms_def)

section \<open>The orders of the crate\<close>

lemma hash_ord: "rust_ord hash_cmp hash_bytes"
  unfolding hash_cmp_def [abs_def] by (rule rust_ord_cmp_bytes)

lemma ticket_id_ord: "rust_ord ticket_id_cmp (\<lambda>i. i)"
  by (rule rust_ord_ident, unfold ticket_id_cmp_def [abs_def],
      rule rust_ord_then [OF rust_ord_key [OF hash_ord] rust_ord_then [OF rust_ord_cmp_of rust_ord_cmp_of]])
    (auto intro: hash.expand ticket_id.equality)

lemma verified_ticket_ord: "rust_ord verified_ticket_cmp ticket_id_of"
  unfolding verified_ticket_cmp_def [abs_def] by (rule rust_ord_key [OF ticket_id_ord])

interpretation hash_order: rust_ord_exact hash_cmp hash_bytes "(=)"
  by (rule rust_ord_exactI [OF hash_ord]) (auto intro: hash.expand)

interpretation address_order: rust_ord_exact address_cmp address_bytes "(=)"
  by (rule rust_ord_exactI, unfold address_cmp_def [abs_def], rule rust_ord_cmp_bytes) (auto intro: address.expand)

interpretation pseudonym_order: rust_ord_exact pseudonym_cmp pseudonym_bytes pseudonym_eq
  by (rule rust_ord_exactI, unfold pseudonym_cmp_def [abs_def], rule rust_ord_cmp_bytes) (simp add: pseudonym_eq_def)

interpretation ticket_id_order: rust_ord_exact ticket_id_cmp "\<lambda>i. i" "(=)"
  by (rule rust_ord_exactI [OF ticket_id_ord]) simp

interpretation lex_order: rust_ord_exact wp_lex_cmp wp_as_luck wp_lex_eq
  by (rule rust_ord_exactI, unfold wp_lex_cmp_def [abs_def], rule rust_ord_cmp_of) (simp add: wp_lex_eq_def wp_lex_cmp_def)

text \<open>Tickets and logs: equal values compare equal, but not only those.\<close>

interpretation verified_ticket_order: rust_ord_eq verified_ticket_cmp ticket_id_of "(=)"
  by (rule rust_ord_eqI [OF verified_ticket_ord]) simp

interpretation acknowledged_order: rust_ord_eq acknowledged_cmp "\<lambda>a. ticket_id_of (at_ticket a)" "(=)"
  by (rule rust_ord_eqI, unfold acknowledged_cmp_def [abs_def], rule rust_ord_key [OF verified_ticket_ord]) simp

interpretation redeemable_order: rust_ord_eq redeemable_cmp redeemable_ticket_id redeemable_eq
  by (rule rust_ord_eqI, unfold redeemable_cmp_def [abs_def] redeemable_ticket_id_def [abs_def],
      rule rust_ord_key [OF verified_ticket_ord]) (simp add: redeemable_eq_def)

definition log_position :: "serializable_log \<Rightarrow> u64 \<times> u64 \<times> u64" where
  "log_position l = (log_block_number l, log_tx_index l, log_log_index l)"

lemma log_cmp_then:
  "log_cmp a b = ord_then (cmp_of (log_block_number a) (log_block_number b))
     (ord_then (cmp_of (log_tx_index a) (log_tx_index b)) (cmp_of (log_log_index a) (log_log_index b)))"
proof -
  have "ord_then c d = (if c = Equal then d else c)" for c d by (cases c) simp_all
  then show ?thesis unfolding log_cmp_def Let_def by simp
qed

interpretation log_order: rust_ord_eq log_cmp log_position "(=)"
  by (rule rust_ord_eqI, unfold log_cmp_then [abs_def] log_position_def [abs_def],
      rule rust_ord_then [OF rust_ord_cmp_of rust_ord_then [OF rust_ord_cmp_of rust_ord_cmp_of]]) simp

section \<open>Values in collections\<close>

lemma mem_image_iff: "f x \<in> f ` A \<longleftrightarrow> (\<exists>y \<in> A. f y = f x)"
  by (auto simp: image_iff eq_commute)

lemma status_set_sizes:
  fixes f :: "system_time \<Rightarrow> 'a"
  assumes "\<And>s t. eq (f s) (f t) \<longleftrightarrow> \<bar>s - t\<bar> < 1000000000" "\<And>s t. h (f s) = h (f t)"
  shows "length (hash_from_iter eq h [f 0, f 600000000, f 1200000000]) = 2"
    "length (hash_from_iter eq h [f 600000000, f 0, f 1200000000]) = 1"
proof -
  obtain n where n: "\<And>s. h (f s) = n" using assms(2) by metis
  show "length (hash_from_iter eq h [f 0, f 600000000, f 1200000000]) = 2"
    "length (hash_from_iter eq h [f 600000000, f 0, f 1200000000]) = 1"
    by (simp_all add: hash_from_iter_def hash_insert_def hash_contains_def assms(1) n)
qed

text \<open>C33. The types of the crate as keys of hash sets, for every hasher. A digest, a public key or a
  pseudonym is found exactly if one with the same bytes was inserted, and equal ones are one entry: a
  set has as many entries as there are different byte strings. The cycle check of a path, a
  comparison of the size of such a set with the number of hops, sees exactly the repeated hops.
  Statuses of channels and channel entries feed equal values alike to the hasher, so each value inserted
  is found; but their equality is not transitive, and three channels that differ in their closure times
  alone make a set of two entries or of one, depending on the order they come in.\<close>

theorem hash_collections:
  "(hash_contains hash_base_eq (\<lambda>h. hasher (hash_base_feed h)) (hash_from_iter hash_base_eq (\<lambda>h. hasher (hash_base_feed h)) hs) h
      \<longleftrightarrow> hash_bytes h \<in> hash_bytes ` set hs)
   \<and> length (hash_from_iter hash_base_eq (\<lambda>h. hasher (hash_base_feed h)) hs) = card (hash_bytes ` set hs)
   \<and> (hash_contains public_key_eq (\<lambda>k. hasher (public_key_feed k)) (hash_from_iter public_key_eq (\<lambda>k. hasher (public_key_feed k)) ks) k
      \<longleftrightarrow> pk_compressed k \<in> pk_compressed ` set ks)
   \<and> length (hash_from_iter public_key_eq (\<lambda>k. hasher (public_key_feed k)) ks) = card (pk_compressed ` set ks)
   \<and> (hash_contains pseudonym_eq (\<lambda>p. hasher (pseudonym_feed p)) (hash_from_iter pseudonym_eq (\<lambda>p. hasher (pseudonym_feed p)) ps) p
      \<longleftrightarrow> pseudonym_bytes p \<in> pseudonym_bytes ` set ps)
   \<and> length (hash_from_iter pseudonym_eq (\<lambda>p. hasher (pseudonym_feed p)) ps) = card (pseudonym_bytes ` set ps)
   \<and> (contains_cycle into hops
      \<longleftrightarrow> length (hash_from_iter (=) (\<lambda>n. hasher (node_feed n)) (map into hops)) \<noteq> length hops)
   \<and> hash_contains channel_status_eq (\<lambda>s. hasher (channel_status_feed s))
        (hash_from_iter channel_status_eq (\<lambda>s. hasher (channel_status_feed s)) (ss @ s # ts)) s
   \<and> hash_contains channel_entry_eq (\<lambda>c. hasher (channel_entry_feed c))
        (hash_from_iter channel_entry_eq (\<lambda>c. hasher (channel_entry_feed c)) (cs @ c # ds)) c
   \<and> length (hash_from_iter channel_status_eq (\<lambda>s. hasher (channel_status_feed s))
        (map PendingToClose [0, 600000000, 1200000000])) = 2
   \<and> length (hash_from_iter channel_status_eq (\<lambda>s. hasher (channel_status_feed s))
        (map PendingToClose [600000000, 0, 1200000000])) = 1
   \<and> length (hash_from_iter channel_entry_eq (\<lambda>c. hasher (channel_entry_feed c))
        (map (\<lambda>t. c\<lparr>channel_status := PendingToClose t\<rparr>) [0, 600000000, 1200000000])) = 2
   \<and> length (hash_from_iter channel_entry_eq (\<lambda>c. hasher (channel_entry_feed c))
        (map (\<lambda>t. c\<lparr>channel_status := PendingToClose t\<rparr>) [600000000, 0, 1200000000])) = 1"
proof -
  have "hash_bytes h \<in> hash_bytes ` set hs \<longleftrightarrow> (\<exists>h' \<in> set hs. hash_base_eq h' h)"
    "pk_compressed k \<in> pk_compressed ` set ks \<longleftrightarrow> (\<exists>k' \<in> set ks. public_key_eq k' k)"
    "pseudonym_bytes p \<in> pseudonym_bytes ` set ps \<longleftrightarrow> (\<exists>p' \<in> set ps. pseudonym_eq p' p)"
    unfolding hash_base_eq_def public_key_eq_def pseudonym_eq_def by (rule mem_image_iff)+
  moreover have "length (hash_from_iter (=) (\<lambda>n. hasher (node_feed n)) (map into hops)) = card (set (map into hops))"
    by (rule derived_key.length_from_iter [where key = "\<lambda>n. n", unfolded image_ident]) simp
  moreover have "hash_contains channel_status_eq (\<lambda>s. hasher (channel_status_feed s))
        (hash_from_iter channel_status_eq (\<lambda>s. hasher (channel_status_feed s)) (ss @ s # ts)) s"
    by (rule channel_status_hash.from_iter_covers) simp
  moreover have "hash_contains channel_entry_eq (\<lambda>c. hasher (channel_entry_feed c))
        (hash_from_iter channel_entry_eq (\<lambda>c. hasher (channel_entry_feed c)) (cs @ c # ds)) c"
    by (rule channel_entry_hash.from_iter_covers) simp
  moreover note hash_base_key.length_from_iter [OF hash_base_eq_def] public_key_key.length_from_iter [OF public_key_eq_def]
    pseudonym_key.length_from_iter [OF pseudonym_eq_def]
  moreover note status_set_sizes [of channel_status_eq PendingToClose "\<lambda>s. hasher (channel_status_feed s)"]
    status_set_sizes [of channel_entry_eq "\<lambda>t. c\<lparr>channel_status := PendingToClose t\<rparr>" "\<lambda>c. hasher (channel_entry_feed c)"]
  ultimately show ?thesis
    unfolding contains_cycle_def hash_base_key.contains_from_iter public_key_key.contains_from_iter pseudonym_key.contains_from_iter
    by (simp add: pending_eq_iff channel_status_feed_def channel_entry_feed_def hash_base_feed_def channel_entry_eq_def
        del: channel_status_eq.simps(3))
qed

text \<open>One entry for two values that differ in what is not compared.\<close>

lemma one_entry: "cmp y x = Equal \<Longrightarrow> btree_from_iter cmp [x, y] = [x]"
  by (simp add: btree_from_iter_def)


end
