(* ===== verification/Deserialize.thy ===== *)
theory Deserialize
  imports Curvy Cipher_Keys Services Routing Ticket_Flow Error_Messages
begin

text \<open>
  The \<open>serde\<close> implementations. Those the crate writes by hand (\<open>PixAddressId\<close>, \<open>Bn254PublicKey\<close>,
  \<open>CurvyScanPublicKey\<close>, \<open>SimplePseudonym\<close>, \<open>SecretValue\<close>) are definitions; those the macro of \<open>serde\<close> writes
  are arguments, with what the macro documents as hypotheses. The format is an argument too.
\<close>

section \<open>Formats\<close>

text \<open>What a format hands to a visitor: a byte string, or the elements it delivers, up to an error.\<close>

datatype 'e visited = VisitBytes bytes | VisitSeq bytes "'e option" | Refused 'e

text \<open>
  \<open>serialize_bytes\<close>, the \<open>ByteBuf\<close> of \<open>serde_bytes\<close> and \<open>deserialize_bytes\<close>; \<open>serialize_str\<close> and the
  deserialization of a \<open>String\<close>; \<open>Error::custom\<close>.
\<close>

record ('s, 'e) serde_format =
  ser_bytes :: "bytes \<Rightarrow> 's"
  de_byte_buf :: "'s \<Rightarrow> (bytes, 'e) res"
  de_visit :: "'s \<Rightarrow> 'e visited"
  ser_str :: "string \<Rightarrow> 's"
  de_string :: "'s \<Rightarrow> (string, 'e) res"
  de_custom :: "string \<Rightarrow> 'e"

definition serde_ok :: "('s, 'e) serde_format \<Rightarrow> bool" where
  "serde_ok F \<longleftrightarrow>
     (\<forall>bs. de_byte_buf F (ser_bytes F bs) = Ok bs
        \<and> (de_visit F (ser_bytes F bs) = VisitBytes bs \<or> de_visit F (ser_bytes F bs) = VisitSeq bs None))
     \<and> (\<forall>t. de_string F (ser_str F t) = Ok t)
     \<and> (\<forall>s. de_byte_buf F s \<noteq> Panic \<and> de_string F s \<noteq> Panic)"

lemma serde_okD:
  assumes "serde_ok F"
  shows "de_byte_buf F (ser_bytes F bs) = Ok bs" "de_byte_buf F s \<noteq> Panic"
    and "de_string F (ser_str F t) = Ok t" "de_string F s \<noteq> Panic"
    and "de_visit F (ser_bytes F bs) = VisitBytes bs \<or> de_visit F (ser_bytes F bs) = VisitSeq bs None"
  using assms by (simp_all add: serde_ok_def)

text \<open>A format that delivers byte strings, and one that has sequences only.\<close>

definition plain_format :: "(bytes \<Rightarrow> string visited) \<Rightarrow> (bytes + string, string) serde_format" where
  "plain_format visit = \<lparr>ser_bytes = Inl, de_byte_buf = case_sum Ok (\<lambda>_. Err ''invalid type''),
     de_visit = case_sum visit (\<lambda>_. Refused ''invalid type''),
     ser_str = Inr, de_string = case_sum (\<lambda>_. Err ''invalid type'') Ok, de_custom = id\<rparr>"

definition binary_format :: "(bytes + string, string) serde_format" where
  "binary_format = plain_format VisitBytes"

definition text_format :: "(bytes + string, string) serde_format" where
  "text_format = plain_format (\<lambda>bs. VisitSeq bs None)"

lemma formats_ok: "serde_ok binary_format" "serde_ok text_format"
  by (auto simp: serde_ok_def binary_format_def text_format_def plain_format_def split: sum.splits)

section \<open>Implementations written by hand\<close>

definition pix_id_deserialize :: "hexlib \<Rightarrow> ('s, 'e) serde_format \<Rightarrow> 's \<Rightarrow> (pix_address_id, 'e) res" where
  "pix_id_deserialize h F s =
     and_then (de_byte_buf F s) (\<lambda>bs. map_err (\<lambda>e. de_custom F (general_error_display e)) (pix_id_try_from h bs))"

definition bn254_deserialize :: "bnlib \<Rightarrow> ('s, 'e) serde_format \<Rightarrow> 's \<Rightarrow> (bn254_public_key, 'e) res" where
  "bn254_deserialize N F s =
     and_then (de_byte_buf F s) (\<lambda>buf. map_err (\<lambda>e. de_custom F (general_error_display e)) (bn254_try_from N buf))"

definition curvy_public_serialize :: "('s, 'e) serde_format \<Rightarrow> 'p curvy_scan_public_key \<Rightarrow> ('s, 'e) res" where
  "curvy_public_serialize F c = map_ok (ser_bytes F) (curvy_public_into c)"

definition curvy_public_deserialize :: "'p secp \<Rightarrow> bnlib \<Rightarrow> ('s, 'e) serde_format \<Rightarrow> 's \<Rightarrow> ('p curvy_scan_public_key, 'e) res" where
  "curvy_public_deserialize L N F s =
     and_then (de_byte_buf F s) (\<lambda>bs. map_err (\<lambda>e. de_custom F (general_error_display e)) (curvy_public_try_from L N bs))"

definition pseudonym_serialize :: "('s, 'e) serde_format \<Rightarrow> simple_pseudonym \<Rightarrow> 's" where
  "pseudonym_serialize F p = ser_bytes F (pseudonym_bytes p)"

text \<open>
  A sequence is read until it ends or its next element is an error, which comes after those read
  before it; only the byte visitor sees a byte string.
\<close>

definition pseudonym_deserialize :: "hexlib \<Rightarrow> ('s, 'e) serde_format \<Rightarrow> 's \<Rightarrow> (simple_pseudonym, 'e) res" where
  "pseudonym_deserialize h F s =
     (case de_visit F s of
        VisitBytes v \<Rightarrow> map_err (de_custom F) (pseudonym_visit_bytes h v)
      | VisitSeq sq None \<Rightarrow> map_err (de_custom F) (pseudonym_visit_seq h sq)
      | VisitSeq sq (Some e) \<Rightarrow>
          and_then (map_err (de_custom F) (visit_seq_loop 0 (replicate PSEUDONYM_SIZE 0) sq)) (\<lambda>_. Err e)
      | Refused e \<Rightarrow> Err e)"

text \<open>The array of a secret has the implementations of its own package.\<close>

definition secret_value_serialize :: "(bytes \<Rightarrow> ('s, 'e) res) \<Rightarrow> secret_value \<Rightarrow> ('s, 'e) res" where
  "secret_value_serialize ser_array v = ser_array (secret_bytes v)"

definition secret_value_deserialize :: "('s \<Rightarrow> (bytes, 'e) res) \<Rightarrow> 's \<Rightarrow> (secret_value, 'e) res" where
  "secret_value_deserialize de_array s = map_ok SecretValue (de_array s)"

text \<open>The byte strings of an encrypted key store are hexadecimal texts.\<close>

definition buffer_to_hex :: "hexlib \<Rightarrow> ('s, 'e) serde_format \<Rightarrow> bytes \<Rightarrow> 's" where
  "buffer_to_hex h F buffer = ser_str F (hex_encode h buffer)"

definition hex_to_buffer :: "hexlib \<Rightarrow> ('s, 'e) serde_format \<Rightarrow> 's \<Rightarrow> (bytes, 'e) res" where
  "hex_to_buffer h F s = and_then (de_string F s) (\<lambda>text_of. map_err (de_custom F) (hex_decode h text_of))"

section \<open>Derived implementations\<close>

text \<open>
  What \<open>derive(Deserialize)\<close> documents of a structure, whose fields are read by their own implementations
  and put together, and of \<open>serde(try_from = ...)\<close>, which reads the named type and converts it.
\<close>

definition derives_fields :: "('f \<Rightarrow> 'a) \<Rightarrow> ('s \<Rightarrow> ('f, 'e) res) \<Rightarrow> ('s \<Rightarrow> ('a, 'e) res) \<Rightarrow> bool" where
  "derives_fields mk parts de \<longleftrightarrow> (\<forall>s. de s = map_ok mk (parts s))"

definition derives_try_from ::
  "(string \<Rightarrow> 'e) \<Rightarrow> ('f \<Rightarrow> ('a, general_error) res) \<Rightarrow> ('s \<Rightarrow> ('f, 'e) res) \<Rightarrow> ('s \<Rightarrow> ('a, 'e) res) \<Rightarrow> bool" where
  "derives_try_from custom try_from inner de \<longleftrightarrow>
     (\<forall>s. de s = and_then (inner s) (\<lambda>x. map_err (\<lambda>e. custom (general_error_display e)) (try_from x)))"

section \<open>Values are validated\<close>

context bytes_representable
begin

lemma deserialize_iff: "and_then r (\<lambda>bs. map_err f (try_from bs)) = Ok x \<longleftrightarrow> wf x \<and> r = Ok (as_ref x)"
  by (cases r) (auto simp: try_from_iff)

lemma deserialize_not_Panic: "r \<noteq> Panic \<Longrightarrow> and_then r (\<lambda>bs. map_err f (try_from bs)) \<noteq> Panic"
  by (cases r) (simp_all add: try_from_not_Panic)

end

lemma curvy_public_not_Panic: "secp_ok L \<Longrightarrow> curvy_public_try_from L N bs \<noteq> Panic"
  by (simp add: curvy_public_try_from_def and_then_eq_Panic public_key_try_from_not_Panic bn254.try_from_not_Panic)

lemma visit_seq_loop_not_Panic: "visit_seq_loop i buffer sq \<noteq> Panic"
  by (induction i buffer sq rule: visit_seq_loop.induct) auto

lemma visit_bytes_iff: "pseudonym_visit_bytes h v = Ok p \<longleftrightarrow> wf_pseudonym h p \<and> pseudonym_bytes p = v"
  by (cases p) (auto simp: pseudonym_visit_bytes_def wf_pseudonym_def pseudonym_from_def)

lemma pseudonym_deserialize_iff:
  "pseudonym_deserialize h F s = Ok p \<longleftrightarrow>
    wf_pseudonym h p \<and> (de_visit F s = VisitBytes (pseudonym_bytes p) \<or> de_visit F s = VisitSeq (pseudonym_bytes p) None)"
  using pseudonym_visitors_agree [of h _ p]
  by (auto simp: pseudonym_deserialize_def visit_bytes_iff split: visited.splits option.splits)

lemma pseudonym_deserialize_not_Panic: "pseudonym_deserialize h F s \<noteq> Panic"
  using pseudonym_visitors_agree [of h]
  by (auto simp: pseudonym_deserialize_def pseudonym_visit_bytes_def and_then_eq_Panic visit_seq_loop_not_Panic
      split: visited.splits option.splits)

lemma service_type_array_iff: "length bs = SERVICE_TYPE_SIZE \<Longrightarrow> service_type_try_from_array bs = service_type_try_from bs"
  by (simp add: service_type_try_from_def try_into_array_def)

lemma secret_value_serde:
  assumes "ser_array (secret_bytes v) = Ok out" "de_array out = Ok (secret_bytes v)"
  shows "secret_value_serialize ser_array v = Ok out \<and> secret_value_deserialize de_array out = Ok v"
  using assms by (cases v) (simp add: secret_value_serialize_def secret_value_deserialize_def)

text \<open>The types with an implementation by hand.\<close>

lemma handwritten_exact:
  "pix_id_deserialize h F s = Ok i \<longleftrightarrow> wf_pix_id i \<and> de_byte_buf F s = Ok (pix_id_bytes i)"
  "bn254_deserialize N F s = Ok n \<longleftrightarrow> wf_bn254 N n \<and> de_byte_buf F s = Ok (bn254_bytes n)"
  by (simp_all only: pix_id_deserialize_def bn254_deserialize_def pix_id.deserialize_iff bn254.deserialize_iff)

lemma handwritten_not_Panic:
  assumes "serde_ok F"
  shows "pix_id_deserialize h F s \<noteq> Panic" "bn254_deserialize N F s \<noteq> Panic"
    "secp_ok L \<Longrightarrow> curvy_public_deserialize L N F s \<noteq> Panic"
  using serde_okD(2) [OF assms, of s] curvy_public_not_Panic [of L N]
  by (auto simp: pix_id_deserialize_def bn254_deserialize_def curvy_public_deserialize_def and_then_eq_Panic
      pix_id.try_from_not_Panic bn254.try_from_not_Panic)

lemma curvy_public_into_any:
  "(curvy_public_into c :: (bytes, 'e) res) = Ok bs \<Longrightarrow> (curvy_public_into c :: (bytes, 'f) res) = Ok bs"
  by (auto simp: curvy_public_into_def Let_def split: if_splits)

lemma curvy_public_serde:
  assumes "serde_ok F" "secp_ok L" "bnlib_ok N"
  shows "curvy_public_deserialize L N F s = Ok c \<Longrightarrow> wf_curvy_public L N c"
    and "wf_curvy_public L N c \<Longrightarrow> \<exists>out. curvy_public_serialize F c = Ok out \<and> curvy_public_deserialize L N F out = Ok c"
proof -
  note laws = curvy_roundtrip [OF assms(2,3)]
  show "wf_curvy_public L N c" if "curvy_public_deserialize L N F s = Ok c"
    using that laws by (auto simp: curvy_public_deserialize_def)
  assume "wf_curvy_public L N c"
  then obtain bs where "curvy_public_into c = Ok bs" "curvy_public_try_from L N bs = Ok c" using laws by blast
  note bs = curvy_public_into_any [OF this(1)] this(2)
  show "\<exists>out. curvy_public_serialize F c = Ok out \<and> curvy_public_deserialize L N F out = Ok c"
    by (simp add: curvy_public_serialize_def curvy_public_deserialize_def bs serde_okD(1) [OF assms(1)])
qed

lemma service_type_derived:
  assumes "derives_try_from custom service_type_try_from_array inner de" "\<And>bs. inner s = Ok bs \<Longrightarrow> length bs = SERVICE_TYPE_SIZE"
  shows "de s = Ok t \<longleftrightarrow> wf_service_type t \<and> inner s = Ok (service_type_bytes t)"
proof (cases "inner s")
  case (Ok bs)
  with assms have "de s = map_err (\<lambda>e. custom (general_error_display e)) (service_type_try_from bs)"
    by (simp add: derives_try_from_def service_type_array_iff)
  then show ?thesis using Ok service_type.try_from_iff [of bs t] by (auto simp: service_type_as_encoded_def)
qed (use assms(1) in \<open>simp_all add: derives_try_from_def\<close>)

lemma service_metadata_derived:
  assumes "derives_try_from custom service_metadata_try_from inner de"
  shows "de s = Ok m \<longleftrightarrow> wf_bvec METADATA_MAX_LENGTH (metadata_vec m) \<and> inner s = Ok (service_metadata_into_vec m)"
  using assms by (cases m) (auto simp: derives_try_from_def service_metadata_try_from_def wf_bvec_def
      service_metadata_into_vec_def bvec_into_vec_def)

text \<open>C32. 
  Deserialization does not bypass validation where it is written by hand or goes through a conversion,
  whatever the format delivers. An allocation identifier, a BN254 key, a pseudonym, a service type and the
  metadata of a service are accepted exactly if they are well formed and the bytes delivered are theirs, the
  elements of a sequence as well as a byte string for a pseudonym. Of a scan key it is stated that an
  accepted one is well formed. Allocation identifiers, BN254 keys, pseudonyms, scan keys and byte buffers
  that are written by hand are read back; service types and metadata are written as serde derives it. None of
  the deserializers unwinds, those through a conversion unless the one they go through does.
\<close>

theorem deserialize_validates:
  assumes "serde_ok F" "secp_ok L" "bnlib_ok N" "hex_ok h"
    and "derives_try_from (de_custom F) service_type_try_from_array array de_type"
    and "\<forall>bs. array s = Ok bs \<longrightarrow> length bs = SERVICE_TYPE_SIZE"
    and "derives_try_from (de_custom F) service_metadata_try_from vec de_metadata"
  shows "(pix_id_deserialize h F s = Ok i \<longleftrightarrow> wf_pix_id i \<and> de_byte_buf F s = Ok (pix_id_bytes i))
    \<and> (bn254_deserialize N F s = Ok n \<longleftrightarrow> wf_bn254 N n \<and> de_byte_buf F s = Ok (bn254_bytes n))
    \<and> (pseudonym_deserialize h F s = Ok p \<longleftrightarrow> wf_pseudonym h p
        \<and> (de_visit F s = VisitBytes (pseudonym_bytes p) \<or> de_visit F s = VisitSeq (pseudonym_bytes p) None))
    \<and> (de_type s = Ok t \<longleftrightarrow> wf_service_type t \<and> array s = Ok (service_type_bytes t))
    \<and> (de_metadata s = Ok m \<longleftrightarrow>
        length (service_metadata_into_vec m) \<le> METADATA_MAX_LENGTH \<and> vec s = Ok (service_metadata_into_vec m))
    \<and> (curvy_public_deserialize L N F s = Ok c \<longrightarrow> wf_curvy_public L N c)
    \<and> (wf_curvy_public L N c \<longrightarrow>
        (\<exists>out. curvy_public_serialize F c = Ok out \<and> curvy_public_deserialize L N F out = Ok c))
    \<and> (wf_pseudonym h p \<longrightarrow> pseudonym_deserialize h F (pseudonym_serialize F p) = Ok p)
    \<and> (wf_pix_id i \<longrightarrow> pix_id_deserialize h F (ser_bytes F (pix_id_bytes i)) = Ok i)
    \<and> (wf_bn254 N n \<longrightarrow> bn254_deserialize N F (ser_bytes F (bn254_bytes n)) = Ok n)
    \<and> hex_to_buffer h F (buffer_to_hex h F buffer) = Ok buffer
    \<and> pix_id_deserialize h F s \<noteq> Panic \<and> bn254_deserialize N F s \<noteq> Panic
    \<and> pseudonym_deserialize h F s \<noteq> Panic \<and> curvy_public_deserialize L N F s \<noteq> Panic
    \<and> (array s \<noteq> Panic \<longrightarrow> de_type s \<noteq> Panic) \<and> (vec s \<noteq> Panic \<longrightarrow> de_metadata s \<noteq> Panic)"
proof (intro conjI)
  show "array s \<noteq> Panic \<longrightarrow> de_type s \<noteq> Panic" "vec s \<noteq> Panic \<longrightarrow> de_metadata s \<noteq> Panic"
    using assms(5,7) by (simp_all add: derives_try_from_def and_then_eq_Panic service_type_try_from_array_def
        service_metadata_try_from_def bvec_try_from_def)
  show "de_metadata s = Ok m \<longleftrightarrow>
      length (service_metadata_into_vec m) \<le> METADATA_MAX_LENGTH \<and> vec s = Ok (service_metadata_into_vec m)"
    using service_metadata_derived [OF assms(7)]
    by (simp add: wf_bvec_def service_metadata_into_vec_def bvec_into_vec_def)
  show "wf_pseudonym h p \<longrightarrow> pseudonym_deserialize h F (pseudonym_serialize F p) = Ok p"
    using serde_okD(5) [OF assms(1)] by (auto simp: pseudonym_deserialize_iff pseudonym_serialize_def)
qed (use assms in \<open>simp_all add: handwritten_exact handwritten_not_Panic hex_to_buffer_def buffer_to_hex_def hex_okD(3) pseudonym_deserialize_iff
      pseudonym_deserialize_not_Panic service_type_derived curvy_public_serde serde_okD\<close>)

theorem deserialize_validates_witness:
  "pix_id_deserialize hex_std binary_format (Inl (replicate 13 0 @ [7])) =
     Ok (PixAddressId (replicate 13 0 @ [7])) \<and>
   pix_id_deserialize hex_std binary_format (Inl (replicate 14 0)) \<noteq> Ok (PixAddressId (replicate 14 0)) \<and>
   pseudonym_deserialize hex_std text_format (Inl (replicate 10 1)) = Ok (pseudonym_from hex_std (replicate 10 1)) \<and>
   hex_to_buffer hex_std text_format (Inr ''00ff'') = Ok [0, 255]"
proof -
  define s :: "bytes + string" where "s = Inl (replicate 32 0)"
  define arr :: "bytes + string \<Rightarrow> (bytes, string) res" where "arr = case_sum Ok (\<lambda>_. Err ''invalid type'')"
  note law = deserialize_validates [OF _ secp_ok_toy bnlib_ok_7 hex_ok_std, where s = s and array = arr and vec = arr
      and de_type = "\<lambda>s. and_then (arr s) (\<lambda>x. map_err general_error_display (service_type_try_from_array x))"
      and de_metadata = "\<lambda>s. and_then (arr s) (\<lambda>x. map_err general_error_display (service_metadata_try_from x))"]
  have d: "derives_try_from (de_custom F) f arr (\<lambda>s. and_then (arr s) (\<lambda>x. map_err general_error_display (f x)))"
    if "de_custom F = id" for F :: "(bytes + string, string) serde_format" and f :: "bytes \<Rightarrow> ('a, general_error) res"
    using that by (simp add: derives_try_from_def)
  have c: "de_custom binary_format = id" "de_custom text_format = id"
    by (simp_all add: binary_format_def text_format_def plain_format_def)
  have s: "\<forall>bs. arr s = Ok bs \<longrightarrow> length bs = SERVICE_TYPE_SIZE"
    by (simp add: s_def arr_def SERVICE_TYPE_SIZE_def)
  note binary = law [OF formats_ok(1) d [OF c(1)] s d [OF c(1)]]
  note seqs = law [OF formats_ok(2) d [OF c(2)] s d [OF c(2)]]
  have "wf_pix_id (PixAddressId (replicate 13 0 @ [7]))" by code_simp
  then have "pix_id_deserialize hex_std binary_format (ser_bytes binary_format (pix_id_bytes (PixAddressId (replicate 13 0 @ [7])))) =
      Ok (PixAddressId (replicate 13 0 @ [7]))"
    using binary by blast
  moreover have "wf_pseudonym hex_std (pseudonym_from hex_std (replicate 10 1))"
    by (simp add: wf_pseudonym_def pseudonym_from_def PSEUDONYM_SIZE_def)
  then have "pseudonym_deserialize hex_std text_format (pseudonym_serialize text_format (pseudonym_from hex_std (replicate 10 1)))
      = Ok (pseudonym_from hex_std (replicate 10 1))"
    using seqs by blast
  moreover have "\<not> wf_pix_id (PixAddressId (replicate 14 0))" by code_simp
  moreover have "hex_encode hex_std [0, 255] = ''00ff''" by code_simp
  moreover have "hex_to_buffer hex_std text_format (buffer_to_hex hex_std text_format [0, 255]) = Ok [0, 255]"
    using seqs by blast
  ultimately show ?thesis
    by (simp add: handwritten_exact pseudonym_serialize_def pseudonym_from_def buffer_to_hex_def binary_format_def
        text_format_def plain_format_def)
qed

section \<open>Values that are not validated\<close>

lemma bvec_fill_long: "i \<le> length out \<Longrightarrow> length out < i + length es \<Longrightarrow> bvec_fill i es out = None"
  by (induction i es out rule: bvec_fill.induct) auto

text \<open>
  The derived implementations read the fields alone. A bounded size above its bound and a bounded vector
  beyond it are accepted, so the hops counted may be more than promised and the conversion into an array
  unwinds; so does every use of a Baby Jubjub key that is no point, and of a key buffer that is too short.
  Two public keys may be equal and stand for different addresses, and the channel and the hash kept with a verified
  ticket need not be those of the ticket and its issuer.
\<close>

theorem derived_unvalidated:
  assumes "derives_fields BoundedSize size_field de_size" "derives_fields BoundedVec vec_field de_vec"
    and "derives_fields BjjPublicKey bytes_field de_bjj"
    and "derives_fields (\<lambda>(b, _ :: unit). IvKey b) iv_fields de_iv"
    and "derives_fields (\<lambda>(p, c, a). PublicKey p c a) key_fields de_key"
    and "derives_fields (\<lambda>(t, h, i, ch). \<lparr>vt_ticket = t, vt_hash = h, vt_issuer = i, vt_channel_id = ch\<rparr>) ticket_fields de_ticket"
  shows "(size_field s = Ok v \<and> of_nat MAX_INTERMEDIATE_HOPS < v \<longrightarrow>
      (\<exists>x. de_size s = Ok x \<and> bounded_try_from_usize (of_nat MAX_INTERMEDIATE_HOPS) v = Err InvalidInput
        \<and> MAX_INTERMEDIATE_HOPS < count_hops (Hops x)))
    \<and> (vec_field s = Ok xs \<and> n < length xs \<longrightarrow>
      (\<exists>x. de_vec s = Ok x \<and> bvec_try_from n xs = Err InvalidInput \<and> bvec_into_array n d x = None))
    \<and> (bytes_field s = Ok bs \<and> bjj_from_bytes B bs = None \<longrightarrow>
      (\<exists>k. de_bjj s = Ok k \<and> (\<forall>k'. bjj_try_from B bs \<noteq> Ok k') \<and> bjj_to_point B k = None))
    \<and> (iv_fields s = Ok (bs, u) \<and> length bs < iv_size T \<longrightarrow> (\<exists>k. de_iv s = Ok k \<and> iv_key_iv T k = None))
    \<and> (key_fields s = Ok (p, c, a) \<and> key_fields s' = Ok (p, c, a') \<and> a \<noteq> a' \<longrightarrow>
      (\<exists>k k'. de_key s = Ok k \<and> de_key s' = Ok k' \<and> public_key_eq k k'
        \<and> public_key_to_address k \<noteq> public_key_to_address k'))
    \<and> (ticket_fields s = Ok (t, hash_of, i, ch) \<and> (ch, hash_of) \<noteq> ticket_get_hash keccak t i separator \<longrightarrow>
      (\<exists>w. de_ticket s = Ok w \<and> (vt_channel_id w, vt_hash w) \<noteq> ticket_get_hash keccak (vt_ticket w) (vt_issuer w) separator))"
proof (intro conjI impI)
  assume "size_field s = Ok v \<and> of_nat MAX_INTERMEDIATE_HOPS < v"
  then show "\<exists>x. de_size s = Ok x \<and> bounded_try_from_usize (of_nat MAX_INTERMEDIATE_HOPS) v = Err InvalidInput
      \<and> MAX_INTERMEDIATE_HOPS < count_hops (Hops x)"
    using assms(1) by (auto simp: derives_fields_def bounded_try_from_usize_def bounded_into_usize_def
        MAX_INTERMEDIATE_HOPS_def word_less_nat_alt word_le_nat_alt)
next
  assume "vec_field s = Ok xs \<and> n < length xs"
  then show "\<exists>x. de_vec s = Ok x \<and> bvec_try_from n xs = Err InvalidInput \<and> bvec_into_array n d x = None"
    using assms(2) by (auto simp: derives_fields_def bvec_try_from_def bvec_into_array_def bvec_fill_long)
next
  assume a: "bytes_field s = Ok bs \<and> bjj_from_bytes B bs = None"
  then have "bjj_to_point B (BjjPublicKey bs) = None" by (simp add: bjj_to_point_def)
  then have "bjj_try_from B bs \<noteq> Ok k'" for k' by (auto simp: bjj.try_from_iff wf_bjj_def bjj_to_point_def)
  then show "\<exists>k. de_bjj s = Ok k \<and> (\<forall>k'. bjj_try_from B bs \<noteq> Ok k') \<and> bjj_to_point B k = None"
    using a assms(3) by (auto simp: derives_fields_def bjj_to_point_def)
qed (use assms in \<open>auto simp: derives_fields_def iv_key_iv_def public_key_eq_def public_key_to_address_def\<close>)

end
