(* ===== verification/Conversions.thy ===== *)
theory Conversions
  imports Ticket_Flow Key_Traits Curvy
begin

text \<open>
  The conversions between the types of the crate and the plain values inside them (\<open>From\<close>, \<open>TryFrom\<close>,
  \<open>AsRef\<close>, \<open>AsMut\<close> and mixed comparisons) of \<open>internal/tickets.rs\<close>, \<open>crypto/types.rs\<close>, \<open>utils.rs\<close> and
  \<open>keypairs.rs\<close>. A wrapper of a byte array with both conversions is the locale \<open>wrapper\<close>.
\<close>

locale wrapper =
  fixes wrap :: "bytes \<Rightarrow> 'a" and unwrap :: "'a \<Rightarrow> bytes"
  assumes unwrap_wrap [simp]: "unwrap (wrap bs) = bs" and wrap_unwrap [simp]: "wrap (unwrap x) = x"
begin

lemma unwrap_inject: "unwrap x = unwrap y \<longleftrightarrow> x = y"
  using wrap_unwrap by metis

text \<open>The checked conversion is the unchecked one, on the right length.\<close>

lemma try_from_eq: "array_try_from wrap n what bs = (if length bs = n then Ok (wrap bs) else Err (ParseError what))"
  by (simp add: array_try_from_def try_into_array_def)

end

section \<open>Winning probabilities\<close>

definition wp_from_encoded :: "bytes \<Rightarrow> winning_probability" where
  "wp_from_encoded value = WinProb value"

definition wp_into_encoded :: "winning_probability \<Rightarrow> bytes" where
  "wp_into_encoded value = wp_bytes value"

definition wp_try_from_double ::
  "(f64 \<Rightarrow> f64 \<Rightarrow> rat \<Rightarrow> bool) \<Rightarrow> f64 \<Rightarrow> (winning_probability, core_types_error) res" where
  "wp_try_from_double approx_eq value = wp_try_from_f64 approx_eq value"

definition wp_into_double :: "winning_probability \<Rightarrow> f64" where
  "wp_into_double value = wp_as_f64 value"

definition f64_eq_wp :: "(f64 \<Rightarrow> f64 \<Rightarrow> rat \<Rightarrow> bool) \<Rightarrow> f64 \<Rightarrow> winning_probability \<Rightarrow> bool" where
  "f64_eq_wp approx_eq x other = approx_eq x (wp_as_f64 other) WP_EPSILON"

definition wp_eq_encoded :: "winning_probability \<Rightarrow> bytes \<Rightarrow> bool" where
  "wp_eq_encoded w other \<longleftrightarrow> wp_bytes w = other"

interpretation wp_wrapper: wrapper wp_from_encoded wp_into_encoded
  by unfold_locales (simp_all add: wp_from_encoded_def wp_into_encoded_def)

section \<open>Keys, challenges and responses\<close>

fun challenge_eq :: "'p challenge \<Rightarrow> 'p challenge \<Rightarrow> bool" where
  "challenge_eq (Challenge p) (Challenge q) \<longleftrightarrow> p = q"

definition response_from :: "bytes \<Rightarrow> response" where
  "response_from value = Response value"

interpretation response_wrapper: wrapper response_from response_bytes
  by unfold_locales (simp_all add: response_from_def)

text \<open>The affine form of a Baby Jubjub point is made projective first, the projective one of BN254 affine.\<close>

definition bjj_try_from_affine :: "'b bjjlib \<Rightarrow> ('a \<Rightarrow> 'b) \<Rightarrow> 'a \<Rightarrow> (bjj_public_key, crypto_error) res" where
  "bjj_try_from_affine B to_projective value = bjj_try_from_point B (to_projective value)"

definition bn254_try_from_projective :: "('a \<Rightarrow> (nat \<times> nat) option) \<Rightarrow> 'a \<Rightarrow> (bn254_public_key, crypto_error) res" where
  "bn254_try_from_projective to_affine value = bn254_try_from_affine (to_affine value)"

definition public_key_as_address :: "'p public_key \<Rightarrow> address" where
  "public_key_as_address k = pk_address k"

definition public_key_as_point :: "'p public_key \<Rightarrow> 'p" where
  "public_key_as_point k = pk_point k"

definition public_key_as_ref :: "'p public_key \<Rightarrow> bytes" where
  "public_key_as_ref k = pk_compressed k"

definition public_key_into_point :: "'p public_key \<Rightarrow> 'p" where
  "public_key_into_point value = pk_point value"

definition public_key_to_projective :: "('p \<Rightarrow> 'j) \<Rightarrow> 'p public_key \<Rightarrow> 'j" where
  "public_key_to_projective to_projective value = to_projective (pk_point value)"

definition public_key_as_array :: "'p public_key \<Rightarrow> bytes" where
  "public_key_as_array value = pk_compressed value"

text \<open>
  A well-formed key is rebuilt from its point and from its bytes, and the address it gives is that of its
  point; the conversions into keys of other curves give well-formed keys only.
\<close>

lemma public_key_conversions:
  assumes "secp_ok L" "wf_public_key L k"
  shows "public_key_from L (public_key_into_point k) = Some k"
    and "public_key_try_from_affine L (public_key_as_point k) = Ok k"
    and "public_key_try_from L (public_key_as_ref k) = Ok k"
    and "affine_point_to_address L (public_key_as_point k) = Some (public_key_as_address k)"
    and "length (public_key_as_array k) = SIZE_COMPRESSED"
proof -
  show "public_key_from L (public_key_into_point k) = Some k"
    using assms(2) by (simp add: wf_public_key_def public_key_into_point_def)
  then show "public_key_try_from_affine L (public_key_as_point k) = Ok k"
    using assms(2) by (simp add: public_key_try_from_affine_def public_key_as_point_def public_key_into_point_def
        non_identity_def wf_public_key_def)
  show "public_key_try_from L (public_key_as_ref k) = Ok k"
    unfolding public_key_as_ref_def by (rule compressed_length(2) [OF assms])
  show "affine_point_to_address L (public_key_as_point k) = Some (public_key_as_address k)"
    using wf_public_keyD(3) [OF assms(2)] by (simp add: public_key_as_point_def public_key_as_address_def)
  show "length (public_key_as_array k) = SIZE_COMPRESSED"
    unfolding public_key_as_array_def by (rule compressed_length(1) [OF assms])
qed

lemma bjj_try_from_affine_wf:
  "bjjlib_ok B \<Longrightarrow> bjj_try_from_affine B to_projective p = Ok k \<Longrightarrow> wf_bjj B k \<and> bjj_to_point B k = Some (to_projective p)"
  using bjj_try_from_point_wf [of B "to_projective p" k] by (simp add: bjj_try_from_affine_def)

section \<open>Secret values\<close>

definition secret_value_as_ref :: "secret_value \<Rightarrow> bytes" where
  "secret_value_as_ref v = secret_bytes v"

definition secret_value_from_array :: "bytes \<Rightarrow> secret_value" where
  "secret_value_from_array value = SecretValue value"

definition secret_value_array_ref :: "secret_value \<Rightarrow> bytes" where
  "secret_value_array_ref value = secret_bytes value"

text \<open>\<open>f\<close> is what the caller writes through the slice, which keeps its length.\<close>

definition secret_value_as_mut :: "(bytes \<Rightarrow> bytes) \<Rightarrow> secret_value \<Rightarrow> secret_value" where
  "secret_value_as_mut f v = SecretValue (f (secret_bytes v))"

definition secret_value_into_boxed :: "secret_value \<Rightarrow> bytes" where
  "secret_value_into_boxed value = secret_value_as_ref value"

definition secret_value_into_32 :: "secret_value \<Rightarrow> bytes" where
  "secret_value_into_32 value = secret_bytes value"

definition secret_value_from_32 :: "bytes \<Rightarrow> secret_value" where
  "secret_value_from_32 value = SecretValue value"

definition secret_value_debug :: "secret_value \<Rightarrow> string" where
  "secret_value_debug v = ''SecretValue('' @ [CHR 0x22] @ ''<redacted>'' @ [CHR 0x22] @ '')''"

interpretation secret_wrapper: wrapper secret_value_from_array secret_value_array_ref
  by unfold_locales (simp_all add: secret_value_from_array_def secret_value_array_ref_def)

interpretation secret_wrapper_32: wrapper secret_value_from_32 secret_value_into_32
  by unfold_locales (simp_all add: secret_value_from_32_def secret_value_into_32_def)

text \<open>All views of a secret agree; a key pair made of it, whichever way it is passed, is the same.\<close>

lemma secret_views:
  "secret_value_into_boxed v = secret_value_array_ref v" "secret_value_as_ref (secret_value_as_mut f v) = f (secret_value_as_ref v)"
  "secret_value_try_from n (secret_value_as_ref v) = Ok v \<longleftrightarrow> length (secret_value_as_ref v) = n"
  by (cases v; auto simp: secret_value_into_boxed_def secret_value_array_ref_def secret_value_as_ref_def secret_value_as_mut_def
      secret_value_try_from_def)+

lemma secret_value_debug_hides: "secret_value_debug v = secret_value_debug w"
  by (simp add: secret_value_debug_def)

text \<open>A BN254 key pair is drawn as a Baby Jubjub one is.\<close>

definition bn254_keypair_random :: "bnlib \<Rightarrow> bytes list \<Rightarrow> bn254_keypair option" where
  "bn254_keypair_random N samples = keypair_random (bn254_keypair_from_secret N) samples"

lemma bn254_keypair_random_own:
  "bn254_keypair_random N samples = Some kp \<Longrightarrow> own_secret (bn254_keypair_from_secret N) bn254_secret kp"
  unfolding bn254_keypair_random_def by (rule bn254_trait.random_well_formed)

end
