(* ===== verification/Spec2Isabelle.thy ===== *)
theory Spec2Isabelle
  imports Bounded Balance Pix_Keys Signing Vrf Channels Ticket_Flow Lioness Accounts Acknowledgements Routing
    Error_Messages Services Parser_Spec Key_Store_Spec Hosts_Spec Telemetry_Spec Curvy Chain_Events
    Node_Identity Parser_Meaning Cipher_Keys Texts Payload_Interface Comparisons Deserialize Conversions
begin

text \<open>
  The types of the HOPR protocol: a model of the crate \<open>hopr-types\<close> and the theorems that make it
  correct. File names are relative to \<open>src/src\<close>.

  \<^bold>\<open>The program.\<close> HOPR nodes relay packets for each other and are paid with probabilistic tickets
  drawn on payment channels of a blockchain. The crate holds the data of that protocol and the
  operations on them: amounts and byte arrays (\<open>primitive\<close>), keys, signatures, the VRF and the wide-block
  cipher (\<open>crypto\<close>), channels, tickets, acknowledgements, paths, accounts and services (\<open>internal\<close>), the
  transactions a node sends to the contracts and the parser that reads them (\<open>chain\<close>), the identity of
  a node on disk (\<open>keypair\<close>), addresses of hosts (\<open>network\<close>) and metrics (\<open>telemetry\<close>). A ticket ties most of
  them together: its issuer builds it over a challenge made of two half-keys and signs it; the relay
  decodes and verifies it, completes the challenge with the half-key of an acknowledgement, evaluates the
  VRF to see whether it wins, and sends the transaction that redeems it.

  \<^bold>\<open>How code becomes definitions.\<close> A struct is a record or a one-constructor datatype, an enumeration a
  datatype with its constructors, an unsigned integer a word of its width, a byte array a list of bytes
  whose length is part of the type's \<open>wf_\<close> predicate, a double a rational number with the infinities and
  not-a-number (\<open>Floats\<close>). A fallible function returns \<open>Ok\<close>, \<open>Err\<close> or \<open>Panic\<close> (the type \<open>res\<close> of
  \<open>Errors\<close>); where the only failure is a panic it returns an option. Every early return, \<open>expect\<close> and slice out
  of range of the source is such a branch. A builder is a record of options. State that a method mutates
  is passed and returned; concurrent threads are a step relation. Definitions keep the names of the code,
  with the type in front where the code relies on the receiver.

  \<^bold>\<open>Theories and code.\<close>
  \<^item> \<open>Prelude\<close>, \<open>Strings\<close>, \<open>Errors\<close>, \<open>Error_Messages\<close>, \<open>Bytes\<close>, \<open>Floats\<close>: integers and their big-endian bytes,
    text, the errors of every module and their messages, the traits of \<open>primitive/traits.rs\<close> as the locales
    \<open>bytes_representable\<close> and \<open>bytes_encodable\<close>, the double arithmetic of the Rust core library.
  \<^item> \<open>Bounded\<close>, \<open>Primitives\<close>, \<open>Balance\<close>: \<open>primitive/bounded.rs\<close>, \<open>primitives.rs\<close>, \<open>balance.rs\<close>.
  \<^item> \<open>Crypto_Types\<close>, \<open>Offchain_Keys\<close>, \<open>Pix_Keys\<close>, \<open>Key_Traits\<close>, \<open>Random_Values\<close>, \<open>Cipher_Keys\<close>: \<open>crypto/types.rs\<close>,
    \<open>utils.rs\<close>, \<open>keypairs.rs\<close>, \<open>primitives.rs\<close> and \<open>crypto_random/mod.rs\<close>. The trait \<open>Keypair\<close> is the locale
    \<open>keypair_trait\<close>, interpreted by its four implementations.
  \<^item> \<open>Signing\<close> (\<open>crypto/signing.rs\<close>, with the two engines as interpretations of \<open>ecdsa_engine_laws\<close>), \<open>Vrf\<close>
    (\<open>vrf.rs\<close>), \<open>Lioness\<close> (\<open>lioness.rs\<close>, an interpretation of \<open>prp\<close>), \<open>Curvy\<close> (\<open>curvy.rs\<close>).
  \<^item> \<open>Channels\<close>, \<open>Win_Prob\<close>, \<open>Tickets\<close>, \<open>Ticket_Flow\<close>: \<open>internal/channels.rs\<close> and \<open>tickets.rs\<close>; the last one
    has the step relation \<open>ticket_step\<close> between the states of a ticket.
  \<^item> \<open>Acknowledgements\<close> (\<open>internal/protocol.rs\<close>), \<open>Paths\<close> (\<open>path.rs\<close>, with its traits as locales), \<open>Routing\<close>
    (\<open>routing.rs\<close>), \<open>Accounts\<close> (\<open>mod.rs\<close>, \<open>account.rs\<close>, \<open>announcement.rs\<close>), \<open>Services\<close> (\<open>service.rs\<close>).
  \<^item> \<open>Abi\<close>, \<open>Payloads\<close>, \<open>Generators\<close>, \<open>Eip1559\<close>: \<open>chain/payload/mod.rs\<close> and \<open>static_based.rs\<close>. \<open>Abi\<close> begins with
    the contract ABI as the Solidity specification gives it, the reference for everything encoded by hand.
    \<open>Bindings\<close>: \<open>chain/payload/bindings_based.rs\<close>. \<open>Payload_Interface\<close>: the trait \<open>PayloadGenerator\<close>, a record of its
    methods and the locale \<open>payload_generator\<close> of what they promise, which \<open>translated_generator\<close> carries over
    to a second implementation; all four generators are interpreted. \<open>Chain_Parser\<close>: \<open>chain/parser.rs\<close>.
    \<open>Chain_Events\<close>: \<open>chain/chain_events.rs\<close>.
  \<^item> \<open>Key_Store\<close>: \<open>keypair/key_pair.rs\<close>, \<open>keystore.rs\<close>, \<open>errors.rs\<close>. \<open>Hosts\<close>: \<open>network/types.rs\<close>, \<open>session.rs\<close>,
    \<open>crypto/seal.rs\<close>. \<open>Telemetry\<close>: \<open>telemetry/metrics.rs\<close>, \<open>guard.rs\<close>. \<open>Texts\<close>: the printed form of all other types.
  \<^item> Across the modules: \<open>Comparisons\<close>, the equalities, hashes and orders written by hand, with the contracts of
    the standard library as the locales \<open>hash_eq\<close>, \<open>hash_key\<close>, \<open>rust_ord\<close>, \<open>rust_ord_eq\<close> and \<open>rust_ord_exact\<close> and hash
    sets and ordered sets as lists; \<open>Deserialize\<close>, the \<open>serde\<close> implementations; \<open>Conversions\<close>, the conversions
    into and out of wrapped bytes, numbers and points.
  \<^item> Specifications and proofs apart from the definitions: \<open>Payload_Spec\<close>, \<open>Bindings_Spec\<close>, \<open>Parser_Spec\<close>,
    \<open>Parser_Meaning\<close> (the meaning of calldata as a relation), \<open>Key_Store_Spec\<close>, \<open>Hosts_Spec\<close>, \<open>Telemetry_Spec\<close>. Theorems about several components:
    \<open>Ticket_Journey\<close> and \<open>Node_Identity\<close>.

  \<^bold>\<open>What the theorems show.\<close> The ticket: what the builder accepts, that its wire format and its decoder are
  inverse, that the signed hash binds every field, that verification accepts exactly the issuer's
  signature, that in every state the machine reaches the ticket is authentic and a redeemable one wins,
  that an honestly issued winning ticket does get to be redeemable, and that the transaction made for it is
  read back as the redemption of its channel, index and amount. Transactions: the encoders written by hand
  compute the ABI encoding, the Safe generator executes what the basic one asks for, the implementation
  over the bindings agrees, the parser inverts both, and on arbitrary transactions it returns exactly the
  action that the decoded words say; of the eleven methods with an action, equal requests
  stand for equal actions, and for redemptions of one ticket; the requests it does not invert are listed. Cryptography: recovery after signing, completeness of the VRF, the cipher as a
  permutation for aliased and separate buffers. Paths and routing: a validated path is open hop by hop and
  has no address twice. The identity of a node: what is written to disk is read back, starting again never
  changes it, the migration of old formats happens once, and the exact files on which reading panics. Hosts: printed texts are
  read back. Collections: which values a hash set or an ordered set of the crate's types holds, and where the
  equality or the order breaks the contract of the standard library. Deserialization by hand
  validates; what derived deserialization lets through is \<open>derived_unvalidated\<close>. Metrics: the longest registered prefix decides, and the compare-and-exchange loop on the
  bits of a double is linearizable and ends.

  \<^bold>\<open>Interfaces to packages.\<close> What is not in the repository is an argument, a record of functions, with its
  documented behaviour in a predicate \<open>_ok\<close> that the theorems assume and a concrete instance fulfils:
  \<open>hexlib\<close> (\<open>const-hex\<close>), \<open>secp\<close> (secp256k1 of \<open>k256\<close>, and Keccak), \<open>ecdsalib\<close> (both ECDSA packages), \<open>vrflib\<close>
  (hashing to the curve), \<open>edlib\<close> and \<open>eddsa\<close> (Ed25519), \<open>bjjlib\<close> and \<open>bnlib\<close> (Baby Jubjub, BN254), \<open>declib\<close>
  (\<open>bigdecimal\<close> and the regular expression of balances), \<open>malib\<close> (multiaddresses), \<open>cipher_lib\<close> (digest and
  stream cipher of Lioness), \<open>rlplib\<close>, \<open>alloylib\<close> and \<open>parselib\<close> (encoding, contract bindings and decoders of the
  chain packages), \<open>storelib\<close> (scrypt, AES, JSON). The resolver of peers and channels, the
  current time, the file system and every random value are arguments too. Cryptographic hardness is nowhere
  assumed; where a statement needs that no collision occurs it says so for the inputs at hand.

  \<^bold>\<open>Bounds and termination.\<close> No definition uses fuel. Loops are structural recursions or have a measure;
  rejection sampling runs over the list of samples drawn, and returns as soon as one of them is accepted.
  The compare-and-exchange loop of \<open>n\<close> threads takes at most \<open>2n(n+1)\<close> steps.

  \<^bold>\<open>Not modelled.\<close> The code \<open>serde\<close> derives, which is an argument with what its documentation says of it, and the
  derived \<open>Debug\<close> output; the hash functions and layout of hash tables; the
  conversion of a packet key into the key pair of \<open>libp2p\<close>, which hands the secret over; the zeroing of
  secrets; most trait declarations without a body of their own, and type aliases; \<open>chain/payload/cross_verify.rs\<close>,
  which holds tests only; the export of metrics to a collector, and logging.
\<close>

end
